(* ===== verification/Prelude.thy ===== *)
theory Prelude
  imports
    Complex_Main
    "HOL-Library.AList"
    "HOL-Library.Char_ord"
    "HOL-Library.List_Lexorder"
    "HOL-Library.Product_Lexorder"
    "HOL-Library.Multiset"
begin

text \<open>
  The shared vocabulary of the development: the errors Python raises, text
  operations (\<open>strip\<close>, \<open>lower\<close>, \<open>join\<close>, \<open>str(int)\<close>), dictionaries, sorting, and
  the generic interfaces (\<open>dictionary\<close>, \<open>quorum_counting\<close>, \<open>invariant_system\<close>)
  that the component theories interpret on their own definitions.

  Conventions used everywhere:
  \<^item> Python text is a list of characters; a HOL character stands for the Unicode code
    point of the same number, so the model covers code points 0 to 255. Comparison of
    text is by code point in both languages.
  \<^item> Python \<open>int\<close> is \<^typ>\<open>int\<close>; a \<open>float\<close> is the rational number it denotes
    (\<^typ>\<open>rat\<close>), so rounding, infinities and NaN are outside the model.
  \<^item> A \<open>dict\<close> is an association list in insertion order: \<open>AList.update\<close> replaces a
    value in place and appends a new key at the end, as Python does.
  \<^item> An exception is the \<open>Inl\<close> side of a sum.
\<close>

section \<open>Errors\<close>

datatype py_error =
    ValueError string
  | KeyError string
  | TypeError
  | IndexError
  | RecursionError
  | FileNotFoundError string
  | HTTPError nat string

type_synonym 'a result = "py_error + 'a"

type_synonym timestamp = rat

type_synonym ('k, 'v) dict = "('k \<times> 'v) list"

named_theorems dict_simps \<open>lookups after dictionary operations\<close>
named_theorems vis_intros \<open>simulation rules of memoised computations\<close>
named_theorems frame_simps \<open>fields an operation leaves alone\<close>

fun res_bind :: "'a result \<Rightarrow> ('a \<Rightarrow> 'b result) \<Rightarrow> 'b result" where
  "res_bind (Inl e) f = Inl e"
| "res_bind (Inr x) f = f x"

lemma res_bind_Inr [simp]:
  "res_bind m f = Inr y \<longleftrightarrow> (\<exists>x. m = Inr x \<and> f x = Inr y)"
  by (cases m) auto

fun res_map :: "('a \<Rightarrow> 'b result) \<Rightarrow> 'a list \<Rightarrow> 'b list result" where
  "res_map f [] = Inr []"
| "res_map f (x # xs) = res_bind (f x) (\<lambda>y. res_bind (res_map f xs) (\<lambda>ys. Inr (y # ys)))"

lemma res_map_Inr_iff:
  "res_map f xs = Inr ys \<longleftrightarrow> list_all2 (\<lambda>x y. f x = Inr y) xs ys"
proof (induction xs arbitrary: ys)
  case Nil
  then show ?case by auto
next
  case (Cons x xs)
  then show ?case by (auto simp: list_all2_Cons1)
qed

lemma res_map_all:
  "(\<And>x. x \<in> set xs \<Longrightarrow> f x = Inr (g x)) \<Longrightarrow> res_map f xs = Inr (map g xs)"
  by (induction xs) auto

section \<open>Text\<close>

definition is_space :: "char \<Rightarrow> bool" where
  "is_space c \<longleftrightarrow> (let n = of_char c :: nat
     in (9 \<le> n \<and> n \<le> 13) \<or> (28 \<le> n \<and> n \<le> 32) \<or> n = 133 \<or> n = 160)"

definition py_strip :: "string \<Rightarrow> string" where
  "py_strip s = rev (dropWhile is_space (rev (dropWhile is_space s)))"

definition lower_char :: "char \<Rightarrow> char" where
  "lower_char c = (let n = of_char c :: nat
     in if (65 \<le> n \<and> n \<le> 90) \<or> (192 \<le> n \<and> n \<le> 222 \<and> n \<noteq> 215)
        then char_of (n + 32) else c)"

definition py_lower :: "string \<Rightarrow> string" where
  "py_lower s = map lower_char s"

text \<open>\<open>a or b\<close> on text: the empty string is false.\<close>

definition str_or :: "string \<Rightarrow> string \<Rightarrow> string" where
  "str_or a b = (if a = [] then b else a)"

fun opt_str :: "string option \<Rightarrow> string" where
  "opt_str None = []"
| "opt_str (Some s) = s"

fun join :: "string \<Rightarrow> string list \<Rightarrow> string" where
  "join sep [] = []"
| "join sep [x] = x"
| "join sep (x # y # xs) = x @ sep @ join sep (y # xs)"

fun starts_with :: "string \<Rightarrow> string \<Rightarrow> bool" where
  "starts_with s [] = True"
| "starts_with [] (p # ps) = False"
| "starts_with (c # cs) (p # ps) = (c = p \<and> starts_with cs ps)"

lemma starts_with_iff: "starts_with s p \<longleftrightarrow> (\<exists>t. s = p @ t)"
  by (induction s p rule: starts_with.induct) auto

definition digit_char :: "nat \<Rightarrow> char" where
  "digit_char d = char_of (48 + d)"

fun nat_str :: "nat \<Rightarrow> string" where
  "nat_str n = (if n < 10 then [digit_char n] else nat_str (n div 10) @ [digit_char (n mod 10)])"

declare nat_str.simps [simp del]

definition int_str :: "int \<Rightarrow> string" where
  "int_str i = (if i < 0 then CHR ''-'' # nat_str (nat (- i)) else nat_str (nat i))"

definition hex_digit :: "nat \<Rightarrow> char" where
  "hex_digit d = (if d < 10 then char_of (48 + d) else char_of (87 + d))"

text \<open>\<open>digest.hexdigest()\<close>: two hexadecimal digits for every byte.\<close>

definition hexdigest :: "string \<Rightarrow> string" where
  "hexdigest bs = concat (map (\<lambda>c. let n = of_char c :: nat in [hex_digit (n div 16), hex_digit (n mod 16)]) bs)"

lemma dropWhile_idem [simp]: "dropWhile P (dropWhile P xs) = dropWhile P xs"
  by (induction xs) auto

lemma hd_dropWhile_rev_dropWhile:
  "dropWhile P (rev (dropWhile Q (rev (dropWhile P xs)))) = rev (dropWhile Q (rev (dropWhile P xs)))"
proof (cases "dropWhile Q (rev (dropWhile P xs))" rule: rev_cases)
  case Nil
  then have "rev (dropWhile Q (rev (dropWhile P xs))) = []" by simp
  then show ?thesis by (simp only: dropWhile.simps)
next
  case (snoc ys y)
  have "last (dropWhile Q (rev (dropWhile P xs))) = last (rev (dropWhile P xs))"
    using snoc by (metis dropWhile_eq_drop last_drop not_le append_is_Nil_conv drop_all not_Cons_self2)
  moreover have "dropWhile P xs \<noteq> []"
    using snoc by (cases "dropWhile P xs") auto
  ultimately have "y = hd (dropWhile P xs)"
    using snoc by (simp add: last_rev)
  with \<open>dropWhile P xs \<noteq> []\<close> have "\<not> P y"
    using hd_dropWhile by blast
  with snoc show ?thesis by simp
qed

lemma py_strip_idem [simp]: "py_strip (py_strip s) = py_strip s"
  by (simp add: py_strip_def hd_dropWhile_rev_dropWhile)

lemma py_strip_Nil [simp]: "py_strip [] = []"
  by (simp add: py_strip_def)

lemma lower_char_idem [simp]: "lower_char (lower_char c) = lower_char c"
proof -
  have "of_char c < (256::nat)" by simp
  then show ?thesis
    by (auto simp: lower_char_def Let_def of_char_of)
qed

lemma py_lower_idem [simp]: "py_lower (py_lower s) = py_lower s"
  by (simp add: py_lower_def comp_def)

lemma is_space_lower [simp]: "is_space (lower_char c) = is_space c"
proof -
  have "of_char c < (256::nat)" by simp
  then show ?thesis
    by (auto simp: lower_char_def is_space_def Let_def of_char_of)
qed

lemma py_strip_lower: "py_strip (py_lower s) = py_lower (py_strip s)"
  by (simp add: py_strip_def py_lower_def dropWhile_map comp_def rev_map)

section \<open>Dictionaries\<close>

text \<open>
  The interface of a Python \<open>dict\<close>. Clients build dictionaries by a loop of
  assignments; what such a loop leaves behind is proved once here.
\<close>

locale dictionary =
  fixes empty :: "'d"
    and update :: "'k \<Rightarrow> 'v \<Rightarrow> 'd \<Rightarrow> 'd"
    and delete :: "'k \<Rightarrow> 'd \<Rightarrow> 'd"
    and lookup :: "'d \<Rightarrow> 'k \<Rightarrow> 'v option"
    and invar :: "'d \<Rightarrow> bool"
  assumes lookup_empty: "lookup empty k = None"
    and lookup_update: "lookup (update k v d) k' = (if k' = k then Some v else lookup d k')"
    and lookup_delete: "lookup (delete k d) k' = (if k' = k then None else lookup d k')"
    and invar_empty: "invar empty"
    and invar_update: "invar d \<Longrightarrow> invar (update k v d)"
    and invar_delete: "invar d \<Longrightarrow> invar (delete k d)"
begin

lemma lookup_fold_update:
  "lookup (fold (\<lambda>(k, v). update k v) kvs d) k =
     (case map_of (rev kvs) k of Some v \<Rightarrow> Some v | None \<Rightarrow> lookup d k)"
  by (induction kvs arbitrary: d)
    (auto simp: lookup_update map_add_def split: option.splits prod.splits)

lemma invar_fold_update: "invar d \<Longrightarrow> invar (fold (\<lambda>(k, v). update k v) kvs d)"
  by (induction kvs arbitrary: d) (auto simp: invar_update split: prod.splits)

lemma lookup_fold_delete:
  "lookup (fold delete ks d) k = (if k \<in> set ks then None else lookup d k)"
  by (induction ks arbitrary: d) (auto simp: lookup_delete)

lemma update_delete_lookup:
  "lookup (delete k (update k v d)) = (lookup d)(k := None)"
  by (auto simp: lookup_update lookup_delete fun_eq_iff)

end

abbreviation dict_ok :: "('k, 'v) dict \<Rightarrow> bool" where
  "dict_ok d \<equiv> distinct (map fst d)"

interpretation pydict: dictionary "[]" AList.update AList.delete map_of dict_ok
  by unfold_locales
    (auto simp: update_conv' delete_conv' distinct_update distinct_delete)

lemma map_of_update [dict_simps, simp]:
  "map_of (AList.update k v d) k' = (if k' = k then Some v else map_of d k')"
  by (rule pydict.lookup_update)

lemma map_of_delete [dict_simps, simp]:
  "map_of (AList.delete k d) k' = (if k' = k then None else map_of d k')"
  by (rule pydict.lookup_delete)

lemma dict_ok_update [simp, intro]: "dict_ok d \<Longrightarrow> dict_ok (AList.update k v d)"
  by (rule pydict.invar_update)

lemma dict_ok_delete [simp, intro]: "dict_ok d \<Longrightarrow> dict_ok (AList.delete k d)"
  by (rule pydict.invar_delete)

lemma dict_ok_fold_delete: "dict_ok d \<Longrightarrow> dict_ok (fold AList.delete ks d)"
  by (induction ks arbitrary: d) auto

definition dict_get :: "('k, 'v) dict \<Rightarrow> 'k \<Rightarrow> 'v \<Rightarrow> 'v" where
  "dict_get d k dflt = (case map_of d k of Some v \<Rightarrow> v | None \<Rightarrow> dflt)"

definition dict_of :: "('k \<times> 'v) list \<Rightarrow> ('k, 'v) dict" where
  "dict_of kvs = fold (\<lambda>(k, v). AList.update k v) kvs []"

lemma map_of_dict_of [dict_simps]: "map_of (dict_of kvs) k = map_of (rev kvs) k"
  by (simp add: dict_of_def pydict.lookup_fold_update split: option.splits)

lemma dict_ok_dict_of [simp, intro]: "dict_ok (dict_of kvs)"
  by (simp add: dict_of_def pydict.invar_fold_update)

lemma update_fresh: "k \<notin> fst ` set d \<Longrightarrow> AList.update k v d = d @ [(k, v)]"
  by (induction d) auto

lemma fold_update_fresh:
  "distinct (map fst kvs) \<Longrightarrow> fst ` set kvs \<inter> fst ` set d = {} \<Longrightarrow>
   fold (\<lambda>(k, v). AList.update k v) kvs d = d @ kvs"
proof (induction kvs arbitrary: d)
  case Nil
  then show ?case by simp
next
  case (Cons kv kvs)
  obtain k v where kv: "kv = (k, v)" by (cases kv)
  have "AList.update k v d = d @ [(k, v)]"
    using Cons.prems kv by (intro update_fresh) auto
  moreover have "fold (\<lambda>(k, v). AList.update k v) kvs (d @ [(k, v)]) = (d @ [(k, v)]) @ kvs"
    using Cons.prems kv by (intro Cons.IH) (auto simp: image_iff)
  ultimately show ?case using kv by simp
qed

lemma dict_of_id [simp]: "distinct (map fst kvs) \<Longrightarrow> dict_of kvs = kvs"
  by (simp add: dict_of_def fold_update_fresh)

lemma map_of_rev_distinct:
  "distinct (map fst d) \<Longrightarrow> map_of (rev d) = map_of d"
  by (metis map_of_eq_dom map_of_eqI map_of_inject_set rev_map distinct_rev set_rev)

lemma map_of_None_iff: "map_of d k = None \<longleftrightarrow> k \<notin> fst ` set d"
  by (simp add: map_of_eq_None_iff)

section \<open>Searching\<close>

lemma find_snoc: "List.find P (xs @ [x]) = (case List.find P xs of Some y \<Rightarrow> Some y | None \<Rightarrow> if P x then Some x else None)"
  by (induction xs) auto

lemma find_cong_set: "(\<And>x. x \<in> set xs \<Longrightarrow> P x = Q x) \<Longrightarrow> List.find P xs = List.find Q xs"
  by (induction xs) auto

section \<open>Sorting\<close>

lemma mset_sort_key [simp]: "mset (sort_key f xs) = mset xs"
  by simp

text \<open>Sorting by a key that tells the elements apart does not depend on their order.\<close>

lemma sort_key_perm_eq:
  assumes "mset xs = mset ys" and "inj_on f (set xs)"
  shows "sort_key f xs = sort_key f ys"
proof (rule properties_for_sort_key)
  show "mset (sort_key f ys) = mset xs" using assms(1) by simp
  show "sorted (map f (sort_key f ys))" by simp
  fix k
  assume "k \<in> set (sort_key f ys)"
  then have k: "k \<in> set xs" using assms(1) by (metis mset_eq_setD set_sort)
  have set_eq: "set ys = set xs" using assms(1) by (metis mset_eq_setD)
  have single: "filter (\<lambda>x. f k = f x) zs = filter ((=) k) zs" if "set zs = set xs" for zs
    using that k assms(2) by (intro filter_cong) (auto dest: inj_onD)
  have "filter (\<lambda>x. f k = f x) xs = filter ((=) k) xs"
    by (rule single) simp
  also have "\<dots> = replicate (count (mset xs) k) k"
    by (simp only: replicate_count_mset_eq_filter_eq)
  also have "\<dots> = replicate (count (mset (sort_key f ys)) k) k"
    using assms(1) by simp
  also have "\<dots> = filter ((=) k) (sort_key f ys)"
    by (simp only: replicate_count_mset_eq_filter_eq)
  also have "\<dots> = filter (\<lambda>x. f k = f x) (sort_key f ys)"
    by (rule single [symmetric]) (simp add: set_eq)
  finally show "filter (\<lambda>x. f k = f x) (sort_key f ys) = filter (\<lambda>x. f k = f x) xs" by simp
qed

section \<open>Quorums\<close>

text \<open>
  A threshold function says how many of \<open>n\<close> members make a quorum. Thresholds above
  one half make any two quorums meet; thresholds above two thirds make them meet in
  more than a third of the members.
\<close>

locale quorum_counting =
  fixes thr :: "nat \<Rightarrow> nat"
  assumes thr_half: "0 < n \<Longrightarrow> n < 2 * thr n"
    and thr_le: "0 < n \<Longrightarrow> thr n \<le> n"
begin

lemma card_inter_ge:
  assumes "finite M" "A \<subseteq> M" "B \<subseteq> M" "thr (card M) \<le> card A" "thr (card M) \<le> card B"
  shows "2 * thr (card M) \<le> card (A \<inter> B) + card M"
proof -
  have fin: "finite A" "finite B" using assms(1-3) by (auto intro: finite_subset)
  have "card (A \<union> B) \<le> card M" using assms(1-3) by (intro card_mono) auto
  moreover have "card A + card B = card (A \<union> B) + card (A \<inter> B)"
    using fin by (rule card_Un_Int)
  ultimately show ?thesis using assms(4,5) by linarith
qed

lemma quorums_meet:
  assumes "finite M" "M \<noteq> {}" "A \<subseteq> M" "B \<subseteq> M"
    "thr (card M) \<le> card A" "thr (card M) \<le> card B"
  shows "A \<inter> B \<noteq> {}"
proof -
  have "0 < card M" using assms(1,2) by (simp add: card_gt_0_iff)
  then have "card M < 2 * thr (card M)" by (rule thr_half)
  with card_inter_ge [OF assms(1,3,4,5,6)] have "0 < card (A \<inter> B)" by linarith
  then show ?thesis by auto
qed

end

locale supermajority_counting = quorum_counting +
  assumes thr_two_thirds: "2 * n < 3 * thr n"
begin

lemma quorums_meet_third:
  assumes "finite M" "A \<subseteq> M" "B \<subseteq> M" "thr (card M) \<le> card A" "thr (card M) \<le> card B"
  shows "card M < 3 * card (A \<inter> B)"
  using card_inter_ge [OF assms] thr_two_thirds [of "card M"] by linarith

end

section \<open>Invariants of transition systems\<close>

inductive reachable :: "('s \<Rightarrow> bool) \<Rightarrow> ('s \<Rightarrow> 's \<Rightarrow> bool) \<Rightarrow> 's \<Rightarrow> bool"
  for init step where
  reach_init: "init s \<Longrightarrow> reachable init step s"
| reach_step: "reachable init step s \<Longrightarrow> step s t \<Longrightarrow> reachable init step t"

locale invariant_system =
  fixes init :: "'s \<Rightarrow> bool"
    and step :: "'s \<Rightarrow> 's \<Rightarrow> bool"
    and inv :: "'s \<Rightarrow> bool"
  assumes init_inv: "init s \<Longrightarrow> inv s"
    and step_inv: "inv s \<Longrightarrow> step s t \<Longrightarrow> inv t"
begin

lemma reachable_inv: "reachable init step s \<Longrightarrow> inv s"
  by (induction rule: reachable.induct) (auto intro: init_inv step_inv)

lemma steps_inv: "step\<^sup>*\<^sup>* s t \<Longrightarrow> inv s \<Longrightarrow> inv t"
  by (induction rule: rtranclp_induct) (auto intro: step_inv)

end

end
