(* ===== verification/Json.thy ===== *)
theory Json
  imports Prelude
begin

text \<open>
  JSON values and the two functions of Python's \<open>json\<close> module the program relies on:
  \<open>json.dumps\<close> (with the options the program passes) and \<open>json.loads\<close>. The canonical
  form \<open>canonical_json\<close> of \<open>mdrj/utils.py\<close> is what event identifiers, signatures and the
  JSON columns of the database are made of, so the theory proves that the printer and
  the parser are inverse to each other up to the order of object keys, and that the
  canonical text determines the value.

  How Python prints a float (\<open>repr\<close>) and reads one back is a parameter, the record
  \<open>float_codec\<close>; \<open>codec_ok\<close> states what the language reference promises about it.
\<close>

section \<open>Values\<close>

datatype json =
    JNull
  | JBool bool
  | JInt int
  | JFloat rat
  | JStr string
  | JList "json list"
  | JObj "(string \<times> json) list"

record float_codec =
  repr_float :: "rat \<Rightarrow> string"
  parse_float :: "string \<Rightarrow> rat option"

section \<open>Printing\<close>

definition quote :: char where "quote = CHR 0x22"
definition backslash :: char where "backslash = CHR 0x5C"

definition esc_char :: "bool \<Rightarrow> char \<Rightarrow> string" where
  "esc_char asc c = (let n = of_char c :: nat in
     if c = quote \<or> c = backslash then [backslash, c]
     else if n = 8 then [backslash, CHR ''b'']
     else if n = 9 then [backslash, CHR ''t'']
     else if n = 10 then [backslash, CHR ''n'']
     else if n = 12 then [backslash, CHR ''f'']
     else if n = 13 then [backslash, CHR ''r'']
     else if n < 32 \<or> (asc \<and> 126 < n)
       then [backslash, CHR ''u'', CHR ''0'', CHR ''0'', hex_digit (n div 16), hex_digit (n mod 16)]
     else [c])"

definition json_str :: "bool \<Rightarrow> string \<Rightarrow> string" where
  "json_str asc s = quote # concat (map (esc_char asc) s) @ [quote]"

text \<open>
  \<open>json.dumps(j, ensure_ascii=asc, sort_keys=srt, separators=(isep, ksep))\<close>.
\<close>

fun json_dumps :: "float_codec \<Rightarrow> bool \<Rightarrow> bool \<Rightarrow> string \<Rightarrow> string \<Rightarrow> json \<Rightarrow> string" where
  "json_dumps fc asc srt isep ksep JNull = ''null''"
| "json_dumps fc asc srt isep ksep (JBool b) = (if b then ''true'' else ''false'')"
| "json_dumps fc asc srt isep ksep (JInt i) = int_str i"
| "json_dumps fc asc srt isep ksep (JFloat x) = repr_float fc x"
| "json_dumps fc asc srt isep ksep (JStr s) = json_str asc s"
| "json_dumps fc asc srt isep ksep (JList js) =
     ''['' @ join isep (map (json_dumps fc asc srt isep ksep) js) @ '']''"
| "json_dumps fc asc srt isep ksep (JObj kvs) =
     ''{'' @ join isep (map (\<lambda>(k, t). json_str asc k @ ksep @ t)
        ((if srt then sort_key fst else (\<lambda>x. x))
           (map (\<lambda>(k, v). (k, json_dumps fc asc srt isep ksep v)) kvs))) @ ''}''"

definition canonical_json :: "float_codec \<Rightarrow> json \<Rightarrow> string" where
  "canonical_json fc j = json_dumps fc True True '','' '':'' j"

text \<open>The value \<open>json.loads\<close> gives back: keys in the order they were printed.\<close>

fun json_view :: "bool \<Rightarrow> json \<Rightarrow> json" where
  "json_view srt (JList js) = JList (map (json_view srt) js)"
| "json_view srt (JObj kvs) =
     JObj ((if srt then sort_key fst else (\<lambda>x. x)) (map (\<lambda>(k, v). (k, json_view srt v)) kvs))"
| "json_view srt j = j"

text \<open>A Python dictionary has every key once.\<close>

fun wf_json :: "json \<Rightarrow> bool" where
  "wf_json (JList js) = list_all wf_json js"
| "wf_json (JObj kvs) = (distinct (map fst kvs) \<and> list_all (\<lambda>(k, v). wf_json v) kvs)"
| "wf_json j = True"

section \<open>Parsing\<close>

definition is_digit :: "char \<Rightarrow> bool" where
  "is_digit c \<longleftrightarrow> (let n = of_char c :: nat in 48 \<le> n \<and> n \<le> 57)"

definition digit_val :: "char \<Rightarrow> nat" where
  "digit_val c = of_char c - 48"

definition nat_of_digits :: "string \<Rightarrow> nat" where
  "nat_of_digits s = foldl (\<lambda>a c. a * 10 + digit_val c) 0 s"

definition hex_val :: "char \<Rightarrow> nat option" where
  "hex_val c = (let n = of_char c :: nat in
     if 48 \<le> n \<and> n \<le> 57 then Some (n - 48)
     else if 97 \<le> n \<and> n \<le> 102 then Some (n - 87)
     else if 65 \<le> n \<and> n \<le> 70 then Some (n - 55)
     else None)"

definition hex4 :: "char \<Rightarrow> char \<Rightarrow> char \<Rightarrow> char \<Rightarrow> nat option" where
  "hex4 a b c d = (case (hex_val a, hex_val b, hex_val c, hex_val d) of
     (Some w, Some x, Some y, Some z) \<Rightarrow> Some (((w * 16 + x) * 16 + y) * 16 + z)
   | _ \<Rightarrow> None)"

definition simple_escape :: "char \<Rightarrow> char option" where
  "simple_escape e =
     (if e = quote \<or> e = backslash \<or> e = CHR ''/'' then Some e
      else if e = CHR ''b'' then Some (CHR 0x08)
      else if e = CHR ''t'' then Some (CHR 0x09)
      else if e = CHR ''n'' then Some (CHR 0x0A)
      else if e = CHR ''f'' then Some (CHR 0x0C)
      else if e = CHR ''r'' then Some (CHR 0x0D)
      else None)"

text \<open>
  The body of a string literal, after the opening quote. A \<open>\u\<close> escape of a code point
  above 255 has no character in the model and is refused.
\<close>

fun parse_chars :: "string \<Rightarrow> (string \<times> string) option" where
  "parse_chars [] = None"
| "parse_chars (x # xs) =
     (if x = quote then Some ([], xs)
      else if x = backslash then
        (case xs of
           [] \<Rightarrow> None
         | e # r \<Rightarrow>
             if e = CHR ''u'' then
               (case r of
                  a # b # c # d # r' \<Rightarrow>
                    (case hex4 a b c d of
                       None \<Rightarrow> None
                     | Some n \<Rightarrow> if n < 256 then map_option (apfst (Cons (char_of n))) (parse_chars r') else None)
                | _ \<Rightarrow> None)
             else
               (case simple_escape e of
                  None \<Rightarrow> None
                | Some ch \<Rightarrow> map_option (apfst (Cons ch)) (parse_chars r)))
      else if of_char x < (32::nat) then None
      else map_option (apfst (Cons x)) (parse_chars xs))"

definition is_json_ws :: "char \<Rightarrow> bool" where
  "is_json_ws c \<longleftrightarrow> (let n = of_char c :: nat in n = 32 \<or> n = 9 \<or> n = 10 \<or> n = 13)"

abbreviation skip_ws :: "string \<Rightarrow> string" where
  "skip_ws \<equiv> dropWhile is_json_ws"

text \<open>
  A number token: an optional sign, an integer part without leading zeros, an optional
  fraction and an optional exponent. The flag says whether the token is a float.
\<close>

definition lex_int :: "string \<Rightarrow> (string \<times> string) option" where
  "lex_int s = (let (sg, r) = (case s of c # cs \<Rightarrow> if c = CHR ''-'' then ([c], cs) else ([], s) | [] \<Rightarrow> ([], []))
     in case r of
          [] \<Rightarrow> None
        | c # cs \<Rightarrow>
            if c = CHR ''0'' then Some (sg @ [c], cs)
            else if is_digit c then Some (sg @ takeWhile is_digit r, dropWhile is_digit r)
            else None)"

definition lex_frac :: "string \<Rightarrow> string \<times> string" where
  "lex_frac s = (case s of
     p # c # cs \<Rightarrow> if p = CHR ''.'' \<and> is_digit c
        then (p # takeWhile is_digit (c # cs), dropWhile is_digit (c # cs)) else ([], s)
   | _ \<Rightarrow> ([], s))"

definition lex_exp :: "string \<Rightarrow> string \<times> string" where
  "lex_exp s = (case s of
     e # r \<Rightarrow>
       (if e = CHR ''e'' \<or> e = CHR ''E'' then
          (let (sg, q) = (case r of c # cs \<Rightarrow> if c = CHR ''+'' \<or> c = CHR ''-'' then ([c], cs) else ([], r) | [] \<Rightarrow> ([], []))
           in if q \<noteq> [] \<and> is_digit (hd q)
              then (e # sg @ takeWhile is_digit q, dropWhile is_digit q) else ([], s))
        else ([], s))
   | [] \<Rightarrow> ([], s))"

definition lex_number :: "string \<Rightarrow> (string \<times> bool \<times> string) option" where
  "lex_number s = (case lex_int s of
     None \<Rightarrow> None
   | Some (i, r) \<Rightarrow> (let (f, r1) = lex_frac r; (e, r2) = lex_exp r1
                     in Some (i @ f @ e, f \<noteq> [] \<or> e \<noteq> [], r2)))"

definition int_of_token :: "string \<Rightarrow> int" where
  "int_of_token t = (case t of
     c # cs \<Rightarrow> if c = CHR ''-'' then - int (nat_of_digits cs) else int (nat_of_digits t)
   | [] \<Rightarrow> 0)"

definition parse_number :: "float_codec \<Rightarrow> string \<Rightarrow> (json \<times> string) option" where
  "parse_number fc s = (case lex_number s of
     None \<Rightarrow> None
   | Some (t, isf, r) \<Rightarrow>
       if isf then (case parse_float fc t of None \<Rightarrow> None | Some x \<Rightarrow> Some (JFloat x, r))
       else Some (JInt (int_of_token t), r))"

text \<open>
  \<open>json.loads\<close>. The first argument bounds the recursion; \<open>json_loads\<close> starts it above
  the length of the text, which is enough because every call consumes a character.
\<close>

fun parse_value :: "float_codec \<Rightarrow> nat \<Rightarrow> string \<Rightarrow> (json \<times> string) option"
and parse_elems :: "float_codec \<Rightarrow> nat \<Rightarrow> string \<Rightarrow> (json list \<times> string) option"
and parse_members :: "float_codec \<Rightarrow> nat \<Rightarrow> string \<Rightarrow> ((string \<times> json) list \<times> string) option" where
  "parse_value fc 0 s = None"
| "parse_value fc (Suc n) s =
     (case skip_ws s of
        [] \<Rightarrow> None
      | c # r \<Rightarrow>
          if c = quote then map_option (apfst JStr) (parse_chars r)
          else if c = CHR ''{'' then
            (case skip_ws r of
               [] \<Rightarrow> None
             | d # r' \<Rightarrow> if d = CHR ''}'' then Some (JObj [], r')
                        else map_option (apfst (\<lambda>kvs. JObj (dict_of kvs))) (parse_members fc n r))
          else if c = CHR ''['' then
            (case skip_ws r of
               [] \<Rightarrow> None
             | d # r' \<Rightarrow> if d = CHR '']'' then Some (JList [], r')
                        else map_option (apfst JList) (parse_elems fc n r))
          else if starts_with (c # r) ''null'' then Some (JNull, drop 4 (c # r))
          else if starts_with (c # r) ''true'' then Some (JBool True, drop 4 (c # r))
          else if starts_with (c # r) ''false'' then Some (JBool False, drop 5 (c # r))
          else parse_number fc (c # r))"
| "parse_elems fc 0 s = None"
| "parse_elems fc (Suc n) s =
     (case parse_value fc n s of
        None \<Rightarrow> None
      | Some (v, r) \<Rightarrow>
          (case skip_ws r of
             [] \<Rightarrow> None
           | d # r' \<Rightarrow> if d = CHR '','' then map_option (apfst (Cons v)) (parse_elems fc n r')
                      else if d = CHR '']'' then Some ([v], r') else None))"
| "parse_members fc 0 s = None"
| "parse_members fc (Suc n) s =
     (case skip_ws s of
        [] \<Rightarrow> None
      | q # r0 \<Rightarrow>
          if q \<noteq> quote then None else
          (case parse_chars r0 of
             None \<Rightarrow> None
           | Some (k, r1) \<Rightarrow>
               (case skip_ws r1 of
                  [] \<Rightarrow> None
                | col # r2 \<Rightarrow>
                    if col \<noteq> CHR '':'' then None else
                    (case parse_value fc n r2 of
                       None \<Rightarrow> None
                     | Some (v, r3) \<Rightarrow>
                         (case skip_ws r3 of
                            [] \<Rightarrow> None
                          | d # r4 \<Rightarrow>
                              if d = CHR '','' then map_option (apfst (Cons (k, v))) (parse_members fc n r4)
                              else if d = CHR ''}'' then Some ([(k, v)], r4) else None)))))"

definition json_loads :: "float_codec \<Rightarrow> string \<Rightarrow> json option" where
  "json_loads fc s = (case parse_value fc (Suc (length s)) s of
     Some (v, r) \<Rightarrow> if skip_ws r = [] then Some v else None
   | None \<Rightarrow> None)"

text \<open>
  What the program relies on about floats: the printed form is a JSON number with a
  fraction or an exponent, and reading it back gives the same float.
\<close>

definition num_end :: "string \<Rightarrow> bool" where
  "num_end s \<longleftrightarrow> (case s of [] \<Rightarrow> True
     | c # _ \<Rightarrow> \<not> is_digit c \<and> c \<noteq> CHR ''.'' \<and> c \<noteq> CHR ''e'' \<and> c \<noteq> CHR ''E'')"

definition codec_ok :: "float_codec \<Rightarrow> bool" where
  "codec_ok fc \<longleftrightarrow> (\<forall>x. parse_float fc (repr_float fc x) = Some x \<and>
     (\<forall>r. num_end r \<longrightarrow> lex_number (repr_float fc x @ r) = Some (repr_float fc x, True, r)))"

section \<open>Printing and parsing are inverse\<close>

lemma of_char_quote [simp]: "of_char quote = (34::nat)"
  by (simp add: quote_def)

lemma of_char_backslash [simp]: "of_char backslash = (92::nat)"
  by (simp add: backslash_def)

lemma quote_neq_backslash [simp]: "quote \<noteq> backslash" "backslash \<noteq> quote"
  by (simp_all add: quote_def backslash_def)

lemma hex_val_digit [simp]: "d < 16 \<Longrightarrow> hex_val (hex_digit d) = Some d"
  by (auto simp: hex_val_def hex_digit_def Let_def)

lemma hex4_byte:
  "of_char c < (256::nat) \<Longrightarrow>
   hex4 (CHR ''0'') (CHR ''0'') (hex_digit (of_char c div 16)) (hex_digit (of_char c mod 16)) = Some (of_char c)"
proof -
  have "hex_val (CHR ''0'') = Some 0" by (simp add: hex_val_def)
  moreover have "of_char c div 16 < (16::nat)"
    using nat_of_char_less_256 [of c] by (simp add: less_mult_imp_div_less)
  ultimately show ?thesis by (simp add: hex4_def)
qed

lemma char_eqI_nat: "of_char c = (of_char d :: nat) \<Longrightarrow> c = d"
  by simp

lemma parse_esc_char:
  "parse_chars (esc_char asc c @ t) = map_option (apfst (Cons c)) (parse_chars t)"
proof -
  let ?n = "of_char c :: nat"
  consider "c = quote \<or> c = backslash" | "?n \<in> {8, 9, 10, 12, 13}"
    | "c \<noteq> quote" "c \<noteq> backslash" "?n \<notin> {8, 9, 10, 12, 13}" "?n < 32 \<or> (asc \<and> 126 < ?n)"
    | "c \<noteq> quote" "c \<noteq> backslash" "?n \<notin> {8, 9, 10, 12, 13}" "\<not> (?n < 32 \<or> (asc \<and> 126 < ?n))"
    by blast
  then show ?thesis
  proof cases
    case 1
    then show ?thesis by (auto simp: esc_char_def simple_escape_def quote_def backslash_def)
  next
    case 2
    then consider "c = CHR 0x08" | "c = CHR 0x09" | "c = CHR 0x0A" | "c = CHR 0x0C" | "c = CHR 0x0D"
      using char_eqI_nat [of c "CHR 0x08"] char_eqI_nat [of c "CHR 0x09"] char_eqI_nat [of c "CHR 0x0A"]
        char_eqI_nat [of c "CHR 0x0C"] char_eqI_nat [of c "CHR 0x0D"] by fastforce
    then show ?thesis
      by cases (simp_all add: esc_char_def simple_escape_def quote_def backslash_def)
  next
    case 3
    then have "esc_char asc c = [backslash, CHR ''u'', CHR ''0'', CHR ''0'',
        hex_digit (?n div 16), hex_digit (?n mod 16)]"
      by (simp add: esc_char_def Let_def)
    then show ?thesis by (simp add: hex4_byte)
  next
    case 4
    then have "esc_char asc c = [c]" by (simp add: esc_char_def Let_def)
    with 4 show ?thesis by simp
  qed
qed

lemma parse_chars_str:
  "parse_chars (concat (map (esc_char asc) s) @ quote # r) = Some (s, r)"
  by (induction s) (simp_all add: parse_esc_char)

lemma parse_chars_json_str:
  "json_str asc s @ r = quote # (concat (map (esc_char asc) s) @ quote # r)"
  by (simp add: json_str_def)

subsection \<open>Integers\<close>

lemma is_digit_digit_char [simp]: "d < 10 \<Longrightarrow> is_digit (digit_char d)"
  by (simp add: is_digit_def digit_char_def)

lemma digit_val_digit_char [simp]: "d < 10 \<Longrightarrow> digit_val (digit_char d) = d"
  by (simp add: digit_val_def digit_char_def)

lemma nat_str_digits: "\<forall>c \<in> set (nat_str n). is_digit c"
proof (induction n rule: nat_str.induct)
  case (1 n)
  then show ?case by (subst nat_str.simps) auto
qed

lemma nat_str_nonempty [simp]: "nat_str n \<noteq> []"
  by (subst nat_str.simps) simp

lemma nat_of_nat_str [simp]: "nat_of_digits (nat_str n) = n"
proof (induction n rule: nat_str.induct)
  case (1 n)
  show ?case
  proof (cases "n < 10")
    case True
    then show ?thesis by (subst nat_str.simps) (simp add: nat_of_digits_def)
  next
    case False
    with 1 have "nat_of_digits (nat_str (n div 10)) = n div 10" by simp
    with False show ?thesis by (subst nat_str.simps) (simp add: nat_of_digits_def)
  qed
qed

lemma hd_nat_str: "hd (nat_str n) = CHR ''0'' \<longleftrightarrow> n = 0"
proof (induction n rule: nat_str.induct)
  case (1 n)
  show ?case
  proof (cases "n < 10")
    case True
    have "of_char (digit_char n) = 48 + n" using True by (simp add: digit_char_def)
    moreover have "of_char (CHR ''0'') = (48::nat)" by simp
    ultimately have "digit_char n = CHR ''0'' \<longleftrightarrow> n = 0"
      by (metis add_cancel_left_right char_eqI_nat)
    with True show ?thesis by (subst nat_str.simps) simp
  next
    case False
    with 1 have "hd (nat_str (n div 10)) = CHR ''0'' \<longleftrightarrow> n div 10 = 0" by simp
    with False show ?thesis by (subst nat_str.simps) (auto simp: hd_append)
  qed
qed

lemma nat_str_0: "nat_str 0 = [CHR ''0'']"
proof -
  have "char_of (48::nat) = CHR ''0''" by (rule char_eqI_nat) simp
  then show ?thesis by (subst nat_str.simps) (simp add: digit_char_def)
qed

lemma is_digit_hd_nat_str [simp]: "is_digit (hd (nat_str n))"
  using nat_str_digits [of n] by (cases "nat_str n") auto

lemma digits_span:
  assumes "\<forall>c \<in> set t. is_digit c" and "r = [] \<or> \<not> is_digit (hd r)"
  shows "takeWhile is_digit (t @ r) = t" and "dropWhile is_digit (t @ r) = r"
  using assms by (cases r; auto simp: takeWhile_append dropWhile_append)+

lemma lex_int_int_str:
  assumes "r = [] \<or> \<not> is_digit (hd r)"
  shows "lex_int (int_str i @ r) = Some (int_str i, r)"
proof -
  have core: "(case nat_str n @ r of [] \<Rightarrow> None
      | c # cs \<Rightarrow> if c = CHR ''0'' then Some (sg @ [c], cs)
            else if is_digit c then Some (sg @ takeWhile is_digit (nat_str n @ r), dropWhile is_digit (nat_str n @ r))
            else None) = Some (sg @ nat_str n, r)" for n sg
  proof (cases "n = 0")
    case True
    then show ?thesis by (simp add: nat_str_0)
  next
    case False
    then have "hd (nat_str n) \<noteq> CHR ''0''" by (simp add: hd_nat_str)
    moreover have "is_digit (hd (nat_str n))" by simp
    ultimately show ?thesis
      using digits_span [OF nat_str_digits assms, of n] by (cases "nat_str n") auto
  qed
  have nd: "hd (nat_str n) \<noteq> CHR ''-''" for n
  proof
    assume "hd (nat_str n) = CHR ''-''"
    moreover have "is_digit (hd (nat_str n))" by simp
    ultimately show False by (simp add: is_digit_def)
  qed
  show ?thesis
  proof (cases "i < 0")
    case True
    then show ?thesis using core [where n = "nat (- i)" and sg = "''-''"] by (simp add: lex_int_def int_str_def)
  next
    case False
    obtain c cs where c: "nat_str (nat i) = c # cs" by (cases "nat_str (nat i)") auto
    with nd [of "nat i"] have "c \<noteq> CHR ''-''" by simp
    with c False show ?thesis
      using core [where n = "nat i" and sg = "[]"] by (simp add: lex_int_def int_str_def split: if_splits)
  qed
qed

lemma num_end_frac: "num_end r \<Longrightarrow> lex_frac r = ([], r)"
  by (auto simp: lex_frac_def num_end_def split: list.splits)

lemma num_end_exp: "num_end r \<Longrightarrow> lex_exp r = ([], r)"
  by (auto simp: lex_exp_def num_end_def split: list.splits)

lemma int_of_token_int_str [simp]: "int_of_token (int_str i) = i"
proof (cases "i < 0")
  case True
  then show ?thesis by (simp add: int_of_token_def int_str_def)
next
  case False
  obtain c cs where c: "nat_str (nat i) = c # cs" by (cases "nat_str (nat i)") auto
  with nat_str_digits [of "nat i"] have "is_digit c" by simp
  then have "c \<noteq> CHR ''-''" by (auto simp: is_digit_def)
  with c False nat_of_nat_str [of "nat i"] show ?thesis
    by (simp add: int_of_token_def int_str_def)
qed

lemma parse_number_int:
  assumes "num_end r"
  shows "parse_number fc (int_str i @ r) = Some (JInt i, r)"
proof -
  have "r = [] \<or> \<not> is_digit (hd r)" using assms by (auto simp: num_end_def split: list.splits)
  then show ?thesis
    using assms by (simp add: parse_number_def lex_number_def lex_int_int_str num_end_frac num_end_exp)
qed


subsection \<open>Values\<close>

definition parses :: "float_codec \<Rightarrow> string \<Rightarrow> json \<Rightarrow> bool" where
  "parses fc t v \<longleftrightarrow> t \<noteq> [] \<and> \<not> is_json_ws (hd t) \<and> hd t \<noteq> CHR '']'' \<and>
     (\<forall>n r ws. num_end r \<longrightarrow> length t < n \<longrightarrow> list_all is_json_ws ws \<longrightarrow>
        parse_value fc n (ws @ t @ r) = Some (v, r))"

lemma skip_ws_append:
  "list_all is_json_ws ws \<Longrightarrow> skip_ws (ws @ t) = skip_ws t"
  by (induction ws) auto

lemma skip_ws_id: "t \<noteq> [] \<Longrightarrow> \<not> is_json_ws (hd t) \<Longrightarrow> skip_ws (t @ r) = t @ r"
  by (cases t) auto

lemma parsesI:
  assumes "t \<noteq> []" "\<not> is_json_ws (hd t)" "hd t \<noteq> CHR '']''"
    and "\<And>n r. num_end r \<Longrightarrow> length t \<le> n \<Longrightarrow> parse_value fc (Suc n) (t @ r) = Some (v, r)"
  shows "parses fc t v"
proof -
  have "parse_value fc n (ws @ t @ r) = Some (v, r)"
    if num: "num_end r" and len: "length t < n" and ws: "list_all is_json_ws ws" for n r ws
  proof -
    obtain m where m: "n = Suc m" "length t \<le> m" using len by (cases n) auto
    have "parse_value fc (Suc m) (ws @ t @ r) = parse_value fc (Suc m) (t @ r)"
      using ws by (simp only: parse_value.simps skip_ws_append)
    with assms(4) [OF num m(2)] m(1) show ?thesis by simp
  qed
  with assms(1-3) show ?thesis by (simp add: parses_def)
qed

lemma num_end_delims [simp]:
  "num_end []" "num_end (CHR '','' # r)" "num_end (CHR '']'' # r)" "num_end (CHR ''}'' # r)"
  "num_end (CHR '':'' # r)"
  by (simp_all add: num_end_def is_digit_def)

lemma not_ws_delims [simp]:
  "\<not> is_json_ws (CHR '','')" "\<not> is_json_ws (CHR '']'')" "\<not> is_json_ws (CHR ''}'')"
  "\<not> is_json_ws (CHR ''['')" "\<not> is_json_ws (CHR ''{'')" "\<not> is_json_ws (CHR '':'')"
  "\<not> is_json_ws quote"
  by (simp_all add: is_json_ws_def quote_def)

lemma length_join_Cons:
  "ts \<noteq> [] \<Longrightarrow> join sep (t # ts) = t @ sep @ join sep ts"
  by (cases ts) auto

lemma parse_elems_join:
  assumes "list_all2 (parses fc) ts vs" "ts \<noteq> []" "isep = CHR '','' # ws" "list_all is_json_ws ws"
    "list_all is_json_ws ws'" "length (join isep ts) + 1 < n"
  shows "parse_elems fc n (ws' @ join isep ts @ CHR '']'' # r) = Some (vs, r)"
  using assms
proof (induction ts vs arbitrary: n ws' rule: list_all2_induct)
  case Nil
  then show ?case by simp
next
  case (Cons t ts v vs)
  obtain m where n: "n = Suc m" using Cons.prems by (cases n) auto
  show ?case
  proof (cases "ts = []")
    case True
    then have "vs = []" using Cons.hyps by simp
    moreover have "parse_value fc m (ws' @ t @ CHR '']'' # r) = Some (v, CHR '']'' # r)"
      using Cons True n by (simp add: parses_def)
    ultimately show ?thesis using True n by simp
  next
    case False
    then have j: "join isep (t # ts) = t @ CHR '','' # ws @ join isep ts"
      using Cons.prems(2) by (simp add: length_join_Cons)
    have "parse_value fc m (ws' @ t @ CHR '','' # ws @ join isep ts @ CHR '']'' # r)
        = Some (v, CHR '','' # ws @ join isep ts @ CHR '']'' # r)"
      using Cons n j by (simp add: parses_def)
    moreover have "parse_elems fc m (ws @ join isep ts @ CHR '']'' # r) = Some (vs, r)"
      using Cons.prems j n False by (intro Cons.IH) auto
    ultimately show ?thesis using n j by simp
  qed
qed

lemma parse_members_join:
  assumes "list_all2 (\<lambda>(k, t) (k', v). k' = k \<and> parses fc t v) kts kvs" "kts \<noteq> []"
    "isep = CHR '','' # ws" "ksep = CHR '':'' # wk" "list_all is_json_ws ws" "list_all is_json_ws wk"
    "list_all is_json_ws ws'"
    "length (join isep (map (\<lambda>(k, t). json_str asc k @ ksep @ t) kts)) + 1 < n"
  shows "parse_members fc n (ws' @ join isep (map (\<lambda>(k, t). json_str asc k @ ksep @ t) kts) @ CHR ''}'' # r)
    = Some (kvs, r)"
  using assms
proof (induction kts kvs arbitrary: n ws' rule: list_all2_induct)
  case Nil
  then show ?case by simp
next
  case (Cons kt kts kv kvs)
  obtain k t where kt: "kt = (k, t)" by (cases kt)
  obtain v where kv: "kv = (k, v)" and pt: "parses fc t v" using Cons.hyps(1) kt by (cases kv) auto
  obtain m where n: "n = Suc m" using Cons.prems by (cases n) auto
  let ?f = "\<lambda>(k, t). json_str asc k @ ksep @ t"
  have str: "json_str asc k @ x = quote # (concat (map (esc_char asc) k) @ quote # x)" for x
    by (rule parse_chars_json_str)
  show ?case
  proof (cases "kts = []")
    case True
    then have "kvs = []" using Cons.hyps by simp
    have "parse_value fc m (wk @ t @ CHR ''}'' # r) = Some (v, CHR ''}'' # r)"
      using Cons.prems pt True n kt by (simp add: parses_def json_str_def)
    then show ?thesis
      using True n kt kv \<open>kvs = []\<close> Cons.prems(2,3,6)
      by (simp add: str skip_ws_append parse_chars_str)
  next
    case False
    then have j: "join isep (map ?f (kt # kts)) = json_str asc k @ ksep @ t @ CHR '','' # ws @ join isep (map ?f kts)"
      using Cons.prems(2) kt by (simp add: length_join_Cons)
    have len: "length t < m" "length (join isep (map ?f kts)) + 1 < m"
      using Cons.prems(7) j n by (simp_all add: json_str_def)
    have "parse_value fc m (wk @ t @ CHR '','' # ws @ join isep (map ?f kts) @ CHR ''}'' # r)
        = Some (v, CHR '','' # ws @ join isep (map ?f kts) @ CHR ''}'' # r)"
      using Cons.prems pt len by (simp add: parses_def)
    moreover have "parse_members fc m (ws @ join isep (map ?f kts) @ CHR ''}'' # r) = Some (kvs, r)"
      using Cons.prems len(2) False by (intro Cons.IH) auto
    ultimately show ?thesis
      unfolding n j kv using Cons.prems(3,6) by (simp add: str skip_ws_append parse_chars_str)
  qed
qed


lemma sort_key_map_pair:
  "sort_key fst (map (\<lambda>(k, v). (k, g v)) kvs) = map (\<lambda>(k, v). (k, g v)) (sort_key fst kvs)"
proof -
  have ins: "insort_key fst (k, g v) (map (\<lambda>(k, v). (k, g v)) xs)
      = map (\<lambda>(k, v). (k, g v)) (insort_key fst (k, v) xs)" for k v xs
    by (induction xs) auto
  show ?thesis by (induction kvs) (auto simp: ins)
qed

lemma lex_int_hd: "lex_int s = Some x \<Longrightarrow> s \<noteq> [] \<and> (hd s = CHR ''-'' \<or> is_digit (hd s))"
  by (auto simp: lex_int_def is_digit_def split: list.splits if_splits)

lemma lex_number_hd: "lex_number s = Some x \<Longrightarrow> s \<noteq> [] \<and> (hd s = CHR ''-'' \<or> is_digit (hd s))"
  by (auto simp: lex_number_def dest: lex_int_hd split: option.splits)

lemma number_start:
  assumes "c = CHR ''-'' \<or> is_digit c"
  shows "c \<noteq> quote" "c \<noteq> CHR ''{''" "c \<noteq> CHR ''[''" "c \<noteq> CHR '']''" "c \<noteq> CHR ''n''"
    "c \<noteq> CHR ''t''" "c \<noteq> CHR ''f''" "\<not> is_json_ws c"
  using assms by (auto simp: quote_def is_digit_def is_json_ws_def Let_def)

lemma parse_value_number:
  assumes "t \<noteq> []" "hd t = CHR ''-'' \<or> is_digit (hd t)"
  shows "parse_value fc (Suc n) (t @ r) = parse_number fc (t @ r)"
  using assms by (cases t) (simp_all add: number_start starts_with.simps)

lemma parses_number:
  assumes "t \<noteq> []" "hd t = CHR ''-'' \<or> is_digit (hd t)"
    and "\<And>r. num_end r \<Longrightarrow> parse_number fc (t @ r) = Some (v, r)"
  shows "parses fc t v"
proof (rule parsesI)
  show "t \<noteq> []" by (rule assms(1))
  show "\<not> is_json_ws (hd t)" "hd t \<noteq> CHR '']''" using number_start [OF assms(2)] by auto
  fix n r assume "num_end r"
  then show "parse_value fc (Suc n) (t @ r) = Some (v, r)"
    unfolding parse_value_number [OF assms(1,2)] by (rule assms(3))
qed

lemma parses_int: "parses fc (int_str i) (JInt i)"
proof (rule parses_number)
  have "lex_int (int_str i @ []) = Some (int_str i, [])" by (rule lex_int_int_str) simp
  from lex_int_hd [OF this] show "int_str i \<noteq> []" "hd (int_str i) = CHR ''-'' \<or> is_digit (hd (int_str i))"
    by auto
qed (rule parse_number_int)

lemma parses_float:
  assumes "codec_ok fc"
  shows "parses fc (repr_float fc x) (JFloat x)"
proof (rule parses_number)
  have "lex_number (repr_float fc x @ []) = Some (repr_float fc x, True, [])"
    using assms num_end_delims(1) unfolding codec_ok_def by blast
  from lex_number_hd [OF this] show "repr_float fc x \<noteq> []"
    "hd (repr_float fc x) = CHR ''-'' \<or> is_digit (hd (repr_float fc x))" by auto
  fix r assume "num_end r"
  with assms show "parse_number fc (repr_float fc x @ r) = Some (JFloat x, r)"
    by (simp add: codec_ok_def parse_number_def)
qed

lemma parses_str: "parses fc (json_str asc s) (JStr s)"
proof (rule parsesI)
  show "json_str asc s \<noteq> []" by (simp add: json_str_def)
  show "\<not> is_json_ws (hd (json_str asc s))" by (simp add: json_str_def)
  show "hd (json_str asc s) \<noteq> CHR '']''" by (simp add: json_str_def quote_def)
  fix n r
  show "parse_value fc (Suc n) (json_str asc s @ r) = Some (JStr s, r)"
    unfolding parse_chars_json_str by (simp add: parse_chars_str)
qed

lemma parses_list:
  assumes "list_all2 (parses fc) ts vs" "isep = CHR '','' # ws" "list_all is_json_ws ws"
  shows "parses fc (''['' @ join isep ts @ '']'') (JList vs)"
proof (rule parsesI)
  fix n r assume len: "length (''['' @ join isep ts @ '']'') \<le> n"
  show "parse_value fc (Suc n) ((''['' @ join isep ts @ '']'') @ r) = Some (JList vs, r)"
  proof (cases ts)
    case Nil
    with assms(1) show ?thesis by (simp add: quote_def)
  next
    case (Cons t ts')
    have "parses fc t (hd vs)" using assms(1) Cons by (auto simp: list_all2_Cons1)
    then have t: "t \<noteq> []" "\<not> is_json_ws (hd t)" "hd t \<noteq> CHR '']''" by (auto simp: parses_def)
    obtain c cs where c: "t = c # cs" "c \<noteq> CHR '']''" "\<not> is_json_ws c" using t by (cases t) auto
    obtain u where u: "join isep ts @ CHR '']'' # r = c # u"
      using c(1) Cons by (cases ts') auto
    have "parse_elems fc n ([] @ join isep ts @ CHR '']'' # r) = Some (vs, r)"
      using assms Cons len by (intro parse_elems_join) auto
    with u c show ?thesis by (simp add: quote_def)
  qed
qed (simp_all add: is_json_ws_def)

lemma parses_obj:
  assumes "list_all2 (\<lambda>(k, t) (k', v). k' = k \<and> parses fc t v) kts kvs" "distinct (map fst kvs)"
    "isep = CHR '','' # ws" "ksep = CHR '':'' # wk" "list_all is_json_ws ws" "list_all is_json_ws wk"
  shows "parses fc (''{'' @ join isep (map (\<lambda>(k, t). json_str asc k @ ksep @ t) kts) @ ''}'') (JObj kvs)"
proof (rule parsesI)
  let ?j = "join isep (map (\<lambda>(k, t). json_str asc k @ ksep @ t) kts)"
  fix n r assume len: "length (''{'' @ ?j @ ''}'') \<le> n"
  show "parse_value fc (Suc n) ((''{'' @ ?j @ ''}'') @ r) = Some (JObj kvs, r)"
  proof (cases kts)
    case Nil
    with assms(1) show ?thesis by (simp add: quote_def)
  next
    case (Cons kt kts')
    obtain u where u: "?j @ CHR ''}'' # r = quote # u"
      using Cons by (cases kt; cases kts') (simp_all add: json_str_def)
    have "parse_members fc n ([] @ ?j @ CHR ''}'' # r) = Some (kvs, r)"
      using Cons len by (intro parse_members_join [OF assms(1) _ assms(3-6)]) auto
    with u assms(2) show ?thesis by (simp add: quote_def is_json_ws_def)
  qed
qed (simp_all add: is_json_ws_def)

theorem parses_dumps:
  assumes "codec_ok fc" "isep = CHR '','' # ws" "ksep = CHR '':'' # wk"
    "list_all is_json_ws ws" "list_all is_json_ws wk" "wf_json j"
  shows "parses fc (json_dumps fc asc srt isep ksep j) (json_view srt j)"
  using assms(6)
proof (induction j)
  case JNull
  show ?case by (rule parsesI) (simp_all add: is_json_ws_def quote_def)
next
  case (JBool b)
  show ?case by (rule parsesI) (simp_all add: is_json_ws_def quote_def)
next
  case (JInt i)
  show ?case by (simp add: parses_int)
next
  case (JFloat x)
  show ?case using assms(1) by (simp add: parses_float)
next
  case (JStr s)
  show ?case by (simp add: parses_str)
next
  case (JList js)
  have "list_all2 (parses fc) (map (json_dumps fc asc srt isep ksep) js) (map (json_view srt) js)"
    using JList by (auto simp: list_all2_map1 list_all2_map2 list.rel_refl_strong list_all_iff
        intro!: list_all2_refl list.rel_refl_strong)
  from parses_list [OF this assms(2,4)] show ?case by simp
next
  case (JObj kvs)
  let ?o = "if srt then sort_key fst else (\<lambda>x. x) :: (string \<times> json) list \<Rightarrow> (string \<times> json) list"
  let ?kvs = "?o kvs"
  have set: "set ?kvs = set kvs" by simp
  have ih: "parses fc (json_dumps fc asc srt isep ksep v) (json_view srt v)" if "(k, v) \<in> set kvs" for k v
    using JObj.IH [OF that, of v] JObj.prems that by (auto simp: list_all_iff)
  have "list_all2 (\<lambda>(k, t) (k', v). k' = k \<and> parses fc t v)
      (map (\<lambda>(k, v). (k, json_dumps fc asc srt isep ksep v)) ?kvs)
      (map (\<lambda>(k, v). (k, json_view srt v)) ?kvs)"
    using ih set by (auto simp: list_all2_map1 list_all2_map2 intro!: list.rel_refl_strong)
  moreover have "distinct (map fst (map (\<lambda>(k, v). (k, json_view srt v)) ?kvs))"
  proof -
    have "map fst (map (\<lambda>(k, v). (k, json_view srt v)) ?kvs) = map fst ?kvs"
      by (simp add: case_prod_unfold comp_def)
    moreover have "mset (map fst ?kvs) = mset (map fst kvs)" by simp
    ultimately show ?thesis using JObj.prems by (metis wf_json.simps(2) mset_eq_imp_distinct_iff)
  qed
  ultimately have "parses fc (''{'' @ join isep (map (\<lambda>(k, t). json_str asc k @ ksep @ t)
        (map (\<lambda>(k, v). (k, json_dumps fc asc srt isep ksep v)) ?kvs)) @ ''}'')
      (JObj (map (\<lambda>(k, v). (k, json_view srt v)) ?kvs))"
    by (rule parses_obj [OF _ _ assms(2,3,4,5)])
  then show ?case by (cases srt) (simp_all add: sort_key_map_pair)
qed


lemma parses_canonical:
  "codec_ok fc \<Longrightarrow> wf_json j \<Longrightarrow> parses fc (canonical_json fc j) (json_view True j)"
  unfolding canonical_json_def by (rule parses_dumps [where ws = "[]" and wk = "[]"]) auto

lemma parses_loads: "parses fc t v \<Longrightarrow> json_loads fc t = Some v"
proof -
  assume p: "parses fc t v"
  then have "parse_value fc (Suc (length t)) ([] @ t @ []) = Some (v, [])"
    unfolding parses_def by (metis list.pred_inject(1) num_end_delims(1) lessI)
  then show ?thesis by (simp add: json_loads_def)
qed

lemma loads_canonical:
  "codec_ok fc \<Longrightarrow> wf_json j \<Longrightarrow> json_loads fc (canonical_json fc j) = Some (json_view True j)"
  by (rule parses_loads) (rule parses_canonical)

lemma loads_dumps_default:
  "codec_ok fc \<Longrightarrow> wf_json j \<Longrightarrow> json_loads fc (json_dumps fc asc False '', '' '': '' j) = Some (json_view False j)"
  by (rule parses_loads, rule parses_dumps [where ws = "'' ''" and wk = "'' ''"])
    (auto simp: is_json_ws_def)

lemma json_view_False [simp]: "json_view False j = j"
proof (induction j)
  case (JList js)
  then show ?case by (simp add: map_idI)
next
  case (JObj kvs)
  have "map (\<lambda>(k, v). (k, json_view False v)) kvs = kvs"
    using JObj by (intro map_idI) auto
  then show ?case by simp
qed simp_all

lemma sort_key_idem [simp]: "sort_key f (sort_key f xs) = sort_key f xs"
  by (rule sort_key_id_if_sorted) simp

lemma canonical_json_view [simp]:
  "json_dumps fc asc True isep ksep (json_view True j) = json_dumps fc asc True isep ksep j"
proof (induction j)
  case (JList js)
  then have "map (json_dumps fc asc True isep ksep \<circ> json_view True) js = map (json_dumps fc asc True isep ksep) js"
    by simp
  then show ?case by (simp del: map_eq_conv)
next
  case (JObj kvs)
  let ?d = "\<lambda>(k, v). (k, json_dumps fc asc True isep ksep v)"
  let ?w = "\<lambda>(k, v). (k, json_view True v)"
  have "map ?d (map ?w (sort_key fst kvs)) = map ?d (sort_key fst kvs)"
    unfolding map_map using JObj by (intro map_cong) auto
  then have "sort_key fst (map ?d (sort_key fst (map ?w kvs))) = sort_key fst (map ?d kvs)"
    by (simp only: sort_key_map_pair sort_key_idem)
  then show ?case by (simp only: json_view.simps json_dumps.simps if_True)
qed simp_all

lemma canonical_json_norm [simp]: "canonical_json fc (json_view True j) = canonical_json fc j"
  by (simp add: canonical_json_def)

text \<open>The canonical text determines the value, even inside a longer text.\<close>

lemma parses_prefix_unique:
  assumes "parses fc t v" "parses fc t' v'" "t @ r = t' @ r'" "num_end r" "num_end r'"
  shows "v = v' \<and> r = r'"
proof -
  let ?n = "Suc (length t + length t')"
  have "parse_value fc ?n ([] @ t @ r) = Some (v, r)"
    using assms(1,4) unfolding parses_def by (metis list.pred_inject(1) less_Suc_eq_le le_add1)
  moreover have "parse_value fc ?n ([] @ t' @ r') = Some (v', r')"
    using assms(2,5) unfolding parses_def by (metis list.pred_inject(1) less_Suc_eq_le le_add2)
  ultimately show ?thesis using assms(3) by simp
qed

lemma canonical_json_eq_iff:
  assumes "codec_ok fc" "wf_json j" "wf_json j'"
  shows "canonical_json fc j = canonical_json fc j' \<longleftrightarrow> json_view True j = json_view True j'"
proof
  assume "canonical_json fc j = canonical_json fc j'"
  then show "json_view True j = json_view True j'"
    using loads_canonical [OF assms(1,2)] loads_canonical [OF assms(1,3)] by simp
next
  assume "json_view True j = json_view True j'"
  then have "canonical_json fc (json_view True j) = canonical_json fc (json_view True j')" by simp
  then show "canonical_json fc j = canonical_json fc j'" by simp
qed


subsection \<open>A float codec\<close>

text \<open>
  A codec that satisfies \<^const>\<open>codec_ok\<close>, used to run the model on concrete inputs: a float
  is printed as numerator, point, denominator.
\<close>

definition ratio_codec :: float_codec where
  "ratio_codec = \<lparr>
     repr_float = (\<lambda>x. let (a, b) = quotient_of x in int_str a @ CHR ''.'' # nat_str (nat b)),
     parse_float = (\<lambda>t. let i = takeWhile (\<lambda>c. c \<noteq> CHR ''.'') t; d = tl (dropWhile (\<lambda>c. c \<noteq> CHR ''.'') t)
        in Some (Fract (int_of_token i) (int (nat_of_digits d))))\<rparr>"

lemma int_str_no_dot: "\<forall>c \<in> set (int_str i). c \<noteq> CHR ''.''"
proof -
  have "\<not> is_digit (CHR ''.'')" by (simp add: is_digit_def)
  then show ?thesis using nat_str_digits by (auto simp: int_str_def)
qed

lemma lex_frac_nat_str:
  assumes "num_end r"
  shows "lex_frac (CHR ''.'' # nat_str n @ r) = (CHR ''.'' # nat_str n, r)"
proof -
  have "r = [] \<or> \<not> is_digit (hd r)" using assms by (auto simp: num_end_def split: list.splits)
  note span = digits_span [OF nat_str_digits this, of n]
  obtain c cs where c: "nat_str n = c # cs" by (cases "nat_str n") auto
  with is_digit_hd_nat_str [of n] have "is_digit c" by simp
  with c span show ?thesis by (simp add: lex_frac_def)
qed

lemma codec_ok_ratio: "codec_ok ratio_codec"
  unfolding codec_ok_def
proof (intro allI conjI impI)
  fix x :: rat and r :: string
  obtain a b where q: "quotient_of x = (a, b)" by (cases "quotient_of x")
  then have b: "0 < b" by (rule quotient_of_denom_pos)
  have spl: "takeWhile (\<lambda>c. c \<noteq> CHR ''.'') (int_str a @ CHR ''.'' # t) = int_str a"
    "dropWhile (\<lambda>c. c \<noteq> CHR ''.'') (int_str a @ CHR ''.'' # t) = CHR ''.'' # t" for t
    using int_str_no_dot by (auto simp: takeWhile_append dropWhile_append)
  have "x = Fract a b" using q by (simp add: quotient_of_div Fract_of_int_quotient)
  with q b spl show "parse_float ratio_codec (repr_float ratio_codec x) = Some x"
    by (simp add: ratio_codec_def)
  assume r: "num_end r"
  have "\<not> is_digit (CHR ''.'')" by (simp add: is_digit_def)
  with r q show "lex_number (repr_float ratio_codec x @ r) = Some (repr_float ratio_codec x, True, r)"
    by (simp add: ratio_codec_def lex_number_def lex_int_int_str lex_frac_nat_str num_end_exp)
qed

end
