(* ===== verification/Utils.thy ===== *)
theory Utils
  imports Json
begin

text \<open>
  The helpers of \<open>mdrj/utils.py\<close>: event identifiers, HMAC signatures, the median, list
  slicing. SHA-256, HMAC and the printing of floats are fields of the record \<open>pylib\<close>, an
  argument of every definition that uses them; a digest is the string of its bytes.
  No property assumes that SHA-256 is injective: where tamper evidence rests on it, the theorem
  concludes that either the data agree or the two texts it names are a \<open>sha_collision\<close>.
\<close>

record pylib =
  floats :: float_codec
  sha256 :: "string \<Rightarrow> string"
  hmac_sha256 :: "string \<Rightarrow> string \<Rightarrow> string"

definition sha_collision :: "pylib \<Rightarrow> string \<Rightarrow> string \<Rightarrow> bool" where
  "sha_collision L x y \<longleftrightarrow> x \<noteq> y \<and> sha256 L x = sha256 L y"

definition canonical :: "pylib \<Rightarrow> json \<Rightarrow> string" where
  "canonical L j = canonical_json (floats L) j"

definition sha256_hex :: "pylib \<Rightarrow> string \<Rightarrow> string" where
  "sha256_hex L s = hexdigest (sha256 L s)"

definition compute_event_id :: "pylib \<Rightarrow> json \<Rightarrow> json \<Rightarrow> string" where
  "compute_event_id L header payload =
     sha256_hex L (canonical L header @ ''::'' @ canonical L payload)"

definition hmac_signature :: "pylib \<Rightarrow> string \<Rightarrow> json \<Rightarrow> string" where
  "hmac_signature L key message = hexdigest (hmac_sha256 L key (canonical L message))"

definition hmac_request_signature :: "pylib \<Rightarrow> string \<Rightarrow> string \<Rightarrow> string" where
  "hmac_request_signature L key body = hexdigest (hmac_sha256 L key body)"

text \<open>\<open>json.dumps(payload)\<close> with the default separators and escaping.\<close>

definition dumps_default :: "pylib \<Rightarrow> json \<Rightarrow> string" where
  "dumps_default L j = json_dumps (floats L) True False '', '' '': '' j"

definition signed_request_body :: "pylib \<Rightarrow> json \<Rightarrow> string option \<Rightarrow> string \<times> (string, string) dict" where
  "signed_request_body L payload hmac_key =
     (let body = dumps_default L payload;
          headers = [(''Content-Type'', ''application/json'')]
      in if opt_str hmac_key \<noteq> []
         then (body, AList.update ''X-MDRJ-Sig'' (hmac_request_signature L (opt_str hmac_key) body) headers)
         else (body, headers))"

definition median :: "rat list \<Rightarrow> rat result" where
  "median values =
     (if values = [] then Inl (ValueError ''cannot compute median of empty sequence'')
      else let ordered = sort values; mid = length ordered div 2
           in if odd (length ordered) then Inr (ordered ! mid)
              else Inr ((ordered ! (mid - 1) + ordered ! mid) / 2))"

text \<open>\<open>range(0, len(seq), max(1, size))\<close> with slices \<open>seq[idx : idx + size]\<close>.\<close>

definition chunked :: "'a list \<Rightarrow> nat \<Rightarrow> 'a list list" where
  "chunked xs sz =
     (let step = max 1 sz
      in map (\<lambda>i. take sz (drop (i * step) xs)) [0..<(length xs + step - 1) div step])"

definition sliding_window :: "'a list \<Rightarrow> int \<Rightarrow> 'a list" where
  "sliding_window values window =
     (if window \<le> 0 then values else drop (length values - nat window) values)"

definition bytes_cost :: "pylib \<Rightarrow> json \<Rightarrow> nat" where
  "bytes_cost L j = length (canonical L j)"

section \<open>Hexadecimal digests are faithful\<close>

lemma hex_digit_inj: "hex_digit a = hex_digit b \<Longrightarrow> a < 16 \<Longrightarrow> b < 16 \<Longrightarrow> a = b"
  by (metis hex_val_digit option.inject)

lemma hexdigest_inj: "hexdigest a = hexdigest b \<Longrightarrow> a = b"
proof (induction a arbitrary: b)
  case Nil
  then show ?case by (cases b) (auto simp: hexdigest_def Let_def)
next
  case (Cons c cs)
  then obtain d ds where b: "b = d # ds" by (cases b) (auto simp: hexdigest_def Let_def)
  have lt: "of_char x div 16 < (16::nat)" for x
    using nat_of_char_less_256 [of x] by (simp add: less_mult_imp_div_less)
  from Cons.prems b have eqs: "hex_digit (of_char c div 16) = hex_digit (of_char d div 16)"
    "hex_digit (of_char c mod 16) = hex_digit (of_char d mod 16)" "hexdigest cs = hexdigest ds"
    by (auto simp: hexdigest_def Let_def)
  have "of_char c div 16 = (of_char d div 16 :: nat)" using hex_digit_inj [OF eqs(1) lt lt] .
  moreover have "of_char c mod 16 = (of_char d mod 16 :: nat)" using hex_digit_inj [OF eqs(2)] by simp
  ultimately have "of_char c = (of_char d :: nat)" by (metis div_mult_mod_eq)
  with b Cons.IH [OF eqs(3)] show ?case by simp
qed

lemma sha256_hex_eqD: "sha256_hex L x = sha256_hex L y \<Longrightarrow> x = y \<or> sha_collision L x y"
  by (auto simp: sha_collision_def sha256_hex_def dest: hexdigest_inj)

definition event_preimage :: "pylib \<Rightarrow> json \<Rightarrow> json \<Rightarrow> string" where
  "event_preimage L header payload = canonical L header @ ''::'' @ canonical L payload"

lemma event_preimage_inj:
  assumes "codec_ok (floats L)" "wf_json h" "wf_json h'" "wf_json p" "wf_json p'"
    and "event_preimage L h p = event_preimage L h' p'"
  shows "json_view True h = json_view True h' \<and> json_view True p = json_view True p'"
proof -
  have eq: "canonical L h @ (''::'' @ canonical L p) = canonical L h' @ (''::'' @ canonical L p')"
    using assms(6) by (simp add: event_preimage_def)
  have "json_view True h = json_view True h' \<and> ''::'' @ canonical L p = ''::'' @ canonical L p'"
    by (rule parses_prefix_unique [OF _ _ eq, where fc = "floats L"])
      (simp_all add: assms canonical_def parses_canonical)
  then show ?thesis using assms(1,4,5) by (simp add: canonical_def canonical_json_eq_iff)
qed

lemma compute_event_id_preimage: "compute_event_id L h p = sha256_hex L (event_preimage L h p)"
  by (simp add: compute_event_id_def event_preimage_def)

text \<open>
  C14: an event identifier pins down the header and the payload: two events with the same
  identifier agree on both, up to the order of object keys, unless the two hashed texts are a
  collision of SHA-256.
\<close>

theorem compute_event_id_inj:
  assumes "codec_ok (floats L)" "wf_json h" "wf_json h'" "wf_json p" "wf_json p'"
    and "compute_event_id L h p = compute_event_id L h' p'"
  shows "(json_view True h = json_view True h' \<and> json_view True p = json_view True p') \<or>
    sha_collision L (event_preimage L h p) (event_preimage L h' p')"
  using assms(6) event_preimage_inj [OF assms(1-5)]
  by (auto simp: compute_event_id_preimage dest: sha256_hex_eqD)

text \<open>A library instance for running the model: the digest of a text is the text itself.\<close>

definition demo_lib :: pylib where
  "demo_lib = \<lparr>floats = ratio_codec, sha256 = (\<lambda>s. s), hmac_sha256 = (\<lambda>k s. k @ '':'' @ s)\<rparr>"

lemma demo_lib_ok [simp]: "codec_ok (floats demo_lib)" "\<not> sha_collision demo_lib x y"
  by (simp_all add: sha_collision_def demo_lib_def codec_ok_ratio)

theorem compute_event_id_inj_witness:
  "json_view True (JObj [(''b'', JInt 1), (''a'', JInt 2)]) = json_view True (JObj [(''a'', JInt 2), (''b'', JInt 1)])"
proof -
  let ?h = "JObj [(''b'', JInt 1), (''a'', JInt 2)]" and ?h' = "JObj [(''a'', JInt 2), (''b'', JInt 1)]"
  have "compute_event_id demo_lib ?h JNull = compute_event_id demo_lib ?h' JNull"
    by (simp add: compute_event_id_def canonical_def canonical_json_def)
  from compute_event_id_inj [OF demo_lib_ok(1) _ _ _ _ this] show ?thesis by simp
qed

section \<open>Median\<close>

lemma median_bounds:
  assumes "median xs = Inr m" "x \<in> set xs"
  shows "Min (set xs) \<le> m" and "m \<le> Max (set xs)"
proof -
  let ?o = "sort xs" let ?k = "length xs div 2"
  have ne: "xs \<noteq> []" using assms(2) by auto
  have in_range: "Min (set xs) \<le> ?o ! i \<and> ?o ! i \<le> Max (set xs)" if "i < length xs" for i
  proof -
    have "?o ! i \<in> set xs" using that by (metis length_sort nth_mem set_sort)
    then show ?thesis by simp
  qed
  have k: "?k < length xs" "?k - 1 < length xs" using ne by (auto simp: less_imp_diff_less)
  show "Min (set xs) \<le> m" "m \<le> Max (set xs)"
    using assms(1) ne in_range [OF k(1)] in_range [OF k(2)]
    by (auto simp: median_def Let_def split: if_splits)
qed

lemma median_perm: "mset xs = mset ys \<Longrightarrow> median xs = median ys"
proof -
  assume m: "mset xs = mset ys"
  then have "sort xs = sort ys" using sort_key_perm_eq [of xs ys "\<lambda>x. x"] by simp
  moreover have "xs = [] \<longleftrightarrow> ys = []" using m by auto
  ultimately show ?thesis by (simp add: median_def)
qed

end
