(* ===== verification/VectorClock.thy ===== *)
theory VectorClock
  imports Json
begin

text \<open>
  Lamport and vector clocks (\<open>mdrj/vectorclock.py\<close>). A clock is the dictionary the code
  keeps; a node that does not occur counts as zero. The theory shows that \<open>relation\<close>
  decides the pointwise order, that \<open>merge\<close> is the least upper bound, that
  \<open>increment\<close> moves strictly forward, and that the Lamport sum respects causality.
\<close>

section \<open>Operations\<close>

type_synonym vclock = "(string, int) dict"

datatype VectorRelation = BEFORE | AFTER | CONCURRENT | EQUAL

definition vc_get :: "vclock \<Rightarrow> string \<Rightarrow> int" where
  "vc_get c k = dict_get c k 0"

definition vc_increment :: "vclock \<Rightarrow> string \<Rightarrow> vclock" where
  "vc_increment c node_id = AList.update node_id (vc_get c node_id + 1) c"

definition vc_merge :: "vclock \<Rightarrow> vclock \<Rightarrow> vclock" where
  "vc_merge c other = fold (\<lambda>(node_id, counter) m. AList.update node_id (max (vc_get m node_id) counter) m) other c"

definition vc_relation_step :: "vclock \<Rightarrow> vclock \<Rightarrow> string \<Rightarrow> bool \<times> bool \<Rightarrow> bool \<times> bool" where
  "vc_relation_step c other key = (\<lambda>(a_dominates, b_dominates).
     let a = vc_get c key; b = vc_get other key
     in if a < b then (a_dominates, True)
        else if a > b then (True, b_dominates)
        else (a_dominates, b_dominates))"

definition vc_relation :: "vclock \<Rightarrow> vclock \<Rightarrow> VectorRelation" where
  "vc_relation c other =
     (let keys = remdups (map fst c @ map fst other);
          (a_dominates, b_dominates) = fold (vc_relation_step c other) keys (False, False)
      in if a_dominates \<and> \<not> b_dominates then AFTER
         else if b_dominates \<and> \<not> a_dominates then BEFORE
         else if \<not> a_dominates \<and> \<not> b_dominates then EQUAL
         else CONCURRENT)"

definition happened_before :: "vclock \<Rightarrow> vclock \<Rightarrow> bool" where
  "happened_before c other \<longleftrightarrow> vc_relation c other = BEFORE"

definition lamport_sum :: "vclock \<Rightarrow> int" where
  "lamport_sum c = sum_list (map snd c)"

definition compare_lamport :: "vclock \<Rightarrow> vclock \<Rightarrow> int" where
  "compare_lamport c other =
     (let total_self = lamport_sum c; total_other = lamport_sum other
      in if total_self < total_other then - 1 else if total_self > total_other then 1 else 0)"

definition merge_all :: "vclock list \<Rightarrow> vclock" where
  "merge_all clocks = foldl vc_merge [] clocks"

section \<open>What the operations compute\<close>

lemma vc_get_update [simp]:
  "vc_get (AList.update k v c) k' = (if k' = k then v else vc_get c k')"
  by (simp add: vc_get_def dict_get_def)

lemma vc_get_Nil [simp]: "vc_get [] k = 0"
  by (simp add: vc_get_def dict_get_def)

lemma vc_get_notin: "k \<notin> fst ` set c \<Longrightarrow> vc_get c k = 0"
  by (simp add: vc_get_def dict_get_def map_of_eq_None_iff [symmetric])

lemma vc_get_Cons: "vc_get ((k, n) # c) k' = (if k' = k then n else vc_get c k')"
  by (simp add: vc_get_def dict_get_def)

lemma vc_get_increment:
  "vc_get (vc_increment c n) k = (if k = n then vc_get c n + 1 else vc_get c k)"
  by (simp add: vc_increment_def)

lemma vc_merge_Cons [simp]:
  "vc_merge c ((k, n) # other) = vc_merge (AList.update k (max (vc_get c k) n) c) other"
  by (simp add: vc_merge_def)

lemma vc_merge_Nil [simp]: "vc_merge c [] = c"
  by (simp add: vc_merge_def)

lemma dict_ok_merge [simp]: "dict_ok c \<Longrightarrow> dict_ok (vc_merge c other)"
  by (induction other arbitrary: c) (auto split: prod.splits)

lemma vc_get_merge:
  assumes "dict_ok other"
  shows "vc_get (vc_merge c other) k =
    (if k \<in> fst ` set other then max (vc_get c k) (vc_get other k) else vc_get c k)"
  using assms
proof (induction other arbitrary: c)
  case Nil
  then show ?case by simp
next
  case (Cons kn other)
  then show ?case by (cases kn) (auto simp: vc_get_Cons)
qed

definition vc_nonneg :: "vclock \<Rightarrow> bool" where
  "vc_nonneg c \<longleftrightarrow> list_all (\<lambda>(k, n). 0 \<le> n) c"

lemma vc_nonneg_get: "vc_nonneg c \<Longrightarrow> 0 \<le> vc_get c k"
  by (induction c) (auto simp: vc_nonneg_def vc_get_Cons)

lemma vc_nonneg_update: "vc_nonneg c \<Longrightarrow> 0 \<le> n \<Longrightarrow> vc_nonneg (AList.update k n c)"
  by (induction c) (auto simp: vc_nonneg_def)

lemma vc_nonneg_increment: "vc_nonneg c \<Longrightarrow> vc_nonneg (vc_increment c n)"
  using vc_nonneg_get [of c n] by (simp add: vc_increment_def vc_nonneg_update)

lemma vc_nonneg_merge: "vc_nonneg c \<Longrightarrow> vc_nonneg (vc_merge c other)"
proof (induction other arbitrary: c)
  case Nil
  then show ?case by simp
next
  case (Cons kn other)
  obtain k n where kn: "kn = (k, n)" by (cases kn)
  have "0 \<le> max (vc_get c k) n" using vc_nonneg_get [OF Cons.prems, of k] by simp
  with Cons.prems have "vc_nonneg (AList.update k (max (vc_get c k) n) c)" by (rule vc_nonneg_update)
  then show ?case unfolding kn vc_merge_Cons by (rule Cons.IH)
qed

lemma vc_get_merge_max:
  assumes "dict_ok other" "vc_nonneg c"
  shows "vc_get (vc_merge c other) k = max (vc_get c k) (vc_get other k)"
proof (cases "k \<in> fst ` set other")
  case False
  then have "vc_get other k = 0" by (rule vc_get_notin)
  with False assms vc_nonneg_get [OF assms(2), of k] show ?thesis by (simp add: vc_get_merge)
qed (use assms in \<open>simp add: vc_get_merge\<close>)

section \<open>The order on clocks\<close>

lemma relation_fold:
  "fold (vc_relation_step a b) ks (x, y) =
     (x \<or> (\<exists>k \<in> set ks. vc_get a k > vc_get b k), y \<or> (\<exists>k \<in> set ks. vc_get a k < vc_get b k))"
  by (induction ks arbitrary: x y) (auto simp: vc_relation_step_def Let_def)

lemma ex_keys_iff:
  assumes "\<And>k. P k \<Longrightarrow> vc_get a k \<noteq> vc_get b k"
  shows "(\<exists>k \<in> set (remdups (map fst a @ map fst b)). P k) \<longleftrightarrow> (\<exists>k. P k)"
proof
  assume "\<exists>k. P k"
  then obtain k where k: "P k" ..
  then have "vc_get a k \<noteq> vc_get b k" by (rule assms)
  then have "k \<in> fst ` set a \<union> fst ` set b" using vc_get_notin by fastforce
  with k show "\<exists>k \<in> set (remdups (map fst a @ map fst b)). P k" by auto
qed auto

lemma vc_relation_cases:
  "vc_relation a b =
     (let up = (\<exists>k. vc_get a k < vc_get b k); dn = (\<exists>k. vc_get a k > vc_get b k)
      in if dn \<and> \<not> up then AFTER else if up \<and> \<not> dn then BEFORE
         else if \<not> dn \<and> \<not> up then EQUAL else CONCURRENT)"
proof -
  let ?K = "set (remdups (map fst a @ map fst b))"
  have "(\<exists>k \<in> ?K. vc_get a k > vc_get b k) \<longleftrightarrow> (\<exists>k. vc_get a k > vc_get b k)"
    and "(\<exists>k \<in> ?K. vc_get a k < vc_get b k) \<longleftrightarrow> (\<exists>k. vc_get a k < vc_get b k)"
    by (rule ex_keys_iff, simp)+
  then show ?thesis unfolding vc_relation_def relation_fold Let_def
    by (simp del: set_remdups set_append)
qed

lemma happened_before_iff:
  "happened_before a b \<longleftrightarrow> (\<forall>k. vc_get a k \<le> vc_get b k) \<and> (\<exists>k. vc_get a k < vc_get b k)"
  by (auto simp: happened_before_def vc_relation_cases Let_def not_less)

text \<open>
  \<open>VectorClock.relation\<close> classifies two clocks by the pointwise order on counters,
  absent counters being zero: BEFORE and AFTER are the two strict directions, EQUAL is
  equality of all counters, CONCURRENT means that each clock is ahead somewhere.
\<close>

theorem vc_relation_spec:
  "(vc_relation a b = BEFORE \<longleftrightarrow> (\<forall>k. vc_get a k \<le> vc_get b k) \<and> (\<exists>k. vc_get a k < vc_get b k)) \<and>
   (vc_relation a b = AFTER \<longleftrightarrow> (\<forall>k. vc_get b k \<le> vc_get a k) \<and> (\<exists>k. vc_get b k < vc_get a k)) \<and>
   (vc_relation a b = EQUAL \<longleftrightarrow> (\<forall>k. vc_get a k = vc_get b k)) \<and>
   (vc_relation a b = CONCURRENT \<longleftrightarrow> (\<exists>k. vc_get a k < vc_get b k) \<and> (\<exists>k. vc_get b k < vc_get a k))"
proof -
  have "(\<forall>k. vc_get a k \<le> vc_get b k) \<longleftrightarrow> \<not> (\<exists>k. vc_get b k < vc_get a k)"
    and "(\<forall>k. vc_get b k \<le> vc_get a k) \<longleftrightarrow> \<not> (\<exists>k. vc_get a k < vc_get b k)"
    and "(\<forall>k. vc_get a k = vc_get b k) \<longleftrightarrow> \<not> (\<exists>k. vc_get a k < vc_get b k) \<and> \<not> (\<exists>k. vc_get b k < vc_get a k)"
    by (auto simp: not_less order_eq_iff)
  then show ?thesis unfolding vc_relation_cases Let_def by simp
qed

text \<open>
  Merging is the join of the causal order: the merged clock is an upper bound of both
  clocks, and every clock above both is above the merge.
\<close>

theorem vc_merge_lub:
  assumes "dict_ok b" "vc_nonneg a"
  shows "(\<forall>k. vc_get a k \<le> vc_get (vc_merge a b) k) \<and> (\<forall>k. vc_get b k \<le> vc_get (vc_merge a b) k) \<and>
     (\<forall>u. (\<forall>k. vc_get a k \<le> vc_get u k) \<and> (\<forall>k. vc_get b k \<le> vc_get u k)
          \<longrightarrow> (\<forall>k. vc_get (vc_merge a b) k \<le> vc_get u k))"
  by (simp add: vc_get_merge_max [OF assms])

lemma happened_before_increment: "happened_before c (vc_increment c n)"
  by (auto simp: happened_before_iff vc_get_increment)

theorem vc_merge_lub_witness:
  "vc_nonneg [(''a'', 1)] \<and> vc_get [(''b'', 2)] ''b'' \<le> vc_get (vc_merge [(''a'', 1)] [(''b'', 2)]) ''b''"
  using vc_merge_lub [of "[(''b'', 2)]" "[(''a'', 1)]"] by (simp add: vc_nonneg_def)

section \<open>Lamport time\<close>

lemma lamport_sum_superset:
  assumes "dict_ok c" "finite K" "fst ` set c \<subseteq> K"
  shows "lamport_sum c = (\<Sum>k \<in> K. vc_get c k)"
proof -
  have "lamport_sum c = (\<Sum>k \<in> fst ` set c. vc_get c k)"
    using assms(1)
  proof (induction c)
    case Nil
    then show ?case by (simp add: lamport_sum_def)
  next
    case (Cons kn c)
    obtain k n where kn: "kn = (k, n)" by (cases kn)
    have "(\<Sum>k' \<in> fst ` set c. vc_get (kn # c) k') = (\<Sum>k' \<in> fst ` set c. vc_get c k')"
      using Cons.prems kn by (intro sum.cong) (auto simp: vc_get_Cons)
    with Cons kn show ?case by (simp add: lamport_sum_def vc_get_Cons)
  qed
  also have "\<dots> = (\<Sum>k \<in> K. vc_get c k)"
    using assms(2,3) by (intro sum.mono_neutral_left) (auto simp: vc_get_notin)
  finally show ?thesis .
qed

text \<open>
  The clock condition: if one clock happened before another, its Lamport timestamp
  (the sum of its counters, which \<open>Event.create\<close> stores as \<open>lamport_ts\<close>) is smaller.
\<close>

lemma lamport_clock_condition:
  assumes "dict_ok a" "dict_ok b" "happened_before a b"
  shows "compare_lamport a b = - 1"
proof -
  let ?K = "fst ` set a \<union> fst ` set b"
  from assms(3) obtain k where le: "\<forall>k. vc_get a k \<le> vc_get b k" and lt: "vc_get a k < vc_get b k"
    by (auto simp: happened_before_iff)
  have "k \<in> ?K" using lt vc_get_notin by fastforce
  then have "(\<Sum>k \<in> ?K. vc_get a k) < (\<Sum>k \<in> ?K. vc_get b k)"
    using le lt by (intro sum_strict_mono_ex1) auto
  with assms(1,2) have "lamport_sum a < lamport_sum b"
    by (simp add: lamport_sum_superset [of _ ?K])
  then show ?thesis by (simp add: compare_lamport_def)
qed

end
