(* ===== verification/Models.thy ===== *)
theory Models
  imports Utils VectorClock
begin

text \<open>
  \<open>mdrj/models.py\<close>: events, envelopes, peer descriptions, and the three ways an event is
  written down: the database row (\<open>to_record\<close>, \<open>from_record\<close>), the JSON object sent to
  other nodes (\<open>to_dict\<close>, \<open>from_dict\<close>) and the hashed header (\<open>create\<close>).

  Fields have the types the dataclass annotates. Where a decoder meets a value of another
  type the model answers \<open>TypeError\<close>; Python would keep the value and fail later.
  A hop of \<open>path_meta\<close> is the record of its two keys \<open>node\<close> and \<open>ts\<close>.
\<close>

section \<open>Enumerations\<close>

definition NODE_ROLES :: "string list" where
  "NODE_ROLES = [''node'', ''responder'']"

definition normalize_node_role :: "string option \<Rightarrow> string" where
  "normalize_node_role value =
     (let text = py_lower (py_strip (opt_str value))
      in if text \<in> set NODE_ROLES then text else ''node'')"

definition PEER_APPROVAL_STATUSES :: "string list" where
  "PEER_APPROVAL_STATUSES = [''pending'', ''approved'', ''rejected'']"

definition normalize_approval_status :: "string option \<Rightarrow> string" where
  "normalize_approval_status value =
     (let text = py_lower (py_strip (opt_str value))
      in if text \<in> set PEER_APPROVAL_STATUSES then text else ''approved'')"

datatype EventClass = ClassA | ClassB | ClassC

fun cls_value :: "EventClass \<Rightarrow> string" where
  "cls_value ClassA = ''A''"
| "cls_value ClassB = ''B''"
| "cls_value ClassC = ''C''"

definition cls_from_str :: "string \<Rightarrow> EventClass result" where
  "cls_from_str v =
     (if v = ''A'' then Inr ClassA else if v = ''B'' then Inr ClassB
      else if v = ''C'' then Inr ClassC
      else Inl (ValueError (''unknown event class: '' @ v)))"

record node_profile =
  np_memory_mb :: int
  np_bw_kbps :: int
  np_cpu_quota :: rat
  np_role :: string
  np_threat_level :: string

section \<open>Events\<close>

record event =
  ev_id :: string
  ev_cls :: EventClass
  ev_source :: string
  ev_creator :: string
  ev_ts_local :: timestamp
  ev_vclock :: vclock
  ev_parents :: "string list"
  ev_self_parent_id :: "string option"
  ev_other_parent_id :: "string option"
  ev_payload :: "(string, json) dict"
  ev_sig :: "string option"
  ev_consensus_ts :: "timestamp option"
  ev_lamport_ts :: "int option"
  ev_round :: "int option"
  ev_round_received :: "int option"
  ev_is_witness :: bool
  ev_is_famous_witness :: bool
  ev_fame_decided :: bool
  ev_fame_decision_round :: "int option"
  ev_fame_decision_kind :: string
  ev_fame_needs_coin :: bool
  ev_fame_coin_used :: bool
  ev_fame_coin_round :: "int option"
  ev_fame_vote_round :: "int option"
  ev_fame_vote_yes :: int
  ev_fame_vote_no :: int

text \<open>\<open>event.creator or event.source\<close>, as the consensus code reads the creator.\<close>

definition creator_of :: "event \<Rightarrow> string" where
  "creator_of e = str_or (ev_creator e) (ev_source e)"

definition clock_json :: "vclock \<Rightarrow> json" where
  "clock_json vc = JObj (map (\<lambda>(k, i). (k, JInt i)) vc)"

definition strs_json :: "string list \<Rightarrow> json" where
  "strs_json xs = JList (map JStr xs)"

definition nth_opt :: "'a list \<Rightarrow> nat \<Rightarrow> 'a option" where
  "nth_opt xs i = (if i < length xs then Some (xs ! i) else None)"

definition first_some :: "'a option \<Rightarrow> 'a option \<Rightarrow> 'a option" where
  "first_some a b = (case a of Some x \<Rightarrow> Some x | None \<Rightarrow> b)"

definition event_header :: "EventClass \<Rightarrow> string \<Rightarrow> timestamp \<Rightarrow> vclock \<Rightarrow> string list \<Rightarrow> json" where
  "event_header c source ts vc parents =
     JObj [(''cls'', JStr (cls_value c)), (''source'', JStr source), (''ts_local'', JFloat ts),
           (''vclock'', clock_json vc), (''parents'', strs_json parents)]"

definition event_create :: "pylib \<Rightarrow> EventClass \<Rightarrow> string \<Rightarrow> timestamp \<Rightarrow> vclock \<Rightarrow> string list \<Rightarrow>
    (string, json) dict \<Rightarrow> string option \<Rightarrow> string option \<Rightarrow> string option \<Rightarrow> string option \<Rightarrow> event" where
  "event_create L cls_name source ts_local vc parents payload sig creator self_parent other_parent =
     \<lparr>ev_id = compute_event_id L (event_header cls_name source ts_local vc parents) (JObj payload),
      ev_cls = cls_name,
      ev_source = source,
      ev_creator = str_or (opt_str creator) source,
      ev_ts_local = ts_local,
      ev_vclock = vc,
      ev_parents = parents,
      ev_self_parent_id = first_some self_parent (nth_opt parents 0),
      ev_other_parent_id = first_some other_parent (nth_opt parents 1),
      ev_payload = payload,
      ev_sig = sig,
      ev_consensus_ts = None,
      ev_lamport_ts = Some (sum_list (map snd vc)),
      ev_round = None,
      ev_round_received = None,
      ev_is_witness = False,
      ev_is_famous_witness = False,
      ev_fame_decided = False,
      ev_fame_decision_round = None,
      ev_fame_decision_kind = ''pending'',
      ev_fame_needs_coin = False,
      ev_fame_coin_used = False,
      ev_fame_coin_round = None,
      ev_fame_vote_round = None,
      ev_fame_vote_yes = 0,
      ev_fame_vote_no = 0\<rparr>"

section \<open>Decoding JSON values\<close>

fun json_truthy :: "json \<Rightarrow> bool" where
  "json_truthy JNull = False"
| "json_truthy (JBool b) = b"
| "json_truthy (JInt i) = (i \<noteq> 0)"
| "json_truthy (JFloat x) = (x \<noteq> 0)"
| "json_truthy (JStr s) = (s \<noteq> [])"
| "json_truthy (JList js) = (js \<noteq> [])"
| "json_truthy (JObj kvs) = (kvs \<noteq> [])"

definition get_item :: "(string, json) dict \<Rightarrow> string \<Rightarrow> json result" where
  "get_item d k = (case map_of d k of None \<Rightarrow> Inl (KeyError k) | Some v \<Rightarrow> Inr v)"

definition jget :: "(string, json) dict \<Rightarrow> string \<Rightarrow> json" where
  "jget d k = dict_get d k JNull"

fun as_str :: "json \<Rightarrow> string result" where
  "as_str (JStr s) = Inr s"
| "as_str _ = Inl TypeError"

fun as_obj :: "json \<Rightarrow> (string, json) dict result" where
  "as_obj (JObj kvs) = Inr kvs"
| "as_obj _ = Inl TypeError"

fun as_opt_str :: "json \<Rightarrow> string option result" where
  "as_opt_str JNull = Inr None"
| "as_opt_str (JStr s) = Inr (Some s)"
| "as_opt_str _ = Inl TypeError"

fun as_opt_int :: "json \<Rightarrow> int option result" where
  "as_opt_int JNull = Inr None"
| "as_opt_int (JInt i) = Inr (Some i)"
| "as_opt_int _ = Inl TypeError"

fun as_opt_float :: "json \<Rightarrow> rat option result" where
  "as_opt_float JNull = Inr None"
| "as_opt_float (JFloat x) = Inr (Some x)"
| "as_opt_float (JInt i) = Inr (Some (of_int i))"
| "as_opt_float _ = Inl TypeError"

text \<open>\<open>float(value)\<close> and \<open>int(value or 0)\<close>.\<close>

fun py_float :: "float_codec \<Rightarrow> json \<Rightarrow> rat result" where
  "py_float fc (JFloat x) = Inr x"
| "py_float fc (JInt i) = Inr (of_int i)"
| "py_float fc (JBool b) = Inr (if b then 1 else 0)"
| "py_float fc (JStr s) = (case parse_float fc (py_strip s) of Some x \<Rightarrow> Inr x
     | None \<Rightarrow> Inl (ValueError ''could not convert string to float''))"
| "py_float fc _ = Inl TypeError"

definition rat_trunc :: "rat \<Rightarrow> int" where
  "rat_trunc x = (if 0 \<le> x then \<lfloor>x\<rfloor> else \<lceil>x\<rceil>)"

fun int_or_zero :: "json \<Rightarrow> int result" where
  "int_or_zero (JInt i) = Inr i"
| "int_or_zero (JFloat x) = Inr (rat_trunc x)"
| "int_or_zero (JBool b) = Inr (if b then 1 else 0)"
| "int_or_zero j = (if json_truthy j then Inl TypeError else Inr 0)"

fun json_strs :: "json \<Rightarrow> string list result" where
  "json_strs (JList js) = res_map as_str js"
| "json_strs _ = Inl TypeError"

fun as_int :: "json \<Rightarrow> int result" where
  "as_int (JInt i) = Inr i"
| "as_int _ = Inl TypeError"

fun json_clock :: "json \<Rightarrow> vclock result" where
  "json_clock (JObj kvs) = res_map (\<lambda>(k, v). res_bind (as_int v) (\<lambda>i. Inr (k, i))) kvs"
| "json_clock _ = Inl TypeError"

lemma as_str_JStr_map [simp]: "res_map as_str (map JStr xs) = Inr xs"
  by (induction xs) auto

lemma json_strs_strs_json [simp]: "json_strs (strs_json xs) = Inr xs"
  by (simp add: strs_json_def)

lemma json_clock_clock_json [simp]: "json_clock (clock_json vc) = Inr vc"
  by (induction vc) (auto simp: clock_json_def)

section \<open>Database rows\<close>

record event_row =
  r_id :: string
  r_cls :: string
  r_source :: string
  r_creator :: "string option"
  r_ts_local :: timestamp
  r_vclock :: string
  r_parents :: string
  r_self_parent_id :: "string option"
  r_other_parent_id :: "string option"
  r_payload :: string
  r_sig :: "string option"
  r_consensus_ts :: "timestamp option"
  r_lamport_ts :: "int option"
  r_round :: "int option"
  r_round_received :: "int option"
  r_is_witness :: int
  r_is_famous_witness :: int
  r_fame_decided :: int
  r_fame_decision_round :: "int option"
  r_fame_decision_kind :: "string option"
  r_fame_needs_coin :: int
  r_fame_coin_used :: int
  r_fame_coin_round :: "int option"
  r_fame_vote_round :: "int option"
  r_fame_vote_yes :: "int option"
  r_fame_vote_no :: "int option"

definition event_to_record :: "pylib \<Rightarrow> event \<Rightarrow> event_row" where
  "event_to_record L e =
     \<lparr>r_id = ev_id e,
      r_cls = cls_value (ev_cls e),
      r_source = ev_source e,
      r_creator = Some (ev_creator e),
      r_ts_local = ev_ts_local e,
      r_vclock = canonical L (clock_json (ev_vclock e)),
      r_parents = canonical L (strs_json (ev_parents e)),
      r_self_parent_id = ev_self_parent_id e,
      r_other_parent_id = ev_other_parent_id e,
      r_payload = canonical L (JObj (ev_payload e)),
      r_sig = ev_sig e,
      r_consensus_ts = ev_consensus_ts e,
      r_lamport_ts = ev_lamport_ts e,
      r_round = ev_round e,
      r_round_received = ev_round_received e,
      r_is_witness = of_bool (ev_is_witness e),
      r_is_famous_witness = of_bool (ev_is_famous_witness e),
      r_fame_decided = of_bool (ev_fame_decided e),
      r_fame_decision_round = ev_fame_decision_round e,
      r_fame_decision_kind = Some (ev_fame_decision_kind e),
      r_fame_needs_coin = of_bool (ev_fame_needs_coin e),
      r_fame_coin_used = of_bool (ev_fame_coin_used e),
      r_fame_coin_round = ev_fame_coin_round e,
      r_fame_vote_round = ev_fame_vote_round e,
      r_fame_vote_yes = Some (ev_fame_vote_yes e),
      r_fame_vote_no = Some (ev_fame_vote_no e)\<rparr>"

definition load_json_field :: "pylib \<Rightarrow> string \<Rightarrow> json \<Rightarrow> json result" where
  "load_json_field L raw dflt =
     (if raw = [] then Inr dflt
      else case json_loads (floats L) raw of
             Some j \<Rightarrow> Inr j
           | None \<Rightarrow> Inl (ValueError ''Expecting value''))"

definition event_from_record :: "pylib \<Rightarrow> ('a) event_row_scheme \<Rightarrow> event result" where
  "event_from_record L r =
     res_bind (res_bind (load_json_field L (r_parents r) (JList [])) json_strs) (\<lambda>parents.
     res_bind (cls_from_str (str_or (r_cls r) ''C'')) (\<lambda>cls.
     res_bind (res_bind (load_json_field L (r_vclock r) (JObj [])) json_clock) (\<lambda>vclock.
     res_bind (res_bind (load_json_field L (r_payload r) (JObj [])) as_obj) (\<lambda>payload.
     Inr \<lparr>ev_id = r_id r,
      ev_cls = cls,
      ev_source = str_or (r_source r) ''unknown'',
      ev_creator = str_or (opt_str (r_creator r)) (str_or (r_source r) ''unknown''),
      ev_ts_local = r_ts_local r,
      ev_vclock = vclock,
      ev_parents = parents,
      ev_self_parent_id = first_some (r_self_parent_id r) (nth_opt parents 0),
      ev_other_parent_id = first_some (r_other_parent_id r) (nth_opt parents 1),
      ev_payload = payload,
      ev_sig = r_sig r,
      ev_consensus_ts = r_consensus_ts r,
      ev_lamport_ts = r_lamport_ts r,
      ev_round = r_round r,
      ev_round_received = r_round_received r,
      ev_is_witness = (r_is_witness r \<noteq> 0),
      ev_is_famous_witness = (r_is_famous_witness r \<noteq> 0),
      ev_fame_decided = (r_fame_decided r \<noteq> 0),
      ev_fame_decision_round = r_fame_decision_round r,
      ev_fame_decision_kind = str_or (opt_str (r_fame_decision_kind r)) ''pending'',
      ev_fame_needs_coin = (r_fame_needs_coin r \<noteq> 0),
      ev_fame_coin_used = (r_fame_coin_used r \<noteq> 0),
      ev_fame_coin_round = r_fame_coin_round r,
      ev_fame_vote_round = r_fame_vote_round r,
      ev_fame_vote_yes = (case r_fame_vote_yes r of Some n \<Rightarrow> n | None \<Rightarrow> 0),
      ev_fame_vote_no = (case r_fame_vote_no r of Some n \<Rightarrow> n | None \<Rightarrow> 0)\<rparr>))))"

section \<open>Wire format\<close>

fun opt_json :: "('a \<Rightarrow> json) \<Rightarrow> 'a option \<Rightarrow> json" where
  "opt_json f None = JNull"
| "opt_json f (Some x) = f x"

definition event_to_dict :: "event \<Rightarrow> (string, json) dict" where
  "event_to_dict e =
     [(''id'', JStr (ev_id e)),
      (''cls'', JStr (cls_value (ev_cls e))),
      (''source'', JStr (ev_source e)),
      (''creator'', JStr (ev_creator e)),
      (''ts_local'', JFloat (ev_ts_local e)),
      (''vclock'', clock_json (ev_vclock e)),
      (''parents'', strs_json (ev_parents e)),
      (''self_parent_id'', opt_json JStr (ev_self_parent_id e)),
      (''other_parent_id'', opt_json JStr (ev_other_parent_id e)),
      (''payload'', JObj (ev_payload e)),
      (''sig'', opt_json JStr (ev_sig e)),
      (''consensus_ts'', opt_json JFloat (ev_consensus_ts e)),
      (''lamport_ts'', opt_json JInt (ev_lamport_ts e)),
      (''round'', opt_json JInt (ev_round e)),
      (''round_received'', opt_json JInt (ev_round_received e)),
      (''is_witness'', JBool (ev_is_witness e)),
      (''is_famous_witness'', JBool (ev_is_famous_witness e)),
      (''fame_decided'', JBool (ev_fame_decided e)),
      (''fame_decision_round'', opt_json JInt (ev_fame_decision_round e)),
      (''fame_decision_kind'', JStr (ev_fame_decision_kind e)),
      (''fame_needs_coin'', JBool (ev_fame_needs_coin e)),
      (''fame_coin_used'', JBool (ev_fame_coin_used e)),
      (''fame_coin_round'', opt_json JInt (ev_fame_coin_round e)),
      (''fame_vote_round'', opt_json JInt (ev_fame_vote_round e)),
      (''fame_vote_yes'', JInt (ev_fame_vote_yes e)),
      (''fame_vote_no'', JInt (ev_fame_vote_no e))]"

record hop =
  hop_node :: "string option"
  hop_ts :: "timestamp option"

record envelope =
  env_event :: event
  env_path_meta :: "hop list"

definition add_hop :: "string \<Rightarrow> timestamp \<Rightarrow> envelope \<Rightarrow> envelope" where
  "add_hop node_id ts env =
     env\<lparr>env_path_meta := env_path_meta env @ [\<lparr>hop_node = Some node_id, hop_ts = Some ts\<rparr>]\<rparr>"

definition consensus_candidates :: "envelope \<Rightarrow> timestamp list" where
  "consensus_candidates env = List.map_filter hop_ts (env_path_meta env)"

definition hop_json :: "hop \<Rightarrow> json" where
  "hop_json h = JObj [(''node'', opt_json JStr (hop_node h)), (''ts'', opt_json JFloat (hop_ts h))]"

definition json_hop :: "json \<Rightarrow> hop result" where
  "json_hop j =
     res_bind (as_obj j) (\<lambda>d.
     res_bind (as_opt_str (jget d ''node'')) (\<lambda>node.
     res_bind (as_opt_float (jget d ''ts'')) (\<lambda>ts.
     Inr \<lparr>hop_node = node, hop_ts = ts\<rparr>)))"

definition envelope_to_dict :: "envelope \<Rightarrow> json" where
  "envelope_to_dict env =
     JObj [(''event'', JObj (event_to_dict (env_event env))),
           (''path_meta'', JList (map hop_json (env_path_meta env)))]"

text \<open>\<open>data.get(k) or default\<close> for optional text.\<close>

definition opt_or :: "string option \<Rightarrow> string option \<Rightarrow> string option" where
  "opt_or a b = (if opt_str a = [] then b else a)"

definition event_from_dict :: "pylib \<Rightarrow> (string, json) dict \<Rightarrow> event result" where
  "event_from_dict L d =
     res_bind (res_bind (get_item d ''id'') as_str) (\<lambda>id.
     res_bind (res_bind (res_bind (get_item d ''cls'') as_str) cls_from_str) (\<lambda>cls.
     res_bind (res_bind (get_item d ''source'') as_str) (\<lambda>source.
     res_bind (as_opt_str (jget d ''creator'')) (\<lambda>creator.
     res_bind (res_bind (get_item d ''ts_local'') (py_float (floats L))) (\<lambda>ts_local.
     res_bind (res_bind (get_item d ''vclock'') json_clock) (\<lambda>vclock.
     res_bind (res_bind (get_item d ''parents'') json_strs) (\<lambda>parents.
     res_bind (as_opt_str (jget d ''self_parent_id'')) (\<lambda>self_parent.
     res_bind (as_opt_str (jget d ''other_parent_id'')) (\<lambda>other_parent.
     res_bind (res_bind (get_item d ''payload'') as_obj) (\<lambda>payload.
     res_bind (as_opt_str (jget d ''sig'')) (\<lambda>sig.
     res_bind (as_opt_float (jget d ''consensus_ts'')) (\<lambda>consensus_ts.
     res_bind (as_opt_int (jget d ''lamport_ts'')) (\<lambda>lamport_ts.
     res_bind (as_opt_int (jget d ''round'')) (\<lambda>round.
     res_bind (as_opt_int (jget d ''round_received'')) (\<lambda>round_received.
     res_bind (as_opt_int (jget d ''fame_decision_round'')) (\<lambda>fame_decision_round.
     res_bind (if json_truthy (jget d ''fame_decision_kind'')
               then as_str (jget d ''fame_decision_kind'') else Inr ''pending'') (\<lambda>kind.
     res_bind (as_opt_int (jget d ''fame_coin_round'')) (\<lambda>fame_coin_round.
     res_bind (as_opt_int (jget d ''fame_vote_round'')) (\<lambda>fame_vote_round.
     res_bind (int_or_zero (jget d ''fame_vote_yes'')) (\<lambda>vote_yes.
     res_bind (int_or_zero (jget d ''fame_vote_no'')) (\<lambda>vote_no.
     Inr \<lparr>ev_id = id, ev_cls = cls, ev_source = source,
      ev_creator = str_or (opt_str creator) source,
      ev_ts_local = ts_local, ev_vclock = vclock, ev_parents = parents,
      ev_self_parent_id = opt_or self_parent (nth_opt parents 0),
      ev_other_parent_id = opt_or other_parent (nth_opt parents 1),
      ev_payload = payload, ev_sig = sig, ev_consensus_ts = consensus_ts,
      ev_lamport_ts = lamport_ts, ev_round = round, ev_round_received = round_received,
      ev_is_witness = json_truthy (jget d ''is_witness''),
      ev_is_famous_witness = json_truthy (jget d ''is_famous_witness''),
      ev_fame_decided = json_truthy (jget d ''fame_decided''),
      ev_fame_decision_round = fame_decision_round,
      ev_fame_decision_kind = kind,
      ev_fame_needs_coin = json_truthy (jget d ''fame_needs_coin''),
      ev_fame_coin_used = json_truthy (jget d ''fame_coin_used''),
      ev_fame_coin_round = fame_coin_round,
      ev_fame_vote_round = fame_vote_round,
      ev_fame_vote_yes = vote_yes, ev_fame_vote_no = vote_no\<rparr>)))))))))))))))))))))"

fun json_list :: "json \<Rightarrow> json list result" where
  "json_list (JList js) = Inr js"
| "json_list _ = Inl TypeError"

definition envelope_from_dict :: "pylib \<Rightarrow> json \<Rightarrow> envelope result" where
  "envelope_from_dict L data =
     res_bind (as_obj data) (\<lambda>d.
     res_bind (res_bind (get_item d ''event'') as_obj) (\<lambda>event_data.
     res_bind (event_from_dict L event_data) (\<lambda>event.
     res_bind (res_bind (json_list (dict_get d ''path_meta'' (JList []))) (res_map json_hop)) (\<lambda>path.
     Inr \<lparr>env_event = event, env_path_meta = path\<rparr>))))"

section \<open>Peers\<close>

record peer_info =
  pi_address :: string
  pi_node_id :: string
  pi_last_seen :: "timestamp option"
  pi_healthy :: bool
  pi_enabled :: bool
  pi_note :: string
  pi_source :: string
  pi_role :: string
  pi_is_self :: bool
  pi_approval_status :: string

definition peer_to_dict :: "peer_info \<Rightarrow> (string, json) dict" where
  "peer_to_dict p =
     [(''address'', JStr (pi_address p)),
      (''node_id'', JStr (pi_node_id p)),
      (''last_seen'', opt_json JFloat (pi_last_seen p)),
      (''healthy'', JBool (pi_healthy p)),
      (''enabled'', JBool (pi_enabled p)),
      (''note'', JStr (pi_note p)),
      (''source'', JStr (pi_source p)),
      (''role'', JStr (normalize_node_role (Some (pi_role p)))),
      (''is_self'', JBool (pi_is_self p)),
      (''approval_status'', JStr (normalize_approval_status (Some (pi_approval_status p))))]"

section \<open>Normalised values\<close>

lemma normalize_node_role_in: "normalize_node_role v \<in> set NODE_ROLES"
  by (auto simp: normalize_node_role_def Let_def NODE_ROLES_def)

lemma normalize_node_role_idem [simp]:
  "normalize_node_role (Some (normalize_node_role v)) = normalize_node_role v"
proof -
  have "normalize_node_role v = ''node'' \<or> normalize_node_role v = ''responder''"
    using normalize_node_role_in [of v] by (simp add: NODE_ROLES_def)
  then show ?thesis by (elim disjE) (simp_all, code_simp+)
qed

lemma normalize_approval_in: "normalize_approval_status v \<in> set PEER_APPROVAL_STATUSES"
  by (auto simp: normalize_approval_status_def Let_def PEER_APPROVAL_STATUSES_def)

lemma normalize_approval_idem [simp]:
  "normalize_approval_status (Some (normalize_approval_status v)) = normalize_approval_status v"
proof -
  have "normalize_approval_status v \<in> {''pending'', ''approved'', ''rejected''}"
    using normalize_approval_in [of v] by (auto simp: PEER_APPROVAL_STATUSES_def)
  then show ?thesis by (elim insertE emptyE) (simp_all, code_simp+)
qed

lemma cls_from_str_value [simp]: "cls_from_str (cls_value c) = Inr c"
  by (cases c) (simp_all add: cls_from_str_def)

lemma cls_from_str_Inr: "cls_from_str s = Inr c \<Longrightarrow> s = cls_value c"
  by (auto simp: cls_from_str_def split: if_splits)

lemma cls_value_neq [simp]: "cls_value c \<noteq> []"
  by (cases c) simp_all

lemma first_some_idem [simp]: "first_some (first_some a b) b = first_some a b"
  by (auto simp: first_some_def split: option.splits)

section \<open>Well-formed events\<close>

text \<open>
  What \<open>Event.create\<close> establishes: non-empty names, every dictionary key once, and parent
  references that are filled in from the parent list.
\<close>

definition event_ok :: "event \<Rightarrow> bool" where
  "event_ok e \<longleftrightarrow>
     ev_source e \<noteq> [] \<and> ev_creator e \<noteq> [] \<and> ev_fame_decision_kind e \<noteq> [] \<and>
     dict_ok (ev_vclock e) \<and> wf_json (JObj (ev_payload e)) \<and>
     first_some (ev_self_parent_id e) (nth_opt (ev_parents e) 0) = ev_self_parent_id e \<and>
     first_some (ev_other_parent_id e) (nth_opt (ev_parents e) 1) = ev_other_parent_id e \<and>
     ev_self_parent_id e \<noteq> Some [] \<and> ev_other_parent_id e \<noteq> Some []"

text \<open>The event as the database gives it back: dictionaries with sorted keys.\<close>

definition payload_view :: "(string, json) dict \<Rightarrow> (string, json) dict" where
  "payload_view p = sort_key fst (map (\<lambda>(k, v). (k, json_view True v)) p)"

definition event_view :: "event \<Rightarrow> event" where
  "event_view e = e\<lparr>ev_vclock := sort_key fst (ev_vclock e), ev_payload := payload_view (ev_payload e)\<rparr>"

lemma json_view_payload: "json_view True (JObj p) = JObj (payload_view p)"
  by (simp add: payload_view_def)

lemma json_view_clock: "json_view True (clock_json vc) = clock_json (sort_key fst vc)"
  using sort_key_map_pair [of JInt vc] by (simp add: clock_json_def comp_def case_prod_unfold)

lemma json_view_strs: "json_view srt (strs_json xs) = strs_json xs"
  by (simp add: strs_json_def comp_def)

lemma wf_clock_json [simp]: "wf_json (clock_json vc) \<longleftrightarrow> dict_ok vc"
  by (simp add: clock_json_def list_all_iff comp_def case_prod_unfold)

lemma wf_strs_json [simp]: "wf_json (strs_json xs)"
  by (simp add: strs_json_def list_all_iff)

lemma canonical_nonempty: "codec_ok (floats L) \<Longrightarrow> wf_json j \<Longrightarrow> canonical L j \<noteq> []"
  using parses_canonical [of "floats L" j] by (auto simp: canonical_def parses_def dest: spec [where x = 1])

lemma load_canonical:
  "codec_ok (floats L) \<Longrightarrow> wf_json j \<Longrightarrow> load_json_field L (canonical L j) d = Inr (json_view True j)"
  by (simp add: load_json_field_def canonical_nonempty) (simp add: canonical_def loads_canonical)

text \<open>
  A stored event is read back unchanged, up to the order of the keys of its clock and
  payload: decoding the database row of a well-formed event gives the event.
\<close>

theorem event_record_roundtrip:
  assumes "codec_ok (floats L)" "event_ok e"
  shows "event_from_record L (event_to_record L e) = Inr (event_view e)"
  using assms
  by (simp add: event_from_record_def event_to_record_def event_ok_def load_canonical
      json_view_clock json_view_strs json_view_payload event_view_def str_or_def del: json_view.simps wf_json.simps)

text \<open>
  A decoded event carries the identifier the original was given: identifiers can be checked
  after a round trip through the database.
\<close>

definition event_hash :: "pylib \<Rightarrow> event \<Rightarrow> string" where
  "event_hash L e = compute_event_id L
     (event_header (ev_cls e) (ev_source e) (ev_ts_local e) (ev_vclock e) (ev_parents e)) (JObj (ev_payload e))"

lemma event_hash_view: "event_hash L (event_view e) = event_hash L e"
proof -
  have "json_view True (event_header c s ts (sort_key fst vc) ps) = json_view True (event_header c s ts vc ps)"
    for c s ts vc ps
    using json_view_clock [of vc] json_view_clock [of "sort_key fst vc"] by (simp add: event_header_def)
  then have "canonical L (event_header c s ts (sort_key fst vc) ps) = canonical L (event_header c s ts vc ps)"
    for c s ts vc ps
    unfolding canonical_def by (metis canonical_json_norm)
  moreover have "canonical L (JObj (payload_view p)) = canonical L (JObj p)" for p
    unfolding canonical_def by (metis canonical_json_norm json_view_payload)
  ultimately show ?thesis
    by (simp add: event_hash_def event_view_def compute_event_id_def)
qed

lemma event_create_ok:
  assumes "source \<noteq> []" "dict_ok vc" "wf_json (JObj payload)"
    "self_parent \<noteq> Some []" "other_parent \<noteq> Some []" "[] \<notin> set parents"
  shows "event_ok (event_create L c source ts vc parents payload sig creator self_parent other_parent)"
proof -
  have "nth_opt parents i \<noteq> Some []" for i
    using assms(6) by (auto simp: nth_opt_def) (metis nth_mem)
  then have "first_some self_parent (nth_opt parents 0) \<noteq> Some []"
    "first_some other_parent (nth_opt parents 1) \<noteq> Some []"
    using assms(4,5) by (auto simp: first_some_def split: option.splits)
  then show ?thesis using assms(1-3) by (auto simp: event_create_def event_ok_def str_or_def)
qed

lemma event_create_hash:
  "event_hash L (event_create L c source ts vc parents payload sig creator sp op') =
   ev_id (event_create L c source ts vc parents payload sig creator sp op')"
  by (simp add: event_hash_def event_create_def)

subsection \<open>The wire format\<close>

lemma opt_json_str [simp]: "as_opt_str (opt_json JStr s) = Inr s" "wf_json (opt_json JStr s)"
  by (cases s; simp)+

lemma opt_json_int [simp]: "as_opt_int (opt_json JInt i) = Inr i" "wf_json (opt_json JInt i)"
  by (cases i; simp)+

lemma opt_json_float [simp]: "as_opt_float (opt_json JFloat x) = Inr x" "wf_json (opt_json JFloat x)"
  by (cases x; simp)+

lemma json_hop_json [simp]: "json_hop (hop_json h) = Inr h"
  by (simp add: json_hop_def hop_json_def jget_def dict_get_def)

lemma opt_or_first_some:
  "a \<noteq> Some [] \<Longrightarrow> first_some a b = a \<Longrightarrow> opt_or a b = a"
  by (cases a) (auto simp: opt_or_def first_some_def)

lemma event_from_to_dict:
  assumes "event_ok e"
  shows "event_from_dict L (event_to_dict e) = Inr e"
  using assms unfolding event_ok_def
  by (simp add: event_from_dict_def event_to_dict_def get_item_def jget_def dict_get_def str_or_def
      opt_or_first_some)

lemma envelope_from_to_dict:
  assumes "event_ok (env_event env)"
  shows "envelope_from_dict L (envelope_to_dict env) = Inr env"
proof -
  have "res_map json_hop (map hop_json xs) = Inr xs" for xs
    by (induction xs) auto
  then show ?thesis using event_from_to_dict [OF assms, of L]
    by (simp add: envelope_from_dict_def envelope_to_dict_def get_item_def dict_get_def)
qed

lemma wf_event_to_dict: "event_ok e \<Longrightarrow> wf_json (JObj (event_to_dict e))"
  by (simp add: event_to_dict_def event_ok_def)

lemma wf_envelope_to_dict: "event_ok (env_event env) \<Longrightarrow> wf_json (envelope_to_dict env)"
  using wf_event_to_dict [of "env_event env"]
  by (simp add: envelope_to_dict_def list_all_iff hop_json_def)

text \<open>
  C13: what a node sends is what its peer receives: printing an envelope as JSON, parsing
  the text and decoding the object gives back the same envelope, with every field of its event.
\<close>

theorem envelope_wire_roundtrip:
  assumes "codec_ok (floats L)" "event_ok (env_event env)"
  shows "\<exists>j. json_loads (floats L) (dumps_default L (envelope_to_dict env)) = Some j \<and>
    envelope_from_dict L j = Inr env"
  using assms envelope_from_to_dict [OF assms(2)] wf_envelope_to_dict [OF assms(2)]
  by (auto simp: dumps_default_def loads_dumps_default)

definition demo_event :: event where
  "demo_event = event_create demo_lib ClassA ''n1'' 7 [(''n2'', 1), (''n1'', 2)] [''p'', ''q'']
     [(''b'', JInt 1), (''a'', JStr ''x'')] None None None None"

text \<open>A bare event for small graphs.\<close>

definition plain_event :: "string \<Rightarrow> string \<Rightarrow> string list \<Rightarrow> event" where
  "plain_event x node parents = \<lparr>ev_id = x, ev_cls = ClassA, ev_source = node, ev_creator = node, ev_ts_local = 7,
     ev_vclock = [(node, 1)], ev_parents = parents, ev_self_parent_id = None, ev_other_parent_id = None,
     ev_payload = [], ev_sig = None, ev_consensus_ts = None, ev_lamport_ts = Some 1, ev_round = None,
     ev_round_received = None, ev_is_witness = False, ev_is_famous_witness = False, ev_fame_decided = False,
     ev_fame_decision_round = None, ev_fame_decision_kind = ''pending'', ev_fame_needs_coin = False,
     ev_fame_coin_used = False, ev_fame_coin_round = None, ev_fame_vote_round = None,
     ev_fame_vote_yes = 0, ev_fame_vote_no = 0\<rparr>"

lemma plain_event_sel [simp]:
  "ev_id (plain_event x n ps) = x" "ev_parents (plain_event x n ps) = ps"
  by (simp_all add: plain_event_def)

lemma demo_event_ok [simp]: "event_ok demo_event"
  unfolding demo_event_def by (rule event_create_ok) simp_all

theorem event_record_roundtrip_witness:
  "event_from_record demo_lib (event_to_record demo_lib demo_event) = Inr (event_view demo_event)"
  by (rule event_record_roundtrip) simp_all

theorem envelope_wire_roundtrip_witness:
  "\<exists>j. json_loads (floats demo_lib) (dumps_default demo_lib (envelope_to_dict
      \<lparr>env_event = demo_event, env_path_meta = [\<lparr>hop_node = Some ''n1'', hop_ts = Some 7\<rparr>]\<rparr>)) = Some j \<and>
    envelope_from_dict demo_lib j =
      Inr \<lparr>env_event = demo_event, env_path_meta = [\<lparr>hop_node = Some ''n1'', hop_ts = Some 7\<rparr>]\<rparr>"
  by (rule envelope_wire_roundtrip) simp_all

end
