(* ===== verification/Visibility.thy ===== *)
theory Visibility
  imports Models
begin

text \<open>
  Who sees whom in the event graph: \<open>_ancestor_ids\<close> and \<open>_can_see\<close> of
  \<open>mdrj/consensus.py\<close>. The ancestor sets are memoised in a dictionary that every query
  updates, and the recursion is bounded by the interpreter's recursion limit, here the
  argument \<open>rl\<close> (running out of it is \<open>RecursionError\<close>).

  \<open>anc\<close> is the specification: the transitive closure of the parent relation. The main
  results are that the memoised search computes it whenever it returns, and that on a
  topologically ordered list of events a recursion depth of three is enough.
\<close>

section \<open>Computations that thread the cache\<close>

type_synonym anc_cache = "(string, string set) dict"

type_synonym by_id = "(string, event) dict"

type_synonym 'a vis = "anc_cache \<Rightarrow> ('a \<times> anc_cache) result"

definition vret :: "'a \<Rightarrow> 'a vis" where
  "vret x c = Inr (x, c)"

definition vbind :: "'a vis \<Rightarrow> ('a \<Rightarrow> 'b vis) \<Rightarrow> 'b vis" where
  "vbind m f c = res_bind (m c) (\<lambda>(x, c'). f x c')"

definition vlift :: "'a result \<Rightarrow> 'a vis" where
  "vlift r c = res_bind r (\<lambda>x. Inr (x, c))"

fun vmap :: "('a \<Rightarrow> 'b vis) \<Rightarrow> 'a list \<Rightarrow> 'b list vis" where
  "vmap f [] = vret []"
| "vmap f (x # xs) = vbind (f x) (\<lambda>y. vbind (vmap f xs) (\<lambda>ys. vret (y # ys)))"

fun vfilter :: "('a \<Rightarrow> bool vis) \<Rightarrow> 'a list \<Rightarrow> 'a list vis" where
  "vfilter P [] = vret []"
| "vfilter P (x # xs) = vbind (P x) (\<lambda>b. vbind (vfilter P xs) (\<lambda>ys. vret (if b then x # ys else ys)))"

fun vfold :: "('a \<Rightarrow> 's \<Rightarrow> 's vis) \<Rightarrow> 'a list \<Rightarrow> 's \<Rightarrow> 's vis" where
  "vfold f [] s = vret s"
| "vfold f (x # xs) s = vbind (f x s) (\<lambda>s'. vfold f xs s')"

section \<open>The memoised search\<close>

fun ancestor_ids :: "nat \<Rightarrow> by_id \<Rightarrow> string \<Rightarrow> string set vis"
  and ancestor_loop :: "nat \<Rightarrow> by_id \<Rightarrow> string list \<Rightarrow> string set \<Rightarrow> string set vis" where
  "ancestor_ids 0 g x c = Inl RecursionError"
| "ancestor_ids (Suc rl) g x c =
     (case map_of c x of
        Some s \<Rightarrow> Inr (s, c)
      | None \<Rightarrow>
          (case map_of g x of
             None \<Rightarrow> Inr ({}, AList.update x {} c)
           | Some e \<Rightarrow> res_bind (ancestor_loop rl g (ev_parents e) {} c)
                 (\<lambda>(seen, c'). Inr (seen, AList.update x seen c'))))"
| "ancestor_loop rl g [] seen c = Inr (seen, c)"
| "ancestor_loop rl g (p # ps) seen c =
     res_bind (ancestor_ids rl g p c) (\<lambda>(s, c'). ancestor_loop rl g ps (insert p seen \<union> s) c')"

definition can_see :: "nat \<Rightarrow> by_id \<Rightarrow> string \<Rightarrow> string \<Rightarrow> bool vis" where
  "can_see rl g observer target =
     (if observer = target then vret True
      else vbind (ancestor_ids rl g observer) (\<lambda>s. vret (target \<in> s)))"

definition events_by_id :: "event list \<Rightarrow> by_id" where
  "events_by_id topo = dict_of (map (\<lambda>e. (ev_id e, e)) topo)"

section \<open>Specification\<close>

definition parent_rel :: "by_id \<Rightarrow> (string \<times> string) set" where
  "parent_rel g = {(p, x). \<exists>e. map_of g x = Some e \<and> p \<in> set (ev_parents e)}"

definition anc :: "by_id \<Rightarrow> string \<Rightarrow> string set" where
  "anc g x = {y. (y, x) \<in> (parent_rel g)\<^sup>+}"

definition sees :: "by_id \<Rightarrow> string \<Rightarrow> string \<Rightarrow> bool" where
  "sees g x y \<longleftrightarrow> x = y \<or> y \<in> anc g x"

definition cache_ok :: "by_id \<Rightarrow> anc_cache \<Rightarrow> bool" where
  "cache_ok g c \<longleftrightarrow> (\<forall>x s. map_of c x = Some s \<longrightarrow> s = anc g x)"

lemma anc_unfold:
  "anc g x = (case map_of g x of None \<Rightarrow> {} | Some e \<Rightarrow> (\<Union>p \<in> set (ev_parents e). insert p (anc g p)))"
proof -
  have step: "y \<in> anc g x \<longleftrightarrow> (\<exists>p. (p, x) \<in> parent_rel g \<and> (y = p \<or> y \<in> anc g p))" for y
    by (auto simp: anc_def elim: tranclE intro: trancl_into_trancl)
  show ?thesis by (auto simp: step set_eq_iff parent_rel_def split: option.splits)
qed

lemma cache_ok_update: "cache_ok g c \<Longrightarrow> s = anc g x \<Longrightarrow> cache_ok g (AList.update x s c)"
  by (auto simp: cache_ok_def)

lemma ancestor_ids_sound:
  "ancestor_ids rl g x c = Inr (s, c') \<Longrightarrow> cache_ok g c \<Longrightarrow> s = anc g x \<and> cache_ok g c'"
  "ancestor_loop rl g ps seen c = Inr (s, c') \<Longrightarrow> cache_ok g c \<Longrightarrow>
     s = seen \<union> (\<Union>p \<in> set ps. insert p (anc g p)) \<and> cache_ok g c'"
proof (induction rl g x c and rl g ps seen c arbitrary: s c' and s c'
    rule: ancestor_ids_ancestor_loop.induct)
  case (2 rl g x c)
  show ?case
  proof (cases "map_of c x")
    case (Some t)
    with 2 show ?thesis by (auto simp: cache_ok_def)
  next
    case None
    note miss = this
    show ?thesis
    proof (cases "map_of g x")
      case None
      with 2 miss show ?thesis by (auto simp: anc_unfold [of g x] intro!: cache_ok_update)
    next
      case (Some e)
      with 2 miss show ?thesis
        by (fastforce simp: anc_unfold [of g x] intro!: cache_ok_update)
    qed
  qed
next
  case (4 rl g p ps seen c)
  then show ?case by fastforce
qed auto

section \<open>Bounded recursion\<close>

definition runs :: "nat \<Rightarrow> by_id \<Rightarrow> string \<Rightarrow> anc_cache \<Rightarrow> bool" where
  "runs n g x c \<longleftrightarrow> (\<exists>s c'. ancestor_ids n g x c = Inr (s, c') \<and>
     dom (map_of c) \<subseteq> dom (map_of c') \<and> x \<in> dom (map_of c'))"

lemma runs_known: "x \<in> dom (map_of c) \<or> x \<notin> dom (map_of g) \<Longrightarrow> runs (Suc n) g x c"
  by (auto simp: runs_def split: option.splits)

lemma runs_loop:
  "(\<And>p c'. p \<in> set ps \<Longrightarrow> dom (map_of c) \<subseteq> dom (map_of c') \<Longrightarrow> runs n g p c') \<Longrightarrow>
   \<exists>s c'. ancestor_loop n g ps seen c = Inr (s, c') \<and> dom (map_of c) \<subseteq> dom (map_of c')"
proof (induction ps arbitrary: seen c)
  case Nil
  then show ?case by simp
next
  case (Cons p ps)
  obtain s c1 where p: "ancestor_ids n g p c = Inr (s, c1)" "dom (map_of c) \<subseteq> dom (map_of c1)"
    using Cons.prems [of p c] by (auto simp: runs_def)
  have "\<exists>s' c'. ancestor_loop n g ps (insert p seen \<union> s) c1 = Inr (s', c') \<and> dom (map_of c1) \<subseteq> dom (map_of c')"
    by (rule Cons.IH, rule Cons.prems) (use p(2) in auto)
  with p show ?case by auto
qed

lemma runs_event:
  assumes "map_of g x = Some e"
    and "\<And>p c'. p \<in> set (ev_parents e) \<Longrightarrow> dom (map_of c) \<subseteq> dom (map_of c') \<Longrightarrow> runs n g p c'"
  shows "runs (Suc n) g x c"
proof (cases "map_of c x")
  case None
  obtain s c' where loop: "ancestor_loop n g (ev_parents e) {} c = Inr (s, c')" "dom (map_of c) \<subseteq> dom (map_of c')"
    using runs_loop [of "ev_parents e" c n g "{}"] assms(2) by blast
  have "ancestor_ids (Suc n) g x c = Inr (s, AList.update x s c')"
    using None assms(1) loop(1) by simp
  moreover have "dom (map_of c) \<subseteq> dom (map_of (AList.update x s c'))" "x \<in> dom (map_of (AList.update x s c'))"
    using loop(2) by (auto simp: update_conv')
  ultimately show ?thesis unfolding runs_def by blast
qed (auto intro: runs_known)

section \<open>Topologically ordered events\<close>

fun topo_ok :: "event list \<Rightarrow> bool" where
  "topo_ok [] = True"
| "topo_ok (e # es) =
     (ev_id e \<notin> ev_id ` set es \<and> (\<forall>p \<in> set (ev_parents e). p \<noteq> ev_id e \<and> p \<notin> ev_id ` set es) \<and> topo_ok es)"

lemma topo_ok_distinct: "topo_ok topo \<Longrightarrow> distinct (map ev_id topo)"
  by (induction topo) auto

lemma topo_ok_append: "topo_ok (xs @ ys) \<Longrightarrow> topo_ok ys"
  by (induction xs) auto

lemma topo_ok_parents:
  "topo_ok (pre @ e # post) \<Longrightarrow> p \<in> set (ev_parents e) \<Longrightarrow> p \<notin> ev_id ` set (e # post)"
  by (drule topo_ok_append) auto

lemma map_of_events_by_id:
  assumes "distinct (map ev_id topo)"
  shows "map_of (events_by_id topo) x = Some e \<longleftrightarrow> e \<in> set topo \<and> ev_id e = x"
proof -
  have d: "distinct (map fst (map (\<lambda>e. (ev_id e, e)) topo))" using assms by (simp add: comp_def)
  show ?thesis unfolding events_by_id_def dict_of_id [OF d]
    using map_of_eq_Some_iff [OF d] by auto
qed

lemma dom_events_by_id: "dom (map_of (events_by_id topo)) = ev_id ` set topo"
proof -
  have "map_of (events_by_id topo) x = None \<longleftrightarrow> x \<notin> ev_id ` set topo" for x
    by (simp add: events_by_id_def map_of_dict_of map_of_eq_None_iff image_image)
  then show ?thesis by (intro set_eqI) (simp add: domIff)
qed

text \<open>
  The cache after the round loop has looked at the events \<open>seen\<close>: every entry is exact
  and every event but the first has one.
\<close>

definition good_cache :: "nat \<Rightarrow> event list \<Rightarrow> event list \<Rightarrow> anc_cache \<Rightarrow> bool" where
  "good_cache rl topo done c \<longleftrightarrow> topo_ok topo \<and> 3 \<le> rl \<and> cache_ok (events_by_id topo) c \<and>
     ev_id ` set (tl done) \<subseteq> dom (map_of c)"

lemma runs_first:
  assumes "topo_ok (h # t)"
  shows "runs (Suc (Suc n)) (events_by_id (h # t)) (ev_id h) c"
proof (rule runs_event)
  show "map_of (events_by_id (h # t)) (ev_id h) = Some h"
    using map_of_events_by_id [OF topo_ok_distinct [OF assms]] by simp
  show "runs (Suc n) (events_by_id (h # t)) p c'" if "p \<in> set (ev_parents h)" for p c'
    by (rule runs_known) (use assms that in \<open>auto simp: dom_events_by_id\<close>)
qed

lemma good_cache_runs:
  assumes "good_cache rl topo pre c" "topo = pre @ post"
    "x \<in> ev_id ` set pre \<or> x \<notin> ev_id ` set topo \<or> (\<exists>e post'. post = e # post' \<and> x = ev_id e)"
  shows "runs rl (events_by_id topo) x c"
proof -
  let ?g = "events_by_id topo"
  have ok: "topo_ok topo" and "3 \<le> rl" and cached: "ev_id ` set (tl pre) \<subseteq> dom (map_of c)"
    using assms(1) by (auto simp: good_cache_def)
  then obtain n where "rl = 3 + n" using le_Suc_ex by blast
  then have rl: "rl = Suc (Suc (Suc n))" by simp
  have known: "runs (Suc (Suc k)) ?g y c'"
    if "y \<in> ev_id ` set pre \<or> y \<notin> ev_id ` set topo" "dom (map_of c) \<subseteq> dom (map_of c')" for y c' k
  proof (cases "y \<in> dom (map_of c') \<or> y \<notin> ev_id ` set topo")
    case True
    then show ?thesis by (intro runs_known) (simp add: dom_events_by_id)
  next
    case False
    have "y \<in> ev_id ` set pre" using False that(1) by blast
    moreover have "y \<notin> ev_id ` set (tl pre)" using False that(2) cached by blast
    ultimately obtain h t where "pre = h # t" "y = ev_id h" by (cases pre) auto
    then show ?thesis using runs_first [of h "t @ post" k c'] ok assms(2) by simp
  qed
  show ?thesis
  proof (cases "x \<in> ev_id ` set pre \<or> x \<notin> ev_id ` set topo")
    case True
    then show ?thesis unfolding rl by (rule known) simp
  next
    case False
    then obtain e post' where e: "post = e # post'" "x = ev_id e" using assms(3) by auto
    show ?thesis unfolding rl e(2)
    proof (rule runs_event)
      show "map_of ?g (ev_id e) = Some e"
        using map_of_events_by_id [OF topo_ok_distinct [OF ok]] e assms(2) by simp
      show "runs (Suc (Suc n)) ?g p c'" if "p \<in> set (ev_parents e)" "dom (map_of c) \<subseteq> dom (map_of c')" for p c'
      proof (rule known [OF _ that(2)])
        have "p \<notin> ev_id ` set (e # post')" using topo_ok_parents [of pre e post' p] ok assms(2) e(1) that(1) by simp
        then show "p \<in> ev_id ` set pre \<or> p \<notin> ev_id ` set topo" using assms(2) e(1) by auto
      qed
    qed
  qed
qed

lemma good_cache_query:
  assumes "good_cache rl topo pre c" "runs rl (events_by_id topo) x c"
  obtains c' where "ancestor_ids rl (events_by_id topo) x c = Inr (anc (events_by_id topo) x, c')"
    "good_cache rl topo pre c'" "x \<in> dom (map_of c')"
proof -
  obtain s c' where run: "ancestor_ids rl (events_by_id topo) x c = Inr (s, c')"
    "dom (map_of c) \<subseteq> dom (map_of c')" "x \<in> dom (map_of c')"
    using assms(2) by (auto simp: runs_def)
  moreover have "s = anc (events_by_id topo) x \<and> cache_ok (events_by_id topo) c'"
    using ancestor_ids_sound(1) [OF run(1)] assms(1) by (simp add: good_cache_def)
  moreover have "ev_id ` set (tl pre) \<subseteq> dom (map_of c')"
    using assms(1) run(2) unfolding good_cache_def by (blast intro: order_trans)
  ultimately show thesis using assms(1) by (intro that [of c']) (simp_all add: good_cache_def)
qed

text \<open>A query about the event the round loop is at leaves the cache ready for the next one.\<close>

lemma can_see_current:
  assumes "good_cache rl topo pre c" "topo = pre @ e # post" "t \<noteq> ev_id e"
  obtains c' where "can_see rl (events_by_id topo) (ev_id e) t c = Inr (sees (events_by_id topo) (ev_id e) t, c')"
    "good_cache rl topo (pre @ [e]) c'"
proof -
  have "runs rl (events_by_id topo) (ev_id e) c"
    by (rule good_cache_runs [OF assms(1,2)]) auto
  from good_cache_query [OF assms(1) this] obtain c'
    where q: "ancestor_ids rl (events_by_id topo) (ev_id e) c = Inr (anc (events_by_id topo) (ev_id e), c')"
      "good_cache rl topo pre c'" "ev_id e \<in> dom (map_of c')" .
  have "good_cache rl topo (pre @ [e]) c'"
    using q(2,3) by (cases pre) (auto simp: good_cache_def)
  with q(1) assms(3) show thesis
    by (intro that [of c']) (auto simp: can_see_def vbind_def vret_def sees_def)
qed

lemma can_see_known:
  assumes "good_cache rl topo pre c" "topo = pre @ post"
    "x \<in> ev_id ` set pre \<or> x \<notin> ev_id ` set topo"
  obtains c' where "can_see rl (events_by_id topo) x t c = Inr (sees (events_by_id topo) x t, c')"
    "good_cache rl topo pre c'"
proof (cases "x = t")
  case True
  then show ?thesis using assms(1) by (intro that [of c]) (auto simp: can_see_def vret_def sees_def)
next
  case False
  have "runs rl (events_by_id topo) x c"
    by (rule good_cache_runs [OF assms(1,2)]) (use assms(3) in blast)
  from good_cache_query [OF assms(1) this] obtain c'
    where "ancestor_ids rl (events_by_id topo) x c = Inr (anc (events_by_id topo) x, c')"
      "good_cache rl topo pre c'" .
  with False show ?thesis
    by (intro that [of c']) (auto simp: can_see_def vbind_def vret_def sees_def)
qed

section \<open>Simulation of cached computations\<close>

text \<open>
  \<open>simulates good m a\<close>: from every good cache the computation \<open>m\<close> returns \<open>a\<close> and leaves a
  good cache. A \<open>visibility_oracle\<close> is a query that does so; the consensus functions are
  written against such a query, and they are related to their specifications inside the locale.
\<close>

definition simulates :: "(anc_cache \<Rightarrow> bool) \<Rightarrow> 'a vis \<Rightarrow> 'a \<Rightarrow> bool" where
  "simulates good m a \<longleftrightarrow> (\<forall>c. good c \<longrightarrow> (\<exists>c'. m c = Inr (a, c') \<and> good c'))"

lemma simulatesD: "simulates good m a \<Longrightarrow> good c \<Longrightarrow> \<exists>c'. m c = Inr (a, c') \<and> good c'"
  by (simp add: simulates_def)

lemma sim_vret [vis_intros]: "simulates good (vret x) x"
  by (simp add: simulates_def vret_def)

lemma sim_vlift [vis_intros]: "r = Inr x \<Longrightarrow> simulates good (vlift r) x"
  by (simp add: simulates_def vlift_def)

lemma sim_vbind: "simulates good m a \<Longrightarrow> simulates good (f a) b \<Longrightarrow> simulates good (vbind m f) b"
  unfolding simulates_def vbind_def by (metis case_prod_conv res_bind.simps(2))

lemma sim_vmap [vis_intros]:
  "(\<And>x. x \<in> set xs \<Longrightarrow> simulates good (f x) (g x)) \<Longrightarrow> simulates good (vmap f xs) (map g xs)"
  by (induction xs) (auto intro!: sim_vret intro: sim_vbind)

lemma sim_vfilter [vis_intros]:
  "(\<And>x. x \<in> set xs \<Longrightarrow> simulates good (P x) (Q x)) \<Longrightarrow> simulates good (vfilter P xs) (filter Q xs)"
proof (induction xs)
  case (Cons x xs)
  have "simulates good (vfilter P xs) (filter Q xs)" by (rule Cons.IH) (simp add: Cons.prems)
  moreover have "simulates good (P x) (Q x)" by (simp add: Cons.prems)
  ultimately show ?case
    by (simp only: vfilter.simps filter.simps) (blast intro: sim_vbind sim_vret)
qed (auto intro: vis_intros)

lemma sim_vfold:
  "(\<And>x s. x \<in> set xs \<Longrightarrow> simulates good (f x s) (h x s)) \<Longrightarrow> simulates good (vfold f xs s) (fold h xs s)"
  by (induction xs arbitrary: s) (auto intro: sim_vbind vis_intros)

lemma sim_If [vis_intros]:
  "(b \<Longrightarrow> simulates good m x) \<Longrightarrow> (\<not> b \<Longrightarrow> simulates good m' y) \<Longrightarrow>
   simulates good (if b then m else m') (if b then x else y)"
  by simp

locale visibility_oracle =
  fixes good :: "anc_cache \<Rightarrow> bool"
    and see :: "string \<Rightarrow> string \<Rightarrow> bool vis"
    and seen :: "string \<Rightarrow> string \<Rightarrow> bool"
  assumes see_ok: "simulates good (see x y) (seen x y)"

text \<open>The memoised search over the events of a topologically ordered list is such an oracle.\<close>

interpretation memo: visibility_oracle "good_cache rl topo topo" "can_see rl (events_by_id topo)"
    "sees (events_by_id topo)" for rl topo
proof
  show "simulates (good_cache rl topo topo) (can_see rl (events_by_id topo) x y) (sees (events_by_id topo) x y)" for x y
    unfolding simulates_def
  proof (intro allI impI)
    fix c assume "good_cache rl topo topo c"
    from can_see_known [OF this, of "[]" x y]
    show "\<exists>c'. can_see rl (events_by_id topo) x y c = Inr (sees (events_by_id topo) x y, c') \<and> good_cache rl topo topo c'"
      by auto
  qed
qed

section \<open>Properties of the search\<close>

text \<open>
  Whenever the memoised search returns, its result is exactly the set of ancestors (the
  transitive closure of the parent links) and every cache entry stays exact, whatever the graph.
\<close>

theorem ancestor_ids_exact:
  assumes "cache_ok g c" "ancestor_ids rl g x c = Inr (s, c')"
  shows "s = anc g x \<and> cache_ok g c'"
  using ancestor_ids_sound(1) [OF assms(2,1)] .

text \<open>Two events that form a chain, and the cache after looking at the second.\<close>

definition chain_events :: "event list" where
  "chain_events =
     [plain_event ''a'' ''n1'' [], plain_event ''b'' ''n1'' [''a'']]"

lemma chain_by_id:
  "map_of (events_by_id chain_events) ''a'' = Some (plain_event ''a'' ''n1'' [])"
  "map_of (events_by_id chain_events) ''b'' = Some (plain_event ''b'' ''n1'' [''a''])"
  by (simp_all add: chain_events_def events_by_id_def dict_of_def)

theorem ancestor_ids_exact_witness:
  "(\<exists>c'. ancestor_ids 3 (events_by_id chain_events) ''b'' [] = Inr ({''a''}, c')) \<and>
   {''a''} = anc (events_by_id chain_events) ''b''"
proof -
  have "ancestor_ids (Suc (Suc (Suc 0))) (events_by_id chain_events) ''b'' [] =
      Inr ({''a''}, [(''a'', {}), (''b'', {''a''})])"
    by (simp add: chain_by_id)
  then have r: "ancestor_ids 3 (events_by_id chain_events) ''b'' [] = Inr ({''a''}, [(''a'', {}), (''b'', {''a''})])"
    by (simp only: numeral_3_eq_3)
  have "cache_ok (events_by_id chain_events) []" by (simp add: cache_ok_def)
  from conjunct1 [OF ancestor_ids_exact [OF this r]] r show ?thesis by blast
qed

end
