(* ===== verification/Consensus.thy ===== *)
theory Consensus
  imports Visibility
begin

text \<open>
  \<open>ConsensusEngine\<close> of \<open>mdrj/consensus.py\<close>: rounds and witnesses, fame by virtual voting with a
  deterministic coin, the round in which an event is received, consensus timestamps and the
  total order. The functions that query visibility take the query \<open>see\<close> as an argument and
  thread the ancestor cache (\<open>'a vis\<close>); \<open>recompute\<close> passes the memoised \<open>can_see\<close>.

  For every such function a second definition, with the suffix \<open>_spec\<close>, takes the visibility
  relation itself and has no cache. Inside the locale \<open>visibility_oracle\<close> each function is
  shown to compute its specification.
\<close>

section \<open>Data\<close>

record membership_entry =
  me_node_id :: string
  me_address :: string
  me_role :: string
  me_is_self :: bool

record consensus_state =
  cs_event_id :: string
  cs_creator :: string
  cs_self_parent_id :: "string option"
  cs_other_parent_id :: "string option"
  cs_round :: int
  cs_round_received :: "int option"
  cs_is_witness :: bool
  cs_is_famous_witness :: bool
  cs_fame_decided :: bool
  cs_fame_decision_round :: "int option"
  cs_fame_decision_kind :: string
  cs_fame_needs_coin :: bool
  cs_fame_coin_used :: bool
  cs_fame_coin_round :: "int option"
  cs_fame_vote_round :: "int option"
  cs_fame_vote_yes :: int
  cs_fame_vote_no :: int
  cs_consensus_ts :: "timestamp option"

record fame_entry =
  fm_famous :: bool
  fm_decided :: bool
  fm_decision_round :: "int option"
  fm_decision_kind :: string
  fm_needs_coin :: bool
  fm_coin_used :: bool
  fm_coin_round :: "int option"
  fm_vote_round :: "int option"
  fm_vote_yes :: nat
  fm_vote_no :: nat

type_synonym witnesses = "(int, (string, string) dict) dict"
type_synonym vote_history = "(int, (string, bool option) dict) dict"
type_synonym fame_map = "(int, (string, fame_entry) dict) dict"

record round_state =
  rs_rounds :: "(string, int) dict"
  rs_flags :: "(string, bool) dict"
  rs_witnesses :: witnesses

section \<open>Membership and thresholds\<close>

definition supermajority_threshold :: "nat \<Rightarrow> nat" where
  "supermajority_threshold members = max 1 ((2 * members) div 3 + 1)"

fun normalize_entries :: "membership_entry list \<Rightarrow> string list \<Rightarrow> string list" where
  "normalize_entries [] normalized = normalized"
| "normalize_entries (m # ms) normalized =
     (let node_id = py_strip (me_node_id m)
      in if node_id = [] \<or> node_id \<in> set normalized then normalize_entries ms normalized
         else normalize_entries ms (normalized @ [node_id]))"

definition normalize_membership :: "string \<Rightarrow> membership_entry list \<Rightarrow> string list" where
  "normalize_membership node_id membership =
     (let normalized = normalize_entries membership []
      in if node_id \<in> set normalized then normalized else normalized @ [node_id])"

definition member_json :: "membership_entry \<Rightarrow> json" where
  "member_json m = JObj [(''node_id'', JStr (me_node_id m)), (''address'', JStr (me_address m)),
     (''role'', JStr (me_role m)), (''is_self'', JBool (me_is_self m))]"

record membership_snap =
  ms_epoch :: int
  ms_members :: "membership_entry list"
  ms_hash :: string
  ms_size :: nat

definition membership_snapshot :: "pylib \<Rightarrow> int \<Rightarrow> membership_entry list \<Rightarrow> membership_snap" where
  "membership_snapshot L epoch members =
     (let normalized = sort_key me_node_id members;
          joined = join ''::'' (map me_node_id normalized)
      in \<lparr>ms_epoch = epoch, ms_members = normalized, ms_hash = sha256_hex L joined,
          ms_size = length normalized\<rparr>)"

section \<open>Rounds\<close>

definition max_default :: "int list \<Rightarrow> int \<Rightarrow> int" where
  "max_default xs d = (case xs of [] \<Rightarrow> d | y # ys \<Rightarrow> fold max ys y)"

definition event_creator :: "by_id \<Rightarrow> string \<Rightarrow> string" where
  "event_creator g w = (case map_of g w of Some e \<Rightarrow> creator_of e | None \<Rightarrow> [])"

definition sees_supermajority :: "(string \<Rightarrow> string \<Rightarrow> bool vis) \<Rightarrow> by_id \<Rightarrow> string list \<Rightarrow>
    string \<Rightarrow> string list \<Rightarrow> bool vis" where
  "sees_supermajority see g membership event_id witness_ids =
     vbind (vfilter (\<lambda>w. if w \<in> fst ` set g then see event_id w else vret False) witness_ids) (\<lambda>visible.
       vret (supermajority_threshold (length membership) \<le>
         card (event_creator g ` set visible \<inter> set membership)))"

definition base_round :: "(string, int) dict \<Rightarrow> event \<Rightarrow> int" where
  "base_round rounds e = max_default (List.map_filter (map_of rounds) (ev_parents e)) 0"

text \<open>The end of the loop body: record the round, and the event as witness if its creator has none.\<close>

definition assign_round :: "event \<Rightarrow> int \<Rightarrow> round_state \<Rightarrow> round_state" where
  "assign_round e event_round st =
     (let creator = creator_of e;
          creator_witnesses = dict_get (rs_witnesses st) event_round [];
          is_witness = map_of creator_witnesses creator = None;
          creator_witnesses' = (if is_witness then AList.update creator (ev_id e) creator_witnesses
                                else creator_witnesses)
      in \<lparr>rs_rounds = AList.update (ev_id e) event_round (rs_rounds st),
          rs_flags = AList.update (ev_id e) is_witness (rs_flags st),
          rs_witnesses = AList.update event_round creator_witnesses' (rs_witnesses st)\<rparr>)"

definition round_step :: "(string \<Rightarrow> string \<Rightarrow> bool vis) \<Rightarrow> by_id \<Rightarrow> string list \<Rightarrow>
    event \<Rightarrow> round_state \<Rightarrow> round_state vis" where
  "round_step see g membership e st =
     (let base = base_round (rs_rounds st) e;
          witness_ids = map snd (dict_get (rs_witnesses st) base [])
      in vbind (if witness_ids \<noteq> [] then sees_supermajority see g membership (ev_id e) witness_ids
                else vret False) (\<lambda>up.
         vret (assign_round e (if up then base + 1 else base) st)))"

definition init_rounds :: round_state where
  "init_rounds = \<lparr>rs_rounds = [], rs_flags = [], rs_witnesses = []\<rparr>"

definition assign_rounds :: "(string \<Rightarrow> string \<Rightarrow> bool vis) \<Rightarrow> by_id \<Rightarrow> string list \<Rightarrow>
    event list \<Rightarrow> round_state vis" where
  "assign_rounds see g membership topo = vfold (round_step see g membership) topo init_rounds"

section \<open>Fame\<close>

definition deterministic_coin_choice :: "pylib \<Rightarrow> string \<Rightarrow> int \<Rightarrow> bool" where
  "deterministic_coin_choice L witness_id vote_round =
     (case sha256 L (witness_id @ '':'' @ int_str vote_round) of
        [] \<Rightarrow> False
      | b # _ \<Rightarrow> odd (of_char b :: nat))"

definition count_votes :: "bool \<Rightarrow> (string, bool option) dict \<Rightarrow> nat" where
  "count_votes b votes = length (filter (\<lambda>v. v = Some b) (map snd votes))"

definition pending_fame :: fame_entry where
  "pending_fame = \<lparr>fm_famous = False, fm_decided = False, fm_decision_round = None,
     fm_decision_kind = ''pending'', fm_needs_coin = False, fm_coin_used = False, fm_coin_round = None,
     fm_vote_round = None, fm_vote_yes = 0, fm_vote_no = 0\<rparr>"

definition vote_fame :: "bool \<Rightarrow> int \<Rightarrow> fame_entry \<Rightarrow> fame_entry" where
  "vote_fame famous r d = d\<lparr>fm_famous := famous, fm_decided := True, fm_decision_round := Some r,
     fm_decision_kind := ''vote'', fm_needs_coin := False, fm_coin_used := False, fm_coin_round := None\<rparr>"

text \<open>The loop over the vote rounds: \<open>Inl\<close> when it returns early, \<open>Inr\<close> when it runs to the end.\<close>

fun resolve_loop :: "nat \<Rightarrow> vote_history \<Rightarrow> int list \<Rightarrow> fame_entry \<Rightarrow> fame_entry + fame_entry" where
  "resolve_loop threshold hist [] d = Inr d"
| "resolve_loop threshold hist (r # rs) d =
     (let votes = dict_get hist r [];
          yes_total = count_votes True votes;
          no_total = count_votes False votes;
          d' = d\<lparr>fm_vote_round := Some r, fm_vote_yes := yes_total, fm_vote_no := no_total\<rparr>
      in if threshold \<le> yes_total then Inl (vote_fame True r d')
         else if threshold \<le> no_total then Inl (vote_fame False r d')
         else resolve_loop threshold hist rs d')"

definition resolve_fame :: "pylib \<Rightarrow> string \<Rightarrow> vote_history \<Rightarrow> nat \<Rightarrow> fame_entry" where
  "resolve_fame L witness_id hist threshold =
     (case resolve_loop threshold hist (sort (map fst hist)) pending_fame of
        Inl d \<Rightarrow> d
      | Inr d \<Rightarrow>
          if 2 \<le> length hist then
            let coin_round = max_default (map fst hist) 0
            in d\<lparr>fm_famous := deterministic_coin_choice L witness_id coin_round, fm_decided := True,
                 fm_decision_round := Some coin_round, fm_decision_kind := ''coin_surrogate'',
                 fm_needs_coin := False, fm_coin_used := True, fm_coin_round := Some coin_round\<rparr>
          else d)"

definition member_items :: "string list \<Rightarrow> (string, 'a) dict \<Rightarrow> (string, 'a) dict" where
  "member_items membership d = filter (\<lambda>(creator, _). creator \<in> set membership) d"

definition tally :: "nat \<Rightarrow> bool option list \<Rightarrow> bool option" where
  "tally threshold votes =
     (let yes_votes = length (filter (\<lambda>v. v = Some True) votes);
          no_votes = length (filter (\<lambda>v. v = Some False) votes)
      in if threshold \<le> yes_votes then Some True
         else if threshold \<le> no_votes then Some False else None)"

definition first_votes :: "(string \<Rightarrow> string \<Rightarrow> bool vis) \<Rightarrow> string list \<Rightarrow> string \<Rightarrow>
    (string, string) dict \<Rightarrow> (string, bool option) dict vis" where
  "first_votes see membership witness_id next_witnesses =
     vmap (\<lambda>(c, w). vbind (see w witness_id) (\<lambda>b. vret (c, Some b))) (member_items membership next_witnesses)"

text \<open>Votes of the previous round that a later witness can take into account.\<close>

definition countable_votes :: "string list \<Rightarrow> (string, string) dict \<Rightarrow> (string, bool option) dict \<Rightarrow>
    (string \<times> bool option) list" where
  "countable_votes membership prev_witnesses previous =
     filter (\<lambda>(c, v). c \<in> set membership \<and> map_of prev_witnesses c \<noteq> None \<and> v \<noteq> None) previous"

definition later_votes :: "(string \<Rightarrow> string \<Rightarrow> bool vis) \<Rightarrow> string list \<Rightarrow> (string, string) dict \<Rightarrow>
    (string, string) dict \<Rightarrow> (string, bool option) dict \<Rightarrow> (string, bool option) dict vis" where
  "later_votes see membership prev_witnesses later_witnesses previous =
     vmap (\<lambda>(c, w).
       vbind (vfilter (\<lambda>(pc, _). see w (the (map_of prev_witnesses pc)))
                (countable_votes membership prev_witnesses previous)) (\<lambda>visible.
         vret (c, tally (supermajority_threshold (length membership)) (map snd visible))))
       (member_items membership later_witnesses)"

definition add_votes :: "int \<Rightarrow> (string, bool option) dict \<Rightarrow> vote_history \<Rightarrow> vote_history" where
  "add_votes r votes hist = (if votes = [] then hist else AList.update r votes hist)"

definition vote_step :: "(string \<Rightarrow> string \<Rightarrow> bool vis) \<Rightarrow> string list \<Rightarrow> witnesses \<Rightarrow> int \<Rightarrow> int \<Rightarrow>
    vote_history \<times> (string, bool option) dict \<Rightarrow> (vote_history \<times> (string, bool option) dict) vis" where
  "vote_step see membership wbr round_no later_round = (\<lambda>(hist, previous).
     if later_round \<le> round_no + 1 then vret (hist, previous)
     else vbind (later_votes see membership (dict_get wbr (later_round - 1) []) (dict_get wbr later_round []) previous)
            (\<lambda>current. vret (add_votes later_round current hist, current)))"

definition witness_history :: "(string \<Rightarrow> string \<Rightarrow> bool vis) \<Rightarrow> string list \<Rightarrow> witnesses \<Rightarrow> int \<Rightarrow>
    string \<Rightarrow> vote_history vis" where
  "witness_history see membership wbr round_no witness_id =
     vbind (first_votes see membership witness_id (dict_get wbr (round_no + 1) [])) (\<lambda>first.
     vbind (vfold (vote_step see membership wbr round_no) (sort (map fst wbr)) (add_votes (round_no + 1) first [], first))
       (\<lambda>(hist, _). vret hist))"

definition fame_votes_and_decisions :: "pylib \<Rightarrow> (string \<Rightarrow> string \<Rightarrow> bool vis) \<Rightarrow> string list \<Rightarrow>
    witnesses \<Rightarrow> ((int, (string, vote_history) dict) dict \<times> fame_map) vis" where
  "fame_votes_and_decisions L see membership wbr =
     (let threshold = supermajority_threshold (length membership)
      in vbind (vmap (\<lambda>r. vbind (vmap (\<lambda>w. vbind (witness_history see membership wbr r w) (\<lambda>h. vret (w, h)))
                    (map snd (dict_get wbr r []))) (\<lambda>hs. vret (r, dict_of hs)))
            (sort (map fst wbr))) (\<lambda>history.
         vret (history, map (\<lambda>(r, hs). (r, map (\<lambda>(w, h). (w, resolve_fame L w h threshold)) hs)) history)))"

definition fame_of :: "fame_map \<Rightarrow> int \<Rightarrow> string \<Rightarrow> fame_entry option" where
  "fame_of fame r w = map_of (dict_get fame r []) w"

definition famous_witnesses :: "fame_map \<Rightarrow> witnesses \<Rightarrow> witnesses" where
  "famous_witnesses fame wbr =
     map (\<lambda>(r, ws). (r, filter (\<lambda>(_, w). case fame_of fame r w of
         Some f \<Rightarrow> fm_decided f \<and> fm_famous f | None \<Rightarrow> False) ws)) wbr"

section \<open>Round received\<close>

datatype round_choice = Skip | Use "(string, string) dict"

definition receiving_witnesses :: "witnesses \<Rightarrow> witnesses \<Rightarrow> fame_map \<Rightarrow> int \<Rightarrow> round_choice" where
  "receiving_witnesses wbr famous fame r =
     (let fame_state = map snd (dict_get fame r [])
      in if fame_state \<noteq> [] \<and> list_all fm_decided fame_state then Use (dict_get famous r [])
         else if fame_state \<noteq> [] \<and> list_ex fm_decided fame_state then Skip
         else Use (dict_get wbr r []))"

fun round_received_loop :: "(string \<Rightarrow> string \<Rightarrow> bool vis) \<Rightarrow> string list \<Rightarrow> witnesses \<Rightarrow> witnesses \<Rightarrow> fame_map \<Rightarrow>
    string \<Rightarrow> int list \<Rightarrow> int option vis" where
  "round_received_loop see membership wbr famous fame event_id [] = vret None"
| "round_received_loop see membership wbr famous fame event_id (r # rs) =
     (case receiving_witnesses wbr famous fame r of
        Skip \<Rightarrow> round_received_loop see membership wbr famous fame event_id rs
      | Use ws \<Rightarrow>
          vbind (vfilter (\<lambda>(_, w). see w event_id) ws) (\<lambda>seeing.
            if supermajority_threshold (length membership) \<le> card (fst ` set seeing \<inter> set membership)
            then vret (Some r)
            else round_received_loop see membership wbr famous fame event_id rs))"

definition round_received :: "(string \<Rightarrow> string \<Rightarrow> bool vis) \<Rightarrow> string list \<Rightarrow> witnesses \<Rightarrow> witnesses \<Rightarrow> fame_map \<Rightarrow>
    string \<Rightarrow> int option vis" where
  "round_received see membership wbr famous fame event_id =
     round_received_loop see membership wbr famous fame event_id (sort (map fst wbr))"

section \<open>Timestamps\<close>

definition observe :: "string list \<Rightarrow> hop \<Rightarrow> (string, timestamp) dict \<Rightarrow> (string, timestamp) dict" where
  "observe membership h obs =
     (let node_id = py_strip (opt_str (hop_node h))
      in case hop_ts h of
           None \<Rightarrow> obs
         | Some ts \<Rightarrow>
             if node_id \<notin> set membership then obs
             else case map_of obs node_id of
                    None \<Rightarrow> AList.update node_id ts obs
                  | Some old \<Rightarrow> if ts < old then AList.update node_id ts obs else obs)"

definition consensus_timestamp :: "string list \<Rightarrow> nat \<Rightarrow> (string, hop list) dict \<Rightarrow> string \<Rightarrow> timestamp option result" where
  "consensus_timestamp membership quorum path_meta event_id =
     (let observations = fold (observe membership) (dict_get path_meta event_id []) []
      in if length observations < quorum then Inr None
         else res_bind (median (map snd observations)) (\<lambda>m. Inr (Some m)))"

section \<open>Total order\<close>

type_synonym order_tuple = "(bool \<times> int) \<times> (bool \<times> rat) \<times> string \<times> nat"

definition order_key :: "int option \<Rightarrow> timestamp option \<Rightarrow> string \<Rightarrow> nat \<Rightarrow> order_tuple" where
  "order_key rr ts event_id index =
     ((rr = None, case rr of Some r \<Rightarrow> r | None \<Rightarrow> 0),
      (ts = None, case ts of Some t \<Rightarrow> t | None \<Rightarrow> 0), event_id, index)"

definition total_order :: "event list \<Rightarrow> (string, int option \<times> timestamp option) dict \<Rightarrow> event list" where
  "total_order events resolved =
     map snd (sort_key fst (map (\<lambda>(index, e).
       (case (case map_of resolved (ev_id e) of Some p \<Rightarrow> p | None \<Rightarrow> (ev_round_received e, ev_consensus_ts e)) of
          (rr, ts) \<Rightarrow> order_key rr ts (ev_id e) index, e)) (enumerate 0 events)))"

section \<open>Recomputation\<close>

definition item :: "(string, 'a) dict \<Rightarrow> string \<Rightarrow> 'a result" where
  "item d k = (case map_of d k of Some v \<Rightarrow> Inr v | None \<Rightarrow> Inl (KeyError k))"

definition make_state :: "fame_map \<Rightarrow> event \<Rightarrow> int \<Rightarrow> bool \<Rightarrow> int option \<Rightarrow> timestamp option \<Rightarrow> consensus_state" where
  "make_state fame e rnd witness rr ts =
     (let f = fame_of fame rnd (ev_id e)
      in \<lparr>cs_event_id = ev_id e, cs_creator = creator_of e,
          cs_self_parent_id = ev_self_parent_id e, cs_other_parent_id = ev_other_parent_id e,
          cs_round = rnd, cs_round_received = rr, cs_is_witness = witness,
          cs_is_famous_witness = (case f of Some x \<Rightarrow> fm_famous x | None \<Rightarrow> False),
          cs_fame_decided = (case f of Some x \<Rightarrow> fm_decided x | None \<Rightarrow> False),
          cs_fame_decision_round = (case f of Some x \<Rightarrow> fm_decision_round x | None \<Rightarrow> None),
          cs_fame_decision_kind = (case f of Some x \<Rightarrow> fm_decision_kind x | None \<Rightarrow> ''pending''),
          cs_fame_needs_coin = (case f of Some x \<Rightarrow> fm_needs_coin x | None \<Rightarrow> False),
          cs_fame_coin_used = (case f of Some x \<Rightarrow> fm_coin_used x | None \<Rightarrow> False),
          cs_fame_coin_round = (case f of Some x \<Rightarrow> fm_coin_round x | None \<Rightarrow> None),
          cs_fame_vote_round = (case f of Some x \<Rightarrow> fm_vote_round x | None \<Rightarrow> None),
          cs_fame_vote_yes = (case f of Some x \<Rightarrow> int (fm_vote_yes x) | None \<Rightarrow> 0),
          cs_fame_vote_no = (case f of Some x \<Rightarrow> int (fm_vote_no x) | None \<Rightarrow> 0),
          cs_consensus_ts = (if rr = None then None else ts)\<rparr>)"

definition resolve_event :: "(string \<Rightarrow> string \<Rightarrow> bool vis) \<Rightarrow> string list \<Rightarrow> witnesses \<Rightarrow> fame_map \<Rightarrow>
    (string, hop list) dict \<Rightarrow> event \<Rightarrow> (int option \<times> timestamp option) vis" where
  "resolve_event see membership wbr fame path_meta e =
     vbind (round_received see membership wbr (famous_witnesses fame wbr) fame (ev_id e)) (\<lambda>rr.
     vbind (vlift (consensus_timestamp membership (supermajority_threshold (length membership)) path_meta (ev_id e)))
       (\<lambda>ts. vret (rr, ts)))"

definition order_events :: "event list \<Rightarrow> (string, int option \<times> timestamp option) dict \<Rightarrow> event list" where
  "order_events topo resolved =
     (let ordered = total_order topo resolved;
          ordering_map = dict_of (zip (map ev_id ordered) [0..<length ordered])
      in sort_key (\<lambda>e. dict_get ordering_map (ev_id e) 0) topo)"

definition state_of_event :: "(string \<Rightarrow> string \<Rightarrow> bool vis) \<Rightarrow> string list \<Rightarrow> round_state \<Rightarrow> fame_map \<Rightarrow>
    (string, hop list) dict \<Rightarrow> event \<Rightarrow> consensus_state vis" where
  "state_of_event see membership st fame path_meta e =
     vbind (resolve_event see membership (rs_witnesses st) fame path_meta e) (\<lambda>(rr, ts).
     vbind (vlift (item (rs_rounds st) (ev_id e))) (\<lambda>rnd.
     vbind (vlift (item (rs_flags st) (ev_id e))) (\<lambda>witness.
       vret (make_state fame e rnd witness rr ts))))"

definition decide :: "pylib \<Rightarrow> (string \<Rightarrow> string \<Rightarrow> bool vis) \<Rightarrow> string list \<Rightarrow> event list \<Rightarrow>
    (string, hop list) dict \<Rightarrow> round_state \<Rightarrow> consensus_state list vis" where
  "decide L see membership topo path_meta st =
     vbind (fame_votes_and_decisions L see membership (rs_witnesses st)) (\<lambda>(_, fame).
     vbind (vmap (\<lambda>e. vbind (resolve_event see membership (rs_witnesses st) fame path_meta e)
               (\<lambda>r. vret (ev_id e, r))) topo) (\<lambda>resolved.
       vmap (state_of_event see membership st fame path_meta) (order_events topo (dict_of resolved))))"

definition recompute :: "pylib \<Rightarrow> nat \<Rightarrow> string \<Rightarrow> event list \<Rightarrow> membership_entry list \<Rightarrow>
    (string, hop list) dict \<Rightarrow> consensus_state list result" where
  "recompute L rl node_id events membership path_meta =
     (if events = [] then Inr []
      else let membership_ids = normalize_membership node_id membership;
               g = events_by_id events;
               see = can_see rl g
           in res_bind (vbind (assign_rounds see g membership_ids events)
                          (decide L see membership_ids events path_meta) []) (\<lambda>(states, _). Inr states))"

section \<open>Specifications without the cache\<close>

type_synonym seen_rel = "string \<Rightarrow> string \<Rightarrow> bool"

definition sees_supermajority_spec :: "seen_rel \<Rightarrow> by_id \<Rightarrow> string list \<Rightarrow> string \<Rightarrow> string list \<Rightarrow> bool" where
  "sees_supermajority_spec seen g membership x ws \<longleftrightarrow>
     supermajority_threshold (length membership) \<le>
       card (event_creator g ` {w \<in> set ws. w \<in> fst ` set g \<and> seen x w} \<inter> set membership)"

definition next_round :: "seen_rel \<Rightarrow> by_id \<Rightarrow> string list \<Rightarrow> round_state \<Rightarrow> event \<Rightarrow> int" where
  "next_round seen g membership st e =
     (let base = base_round (rs_rounds st) e; ws = map snd (dict_get (rs_witnesses st) base [])
      in if ws \<noteq> [] \<and> sees_supermajority_spec seen g membership (ev_id e) ws then base + 1 else base)"

definition round_step_spec :: "seen_rel \<Rightarrow> by_id \<Rightarrow> string list \<Rightarrow> event \<Rightarrow> round_state \<Rightarrow> round_state" where
  "round_step_spec seen g membership e st = assign_round e (next_round seen g membership st e) st"

definition assign_rounds_spec :: "seen_rel \<Rightarrow> by_id \<Rightarrow> string list \<Rightarrow> event list \<Rightarrow> round_state" where
  "assign_rounds_spec seen g membership topo = fold (round_step_spec seen g membership) topo init_rounds"

definition first_votes_spec :: "seen_rel \<Rightarrow> string list \<Rightarrow> string \<Rightarrow> (string, string) dict \<Rightarrow> (string, bool option) dict" where
  "first_votes_spec seen membership w nexts = map (\<lambda>(c, w'). (c, Some (seen w' w))) (member_items membership nexts)"

definition later_vote :: "seen_rel \<Rightarrow> string list \<Rightarrow> (string, string) dict \<Rightarrow> (string, bool option) dict \<Rightarrow> string \<Rightarrow> bool option" where
  "later_vote seen membership prevs previous w =
     tally (supermajority_threshold (length membership))
       (map snd (filter (\<lambda>(pc, _). seen w (the (map_of prevs pc))) (countable_votes membership prevs previous)))"

definition later_votes_spec :: "seen_rel \<Rightarrow> string list \<Rightarrow> (string, string) dict \<Rightarrow> (string, string) dict \<Rightarrow>
    (string, bool option) dict \<Rightarrow> (string, bool option) dict" where
  "later_votes_spec seen membership prevs laters previous =
     map (\<lambda>(c, w). (c, later_vote seen membership prevs previous w)) (member_items membership laters)"

definition vote_step_spec :: "seen_rel \<Rightarrow> string list \<Rightarrow> witnesses \<Rightarrow> int \<Rightarrow> int \<Rightarrow>
    vote_history \<times> (string, bool option) dict \<Rightarrow> vote_history \<times> (string, bool option) dict" where
  "vote_step_spec seen membership wbr r later = (\<lambda>(hist, previous).
     if later \<le> r + 1 then (hist, previous)
     else let current = later_votes_spec seen membership (dict_get wbr (later - 1) []) (dict_get wbr later []) previous
          in (add_votes later current hist, current))"

definition witness_history_spec :: "seen_rel \<Rightarrow> string list \<Rightarrow> witnesses \<Rightarrow> int \<Rightarrow> string \<Rightarrow> vote_history" where
  "witness_history_spec seen membership wbr r w =
     (let first = first_votes_spec seen membership w (dict_get wbr (r + 1) [])
      in fst (fold (vote_step_spec seen membership wbr r) (sort (map fst wbr)) (add_votes (r + 1) first [], first)))"

definition history_spec :: "seen_rel \<Rightarrow> string list \<Rightarrow> witnesses \<Rightarrow> (int, (string, vote_history) dict) dict" where
  "history_spec seen membership wbr =
     map (\<lambda>r. (r, dict_of (map (\<lambda>w. (w, witness_history_spec seen membership wbr r w)) (map snd (dict_get wbr r [])))))
       (sort (map fst wbr))"

definition fame_spec :: "pylib \<Rightarrow> seen_rel \<Rightarrow> string list \<Rightarrow> witnesses \<Rightarrow> fame_map" where
  "fame_spec L seen membership wbr =
     map (\<lambda>(r, hs). (r, map (\<lambda>(w, h). (w, resolve_fame L w h (supermajority_threshold (length membership)))) hs))
       (history_spec seen membership wbr)"

text \<open>The members whose witnesses among \<open>ws\<close> see the event.\<close>

definition seeing_members :: "seen_rel \<Rightarrow> string list \<Rightarrow> (string, string) dict \<Rightarrow> string \<Rightarrow> string set" where
  "seeing_members seen membership ws x = fst ` {(c, w) \<in> set ws. seen w x} \<inter> set membership"

definition received_in :: "seen_rel \<Rightarrow> string list \<Rightarrow> witnesses \<Rightarrow> fame_map \<Rightarrow> string \<Rightarrow> int \<Rightarrow> bool" where
  "received_in seen membership wbr fame x r \<longleftrightarrow>
     (case receiving_witnesses wbr (famous_witnesses fame wbr) fame r of
        Skip \<Rightarrow> False
      | Use ws \<Rightarrow> supermajority_threshold (length membership) \<le> card (seeing_members seen membership ws x))"

definition round_received_spec :: "seen_rel \<Rightarrow> string list \<Rightarrow> witnesses \<Rightarrow> fame_map \<Rightarrow> string \<Rightarrow> int option" where
  "round_received_spec seen membership wbr fame x =
     List.find (received_in seen membership wbr fame x) (sort (map fst wbr))"

definition timestamp_spec :: "string list \<Rightarrow> (string, hop list) dict \<Rightarrow> string \<Rightarrow> timestamp option" where
  "timestamp_spec membership path_meta x =
     (case consensus_timestamp membership (supermajority_threshold (length membership)) path_meta x of
        Inr ts \<Rightarrow> ts | Inl _ \<Rightarrow> None)"

definition state_spec :: "seen_rel \<Rightarrow> string list \<Rightarrow> round_state \<Rightarrow> fame_map \<Rightarrow> (string, hop list) dict \<Rightarrow>
    event \<Rightarrow> consensus_state" where
  "state_spec seen membership st fame path_meta e =
     make_state fame e (the (map_of (rs_rounds st) (ev_id e))) (the (map_of (rs_flags st) (ev_id e)))
       (round_received_spec seen membership (rs_witnesses st) fame (ev_id e))
       (timestamp_spec membership path_meta (ev_id e))"

definition decide_spec :: "pylib \<Rightarrow> seen_rel \<Rightarrow> string list \<Rightarrow> event list \<Rightarrow> (string, hop list) dict \<Rightarrow>
    round_state \<Rightarrow> consensus_state list" where
  "decide_spec L seen membership topo path_meta st =
     (let fame = fame_spec L seen membership (rs_witnesses st);
          resolved = map (\<lambda>e. (ev_id e, round_received_spec seen membership (rs_witnesses st) fame (ev_id e),
                                timestamp_spec membership path_meta (ev_id e))) topo
      in map (state_spec seen membership st fame path_meta) (order_events topo (dict_of resolved)))"

definition recompute_spec :: "pylib \<Rightarrow> string \<Rightarrow> event list \<Rightarrow> membership_entry list \<Rightarrow> (string, hop list) dict \<Rightarrow>
    consensus_state list" where
  "recompute_spec L node_id events membership path_meta =
     (let mem = normalize_membership node_id membership; g = events_by_id events
      in decide_spec L (sees g) mem events path_meta (assign_rounds_spec (sees g) g mem events))"

section \<open>The cached functions compute their specifications\<close>

lemma median_total: "xs \<noteq> [] \<Longrightarrow> \<exists>m. median xs = Inr m"
proof -
  have "(\<exists>m. (if b then Inr x else Inr y) = (Inr m :: rat result))" for b x y by simp
  then show "xs \<noteq> [] \<Longrightarrow> ?thesis" unfolding median_def Let_def by (simp only: if_False) 
qed

lemma consensus_timestamp_ok:
  "0 < quorum \<Longrightarrow> \<exists>ts. consensus_timestamp membership quorum path_meta x = Inr ts"
proof -
  assume q: "0 < quorum"
  let ?obs = "fold (observe membership) (dict_get path_meta x []) []"
  show ?thesis
  proof (cases "length ?obs < quorum")
    case False
    then have "map snd ?obs \<noteq> []" using q by (cases ?obs) auto
    then obtain m where "median (map snd ?obs) = Inr m" using median_total by blast
    then show ?thesis using False by (simp add: consensus_timestamp_def Let_def)
  qed (simp add: consensus_timestamp_def Let_def)
qed

lemma supermajority_pos [simp]: "0 < supermajority_threshold n"
  by (simp add: supermajority_threshold_def)

lemma timestamp_spec_ok:
  "consensus_timestamp membership (supermajority_threshold (length membership)) path_meta x =
     Inr (timestamp_spec membership path_meta x)"
  using consensus_timestamp_ok [OF supermajority_pos, of membership "length membership" path_meta x]
  by (auto simp: timestamp_spec_def)

context visibility_oracle
begin

lemma sim_first_votes:
  "simulates good (first_votes see membership w nexts) (first_votes_spec seen membership w nexts)"
  unfolding first_votes_def first_votes_spec_def
  by (rule sim_vmap) (auto intro!: sim_vbind [OF see_ok] sim_vret)

lemma sim_later_votes:
  "simulates good (later_votes see membership prevs laters previous)
     (later_votes_spec seen membership prevs laters previous)"
  unfolding later_votes_def later_votes_spec_def later_vote_def
  by (rule sim_vmap) (auto intro!: sim_vbind [OF sim_vfilter] sim_vret see_ok)

lemma sim_vote_step:
  "simulates good (vote_step see membership wbr r later hp) (vote_step_spec seen membership wbr r later hp)"
  by (cases hp) (auto simp: vote_step_def vote_step_spec_def Let_def intro!: sim_vbind [OF sim_later_votes] sim_vret)

lemma sim_witness_history:
  "simulates good (witness_history see membership wbr r w) (witness_history_spec seen membership wbr r w)"
  unfolding witness_history_def witness_history_spec_def Let_def
  by (intro sim_vbind [OF sim_first_votes] sim_vbind [OF sim_vfold [OF sim_vote_step]])
    (simp add: case_prod_unfold sim_vret)

lemma sim_fame:
  "simulates good (fame_votes_and_decisions L see membership wbr)
     (history_spec seen membership wbr, fame_spec L seen membership wbr)"
  unfolding fame_votes_and_decisions_def history_spec_def fame_spec_def Let_def
  by (intro sim_vbind [OF sim_vmap [OF sim_vbind [OF sim_vmap [OF sim_vbind [OF sim_witness_history sim_vret]] sim_vret]]] sim_vret)

lemma sim_round_received:
  "simulates good (round_received see membership wbr (famous_witnesses fame wbr) fame x)
     (round_received_spec seen membership wbr fame x)"
proof -
  have "simulates good (round_received_loop see membership wbr (famous_witnesses fame wbr) fame x rs)
     (List.find (received_in seen membership wbr fame x) rs)" for rs
  proof (induction rs)
    case Nil
    then show ?case by (simp add: sim_vret)
  next
    case (Cons r rs)
    show ?case
    proof (cases "receiving_witnesses wbr (famous_witnesses fame wbr) fame r")
      case Skip
      then show ?thesis using Cons by (simp add: received_in_def)
    next
      case (Use ws)
      have sets: "fst ` set (filter (\<lambda>(_, w). seen w x) ws) \<inter> set membership = seeing_members seen membership ws x"
        by (auto simp: seeing_members_def)
      show ?thesis using Use Cons sets
        by (auto simp: received_in_def case_prod_unfold intro!: sim_vbind [OF sim_vfilter [OF see_ok]] sim_vret)
    qed
  qed
  then show ?thesis by (simp add: round_received_def round_received_spec_def)
qed

lemma sim_resolve_event:
  "simulates good (resolve_event see membership wbr fame path_meta e)
     (round_received_spec seen membership wbr fame (ev_id e), timestamp_spec membership path_meta (ev_id e))"
  unfolding resolve_event_def
  by (intro sim_vbind [OF sim_round_received] sim_vbind [OF sim_vlift [OF timestamp_spec_ok]] sim_vret)

lemma sim_decide:
  assumes "\<And>e. e \<in> set topo \<Longrightarrow> map_of (rs_rounds st) (ev_id e) \<noteq> None \<and> map_of (rs_flags st) (ev_id e) \<noteq> None"
  shows "simulates good (decide L see membership topo path_meta st) (decide_spec L seen membership topo path_meta st)"
proof -
  let ?fame = "fame_spec L seen membership (rs_witnesses st)"
  have state: "simulates good (state_of_event see membership st ?fame path_meta e)
      (state_spec seen membership st ?fame path_meta e)" if "e \<in> set topo" for e
    unfolding state_of_event_def state_spec_def
    by (rule sim_vbind [OF sim_resolve_event])
      (use assms [OF that] in \<open>auto simp: item_def intro!: sim_vbind [OF sim_vlift] sim_vret\<close>)
  have resolved: "simulates good
      (vmap (\<lambda>e. vbind (resolve_event see membership (rs_witnesses st) ?fame path_meta e) (\<lambda>r. vret (ev_id e, r))) topo)
      (map (\<lambda>e. (ev_id e, round_received_spec seen membership (rs_witnesses st) ?fame (ev_id e),
                 timestamp_spec membership path_meta (ev_id e))) topo)"
    by (intro sim_vmap sim_vbind [OF sim_resolve_event] sim_vret)
  show ?thesis
    unfolding decide_def decide_spec_def Let_def
    by (rule sim_vbind [OF sim_fame], simp only: prod.case, rule sim_vbind [OF resolved], rule sim_vmap)
      (rule state, simp add: order_events_def Let_def)
qed

end

section \<open>The round loop\<close>

text \<open>
  While the rounds are assigned the cache grows: before the event \<open>e\<close> every earlier event but
  the first has an entry. All queries of a step ask what \<open>e\<close> sees.
\<close>

definition round_inv :: "event list \<Rightarrow> round_state \<Rightarrow> bool" where
  "round_inv pre st \<longleftrightarrow>
     fst ` set (rs_rounds st) = ev_id ` set pre \<and> fst ` set (rs_flags st) = ev_id ` set pre \<and>
     (\<forall>r ws. map_of (rs_witnesses st) r = Some ws \<longrightarrow> ws \<noteq> [] \<and> snd ` set ws \<subseteq> ev_id ` set pre) \<and>
     (\<forall>x r. map_of (rs_rounds st) x = Some r \<longrightarrow> map_of (rs_witnesses st) r \<noteq> None) \<and>
     (pre \<noteq> [] \<longrightarrow> map_of (rs_witnesses st) 0 \<noteq> None)"

lemma max_default_Max: "xs \<noteq> [] \<Longrightarrow> max_default xs d = Max (set xs)"
  by (cases xs) (simp_all add: max_default_def Max.set_eq_fold del: set_simps)

lemma max_default_in: "max_default xs d \<in> insert d (set xs)"
proof (cases "xs = []")
  case False
  then have "Max (set xs) \<in> set xs" by (intro Max_in) auto
  with False show ?thesis by (simp add: max_default_Max)
qed (simp add: max_default_def)

lemma base_round_cases:
  "base_round rounds e = 0 \<or> (\<exists>p \<in> set (ev_parents e). map_of rounds p = Some (base_round rounds e))"
proof -
  have "base_round rounds e \<in> insert 0 (set (List.map_filter (map_of rounds) (ev_parents e)))"
    unfolding base_round_def by (rule max_default_in)
  then show ?thesis by (auto simp: List.map_filter_def)
qed

lemma base_witnesses:
  assumes "round_inv pre st" "pre \<noteq> []"
  obtains ws where "map_of (rs_witnesses st) (base_round (rs_rounds st) e) = Some ws" "ws \<noteq> []"
    "snd ` set ws \<subseteq> ev_id ` set pre"
proof -
  have "map_of (rs_witnesses st) (base_round (rs_rounds st) e) \<noteq> None"
    using base_round_cases [of "rs_rounds st" e] assms by (auto simp: round_inv_def)
  with that assms(1) show thesis by (auto simp: round_inv_def)
qed

lemma base_first: "round_inv [] st \<Longrightarrow> base_round (rs_rounds st) e = 0"
  using base_round_cases [of "rs_rounds st" e] by (auto simp: round_inv_def)

lemma witnesses_first: "round_inv [] st \<Longrightarrow> dict_get (rs_witnesses st) r [] = []"
  by (cases "map_of (rs_witnesses st) r") (fastforce simp: round_inv_def dict_get_def)+

lemma round_inv_step:
  assumes "round_inv pre st" "pre = [] \<longrightarrow> r = 0"
  shows "round_inv (pre @ [e]) (assign_round e r st)"
proof -
  let ?old = "dict_get (rs_witnesses st) r []"
  define N where "N = (if map_of ?old (creator_of e) = None then AList.update (creator_of e) (ev_id e) ?old else ?old)"
  have old: "snd ` set ?old \<subseteq> ev_id ` set pre"
  proof (cases "map_of (rs_witnesses st) r")
    case (Some ws)
    then show ?thesis using assms(1) by (auto simp: round_inv_def dict_get_def)
  qed (simp add: dict_get_def)
  have new: "N \<noteq> []" "snd ` set N \<subseteq> ev_id ` set (pre @ [e])"
    using old by (auto simp: N_def update_fresh map_of_eq_None_iff)
  have sel: "rs_rounds (assign_round e r st) = AList.update (ev_id e) r (rs_rounds st)"
    "fst ` set (rs_flags (assign_round e r st)) = insert (ev_id e) (fst ` set (rs_flags st))"
    "rs_witnesses (assign_round e r st) = AList.update r N (rs_witnesses st)"
    by (simp_all add: assign_round_def Let_def dom_update N_def)
  show ?thesis unfolding round_inv_def sel map_of_update dom_update
  proof (intro conjI allI impI)
    show "insert (ev_id e) (fst ` set (rs_flags st)) = ev_id ` set (pre @ [e])"
      "{ev_id e} \<union> fst ` set (rs_rounds st) = ev_id ` set (pre @ [e])"
      using assms(1) unfolding round_inv_def by auto
  next
    fix r' ws assume "(if r' = r then Some N else map_of (rs_witnesses st) r') = Some ws"
    note H = this
    have "ws \<noteq> [] \<and> snd ` set ws \<subseteq> ev_id ` set (pre @ [e])"
    proof (cases "r' = r")
      case True
      with H have "ws = N" by simp
      with new show ?thesis by simp
    next
      case False
      with H have "map_of (rs_witnesses st) r' = Some ws" by simp
      then have "ws \<noteq> [] \<and> snd ` set ws \<subseteq> ev_id ` set pre" using assms(1) by (simp add: round_inv_def)
      then show ?thesis by auto
    qed
    then show "ws \<noteq> []" "snd ` set ws \<subseteq> ev_id ` set (pre @ [e])" by (rule conjunct1, rule conjunct2)
  next
    fix x r' assume "(if x = ev_id e then Some r else map_of (rs_rounds st) x) = Some r'"
    then show "(if r' = r then Some N else map_of (rs_witnesses st) r') \<noteq> None"
      using assms(1) by (auto simp: round_inv_def split: if_splits)
  next
    show "(if 0 = r then Some N else map_of (rs_witnesses st) 0) \<noteq> None"
      using assms by (cases "pre = []") (auto simp: round_inv_def)
  qed
qed

lemma round_inv_init: "round_inv [] init_rounds"
  by (simp add: round_inv_def init_rounds_def)

lemma supermajority_current:
  assumes "good_cache rl topo pre c" "topo = pre @ e # post" "ws \<noteq> []" "set ws \<subseteq> ev_id ` set pre"
  obtains c' where "sees_supermajority (can_see rl (events_by_id topo)) (events_by_id topo) membership (ev_id e) ws c =
      Inr (sees_supermajority_spec (sees (events_by_id topo)) (events_by_id topo) membership (ev_id e) ws, c')"
    "good_cache rl topo (pre @ [e]) c'"
proof -
  let ?g = "events_by_id topo"
  let ?P = "\<lambda>w. if w \<in> fst ` set ?g then can_see rl ?g (ev_id e) w else vret False"
  let ?Q = "\<lambda>w. w \<in> fst ` set ?g \<and> sees ?g (ev_id e) w"
  obtain w ws' where ws: "ws = w # ws'" using assms(3) by (cases ws) auto
  have ok: "topo_ok (pre @ e # post)" using assms(1,2) by (simp add: good_cache_def)
  have "w \<in> fst ` set ?g"
    using assms(2,4) ws dom_events_by_id [of topo] by (auto simp: dom_map_of_conv_image_fst)
  moreover have "w \<noteq> ev_id e"
  proof
    assume "w = ev_id e"
    then have "ev_id e \<in> ev_id ` set pre" using assms(4) ws by auto
    with topo_ok_distinct [OF ok] show False by auto
  qed
  ultimately obtain c1 where first: "?P w c = Inr (?Q w, c1)" "good_cache rl topo (pre @ [e]) c1"
    using can_see_current [OF assms(1,2), of w] by auto
  have "simulates (good_cache rl topo (pre @ [e])) (vfilter ?P ws') (filter ?Q ws')"
  proof (rule sim_vfilter)
    fix v
    have "simulates (good_cache rl topo (pre @ [e])) (can_see rl ?g (ev_id e) v) (sees ?g (ev_id e) v)"
      unfolding simulates_def
    proof (intro allI impI)
      fix d assume "good_cache rl topo (pre @ [e]) d"
      from can_see_known [OF this, of post "ev_id e" v]
      show "\<exists>c'. can_see rl ?g (ev_id e) v d = Inr (sees ?g (ev_id e) v, c') \<and> good_cache rl topo (pre @ [e]) c'"
        using assms(2) by auto
    qed
    then show "simulates (good_cache rl topo (pre @ [e])) (?P v) (?Q v)" by (auto intro: sim_vret)
  qed
  from simulatesD [OF this first(2)] obtain c2
    where "vfilter ?P ws' c1 = Inr (filter ?Q ws', c2)" "good_cache rl topo (pre @ [e]) c2" by auto
  with first(1) have "vfilter ?P ws c = Inr (filter ?Q ws, c2)" "good_cache rl topo (pre @ [e]) c2"
    by (auto simp: ws vbind_def vret_def)
  then show thesis
    by (intro that [of c2]) (simp_all add: sees_supermajority_def sees_supermajority_spec_def vbind_def vret_def)
qed

lemma round_step_ok:
  assumes "good_cache rl topo pre c" "topo = pre @ e # post" "round_inv pre st"
  obtains c' where "round_step (can_see rl (events_by_id topo)) (events_by_id topo) membership e st c =
      Inr (round_step_spec (sees (events_by_id topo)) (events_by_id topo) membership e st, c')"
    "good_cache rl topo (pre @ [e]) c'"
    "round_inv (pre @ [e]) (round_step_spec (sees (events_by_id topo)) (events_by_id topo) membership e st)"
proof (cases "pre = []")
  case True
  have "round_step (can_see rl (events_by_id topo)) (events_by_id topo) membership e st c =
      Inr (round_step_spec (sees (events_by_id topo)) (events_by_id topo) membership e st, c)"
    using True assms(3) by (simp add: round_step_def round_step_spec_def next_round_def witnesses_first vbind_def vret_def Let_def)
  moreover have "next_round (sees (events_by_id topo)) (events_by_id topo) membership st e = 0"
    using True assms(3) by (simp add: next_round_def witnesses_first base_first Let_def)
  then have "round_inv (pre @ [e]) (round_step_spec (sees (events_by_id topo)) (events_by_id topo) membership e st)"
    unfolding round_step_spec_def by (intro round_inv_step assms(3)) simp
  ultimately show ?thesis using True assms(1) by (intro that [of c]) (auto simp: good_cache_def)
next
  case False
  obtain ws where ws: "map_of (rs_witnesses st) (base_round (rs_rounds st) e) = Some ws" "ws \<noteq> []"
    "snd ` set ws \<subseteq> ev_id ` set pre"
    using base_witnesses [OF assms(3) False] .
  from supermajority_current [OF assms(1,2), of "map snd ws" membership] ws(2,3) obtain c'
    where "sees_supermajority (can_see rl (events_by_id topo)) (events_by_id topo) membership (ev_id e) (map snd ws) c =
      Inr (sees_supermajority_spec (sees (events_by_id topo)) (events_by_id topo) membership (ev_id e) (map snd ws), c')"
    "good_cache rl topo (pre @ [e]) c'" by auto
  moreover have "round_inv (pre @ [e]) (round_step_spec (sees (events_by_id topo)) (events_by_id topo) membership e st)"
    unfolding round_step_spec_def by (intro round_inv_step assms(3)) (simp add: False)
  ultimately show ?thesis using ws(1,2)
    by (intro that [of c']) (simp_all add: round_step_def round_step_spec_def next_round_def dict_get_def vbind_def vret_def Let_def)
qed

lemma assign_rounds_ok:
  assumes "topo_ok topo" "3 \<le> rl"
  obtains c where "assign_rounds (can_see rl (events_by_id topo)) (events_by_id topo) membership topo [] =
      Inr (assign_rounds_spec (sees (events_by_id topo)) (events_by_id topo) membership topo, c)"
    "good_cache rl topo topo c"
    "round_inv topo (assign_rounds_spec (sees (events_by_id topo)) (events_by_id topo) membership topo)"
proof -
  let ?g = "events_by_id topo"
  let ?step = "round_step_spec (sees ?g) ?g membership"
  have loop: "\<exists>c'. vfold (round_step (can_see rl ?g) ?g membership) post st c = Inr (fold ?step post st, c') \<and>
      good_cache rl topo topo c' \<and> round_inv topo (fold ?step post st)"
    if "topo = pre @ post" "good_cache rl topo pre c" "round_inv pre st" for pre post st c
    using that
  proof (induction post arbitrary: pre st c)
    case Nil
    then show ?case by (simp add: vret_def)
  next
    case (Cons e post)
    from round_step_ok [OF Cons.prems(2,1,3), of membership] obtain c1
      where step: "round_step (can_see rl ?g) ?g membership e st c = Inr (?step e st, c1)"
        "good_cache rl topo (pre @ [e]) c1" "round_inv (pre @ [e]) (?step e st)" .
    have "topo = (pre @ [e]) @ post" using Cons.prems(1) by simp
    from Cons.IH [OF this step(2,3)] show ?case using step(1) by (simp add: vbind_def)
  qed
  have "good_cache rl topo [] []" using assms by (simp add: good_cache_def cache_ok_def)
  from loop [OF _ this round_inv_init] show thesis
    by (auto simp: assign_rounds_def assign_rounds_spec_def intro: that)
qed

lemma recompute_eq_spec:
  assumes "topo_ok events" "3 \<le> rl"
  shows "recompute L rl node_id events membership path_meta =
    Inr (recompute_spec L node_id events membership path_meta)"
proof (cases "events = []")
  case True
  then show ?thesis
    by (simp add: recompute_def recompute_spec_def decide_spec_def order_events_def total_order_def Let_def)
next
  case False
  let ?g = "events_by_id events" and ?mem = "normalize_membership node_id membership"
  let ?st = "assign_rounds_spec (sees ?g) ?g ?mem events"
  from assign_rounds_ok [OF assms, of ?mem] obtain c
    where rounds: "assign_rounds (can_see rl ?g) ?g ?mem events [] = Inr (?st, c)"
      "good_cache rl events events c" "round_inv events ?st" .
  have "map_of (rs_rounds ?st) (ev_id e) \<noteq> None \<and> map_of (rs_flags ?st) (ev_id e) \<noteq> None"
    if "e \<in> set events" for e
    using rounds(3) that by (auto simp: round_inv_def map_of_eq_None_iff)
  from simulatesD [OF memo.sim_decide [OF this] rounds(2)]
  obtain c' where "decide L (can_see rl ?g) ?mem events path_meta ?st c =
      Inr (decide_spec L (sees ?g) ?mem events path_meta ?st, c')" by blast
  with False rounds(1) show ?thesis by (simp add: recompute_def recompute_spec_def vbind_def Let_def)
qed

text \<open>
  C2: the memoised consensus computation is total on a topologically ordered list of events
  (a recursion depth of three is enough for every ancestor search, so the recursion limit is
  never reached, and no lookup fails) and equals the specification, which reads visibility off
  the transitive closure of the parent links.
\<close>

theorem recompute_refines:
  assumes "topo_ok events" "3 \<le> rl"
  shows "recompute L rl node_id events membership path_meta =
    Inr (recompute_spec L node_id events membership path_meta)"
  by (rule recompute_eq_spec [OF assms])

theorem recompute_refines_witness:
  "recompute demo_lib 3 ''n1'' chain_events [] [] = Inr (recompute_spec demo_lib ''n1'' chain_events [] [])"
  by (rule recompute_refines) (simp_all add: chain_events_def)

end
