(* ===== verification/Rounds.thy ===== *)
theory Rounds
  imports Consensus
begin

text \<open>
  What the round loop of \<open>ConsensusEngine.recompute\<close> leaves behind, independently of the
  order in which it got there: the round of an event is determined by its ancestors, and the
  witness of a creator in a round is the creator's first event of that round.
\<close>

section \<open>Supermajorities\<close>

interpretation supermajority: supermajority_counting supermajority_threshold
proof
  fix n :: nat
  show "0 < n \<Longrightarrow> n < 2 * supermajority_threshold n" "0 < n \<Longrightarrow> supermajority_threshold n \<le> n"
    "2 * n < 3 * supermajority_threshold n"
    by (simp_all add: supermajority_threshold_def)
qed

lemma normalize_entries_props:
  assumes "distinct acc" "[] \<notin> set acc"
  shows "distinct (normalize_entries ms acc) \<and> [] \<notin> set (normalize_entries ms acc) \<and>
    set (normalize_entries ms acc) = set acc \<union> ((\<lambda>m. py_strip (me_node_id m)) ` set ms - {[]})"
  using assms
proof (induction ms arbitrary: acc)
  case (Cons m ms)
  let ?n = "py_strip (me_node_id m)"
  show ?case
  proof (cases "?n = [] \<or> ?n \<in> set acc")
    case True
    with Cons.IH [OF Cons.prems] show ?thesis by (auto simp: Let_def)
  next
    case False
    with Cons.prems have "distinct (acc @ [?n])" "[] \<notin> set (acc @ [?n])" by auto
    from Cons.IH [OF this] False show ?thesis by (auto simp: Let_def)
  qed
qed auto

text \<open>
  The membership the consensus counts with lists every distinct, non-empty, stripped
  node id of the snapshot once and always contains the node itself, so it is never empty.
\<close>

theorem normalize_membership_correct:
  "distinct (normalize_membership node_id membership) \<and>
   set (normalize_membership node_id membership) =
     insert node_id ((\<lambda>m. py_strip (me_node_id m)) ` set membership - {[]})"
  using normalize_entries_props [of "[]" membership]
  by (auto simp: normalize_membership_def Let_def)

text \<open>
  Any two supermajorities of the members share more than a third of them; two decisions
  that each rest on a supermajority cannot rest on disjoint sets of members.
\<close>

lemma supermajorities_intersect:
  assumes "distinct members" "A \<subseteq> set members" "B \<subseteq> set members"
    "supermajority_threshold (length members) \<le> card A" "supermajority_threshold (length members) \<le> card B"
  shows "length members < 3 * card (A \<inter> B)"
  using supermajority.quorums_meet_third [of "set members" A B] assms
  by (simp add: distinct_card)

section \<open>Ancestors in a topological order\<close>

lemma topo_fresh: "topo_ok (pre @ e # post) \<Longrightarrow> e' \<in> set pre \<Longrightarrow> ev_id e' \<noteq> ev_id e"
  using topo_ok_distinct [of "pre @ e # post"] by (auto simp del: not_None_eq) (metis image_eqI)

lemma parent_rel_topo:
  assumes "topo_ok (pre @ post)" "(p, x) \<in> parent_rel (events_by_id (pre @ post))" "x \<in> ev_id ` set pre"
  shows "p \<in> ev_id ` set pre \<or> p \<notin> ev_id ` set (pre @ post)"
proof -
  obtain e where e: "e \<in> set (pre @ post)" "ev_id e = x" "p \<in> set (ev_parents e)"
    using assms(2) map_of_events_by_id [OF topo_ok_distinct [OF assms(1)]] by (auto simp: parent_rel_def)
  have "e \<in> set pre" using e(1,2) assms(3) topo_ok_distinct [OF assms(1)] by auto
  then obtain p1 p2 where pre: "pre = p1 @ e # p2" by (auto simp: in_set_conv_decomp)
  have "p \<notin> ev_id ` set (e # p2 @ post)"
    using topo_ok_parents [of p1 e "p2 @ post" p] assms(1) e(3) pre by simp
  then show ?thesis using pre by auto
qed

lemma anc_topo:
  assumes "topo_ok (pre @ post)" "x \<in> ev_id ` set pre" "y \<in> anc (events_by_id (pre @ post)) x"
  shows "y \<in> ev_id ` set pre \<or> y \<notin> ev_id ` set (pre @ post)"
proof -
  have "(y, x) \<in> (parent_rel (events_by_id (pre @ post)))\<^sup>+" using assms(3) by (simp add: anc_def)
  then show ?thesis
  proof (induction rule: converse_trancl_induct)
    case (base y)
    then show ?case using parent_rel_topo [OF assms(1) _ assms(2)] by blast
  next
    case (step y z)
    have "z \<in> dom (map_of (events_by_id (pre @ post)))" using step.hyps(1) by (auto simp: parent_rel_def)
    then have "z \<in> ev_id ` set pre" using step.IH by (simp add: dom_events_by_id)
    then show ?case using parent_rel_topo [OF assms(1) step.hyps(1)] by blast
  qed
qed

lemma anc_irrefl: "topo_ok topo \<Longrightarrow> x \<notin> anc (events_by_id topo) x"
proof
  assume ok: "topo_ok topo" and cyc: "x \<in> anc (events_by_id topo) x"
  then have "x \<in> dom (map_of (events_by_id topo))"
    by (cases "map_of (events_by_id topo) x") (auto simp: anc_unfold [of _ x])
  then obtain e where e: "e \<in> set topo" "ev_id e = x" by (auto simp: dom_events_by_id)
  then obtain pre post where topo: "topo = pre @ e # post" by (auto simp: in_set_conv_decomp)
  have "map_of (events_by_id topo) x = Some e"
    using map_of_events_by_id [OF topo_ok_distinct [OF ok]] e by simp
  then obtain p where p: "p \<in> set (ev_parents e)" "x = p \<or> x \<in> anc (events_by_id topo) p"
    using cyc by (auto simp: anc_unfold [of _ x])
  have np: "p \<notin> ev_id ` set (e # post)" using topo_ok_parents [of pre e post p] ok topo p(1) by simp
  have "x \<in> anc (events_by_id (pre @ e # post)) p" using p np e(2) topo by auto
  then have "p \<in> dom (map_of (events_by_id topo))"
    unfolding topo by (cases "map_of (events_by_id (pre @ e # post)) p") (auto simp: anc_unfold [of _ p])
  then have "p \<in> ev_id ` set pre" using np topo by (auto simp: dom_events_by_id)
  from anc_topo [OF _ this, of "e # post" x] \<open>x \<in> anc (events_by_id (pre @ e # post)) p\<close> ok topo e(2)
  have "x \<in> ev_id ` set pre" by auto
  then show False using topo_ok_distinct [OF ok] topo e(2) by auto
qed

lemma anc_trans: "x \<in> anc g y \<Longrightarrow> y \<in> anc g z \<Longrightarrow> x \<in> anc g z"
  by (auto simp: anc_def intro: trancl_trans)

section \<open>The invariant of the round loop\<close>

definition witness_of :: "round_state \<Rightarrow> int \<Rightarrow> string \<Rightarrow> string option" where
  "witness_of st r c = map_of (dict_get (rs_witnesses st) r []) c"

definition in_round :: "round_state \<Rightarrow> string \<Rightarrow> int \<Rightarrow> event \<Rightarrow> bool" where
  "in_round st c r e \<longleftrightarrow> creator_of e = c \<and> map_of (rs_rounds st) (ev_id e) = Some r"

definition seen_creators :: "by_id \<Rightarrow> string list \<Rightarrow> round_state \<Rightarrow> int \<Rightarrow> string \<Rightarrow> string set" where
  "seen_creators g membership st r x = {c \<in> set membership. \<exists>w \<in> anc g x. witness_of st r c = Some w}"

definition advanced_round :: "by_id \<Rightarrow> string list \<Rightarrow> round_state \<Rightarrow> event \<Rightarrow> int" where
  "advanced_round g membership st e =
     (let b = base_round (rs_rounds st) e
      in if supermajority_threshold (length membership) \<le> card (seen_creators g membership st b (ev_id e))
         then b + 1 else b)"

definition rounds_ok :: "by_id \<Rightarrow> string list \<Rightarrow> event list \<Rightarrow> round_state \<Rightarrow> bool" where
  "rounds_ok g membership pre st \<longleftrightarrow>
     (\<forall>r c. witness_of st r c = map_option ev_id (List.find (in_round st c r) pre)) \<and>
     (\<forall>e \<in> set pre. map_of (rs_rounds st) (ev_id e) = Some (advanced_round g membership st e)) \<and>
     (\<forall>e \<in> set pre. \<forall>r. map_of (rs_rounds st) (ev_id e) = Some r \<longrightarrow>
        map_of (rs_flags st) (ev_id e) = Some (witness_of st r (creator_of e) = Some (ev_id e))) \<and>
     (\<forall>r. distinct (map fst (dict_get (rs_witnesses st) r []))) \<and>
     distinct (map fst (rs_witnesses st))"

lemma assign_round_sel:
  "map_of (rs_rounds (assign_round e r st)) x = (if x = ev_id e then Some r else map_of (rs_rounds st) x)"
  "map_of (rs_flags (assign_round e r st)) x =
     (if x = ev_id e then Some (witness_of st r (creator_of e) = None) else map_of (rs_flags st) x)"
  "witness_of (assign_round e r st) r' c =
     (if r' = r \<and> c = creator_of e \<and> witness_of st r c = None then Some (ev_id e) else witness_of st r' c)"
  by (auto simp: assign_round_def Let_def witness_of_def dict_get_def split: option.splits)

lemma assign_round_distinct:
  assumes "\<forall>r. distinct (map fst (dict_get (rs_witnesses st) r []))" "distinct (map fst (rs_witnesses st))"
  shows "distinct (map fst (dict_get (rs_witnesses (assign_round e r st)) r' []))"
    "distinct (map fst (rs_witnesses (assign_round e r st)))"
proof -
  have d: "distinct (map fst (dict_get (rs_witnesses st) q []))" for q using assms(1) by blast
  have "dict_get (AList.update r ws al) r' [] = (if r' = r then ws else dict_get al r' [])" for ws and al :: witnesses
    by (simp add: dict_get_def)
  then show "distinct (map fst (dict_get (rs_witnesses (assign_round e r st)) r' []))"
    using d [of r] d [of r'] by (simp add: assign_round_def Let_def)
  show "distinct (map fst (rs_witnesses (assign_round e r st)))"
    using assms(2) by (simp add: assign_round_def Let_def)
qed

lemma witness_in_pre:
  assumes "rounds_ok g membership pre st" "witness_of st r c = Some w"
  obtains e where "e \<in> set pre" "ev_id e = w" "creator_of e = c" "map_of (rs_rounds st) w = Some r"
proof -
  have "map_option ev_id (List.find (in_round st c r) pre) = Some w"
    using assms by (simp add: rounds_ok_def)
  then obtain e where "List.find (in_round st c r) pre = Some e" "ev_id e = w" by auto
  then have "e \<in> set pre" "in_round st c r e" "ev_id e = w" by (auto simp: find_Some_iff)
  then show thesis using that [of e] by (simp add: in_round_def)
qed

lemma seen_creators_current:
  assumes "rounds_ok (events_by_id topo) membership pre st" "topo_ok topo" "topo = pre @ e # post"
  shows "event_creator (events_by_id topo) ` {w \<in> set (map snd (dict_get (rs_witnesses st) b [])).
      w \<in> fst ` set (events_by_id topo) \<and> sees (events_by_id topo) (ev_id e) w} \<inter> set membership =
    seen_creators (events_by_id topo) membership st b (ev_id e)"
proof -
  let ?g = "events_by_id topo"
  have dist: "distinct (map fst (dict_get (rs_witnesses st) b []))" using assms(1) by (simp add: rounds_ok_def)
  have wit: "w \<in> fst ` set ?g \<and> event_creator ?g w = c \<and> (sees ?g (ev_id e) w \<longleftrightarrow> w \<in> anc ?g (ev_id e))"
    if cw: "witness_of st b c = Some w" for c w
  proof -
    obtain e' where e': "e' \<in> set pre" "ev_id e' = w" "creator_of e' = c"
      by (rule witness_in_pre [OF assms(1) cw])
    then have "map_of ?g w = Some e'" using map_of_events_by_id [OF topo_ok_distinct [OF assms(2)]] assms(3) by simp
    moreover have "w \<noteq> ev_id e" using e' topo_fresh [of pre e post e'] assms(2,3) by auto
    ultimately show ?thesis using e'(3) by (auto simp: event_creator_def sees_def dest: map_of_SomeD intro: rev_image_eqI)
  qed
  have iff: "(c, w) \<in> set (dict_get (rs_witnesses st) b []) \<longleftrightarrow> witness_of st b c = Some w" for c w
    using dist by (simp add: witness_of_def)
  show ?thesis
  proof (intro set_eqI iffI)
    fix c assume "c \<in> event_creator ?g ` {w \<in> set (map snd (dict_get (rs_witnesses st) b [])).
      w \<in> fst ` set ?g \<and> sees ?g (ev_id e) w} \<inter> set membership"
    then obtain c' w where w: "(c', w) \<in> set (dict_get (rs_witnesses st) b [])" "sees ?g (ev_id e) w"
      "c = event_creator ?g w" "c \<in> set membership" by auto
    with iff [of c' w] wit [of c' w] show "c \<in> seen_creators ?g membership st b (ev_id e)"
      by (auto simp: seen_creators_def)
  next
    fix c assume "c \<in> seen_creators ?g membership st b (ev_id e)"
    then obtain w where w: "c \<in> set membership" "w \<in> anc ?g (ev_id e)" "witness_of st b c = Some w"
      by (auto simp: seen_creators_def)
    with iff [of c w] wit [of c w]
    have "w \<in> {w \<in> set (map snd (dict_get (rs_witnesses st) b [])). w \<in> fst ` set ?g \<and> sees ?g (ev_id e) w}"
      by (auto intro: rev_image_eqI)
    with wit [OF w(3)] w(1) show "c \<in> event_creator ?g ` {w \<in> set (map snd (dict_get (rs_witnesses st) b [])).
      w \<in> fst ` set ?g \<and> sees ?g (ev_id e) w} \<inter> set membership" by blast
  qed
qed

lemma seen_creators_empty: "dict_get (rs_witnesses st) b [] = [] \<Longrightarrow> seen_creators g membership st b x = {}"
  by (simp add: seen_creators_def witness_of_def)

lemma next_round_advanced:
  assumes "rounds_ok (events_by_id topo) membership pre st" "topo_ok topo" "topo = pre @ e # post"
  shows "next_round (sees (events_by_id topo)) (events_by_id topo) membership st e =
    advanced_round (events_by_id topo) membership st e"
proof (cases "dict_get (rs_witnesses st) (base_round (rs_rounds st) e) [] = []")
  case True
  then show ?thesis
    by (simp add: next_round_def advanced_round_def seen_creators_empty Let_def not_le)
next
  case False
  then show ?thesis
    using seen_creators_current [OF assms, of "base_round (rs_rounds st) e"]
    by (simp add: next_round_def advanced_round_def sees_supermajority_spec_def Let_def)
qed

text \<open>Assigning the current event leaves the equations of the events before it alone.\<close>

lemma advanced_round_frame:
  assumes "topo_ok (pre @ e # post)" "e' \<in> set (pre @ [e])"
  shows "advanced_round (events_by_id (pre @ e # post)) membership (assign_round e r st) e' =
    advanced_round (events_by_id (pre @ e # post)) membership st e'"
proof -
  let ?g = "events_by_id (pre @ e # post)"
  have "ev_id e \<notin> set (ev_parents e')"
  proof (cases "e' = e")
    case True
    then show ?thesis using topo_ok_parents [OF assms(1)] by auto
  next
    case False
    then obtain p1 p2 where "pre = p1 @ e' # p2" using assms(2) by (auto simp: in_set_conv_decomp)
    then show ?thesis using topo_ok_parents [of p1 e' "p2 @ e # post" "ev_id e"] assms(1) by auto
  qed
  then have base: "base_round (rs_rounds (assign_round e r st)) e' = base_round (rs_rounds st) e'"
    unfolding base_round_def List.map_filter_def
    by (intro arg_cong [of _ _ "\<lambda>xs. max_default xs 0"] map_cong filter_cong) (auto simp: assign_round_sel)
  have "ev_id e \<notin> anc ?g (ev_id e')"
  proof (cases "e' = e")
    case True
    then show ?thesis using anc_irrefl [OF assms(1)] by simp
  next
    case False
    then have "ev_id e' \<in> ev_id ` set pre" using assms(2) by auto
    from anc_topo [OF assms(1) this] topo_ok_distinct [OF assms(1)] show ?thesis by fastforce
  qed
  then have "seen_creators ?g membership (assign_round e r st) b (ev_id e') = seen_creators ?g membership st b (ev_id e')" for b
    by (auto simp: seen_creators_def assign_round_sel split: if_splits)
  with base show ?thesis by (simp add: advanced_round_def)
qed

lemma rounds_ok_step:
  assumes "rounds_ok (events_by_id topo) membership pre st" "topo_ok topo" "topo = pre @ e # post"
  shows "rounds_ok (events_by_id topo) membership (pre @ [e])
    (assign_round e (advanced_round (events_by_id topo) membership st e) st)"
proof -
  let ?g = "events_by_id topo" let ?r = "advanced_round ?g membership st e"
  let ?st = "assign_round e ?r st"
  have fresh: "ev_id e' \<noteq> ev_id e" if "e' \<in> set pre" for e'
    using that topo_fresh [of pre e post e'] assms(2,3) by simp
  have find_eq: "List.find (in_round ?st c r) pre = List.find (in_round st c r) pre" for c r
    by (rule find_cong_set) (auto simp: in_round_def assign_round_sel dest: fresh)
  have old: "witness_of st r c = map_option ev_id (List.find (in_round st c r) pre)" for r c
    using assms(1) by (simp add: rounds_ok_def)
  have adv: "advanced_round ?g membership ?st e' = advanced_round ?g membership st e'" if "e' \<in> set (pre @ [e])" for e'
    using advanced_round_frame [of pre e post e'] assms(2,3) that by simp
  show ?thesis unfolding rounds_ok_def
  proof (intro conjI allI ballI impI)
    show "witness_of ?st r c = map_option ev_id (List.find (in_round ?st c r) (pre @ [e]))" for r c
      by (simp add: assign_round_sel find_snoc find_eq old in_round_def split: option.splits) blast
  next
    fix e' assume "e' \<in> set (pre @ [e])"
    then show "map_of (rs_rounds ?st) (ev_id e') = Some (advanced_round ?g membership ?st e')"
      using assms(1) adv by (auto simp: assign_round_sel rounds_ok_def dest: fresh)
  next
    fix e' r assume e': "e' \<in> set (pre @ [e])" "map_of (rs_rounds ?st) (ev_id e') = Some r"
    show "map_of (rs_flags ?st) (ev_id e') = Some (witness_of ?st r (creator_of e') = Some (ev_id e'))"
    proof (cases "e' = e")
      case True
      have "witness_of st ?r (creator_of e) \<noteq> Some (ev_id e)"
        using witness_in_pre [OF assms(1), of ?r "creator_of e" "ev_id e"] fresh by metis
      with True e'(2) show ?thesis by (auto simp: assign_round_sel)
    next
      case False
      with e' have "e' \<in> set pre" by auto
      with e'(2) fresh [OF this] assms(1) show ?thesis by (auto simp: assign_round_sel rounds_ok_def)
    qed
  qed (use assms(1) assign_round_distinct in \<open>auto simp: rounds_ok_def\<close>)
qed

lemma rounds_ok_final:
  assumes "topo_ok topo"
  shows "rounds_ok (events_by_id topo) membership topo
    (assign_rounds_spec (sees (events_by_id topo)) (events_by_id topo) membership topo)"
proof -
  let ?g = "events_by_id topo"
  have loop: "rounds_ok ?g membership topo (fold (round_step_spec (sees ?g) ?g membership) post st)"
    if "topo = pre @ post" "rounds_ok ?g membership pre st" for pre post st
    using that
  proof (induction post arbitrary: pre st)
    case (Cons e post)
    have "rounds_ok ?g membership (pre @ [e]) (round_step_spec (sees ?g) ?g membership e st)"
      using rounds_ok_step [OF Cons.prems(2) assms Cons.prems(1)]
        next_round_advanced [OF Cons.prems(2) assms Cons.prems(1)] by (simp add: round_step_spec_def)
    from Cons.IH [OF _ this] Cons.prems(1) show ?case by simp
  qed simp
  have "rounds_ok ?g membership [] init_rounds"
    by (simp add: rounds_ok_def init_rounds_def witness_of_def dict_get_def)
  from loop [OF _ this] show ?thesis by (simp add: assign_rounds_spec_def)
qed

section \<open>Rounds and witnesses in the result\<close>

definition round_data :: "string \<Rightarrow> event list \<Rightarrow> membership_entry list \<Rightarrow> round_state" where
  "round_data node_id events membership =
     (let g = events_by_id events
      in assign_rounds_spec (sees g) g (normalize_membership node_id membership) events)"

definition fame_data :: "pylib \<Rightarrow> string \<Rightarrow> event list \<Rightarrow> membership_entry list \<Rightarrow> fame_map" where
  "fame_data L node_id events membership =
     fame_spec L (sees (events_by_id events)) (normalize_membership node_id membership)
       (rs_witnesses (round_data node_id events membership))"

definition event_state :: "pylib \<Rightarrow> string \<Rightarrow> event list \<Rightarrow> membership_entry list \<Rightarrow> (string, hop list) dict \<Rightarrow>
    event \<Rightarrow> consensus_state" where
  "event_state L node_id events membership path_meta =
     state_spec (sees (events_by_id events)) (normalize_membership node_id membership)
       (round_data node_id events membership) (fame_data L node_id events membership) path_meta"

definition resolved_data :: "pylib \<Rightarrow> string \<Rightarrow> event list \<Rightarrow> membership_entry list \<Rightarrow> (string, hop list) dict \<Rightarrow>
    (string, int option \<times> timestamp option) dict" where
  "resolved_data L node_id events membership path_meta =
     map (\<lambda>e. (ev_id e,
       round_received_spec (sees (events_by_id events)) (normalize_membership node_id membership)
         (rs_witnesses (round_data node_id events membership)) (fame_data L node_id events membership) (ev_id e),
       timestamp_spec (normalize_membership node_id membership) path_meta (ev_id e))) events"

lemma recompute_spec_states:
  "recompute_spec L node_id events membership path_meta =
     map (event_state L node_id events membership path_meta)
       (order_events events (dict_of (resolved_data L node_id events membership path_meta)))"
  by (simp add: recompute_spec_def decide_spec_def event_state_def fame_data_def round_data_def resolved_data_def Let_def)

lemma set_order_events [simp]: "set (order_events topo res) = set topo"
  and mset_order_events [simp]: "mset (order_events topo res) = mset topo"
  by (simp_all add: order_events_def Let_def)

lemma event_state_sel [simp]:
  "cs_event_id (event_state L n es ms pm e) = ev_id e"
  "cs_creator (event_state L n es ms pm e) = creator_of e"
  "cs_round (event_state L n es ms pm e) = the (map_of (rs_rounds (round_data n es ms)) (ev_id e))"
  "cs_is_witness (event_state L n es ms pm e) = the (map_of (rs_flags (round_data n es ms)) (ev_id e))"
  by (simp_all add: event_state_def state_spec_def make_state_def Let_def)

lemma recompute_states:
  assumes "topo_ok events" "3 \<le> rl" "recompute L rl node_id events membership path_meta = Inr states" "s \<in> set states"
  obtains e where "e \<in> set events" "s = event_state L node_id events membership path_meta e"
  using assms by (auto simp: recompute_eq_spec recompute_spec_states)

lemma round_data_ok:
  "topo_ok events \<Longrightarrow>
   rounds_ok (events_by_id events) (normalize_membership node_id membership) events (round_data node_id events membership)"
  by (simp add: round_data_def rounds_ok_final Let_def)

lemma round_of_event:
  assumes "topo_ok events" "e \<in> set events"
  shows "map_of (rs_rounds (round_data n events ms)) (ev_id e) =
    Some (advanced_round (events_by_id events) (normalize_membership n ms) (round_data n events ms) e)"
  using round_data_ok [OF assms(1), of n ms] assms(2) by (simp add: rounds_ok_def)

lemma base_round_upper:
  "p \<in> set (ev_parents e) \<Longrightarrow> map_of rounds p = Some r \<Longrightarrow> r \<le> base_round rounds e"
proof -
  assume "p \<in> set (ev_parents e)" "map_of rounds p = Some r"
  then have r: "r \<in> set (List.map_filter (map_of rounds) (ev_parents e))" (is "_ \<in> set ?rs")
    by (force simp: List.map_filter_def)
  then have "?rs \<noteq> []" by auto
  then have "base_round rounds e = Max (set ?rs)" by (simp add: base_round_def max_default_Max)
  with r show ?thesis by simp
qed

text \<open>
  Rounds grow along parent links and by one at a time: the round of an event is at least
  the round of each of its parents, and at most one more than zero or the round of one of them.
\<close>

theorem rounds_monotone:
  assumes "topo_ok events" "3 \<le> rl" "recompute L rl node_id events membership path_meta = Inr states"
    and "s \<in> set states" "e \<in> set events" "ev_id e = cs_event_id s"
  shows "(\<forall>s' \<in> set states. cs_event_id s' \<in> set (ev_parents e) \<longrightarrow> cs_round s' \<le> cs_round s) \<and>
    (cs_round s \<le> 1 \<or> (\<exists>s' \<in> set states. cs_event_id s' \<in> set (ev_parents e) \<and> cs_round s \<le> cs_round s' + 1))"
proof -
  let ?st = "round_data node_id events membership" let ?g = "events_by_id events"
  let ?mem = "normalize_membership node_id membership"
  obtain e' where e': "e' \<in> set events" "s = event_state L node_id events membership path_meta e'"
    using recompute_states [OF assms(1-4)] .
  then have "e' = e" using assms(5,6) topo_ok_distinct [OF assms(1)] by (auto simp: distinct_map dest: inj_onD)
  then have round: "cs_round s = advanced_round ?g ?mem ?st e"
    using e' round_of_event [OF assms(1,5)] by simp
  have bounds: "base_round (rs_rounds ?st) e \<le> cs_round s" "cs_round s \<le> base_round (rs_rounds ?st) e + 1"
    unfolding round by (auto simp: advanced_round_def Let_def)
  have parent: "cs_round s' \<le> cs_round s" if s': "s' \<in> set states" "cs_event_id s' \<in> set (ev_parents e)" for s'
  proof -
    obtain p where p: "p \<in> set events" "s' = event_state L node_id events membership path_meta p"
      using recompute_states [OF assms(1-3) s'(1)] .
    with s'(2) round_of_event [OF assms(1) p(1), of node_id membership]
    have "cs_round s' \<le> base_round (rs_rounds ?st) e" by (auto intro: base_round_upper)
    with bounds(1) show ?thesis by linarith
  qed
  have "cs_round s \<le> 1 \<or> (\<exists>s' \<in> set states. cs_event_id s' \<in> set (ev_parents e) \<and> cs_round s \<le> cs_round s' + 1)"
    using base_round_cases [of "rs_rounds ?st" e]
  proof
    assume "\<exists>p \<in> set (ev_parents e). map_of (rs_rounds ?st) p = Some (base_round (rs_rounds ?st) e)"
    then obtain p where p: "p \<in> set (ev_parents e)" "map_of (rs_rounds ?st) p = Some (base_round (rs_rounds ?st) e)" ..
    have "round_inv events ?st"
      unfolding round_data_def Let_def by (rule assign_rounds_ok [OF assms(1,2)])
    moreover have "p \<in> fst ` set (rs_rounds ?st)" using map_of_SomeD [OF p(2)] by (rule rev_image_eqI) simp
    ultimately have "p \<in> ev_id ` set events" by (simp add: round_inv_def)
    then obtain q where q: "q \<in> set events" "ev_id q = p" by auto
    have "event_state L node_id events membership path_meta q \<in> set states"
      using assms(1-3) q(1) by (auto simp: recompute_eq_spec recompute_spec_states)
    with q p bounds(2) show ?thesis by force
  qed (use bounds(2) in simp)
  with parent show ?thesis by blast
qed

text \<open>
  C8: every creator has exactly one witness in every round in which it has an event.
\<close>

theorem unique_witness:
  assumes "topo_ok events" "3 \<le> rl" "recompute L rl node_id events membership path_meta = Inr states" "s \<in> set states"
  shows "\<exists>!w. w \<in> set states \<and> cs_is_witness w \<and> cs_creator w = cs_creator s \<and> cs_round w = cs_round s"
proof -
  let ?st = "round_data node_id events membership"
  have ok: "rounds_ok (events_by_id events) (normalize_membership node_id membership) events ?st"
    using round_data_ok [OF assms(1)] .
  have flag: "cs_is_witness (event_state L node_id events membership path_meta e) \<longleftrightarrow>
      witness_of ?st (cs_round (event_state L node_id events membership path_meta e)) (creator_of e) = Some (ev_id e)"
    if "e \<in> set events" for e
    using ok that round_of_event [OF assms(1) that, of node_id membership] by (simp add: rounds_ok_def)
  have in_states: "event_state L node_id events membership path_meta e \<in> set states" if "e \<in> set events" for e
    using assms(1-3) that by (auto simp: recompute_eq_spec recompute_spec_states)
  obtain e where e: "e \<in> set events" "s = event_state L node_id events membership path_meta e"
    using recompute_states [OF assms] .
  have "in_round ?st (cs_creator s) (cs_round s) e"
    using e round_of_event [OF assms(1) e(1), of node_id membership] by (simp add: in_round_def)
  then have "List.find (in_round ?st (cs_creator s) (cs_round s)) events \<noteq> None"
    using e(1) by (auto simp: find_None_iff)
  then obtain w where "witness_of ?st (cs_round s) (cs_creator s) = Some w"
    using ok by (auto simp: rounds_ok_def)
  note w = this
  obtain f where f: "f \<in> set events" "ev_id f = w" "creator_of f = cs_creator s"
    "map_of (rs_rounds ?st) w = Some (cs_round s)"
    by (rule witness_in_pre [OF ok w])
  show ?thesis
  proof (rule ex1I)
    show "event_state L node_id events membership path_meta f \<in> set states \<and>
      cs_is_witness (event_state L node_id events membership path_meta f) \<and>
      cs_creator (event_state L node_id events membership path_meta f) = cs_creator s \<and>
      cs_round (event_state L node_id events membership path_meta f) = cs_round s"
      using f w in_states [OF f(1)] flag [OF f(1)] by simp
  next
    fix v assume v: "v \<in> set states \<and> cs_is_witness v \<and> cs_creator v = cs_creator s \<and> cs_round v = cs_round s"
    then obtain h where h: "h \<in> set events" "v = event_state L node_id events membership path_meta h"
      using recompute_states [OF assms(1-3)] by metis
    with v flag [OF h(1)] have "witness_of ?st (cs_round s) (cs_creator s) = Some (ev_id h)" by auto
    with w f(2) have "ev_id h = ev_id f" by simp
    then have "h = f" using f(1) h(1) topo_ok_distinct [OF assms(1)] by (auto simp: distinct_map dest: inj_onD)
    with h(2) show "v = event_state L node_id events membership path_meta f" by simp
  qed
qed

section \<open>A concrete run\<close>

lemma chain_topo_ok [simp]: "topo_ok chain_events"
  by (simp add: chain_events_def)

definition chain_states :: "consensus_state list" where
  "chain_states = recompute_spec demo_lib ''n1'' chain_events [] []"

lemma chain_run: "recompute demo_lib 3 ''n1'' chain_events [] [] = Inr chain_states"
  by (simp add: chain_states_def recompute_eq_spec)

lemma chain_state_in: "e \<in> set chain_events \<Longrightarrow> event_state demo_lib ''n1'' chain_events [] [] e \<in> set chain_states"
  by (simp add: chain_states_def recompute_spec_states)

theorem rounds_monotone_witness:
  "\<exists>s \<in> set chain_states. cs_event_id s = ''b'' \<and>
     (\<forall>s' \<in> set chain_states. cs_event_id s' \<in> {''a''} \<longrightarrow> cs_round s' \<le> cs_round s)"
proof -
  let ?e = "plain_event ''b'' ''n1'' [''a'']"
  let ?s = "event_state demo_lib ''n1'' chain_events [] [] ?e"
  have e: "?e \<in> set chain_events" by (simp add: chain_events_def)
  show ?thesis
    using rounds_monotone [OF chain_topo_ok _ chain_run chain_state_in [OF e] e] chain_state_in [OF e]
    by (intro bexI [of _ ?s]) simp_all
qed

definition chain_tip :: consensus_state where
  "chain_tip = event_state demo_lib ''n1'' chain_events [] [] (plain_event ''b'' ''n1'' [''a''])"

lemma chain_tip_in: "chain_tip \<in> set chain_states"
  unfolding chain_tip_def by (rule chain_state_in) (simp add: chain_events_def)

theorem unique_witness_witness:
  "\<exists>!w. w \<in> set chain_states \<and> cs_is_witness w \<and> cs_creator w = cs_creator chain_tip \<and> cs_round w = cs_round chain_tip"
  by (rule unique_witness [OF chain_topo_ok order_refl chain_run chain_tip_in])

end
