(* ===== verification/Ordering.thy ===== *)
theory Ordering
  imports Rounds
begin

text \<open>
  The outcome of \<open>ConsensusEngine.recompute\<close>: the round in which an event is received, its
  consensus timestamp and the order of the resulting states.
\<close>

section \<open>Round received\<close>

lemma find_sorted_Some:
  assumes "sorted xs"
  shows "List.find P xs = Some r \<longleftrightarrow> r \<in> set xs \<and> P r \<and> (\<forall>q \<in> set xs. q < r \<longrightarrow> \<not> P q)"
  using assms by (induction xs) (auto simp: not_less)

lemma event_state_received:
  "cs_round_received (event_state L n es ms pm e) =
     round_received_spec (sees (events_by_id es)) (normalize_membership n ms)
       (rs_witnesses (round_data n es ms)) (fame_data L n es ms) (ev_id e)"
  "cs_consensus_ts (event_state L n es ms pm e) =
     (if cs_round_received (event_state L n es ms pm e) = None then None
      else timestamp_spec (normalize_membership n ms) pm (ev_id e))"
  by (simp_all add: event_state_def state_spec_def make_state_def Let_def)

lemma famous_subset: "set (dict_get (famous_witnesses fame wbr) r []) \<subseteq> set (dict_get wbr r [])"
  unfolding famous_witnesses_def dict_get_def by (induction wbr) auto

lemma received_in_seen:
  assumes "received_in seen membership wbr fame x r"
  shows "supermajority_threshold (length membership) \<le> card (seeing_members seen membership (dict_get wbr r []) x)"
proof -
  obtain ws where ws: "receiving_witnesses wbr (famous_witnesses fame wbr) fame r = Use ws"
    "supermajority_threshold (length membership) \<le> card (seeing_members seen membership ws x)"
    using assms by (auto simp: received_in_def split: round_choice.splits)
  have "set ws \<subseteq> set (dict_get wbr r [])"
    using ws(1) famous_subset [of fame wbr r] by (auto simp: receiving_witnesses_def Let_def split: if_splits)
  then have "seeing_members seen membership ws x \<subseteq> seeing_members seen membership (dict_get wbr r []) x"
    by (auto simp: seeing_members_def)
  then have "card (seeing_members seen membership ws x) \<le> card (seeing_members seen membership (dict_get wbr r []) x)"
    by (rule card_mono [rotated]) (simp add: seeing_members_def)
  with ws(2) show ?thesis by linarith
qed

text \<open>
  C5: the round received is the earliest round whose deciding witnesses (the famous ones once
  all fame of the round is settled) see the event from a supermajority of the members; in
  particular witnesses of more than two thirds of the members see a received event.
\<close>

theorem round_received_correct:
  assumes "topo_ok events" "3 \<le> rl" "recompute L rl node_id events membership path_meta = Inr states" "s \<in> set states"
  defines "mem \<equiv> normalize_membership node_id membership"
    and "wbr \<equiv> rs_witnesses (round_data node_id events membership)"
    and "fame \<equiv> fame_data L node_id events membership"
    and "seen \<equiv> sees (events_by_id events)"
  shows "(cs_round_received s = Some r \<longleftrightarrow> r \<in> set (map fst wbr) \<and> received_in seen mem wbr fame (cs_event_id s) r \<and>
      (\<forall>q \<in> set (map fst wbr). q < r \<longrightarrow> \<not> received_in seen mem wbr fame (cs_event_id s) q)) \<and>
    (cs_round_received s = Some r \<longrightarrow>
      2 * length mem < 3 * card (seeing_members seen mem (dict_get wbr r []) (cs_event_id s)))"
proof -
  obtain e where s: "s = event_state L node_id events membership path_meta e"
    using recompute_states [OF assms(1-4)] .
  have iff: "cs_round_received s = Some r \<longleftrightarrow> r \<in> set (map fst wbr) \<and> received_in seen mem wbr fame (cs_event_id s) r \<and>
      (\<forall>q \<in> set (map fst wbr). q < r \<longrightarrow> \<not> received_in seen mem wbr fame (cs_event_id s) q)"
    unfolding s event_state_received round_received_spec_def
    by (subst find_sorted_Some) (simp_all add: assms(5-8))
  moreover have "2 * length mem < 3 * card (seeing_members seen mem (dict_get wbr r []) (cs_event_id s))"
    if "received_in seen mem wbr fame (cs_event_id s) r"
    using received_in_seen [OF that] supermajority.thr_two_thirds [of "length mem"] by linarith
  ultimately show ?thesis by blast
qed

section \<open>Timestamps\<close>

text \<open>The times at which a member reports to have handled the event.\<close>

definition reported :: "hop list \<Rightarrow> string \<Rightarrow> timestamp set" where
  "reported hops n = {ts. \<exists>h \<in> set hops. py_strip (opt_str (hop_node h)) = n \<and> hop_ts h = Some ts}"

lemma finite_reported [simp]: "finite (reported hops n)"
proof -
  have "reported hops n \<subseteq> the ` hop_ts ` set hops" by (force simp: reported_def)
  then show ?thesis by (rule finite_subset) simp
qed

definition observations :: "string list \<Rightarrow> hop list \<Rightarrow> (string, timestamp) dict" where
  "observations membership hops = fold (observe membership) hops []"

lemma reported_snoc:
  "reported (hops @ [h]) n = (case hop_ts h of Some ts \<Rightarrow>
     if py_strip (opt_str (hop_node h)) = n then insert ts (reported hops n) else reported hops n
   | None \<Rightarrow> reported hops n)"
  by (auto simp: reported_def split: option.splits)

lemma observations_snoc: "observations membership (hops @ [h]) = observe membership h (observations membership hops)"
  by (simp add: observations_def)

lemma observations_min:
  "distinct (map fst (observations membership hops)) \<and>
   (\<forall>n. map_of (observations membership hops) n =
     (if n \<in> set membership \<and> reported hops n \<noteq> {} then Some (Min (reported hops n)) else None))"
proof (induction hops rule: rev_induct)
  case Nil
  then show ?case by (simp add: observations_def reported_def)
next
  case (snoc h hops)
  then have d: "distinct (map fst (observations membership hops))"
    and m: "\<And>n. map_of (observations membership hops) n =
      (if n \<in> set membership \<and> reported hops n \<noteq> {} then Some (Min (reported hops n)) else None)"
    by simp_all
  have "distinct (map fst (observations membership (hops @ [h])))"
    using d by (auto simp: observations_snoc observe_def Let_def split: option.splits)
  moreover have "map_of (observations membership (hops @ [h])) n =
      (if n \<in> set membership \<and> reported (hops @ [h]) n \<noteq> {} then Some (Min (reported (hops @ [h]) n)) else None)" for n
  proof (cases "hop_ts h")
    case None
    then show ?thesis by (simp add: observations_snoc observe_def reported_snoc m Let_def)
  next
    case (Some ts)
    show ?thesis
    proof (cases "py_strip (opt_str (hop_node h)) = n \<and> n \<in> set membership")
      case True
      note mine = this
      show ?thesis
      proof (cases "reported hops n = {}")
        case True
        with mine show ?thesis using Some m [of n]
          by (simp add: observations_snoc observe_def reported_snoc Let_def)
      next
        case False
        have "Min (insert ts (reported hops n)) = (if ts < Min (reported hops n) then ts else Min (reported hops n))"
          unfolding Min_insert [OF finite_reported False] by (simp add: min_def del: Min_gr_iff Min_ge_iff)
        with False mine show ?thesis using Some m [of n]
          by (simp add: observations_snoc observe_def reported_snoc Let_def del: Min_gr_iff Min_insert)
      qed
    next
      case False
      then show ?thesis using Some m
        by (auto simp: observations_snoc observe_def reported_snoc Let_def split: option.splits)
    qed
  qed
  ultimately show ?case by blast
qed

lemma length_filter_prefix:
  assumes "k \<le> length xs" "\<And>i. i < k \<Longrightarrow> P (xs ! i)"
  shows "k \<le> length (filter P xs)"
proof -
  have "filter P (take k xs) = take k xs"
    using assms by (auto simp: filter_id_conv in_set_conv_nth)
  then have "k \<le> length (filter P (take k xs @ drop k xs))" using assms(1) by (simp only: filter_append length_append length_take)
  then show ?thesis by simp
qed

lemma length_filter_suffix:
  assumes "\<And>i. k \<le> i \<Longrightarrow> i < length xs \<Longrightarrow> P (xs ! i)"
  shows "length xs - k \<le> length (filter P xs)"
proof -
  have "filter P (drop k xs) = drop k xs"
    using assms by (auto simp: filter_id_conv in_set_conv_nth)
  then have "length xs - k \<le> length (filter P (take k xs @ drop k xs))" by (simp only: filter_append length_append length_drop)
  then show ?thesis by simp
qed

lemma length_filter_sort: "length (filter P (sort xs)) = length (filter P xs)"
  by (metis mset_filter mset_sort size_mset)

text \<open>At least half of the values are on either side of the median.\<close>

lemma median_halves:
  assumes "median xs = Inr m"
  shows "length xs \<le> 2 * length (filter (\<lambda>x. x \<le> m) xs)" "length xs \<le> 2 * length (filter (\<lambda>x. m \<le> x) xs)"
proof -
  let ?o = "sort xs" let ?k = "length xs div 2"
  have ne: "xs \<noteq> []" using assms by (auto simp: median_def)
  then have k: "?k < length xs" by simp
  have mono: "?o ! i \<le> ?o ! j" if "i \<le> j" "j < length xs" for i j
    using that by (intro sorted_nth_mono) simp_all
  have m: "m = (if odd (length xs) then ?o ! ?k else (?o ! (?k - 1) + ?o ! ?k) / 2)"
    using assms ne by (simp add: median_def Let_def split: if_splits)
  have up: "m \<le> ?o ! ?k" using mono [of "?k - 1" ?k] k unfolding m by simp
  define j where "j = (if odd (length xs) then ?k + 1 else ?k)"
  have jl: "j \<le> length xs" "length xs \<le> 2 * j" using k by (auto simp: j_def elim: oddE evenE)
  have low: "?o ! i \<le> m" if "i < j" for i
  proof (cases "odd (length xs)")
    case True
    then show ?thesis using that mono [of i ?k] k by (simp add: m j_def)
  next
    case False
    then have "i \<le> ?k - 1" "?k - 1 < length xs" using that k by (auto simp: j_def)
    then have "?o ! i \<le> ?o ! (?k - 1)" by (rule mono)
    moreover have "?o ! (?k - 1) \<le> ?o ! ?k" using k by (intro mono) auto
    ultimately show ?thesis using False by (simp add: m field_simps)
  qed
  have "j \<le> length (filter (\<lambda>x. x \<le> m) ?o)" using jl low by (intro length_filter_prefix) simp_all
  then show "length xs \<le> 2 * length (filter (\<lambda>x. x \<le> m) xs)" using jl(2) by (simp add: length_filter_sort)
  have "length ?o - ?k \<le> length (filter (\<lambda>x. m \<le> x) ?o)"
    using up mono by (intro length_filter_suffix) (auto intro: order_trans)
  then show "length xs \<le> 2 * length (filter (\<lambda>x. m \<le> x) xs)" by (simp add: length_filter_sort)
qed

lemma half_outside:
  assumes "distinct (map fst obs)" "2 * card (D \<inter> fst ` set obs) < length obs"
    "length obs \<le> 2 * length (filter P (map snd obs))"
  shows "\<exists>(n, v) \<in> set obs. n \<notin> D \<and> P v"
proof (rule ccontr)
  assume "\<not> ?thesis"
  then have "fst ` set (filter (P \<circ> snd) obs) \<subseteq> D \<inter> fst ` set obs" by auto
  then have "card (fst ` set (filter (P \<circ> snd) obs)) \<le> card (D \<inter> fst ` set obs)" by (intro card_mono) auto
  moreover have "card (fst ` set (filter (P \<circ> snd) obs)) = length (filter (P \<circ> snd) obs)"
    using assms(1) by (metis distinct_card distinct_map_filter length_map set_map)
  ultimately show False using assms(2,3) by (simp add: filter_map)
qed

text \<open>
  C6: a consensus timestamp is given only to a received event and only when a supermajority
  of the members reported one, and it is robust: if fewer than a third of the members (\<open>D\<close>)
  report wrong times, it still lies between the first reports of two members outside \<open>D\<close>.
\<close>

theorem consensus_timestamp_correct:
  assumes "topo_ok events" "3 \<le> rl" "recompute L rl node_id events membership path_meta = Inr states"
    and "s \<in> set states" "cs_consensus_ts s = Some t"
  defines "mem \<equiv> normalize_membership node_id membership"
    and "hops \<equiv> dict_get path_meta (cs_event_id s) []"
  assumes "D \<subseteq> set mem" "3 * card D < length mem"
  shows "cs_round_received s \<noteq> None \<and>
    supermajority_threshold (length mem) \<le> card {n \<in> set mem. reported hops n \<noteq> {}} \<and>
    (\<exists>n \<in> set mem - D. reported hops n \<noteq> {} \<and> Min (reported hops n) \<le> t) \<and>
    (\<exists>n \<in> set mem - D. reported hops n \<noteq> {} \<and> t \<le> Min (reported hops n))"
proof -
  obtain e where e: "s = event_state L node_id events membership path_meta e"
    using recompute_states [OF assms(1-4)] .
  have rr: "cs_round_received s \<noteq> None" and ts: "timestamp_spec mem path_meta (cs_event_id s) = Some t"
    using assms(5) unfolding e event_state_received(2) mem_def by (auto split: if_splits)
  let ?obs = "observations mem hops"
  have "consensus_timestamp mem (supermajority_threshold (length mem)) path_meta (cs_event_id s) = Inr (Some t)"
    using ts timestamp_spec_ok [of mem path_meta "cs_event_id s"] by simp
  then have len: "supermajority_threshold (length mem) \<le> length ?obs" and med: "median (map snd ?obs) = Inr t"
    by (auto simp: consensus_timestamp_def Let_def observations_def hops_def split: if_splits)
  have dist: "distinct (map fst ?obs)" and obs: "\<And>n. map_of ?obs n =
      (if n \<in> set mem \<and> reported hops n \<noteq> {} then Some (Min (reported hops n)) else None)"
    using observations_min [of mem hops] by simp_all
  have entry: "n \<in> set mem \<and> reported hops n \<noteq> {} \<and> Min (reported hops n) = v" if "(n, v) \<in> set ?obs" for n v
    using map_of_is_SomeI [OF dist that] obs [of n] by (simp split: if_splits)
  have keys: "fst ` set ?obs = {n \<in> set mem. reported hops n \<noteq> {}}"
    using obs by (auto simp: dom_map_of_conv_image_fst [symmetric] dom_def)
  have "card (fst ` set ?obs) = length ?obs" using dist by (metis distinct_card length_map set_map)
  with len keys have card: "supermajority_threshold (length mem) \<le> card {n \<in> set mem. reported hops n \<noteq> {}}" by simp
  have "card (D \<inter> fst ` set ?obs) \<le> card D" using assms(8) by (intro card_mono) (auto intro: finite_subset)
  then have few: "2 * card (D \<inter> fst ` set ?obs) < length ?obs"
    using assms(9) len supermajority.thr_two_thirds [of "length mem"] by linarith
  have "\<exists>(n, v) \<in> set ?obs. n \<notin> D \<and> v \<le> t" "\<exists>(n, v) \<in> set ?obs. n \<notin> D \<and> t \<le> v"
    using half_outside [OF dist few] median_halves [OF med] by simp_all
  with entry have "\<exists>n \<in> set mem - D. reported hops n \<noteq> {} \<and> Min (reported hops n) \<le> t"
    "\<exists>n \<in> set mem - D. reported hops n \<noteq> {} \<and> t \<le> Min (reported hops n)" by blast+
  with rr card show ?thesis by blast
qed

section \<open>The total order\<close>

definition event_key :: "(string, int option \<times> timestamp option) dict \<Rightarrow> nat \<times> event \<Rightarrow> order_tuple" where
  "event_key resolved = (\<lambda>(index, e).
     case (case map_of resolved (ev_id e) of Some p \<Rightarrow> p | None \<Rightarrow> (ev_round_received e, ev_consensus_ts e)) of
       (rr, ts) \<Rightarrow> order_key rr ts (ev_id e) index)"

lemma total_order_key:
  "total_order events resolved = map snd (map snd (sort_key fst (map (\<lambda>ie. (event_key resolved ie, ie)) (enumerate 0 events))))"
proof -
  have "sort_key fst (map (\<lambda>ie. (event_key resolved ie, snd ie)) xs) =
      map (\<lambda>(k, ie). (k, snd ie)) (sort_key fst (map (\<lambda>ie. (event_key resolved ie, ie)) xs))" for xs
    using sort_key_map_pair [of snd "map (\<lambda>ie. (event_key resolved ie, ie)) xs"] by (simp add: comp_def)
  then show ?thesis
    by (simp add: total_order_def event_key_def case_prod_unfold comp_def)
qed

lemma mset_total_order: "mset (total_order events resolved) = mset events"
proof -
  have "mset (total_order events resolved) =
      image_mset (snd \<circ> snd) (mset (map (\<lambda>ie. (event_key resolved ie, ie)) (enumerate 0 events)))"
    unfolding total_order_key map_map by (simp only: mset_map mset_sort)
  also have "\<dots> = mset (map snd (enumerate 0 events))"
    by (simp only: mset_map [symmetric] map_map comp_def snd_conv)
  finally show ?thesis by simp
qed

lemma total_order_sorted:
  "\<exists>keys. length keys = length (total_order events resolved) \<and> sorted (map fst keys) \<and>
     map (snd \<circ> snd) keys = total_order events resolved \<and>
     (\<forall>(k, i, e) \<in> set keys. k = event_key resolved (i, e))"
  by (intro exI [of _ "sort_key fst (map (\<lambda>ie. (event_key resolved ie, ie)) (enumerate 0 events))"])
    (auto simp: total_order_key)

text \<open>Sorting by the position in a duplicate-free list puts the elements in that order.\<close>

lemma sort_by_position:
  assumes "mset ordered = mset topo" "distinct (map ev_id topo)"
  shows "sort_key (\<lambda>e. dict_get (dict_of (zip (map ev_id ordered) [0..<length ordered])) (ev_id e) 0) topo = ordered"
proof -
  let ?d = "zip (map ev_id ordered) [0..<length ordered]"
  let ?pos = "\<lambda>e. dict_get (dict_of ?d) (ev_id e) (0::nat)"
  have "mset (map ev_id ordered) = mset (map ev_id topo)" using assms(1) by (simp only: mset_map)
  then have dist: "distinct (map ev_id ordered)" using assms(2) mset_eq_imp_distinct_iff by blast
  then have d: "dict_of ?d = ?d" by (intro dict_of_id) simp
  have pos: "?pos (ordered ! i) = i" if "i < length ordered" for i
  proof -
    have "(ev_id (ordered ! i), i) \<in> set ?d"
      unfolding set_zip using that by (intro CollectI exI [of _ i]) simp
    then have "map_of ?d (ev_id (ordered ! i)) = Some i" using dist by (intro map_of_is_SomeI) simp_all
    then show ?thesis by (simp add: d dict_get_def)
  qed
  have sorted: "map ?pos ordered = [0..<length ordered]"
    using pos by (intro nth_equalityI) simp_all
  have inj: "inj_on ?pos (set topo)"
  proof (rule inj_onI)
    fix x y assume "x \<in> set topo" "y \<in> set topo" "?pos x = ?pos y"
    moreover have "set topo = set ordered" using assms(1) by (metis mset_eq_setD)
    ultimately show "x = y" using pos by (metis in_set_conv_nth)
  qed
  have "sort_key ?pos topo = sort_key ?pos ordered" using assms(1) inj by (intro sort_key_perm_eq) simp_all
  also have "\<dots> = ordered" by (rule sort_key_id_if_sorted) (simp only: sorted sorted_upt)
  finally show ?thesis .
qed

lemma order_events_total:
  "distinct (map ev_id topo) \<Longrightarrow> order_events topo resolved = total_order topo resolved"
  unfolding order_events_def Let_def by (rule sort_by_position [OF mset_total_order])

definition state_key :: "consensus_state \<Rightarrow> (bool \<times> int) \<times> (bool \<times> rat) \<times> string" where
  "state_key s = ((cs_round_received s = None, case cs_round_received s of Some r \<Rightarrow> r | None \<Rightarrow> 0),
     (cs_consensus_ts s = None, case cs_consensus_ts s of Some t \<Rightarrow> t | None \<Rightarrow> 0), cs_event_id s)"

lemma event_key_resolved:
  assumes "distinct (map ev_id events)" "e \<in> set events"
  shows "event_key (dict_of (resolved_data L n events ms pm)) (i, e) =
    order_key (round_received_spec (sees (events_by_id events)) (normalize_membership n ms)
         (rs_witnesses (round_data n events ms)) (fame_data L n events ms) (ev_id e))
      (timestamp_spec (normalize_membership n ms) pm (ev_id e)) (ev_id e) i"
proof -
  let ?r = "resolved_data L n events ms pm"
  have d: "distinct (map fst ?r)" using assms(1) by (simp add: resolved_data_def comp_def)
  then have "map_of (dict_of ?r) (ev_id e) = Some
      (round_received_spec (sees (events_by_id events)) (normalize_membership n ms)
         (rs_witnesses (round_data n events ms)) (fame_data L n events ms) (ev_id e),
       timestamp_spec (normalize_membership n ms) pm (ev_id e))"
    unfolding dict_of_id [OF d] using assms(2)
    by (intro map_of_is_SomeI [OF d]) (force simp: resolved_data_def)
  then show ?thesis by (simp add: event_key_def)
qed

lemma order_key_less:
  assumes "order_key rr ts x i \<le> order_key rr' ts' x' j" "rr' \<noteq> None" "x \<noteq> x'"
  shows "rr \<noteq> None \<and> ((rr = None, case rr of Some r \<Rightarrow> r | None \<Rightarrow> 0), (ts = None, case ts of Some t \<Rightarrow> t | None \<Rightarrow> 0), x)
    < ((rr' = None, case rr' of Some r \<Rightarrow> r | None \<Rightarrow> 0), (ts' = None, case ts' of Some t \<Rightarrow> t | None \<Rightarrow> 0), x')"
  using assms by (auto simp: order_key_def less_eq_prod_def less_prod_def)

lemma state_key_event:
  "cs_round_received (event_state L n es ms pm e) \<noteq> None \<Longrightarrow>
   state_key (event_state L n es ms pm e) =
     ((False, the (cs_round_received (event_state L n es ms pm e))),
      (timestamp_spec (normalize_membership n ms) pm (ev_id e) = None,
       case timestamp_spec (normalize_membership n ms) pm (ev_id e) of Some t \<Rightarrow> t | None \<Rightarrow> 0), ev_id e)"
  by (auto simp: state_key_def event_state_received(2))

text \<open>
  C7: the result has exactly one state per event, and it is a total order: a received event
  comes before every event it precedes lexicographically by round received, consensus
  timestamp (unknown last) and identifier, and before every event not yet received.
\<close>

theorem consensus_order:
  assumes "topo_ok events" "3 \<le> rl" "recompute L rl node_id events membership path_meta = Inr states"
  shows "mset (map cs_event_id states) = mset (map ev_id events) \<and>
    sorted_wrt (\<lambda>s s'. cs_round_received s' \<noteq> None \<longrightarrow> cs_round_received s \<noteq> None \<and> state_key s < state_key s') states"
proof -
  let ?res = "dict_of (resolved_data L node_id events membership path_meta)"
  let ?state = "event_state L node_id events membership path_meta"
  have dist: "distinct (map ev_id events)" by (rule topo_ok_distinct [OF assms(1)])
  have states: "states = map ?state (total_order events ?res)"
    using assms by (simp add: recompute_eq_spec recompute_spec_states order_events_total [OF dist])
  obtain keys where keys: "length keys = length (total_order events ?res)" "sorted (map fst keys)"
    "map (snd \<circ> snd) keys = total_order events ?res" "\<forall>(k, i, e) \<in> set keys. k = event_key ?res (i, e)"
    using total_order_sorted [of events ?res] by blast
  have ids: "mset (map cs_event_id states) = mset (map ev_id events)"
    by (simp add: states comp_def) (simp only: mset_map mset_total_order)
  have sub: "set (total_order events ?res) = set events" by (metis mset_eq_setD mset_total_order)
  have "sorted_wrt (\<lambda>s s'. cs_round_received s' \<noteq> None \<longrightarrow> cs_round_received s \<noteq> None \<and> state_key s < state_key s') states"
    unfolding sorted_wrt_iff_nth_less
  proof (intro allI impI)
    fix i j assume ij: "i < j" "j < length states" and rr: "cs_round_received (states ! j) \<noteq> None"
    obtain ki ii ei kj ij' ej where k: "keys ! i = (ki, ii, ei)" "keys ! j = (kj, ij', ej)" by (metis prod_cases3)
    have len: "i < length keys" "j < length keys" using ij keys(1) by (simp_all add: states)
    have st: "states ! i = ?state ei" "states ! j = ?state ej"
      using len k by (simp_all add: states keys(3) [symmetric])
    have ev: "ei \<in> set events" "ej \<in> set events"
      using len k sub unfolding keys(3) [symmetric] by (metis (no_types, lifting) comp_apply image_eqI nth_mem set_map snd_conv)+
    have "ki \<le> kj" using sorted_nth_mono [OF keys(2), of i j] ij len k by simp
    moreover have "ki = event_key ?res (ii, ei)" "kj = event_key ?res (ij', ej)"
      using bspec [OF keys(4) nth_mem [OF len(1)]] bspec [OF keys(4) nth_mem [OF len(2)]] k by simp_all
    ultimately have le: "order_key (cs_round_received (states ! i)) (timestamp_spec (normalize_membership node_id membership) path_meta (ev_id ei)) (ev_id ei) ii
       \<le> order_key (cs_round_received (states ! j)) (timestamp_spec (normalize_membership node_id membership) path_meta (ev_id ej)) (ev_id ej) ij'"
      by (simp add: event_key_resolved [OF dist] ev st event_state_received(1))
    have "distinct (map cs_event_id states)" using ids dist by (metis mset_eq_imp_distinct_iff)
    then have "map cs_event_id states ! i \<noteq> map cs_event_id states ! j"
      using ij nth_eq_iff_index_eq [of "map cs_event_id states" i j] by simp
    then have "ev_id ei \<noteq> ev_id ej" using ij st by simp
    from order_key_less [OF le rr this]
    show "cs_round_received (states ! i) \<noteq> None \<and> state_key (states ! i) < state_key (states ! j)"
      using rr state_key_event by (auto simp: st)
  qed
  with ids show ?thesis by blast
qed

section \<open>A concrete run\<close>

definition chain_path :: "(string, hop list) dict" where
  "chain_path = [(''a'', [\<lparr>hop_node = Some ''n1'', hop_ts = Some 9\<rparr>, \<lparr>hop_node = Some ''n1'', hop_ts = Some 7\<rparr>])]"

definition chain_result :: "consensus_state list" where
  "chain_result = (case recompute demo_lib 3 ''n1'' chain_events [] chain_path of Inr s \<Rightarrow> s | Inl _ \<Rightarrow> [])"

lemma chain_result_run: "recompute demo_lib 3 ''n1'' chain_events [] chain_path = Inr chain_result"
  using recompute_eq_spec [OF chain_topo_ok order_refl, of demo_lib "''n1''" "[]" chain_path]
  by (simp add: chain_result_def)

lemma chain_result_hd:
  "chain_result \<noteq> []" "cs_event_id (hd chain_result) = ''a''" "cs_round_received (hd chain_result) = Some 0"
  "cs_consensus_ts (hd chain_result) = Some 7"
  by (code_simp, code_simp, code_simp, code_simp)

lemma chain_membership: "normalize_membership ''n1'' [] = [''n1'']"
  by code_simp

theorem round_received_correct_witness:
  "cs_round_received (hd chain_result) = Some 0 \<and>
   2 * length [''n1''] < 3 * card (seeing_members (sees (events_by_id chain_events)) [''n1'']
     (dict_get (rs_witnesses (round_data ''n1'' chain_events [])) 0 []) ''a'')"
  using round_received_correct [OF chain_topo_ok order_refl chain_result_run hd_in_set [OF chain_result_hd(1)], of 0]
  by (simp add: chain_result_hd chain_membership)

theorem consensus_timestamp_correct_witness:
  "\<exists>n \<in> {''n1''}. reported (dict_get chain_path ''a'' []) n \<noteq> {} \<and> Min (reported (dict_get chain_path ''a'' []) n) \<le> 7"
  using consensus_timestamp_correct [OF chain_topo_ok order_refl chain_result_run hd_in_set [OF chain_result_hd(1)]
      chain_result_hd(4), of "{}"]
  by (simp add: chain_result_hd chain_membership)

theorem consensus_order_witness:
  "mset (map cs_event_id chain_result) = mset (map ev_id chain_events)"
  using consensus_order [OF chain_topo_ok order_refl chain_result_run] by blast

end
