(* ===== verification/Fame.thy ===== *)
theory Fame
  imports Rounds
begin

text \<open>
  Virtual voting: how the votes of one round constrain the votes of the later ones, and what
  \<open>_resolve_fame_from_vote_history\<close> makes of a vote history.
\<close>

section \<open>Vote histories\<close>

definition votes_ok :: "string list \<Rightarrow> (string, bool option) dict \<Rightarrow> bool" where
  "votes_ok membership votes \<longleftrightarrow> distinct (map fst votes) \<and> fst ` set votes \<subseteq> set membership"

definition witnesses_ok :: "witnesses \<Rightarrow> bool" where
  "witnesses_ok wbr \<longleftrightarrow> distinct (map fst wbr) \<and> (\<forall>r. distinct (map fst (dict_get wbr r [])))"

lemma votes_ok_member_map:
  assumes "distinct (map fst ws)"
  shows "votes_ok membership (map (\<lambda>(c, w). (c, f c w)) (member_items membership ws))"
proof -
  have "map fst (map (\<lambda>(c, w). (c, f c w)) (member_items membership ws)) = map fst (member_items membership ws)"
    by (simp add: case_prod_unfold)
  moreover have "distinct (map fst (member_items membership ws))"
    using assms by (simp add: member_items_def distinct_map_filter)
  moreover have "fst ` set (map (\<lambda>(c, w). (c, f c w)) (member_items membership ws)) \<subseteq> set membership"
    by (auto simp: member_items_def)
  ultimately show ?thesis by (simp only: votes_ok_def simp_thms)
qed

lemma count_votes_total:
  assumes "votes_ok membership votes"
  shows "count_votes b votes + count_votes (\<not> b) votes \<le> length membership"
proof -
  have "length (filter (\<lambda>v. v = Some b) vs) + length (filter (\<lambda>v. v = Some (\<not> b)) vs) \<le> length vs" for vs
    by (induction vs) auto
  from this [of "map snd votes"] have "count_votes b votes + count_votes (\<not> b) votes \<le> length votes"
    by (simp add: count_votes_def)
  also have "length votes = card (fst ` set votes)"
    using assms by (metis distinct_card length_map set_map votes_ok_def)
  also have "\<dots> \<le> card (set membership)" using assms by (intro card_mono) (auto simp: votes_ok_def)
  also have "\<dots> \<le> length membership" by (rule card_length)
  finally show ?thesis .
qed

lemma threshold_once:
  assumes "votes_ok membership votes" "supermajority_threshold (length membership) \<le> count_votes b votes"
  shows "count_votes (\<not> b) votes < supermajority_threshold (length membership)"
proof (cases "length membership = 0")
  case True
  then show ?thesis using count_votes_total [OF assms(1), of b] by simp
next
  case False
  then show ?thesis
    using count_votes_total [OF assms(1), of b] assms(2) supermajority.thr_half [of "length membership"] by linarith
qed

text \<open>A later witness votes one way only if a supermajority voted that way before.\<close>

lemma later_vote_needs:
  assumes "later_vote seen membership prevs previous w = Some b"
  shows "supermajority_threshold (length membership) \<le> count_votes b previous"
proof -
  let ?vs = "map snd (filter (\<lambda>(pc, _). seen w (the (map_of prevs pc))) (countable_votes membership prevs previous))"
  have "supermajority_threshold (length membership) \<le> length (filter (\<lambda>v. v = Some b) ?vs)"
    using assms by (cases b) (auto simp: later_vote_def tally_def Let_def split: if_splits)
  also have "\<dots> \<le> count_votes b previous"
    unfolding count_votes_def countable_votes_def filter_map length_map filter_filter
    by (induction previous) (auto simp: comp_def)
  finally show ?thesis .
qed

lemma count_votes_pos: "0 < count_votes b votes \<longleftrightarrow> (\<exists>c. (c, Some b) \<in> set votes)"
  by (force simp: count_votes_def filter_empty_conv)

lemma later_votes_needs:
  assumes "0 < count_votes b (later_votes_spec seen membership prevs laters previous)"
  shows "supermajority_threshold (length membership) \<le> count_votes b previous"
  using assms later_vote_needs by (force simp: count_votes_pos later_votes_spec_def)

definition history_inv :: "string list \<Rightarrow> int \<Rightarrow> vote_history \<times> (string, bool option) dict \<Rightarrow> bool" where
  "history_inv membership r hp \<longleftrightarrow> (case hp of (hist, previous) \<Rightarrow>
     votes_ok membership previous \<and>
     (\<forall>q v b. map_of hist q = Some v \<and> supermajority_threshold (length membership) \<le> count_votes b v \<longrightarrow>
        count_votes (\<not> b) previous < supermajority_threshold (length membership)) \<and>
     (\<forall>q q' v v' b. map_of hist q = Some v \<and> map_of hist q' = Some v' \<and> q < q' \<and>
        supermajority_threshold (length membership) \<le> count_votes b v \<longrightarrow> count_votes (\<not> b) v' = 0) \<and>
     (\<forall>q v b. map_of hist q = Some v \<and> r + 1 < q \<and> 0 < count_votes b v \<longrightarrow> count_votes (\<not> b) v = 0))"

lemma map_of_add_votes:
  "map_of (add_votes q votes hist) k = (if votes \<noteq> [] \<and> k = q then Some votes else map_of hist k)"
  by (simp add: add_votes_def)

lemma history_inv_step:
  assumes inv: "history_inv membership r (hist, previous)"
    and keys: "\<And>q v. map_of hist q = Some v \<Longrightarrow> q < later" and "r + 1 < later"
    and ws: "distinct (map fst laters)"
  shows "history_inv membership r
    (add_votes later (later_votes_spec seen membership prevs laters previous) hist,
     later_votes_spec seen membership prevs laters previous)"
proof -
  let ?cur = "later_votes_spec seen membership prevs laters previous"
  let ?thr = "supermajority_threshold (length membership)"
  have prev: "votes_ok membership previous" using inv by (simp add: history_inv_def)
  have ok: "votes_ok membership ?cur" unfolding later_votes_spec_def by (rule votes_ok_member_map [OF ws])
  have old: "count_votes (\<not> b) ?cur = 0" if "map_of hist q = Some v" "?thr \<le> count_votes b v" for q v b
  proof (rule ccontr)
    assume "count_votes (\<not> b) ?cur \<noteq> 0"
    then have "?thr \<le> count_votes (\<not> b) previous" using later_votes_needs by blast
    moreover have "count_votes (\<not> b) previous < ?thr"
      using inv that unfolding history_inv_def prod.case by blast
    ultimately show False by simp
  qed
  have same: "count_votes (\<not> b) ?cur = 0" if "0 < count_votes b ?cur" for b
  proof (rule ccontr)
    assume "count_votes (\<not> b) ?cur \<noteq> 0"
    then have "?thr \<le> count_votes (\<not> b) previous" using later_votes_needs by blast
    moreover have "?thr \<le> count_votes b previous" using that later_votes_needs by blast
    ultimately show False using threshold_once [OF prev, of b] by simp
  qed
  have thr: "0 < ?thr" by simp
  show ?thesis unfolding history_inv_def prod.case
  proof (intro conjI allI impI; (elim conjE)?)
    show "votes_ok membership ?cur" by (rule ok)
  next
    fix q v b assume "map_of (add_votes later ?cur hist) q = Some v" "?thr \<le> count_votes b v"
    then show "count_votes (\<not> b) ?cur < ?thr"
      using old threshold_once [OF ok] thr by (auto simp: map_of_add_votes split: if_splits)
  next
    fix q q' v v' b assume A: "map_of (add_votes later ?cur hist) q = Some v"
      "map_of (add_votes later ?cur hist) q' = Some v'" "q < q'" "?thr \<le> count_votes b v"
    then have q: "map_of hist q = Some v" using keys by (fastforce simp: map_of_add_votes split: if_splits)
    show "count_votes (\<not> b) v' = 0"
    proof (cases "?cur \<noteq> [] \<and> q' = later")
      case True
      then show ?thesis using A(2) old [OF q A(4)] by (simp add: map_of_add_votes)
    next
      case False
      then have "map_of hist q' = Some v'" using A(2) by (auto simp: map_of_add_votes split: if_splits)
      with inv q A(3,4) show ?thesis unfolding history_inv_def prod.case by blast
    qed
  next
    fix q v b assume A: "map_of (add_votes later ?cur hist) q = Some v" "r + 1 < q" "0 < count_votes b v"
    show "count_votes (\<not> b) v = 0"
    proof (cases "?cur \<noteq> [] \<and> q = later")
      case True
      then show ?thesis using A same by (simp add: map_of_add_votes)
    next
      case False
      then have "map_of hist q = Some v" using A(1) by (auto simp: map_of_add_votes split: if_splits)
      with inv A(2,3) show ?thesis unfolding history_inv_def prod.case by blast
    qed
  qed
qed

lemma history_inv_loop:
  assumes "witnesses_ok wbr" "history_inv membership r hp" "sorted_wrt (<) rs"
    and "\<And>q v x. map_of (fst hp) q = Some v \<Longrightarrow> x \<in> set rs \<Longrightarrow> r + 1 < x \<Longrightarrow> q < x"
  shows "history_inv membership r (fold (vote_step_spec seen membership wbr r) rs hp)"
  using assms(2-4)
proof (induction rs arbitrary: hp)
  case (Cons x rs)
  obtain hist previous where hp: "hp = (hist, previous)" by (cases hp)
  show ?case
  proof (cases "x \<le> r + 1")
    case True
    then have "vote_step_spec seen membership wbr r x hp = hp" by (simp add: hp vote_step_spec_def)
    with Cons.IH [OF Cons.prems(1)] Cons.prems(2,3) show ?thesis by simp
  next
    case False
    let ?cur = "later_votes_spec seen membership (dict_get wbr (x - 1) []) (dict_get wbr x []) previous"
    have step: "vote_step_spec seen membership wbr r x hp = (add_votes x ?cur hist, ?cur)"
      using False by (simp add: hp vote_step_spec_def Let_def)
    have "history_inv membership r (add_votes x ?cur hist, ?cur)"
      using Cons.prems(1,3) False assms(1) unfolding hp
      by (intro history_inv_step) (auto simp: witnesses_ok_def)
    then have "history_inv membership r (fold (vote_step_spec seen membership wbr r) rs (add_votes x ?cur hist, ?cur))"
    proof (rule Cons.IH)
      show "sorted_wrt (<) rs" using Cons.prems(2) by simp
      show "q < y" if "map_of (fst (add_votes x ?cur hist, ?cur)) q = Some v" "y \<in> set rs" "r + 1 < y" for q v y
        using that Cons.prems(2) Cons.prems(3) [of q v y] by (auto simp: hp map_of_add_votes split: if_splits)
    qed
    then show ?thesis by (simp add: step)
  qed
qed simp

lemma witness_history_inv:
  assumes "witnesses_ok wbr"
  shows "\<exists>p. history_inv membership r (witness_history_spec seen membership wbr r w, p)"
proof -
  let ?first = "first_votes_spec seen membership w (dict_get wbr (r + 1) [])"
  have ok: "votes_ok membership ?first"
    unfolding first_votes_spec_def by (rule votes_ok_member_map) (use assms in \<open>auto simp: witnesses_ok_def\<close>)
  have "history_inv membership r (add_votes (r + 1) ?first [], ?first)"
    using ok threshold_once [OF ok] by (auto simp: history_inv_def map_of_add_votes split: if_splits)
  then have "history_inv membership r (fold (vote_step_spec seen membership wbr r) (sort (map fst wbr))
      (add_votes (r + 1) ?first [], ?first))"
    using assms by (intro history_inv_loop)
      (auto simp: map_of_add_votes witnesses_ok_def strict_sorted_iff split: if_splits)
  then show ?thesis by (metis witness_history_spec_def prod.collapse)
qed

text \<open>
  C3: virtual voting is safe. In the vote history of a witness, once a supermajority of the
  members has voted one way in some round, no member votes the other way in any later round;
  and from the second voting round on, the members that vote at all vote the same way.
\<close>

theorem fame_votes_never_conflict:
  assumes "good_cache rl topo topo c" "witnesses_ok wbr"
    and "witness_history (can_see rl (events_by_id topo)) membership wbr r w c = Inr (hist, c')"
    and "map_of hist q' = Some v'"
  shows "(\<forall>q v b. map_of hist q = Some v \<and> q < q' \<and>
        supermajority_threshold (length membership) \<le> count_votes b v \<longrightarrow> count_votes (\<not> b) v' = 0) \<and>
    (\<forall>b. r + 1 < q' \<and> 0 < count_votes b v' \<longrightarrow> count_votes (\<not> b) v' = 0)"
proof -
  have "hist = witness_history_spec (sees (events_by_id topo)) membership wbr r w"
    using simulatesD [OF memo.sim_witness_history assms(1), of membership wbr r w] assms(3) by auto
  then obtain p where "history_inv membership r (hist, p)" using witness_history_inv [OF assms(2)] by blast
  then show ?thesis using assms(4) unfolding history_inv_def prod.case by blast
qed

section \<open>Decisions\<close>

definition reaches :: "nat \<Rightarrow> vote_history \<Rightarrow> int \<Rightarrow> bool" where
  "reaches threshold hist r \<longleftrightarrow> threshold \<le> count_votes True (dict_get hist r []) \<or>
     threshold \<le> count_votes False (dict_get hist r [])"

lemma resolve_loop_Inl:
  "resolve_loop threshold hist rs d = Inl f \<Longrightarrow>
   \<exists>rs1 r rs2. rs = rs1 @ r # rs2 \<and> (\<forall>q \<in> set rs1. \<not> reaches threshold hist q) \<and> reaches threshold hist r \<and>
     f = vote_fame (threshold \<le> count_votes True (dict_get hist r [])) r
       (d\<lparr>fm_vote_round := Some r, fm_vote_yes := count_votes True (dict_get hist r []),
          fm_vote_no := count_votes False (dict_get hist r [])\<rparr>)"
proof (induction rs arbitrary: d)
  case (Cons r rs)
  show ?case
  proof (cases "reaches threshold hist r")
    case True
    then show ?thesis using Cons.prems
      by (intro exI [of _ "[]"] exI [of _ r] exI [of _ rs]) (auto simp: reaches_def Let_def split: if_splits)
  next
    case False
    then have "resolve_loop threshold hist rs (d\<lparr>fm_vote_round := Some r, fm_vote_yes := count_votes True (dict_get hist r []),
          fm_vote_no := count_votes False (dict_get hist r [])\<rparr>) = Inl f"
      using Cons.prems by (auto simp: reaches_def Let_def split: if_splits)
    from Cons.IH [OF this] obtain rs1 x rs2 where "rs = rs1 @ x # rs2" "\<forall>q \<in> set rs1. \<not> reaches threshold hist q"
      "reaches threshold hist x" "f = vote_fame (threshold \<le> count_votes True (dict_get hist x [])) x
       (d\<lparr>fm_vote_round := Some x, fm_vote_yes := count_votes True (dict_get hist x []),
          fm_vote_no := count_votes False (dict_get hist x [])\<rparr>)"
      by auto
    with False show ?thesis by (intro exI [of _ "r # rs1"] exI [of _ x] exI [of _ rs2]) simp
  qed
qed simp

lemma resolve_loop_Inr:
  "resolve_loop threshold hist rs d = Inr f \<Longrightarrow>
   (\<forall>q \<in> set rs. \<not> reaches threshold hist q) \<and> fm_decided f = fm_decided d \<and> fm_famous f = fm_famous d \<and>
   fm_decision_kind f = fm_decision_kind d \<and> fm_decision_round f = fm_decision_round d \<and> fm_coin_used f = fm_coin_used d"
  by (induction rs arbitrary: d) (fastforce simp: reaches_def Let_def split: if_splits)+

text \<open>
  C4: what a vote history decides. If some round reaches a supermajority, the first such
  round decides by its majority; otherwise, with at least two voting rounds, the deterministic
  coin of the last round decides; otherwise fame stays pending.
\<close>

theorem resolve_fame_correct:
  "(\<exists>r \<in> set (map fst hist). reaches threshold hist r \<and> (\<forall>q \<in> set (map fst hist). q < r \<longrightarrow> \<not> reaches threshold hist q) \<and>
      fm_decided (resolve_fame L w hist threshold) \<and> fm_decision_kind (resolve_fame L w hist threshold) = ''vote'' \<and>
      fm_decision_round (resolve_fame L w hist threshold) = Some r \<and> \<not> fm_coin_used (resolve_fame L w hist threshold) \<and>
      fm_famous (resolve_fame L w hist threshold) = (threshold \<le> count_votes True (dict_get hist r []))) \<or>
   ((\<forall>q \<in> set (map fst hist). \<not> reaches threshold hist q) \<and>
      (if 2 \<le> length hist
       then fm_decided (resolve_fame L w hist threshold) \<and>
         fm_decision_kind (resolve_fame L w hist threshold) = ''coin_surrogate'' \<and>
         fm_decision_round (resolve_fame L w hist threshold) = Some (Max (set (map fst hist))) \<and>
         fm_famous (resolve_fame L w hist threshold) = deterministic_coin_choice L w (Max (set (map fst hist))) \<and>
         fm_coin_used (resolve_fame L w hist threshold)
       else \<not> fm_decided (resolve_fame L w hist threshold) \<and> \<not> fm_famous (resolve_fame L w hist threshold) \<and>
         fm_decision_kind (resolve_fame L w hist threshold) = ''pending''))"
proof (cases "resolve_loop threshold hist (sort (map fst hist)) pending_fame")
  case (Inl f)
  from resolve_loop_Inl [OF Inl] obtain rs1 r rs2 where r: "sort (map fst hist) = rs1 @ r # rs2"
    "\<forall>q \<in> set rs1. \<not> reaches threshold hist q" "reaches threshold hist r"
    and f: "f = vote_fame (threshold \<le> count_votes True (dict_get hist r [])) r
       (pending_fame\<lparr>fm_vote_round := Some r, fm_vote_yes := count_votes True (dict_get hist r []),
          fm_vote_no := count_votes False (dict_get hist r [])\<rparr>)" by blast
  have res: "resolve_fame L w hist threshold = f" using Inl by (simp add: resolve_fame_def)
  have keys: "set (map fst hist) = set (rs1 @ r # rs2)" using r(1) by (metis set_sort)
  have "sorted (rs1 @ r # rs2)" using r(1) by (metis sorted_sort)
  then have "\<forall>q \<in> set rs2. r \<le> q" by (simp add: sorted_append)
  then have min: "\<forall>q \<in> set (map fst hist). q < r \<longrightarrow> \<not> reaches threshold hist q"
    using r(2) unfolding keys by auto
  have "r \<in> set (map fst hist)" unfolding keys by simp
  then show ?thesis using r(3) min
    by (intro disjI1 bexI [of _ r]) (simp_all add: res f vote_fame_def)
next
  case (Inr d)
  from resolve_loop_Inr [OF Inr]
  have d: "\<forall>q \<in> set (map fst hist). \<not> reaches threshold hist q" "\<not> fm_decided d" "\<not> fm_famous d"
    "fm_decision_kind d = ''pending''" by (simp_all add: pending_fame_def)
  have coin: "max_default (map fst hist) 0 = Max (set (map fst hist))" if "2 \<le> length hist"
    using that by (intro max_default_Max) auto
  show ?thesis
  proof (rule disjI2, intro conjI d(1))
    show "if 2 \<le> length hist
       then fm_decided (resolve_fame L w hist threshold) \<and>
         fm_decision_kind (resolve_fame L w hist threshold) = ''coin_surrogate'' \<and>
         fm_decision_round (resolve_fame L w hist threshold) = Some (Max (set (map fst hist))) \<and>
         fm_famous (resolve_fame L w hist threshold) = deterministic_coin_choice L w (Max (set (map fst hist))) \<and>
         fm_coin_used (resolve_fame L w hist threshold)
       else \<not> fm_decided (resolve_fame L w hist threshold) \<and> \<not> fm_famous (resolve_fame L w hist threshold) \<and>
         fm_decision_kind (resolve_fame L w hist threshold) = ''pending''"
      using Inr d coin by (simp add: resolve_fame_def Let_def)
  qed
qed

theorem resolve_fame_correct_witness:
  "\<exists>hist. reaches 1 hist 3 \<and> fm_decision_round (resolve_fame demo_lib ''w'' hist 1) = Some 3 \<and>
     fm_famous (resolve_fame demo_lib ''w'' hist 1)"
proof -
  let ?hist = "[(2, [(''n1'', None)]), (3, [(''n1'', Some True)])] :: vote_history"
  have r: "reaches 1 ?hist 3" "\<not> reaches 1 ?hist 2"
    by (simp_all add: reaches_def count_votes_def dict_get_def)
  from resolve_fame_correct [of ?hist 1 demo_lib "''w''"] r
  show ?thesis by (intro exI [of _ ?hist]) (auto simp: count_votes_def dict_get_def)
qed

section \<open>A concrete run\<close>

definition vote_chain :: "event list" where
  "vote_chain = [plain_event ''a'' ''n1'' [], plain_event ''b'' ''n1'' [''a''],
     plain_event ''c'' ''n1'' [''b'']]"

definition vote_cache :: anc_cache where
  "vote_cache = [(''b'', {''a''}), (''c'', {''a'', ''b''})]"

definition vote_witnesses :: witnesses where
  "vote_witnesses = [(0, [(''n1'', ''a'')]), (1, [(''n1'', ''b'')]), (2, [(''n1'', ''c'')])]"

lemma vote_chain_by_id:
  "map_of (events_by_id vote_chain) ''a'' = Some (plain_event ''a'' ''n1'' [])"
  "map_of (events_by_id vote_chain) ''b'' = Some (plain_event ''b'' ''n1'' [''a''])"
  "map_of (events_by_id vote_chain) ''c'' = Some (plain_event ''c'' ''n1'' [''b''])"
  by (simp_all add: vote_chain_def events_by_id_def dict_of_def)

lemma vote_chain_anc:
  "anc (events_by_id vote_chain) ''a'' = {}" "anc (events_by_id vote_chain) ''b'' = {''a''}"
  "anc (events_by_id vote_chain) ''c'' = {''a'', ''b''}"
proof -
  show a: "anc (events_by_id vote_chain) ''a'' = {}"
    by (subst anc_unfold) (simp add: vote_chain_by_id)
  show b: "anc (events_by_id vote_chain) ''b'' = {''a''}"
    by (subst anc_unfold) (simp add: vote_chain_by_id a)
  show "anc (events_by_id vote_chain) ''c'' = {''a'', ''b''}"
    by (subst anc_unfold) (simp add: vote_chain_by_id b insert_commute)
qed

lemma vote_cache_good: "good_cache 3 vote_chain vote_chain vote_cache"
proof -
  have "cache_ok (events_by_id vote_chain) vote_cache"
    by (simp add: cache_ok_def vote_cache_def vote_chain_anc)
  moreover have "topo_ok vote_chain" "ev_id ` set (tl vote_chain) \<subseteq> dom (map_of vote_cache)"
    by (simp_all add: vote_chain_def vote_cache_def)
  ultimately show ?thesis by (simp add: good_cache_def)
qed

lemma vote_run:
  "witness_history (can_see 3 (events_by_id vote_chain)) [''n1''] vote_witnesses 0 ''a'' vote_cache =
     Inr ([(1, [(''n1'', Some True)]), (2, [(''n1'', Some True)])], vote_cache)"
proof -
  have see: "can_see 3 (events_by_id vote_chain) x y vote_cache = Inr (y \<in> s, vote_cache)"
    if "map_of vote_cache x = Some s" "x \<noteq> y" for x y s
    using that by (simp add: can_see_def vbind_def vret_def numeral_3_eq_3)
  have "can_see 3 (events_by_id vote_chain) ''b'' ''a'' vote_cache = Inr (True, vote_cache)"
    "can_see 3 (events_by_id vote_chain) ''c'' ''b'' vote_cache = Inr (True, vote_cache)"
    using see [of "''b''" "{''a''}" "''a''"] see [of "''c''" "{''a'', ''b''}" "''b''"]
    by (simp_all add: vote_cache_def)
  then show ?thesis
    by (simp add: witness_history_def first_votes_def vote_step_def later_votes_def vote_witnesses_def dict_get_def
        member_items_def countable_votes_def add_votes_def tally_def supermajority_threshold_def
        vbind_def vret_def Let_def) blast
qed

theorem fame_votes_never_conflict_witness:
  "supermajority_threshold (length [''n1'']) \<le> count_votes True [(''n1'', Some True)] \<and>
   count_votes (\<not> True) [(''n1'', Some True)] = 0"
proof -
  have ok: "witnesses_ok vote_witnesses"
    by (simp add: witnesses_ok_def vote_witnesses_def dict_get_def)
  have thr: "supermajority_threshold (length [''n1'']) \<le> count_votes True [(''n1'', Some True)]"
    by (simp add: supermajority_threshold_def count_votes_def)
  have at2: "map_of [(1, [(''n1'', Some True)]), (2 :: int, [(''n1'', Some True)])] 2 = Some [(''n1'', Some True)]"
    and at1: "map_of [(1, [(''n1'', Some True)]), (2 :: int, [(''n1'', Some True)])] 1 = Some [(''n1'', Some True)]"
    by simp_all
  have "(1 :: int) < 2" by simp
  with conjunct1 [OF fame_votes_never_conflict [OF vote_cache_good ok vote_run at2], rule_format, OF conjI, OF at1] thr
  have "count_votes (\<not> True) [(''n1'', Some True)] = 0" by blast
  with thr show ?thesis by blast
qed

end
