(* ===== verification/Agreement.thy ===== *)
theory Agreement
  imports Ordering Fame
begin

text \<open>
  Nodes that hold the same events agree: without forks the result of
  \<open>ConsensusEngine.recompute\<close> does not depend on the topological order in which the events
  are given, nor on the order of the membership list.
\<close>

section \<open>Fork-free graphs\<close>

text \<open>Any two events of one creator are comparable: the creator extended its own history.\<close>

definition fork_free :: "event list \<Rightarrow> bool" where
  "fork_free events \<longleftrightarrow> (\<forall>e \<in> set events. \<forall>e' \<in> set events. creator_of e = creator_of e' \<longrightarrow>
     sees (events_by_id events) (ev_id e) (ev_id e') \<or> sees (events_by_id events) (ev_id e') (ev_id e))"

lemma sees_trans: "sees g x y \<Longrightarrow> sees g y z \<Longrightarrow> sees g x z"
  by (auto simp: sees_def intro: anc_trans)

lemma sees_antisym: "topo_ok topo \<Longrightarrow> sees (events_by_id topo) x y \<Longrightarrow> sees (events_by_id topo) y x \<Longrightarrow> x = y"
  by (auto simp: sees_def dest: anc_trans anc_irrefl)

lemma sees_earlier:
  assumes "topo_ok (pre @ e # post)" "f \<in> set (e # post)" "sees (events_by_id (pre @ e # post)) (ev_id h) (ev_id f)"
  shows "h \<notin> set pre"
proof
  assume h: "h \<in> set pre"
  have dist: "distinct (map ev_id (pre @ e # post))" by (rule topo_ok_distinct [OF assms(1)])
  have f: "ev_id f \<notin> ev_id ` set pre" using dist assms(2) by auto
  then have "ev_id f \<in> anc (events_by_id (pre @ e # post)) (ev_id h)"
    using assms(3) h unfolding sees_def by (metis image_eqI)
  from anc_topo [OF assms(1) _ this] h f assms(2) show False by auto
qed

text \<open>The witness of a creator in a round is seen by all its events of that round.\<close>

lemma witness_least:
  assumes ok: "rounds_ok (events_by_id es) membership es st" and "topo_ok es" "fork_free es"
    and "y \<in> set es" "in_round st c r y"
  shows "\<exists>w. witness_of st r c = Some (ev_id w) \<and> w \<in> set es \<and> in_round st c r w \<and>
    sees (events_by_id es) (ev_id y) (ev_id w)"
proof -
  obtain w where w: "List.find (in_round st c r) es = Some w"
    using assms(4,5) by (cases "List.find (in_round st c r) es") (auto simp: find_None_iff)
  then obtain pre post where es: "es = pre @ w # post" and pre: "\<forall>x \<in> set pre. \<not> in_round st c r x"
    and wr: "in_round st c r w"
  proof -
    obtain i where i: "i < length es" "in_round st c r (es ! i)" "w = es ! i" "\<forall>j<i. \<not> in_round st c r (es ! j)"
      using w by (auto simp: find_Some_iff)
    have "es = take i es @ w # drop (Suc i) es" using i by (simp add: id_take_nth_drop)
    moreover have "\<forall>x \<in> set (take i es). \<not> in_round st c r x" using i by (auto simp: in_set_conv_nth)
    ultimately show thesis using i(2,3) that by blast
  qed
  have y: "y \<in> set (w # post)" using assms(4,5) pre es by auto
  have "creator_of y = creator_of w" using wr assms(5) by (simp add: in_round_def)
  then have "sees (events_by_id es) (ev_id y) (ev_id w) \<or> sees (events_by_id es) (ev_id w) (ev_id y)"
    using assms(3,4) es by (auto simp: fork_free_def)
  moreover have "sees (events_by_id es) (ev_id w) (ev_id y) \<Longrightarrow> y = w"
  proof -
    assume s: "sees (events_by_id es) (ev_id w) (ev_id y)"
    show "y = w"
    proof (rule ccontr)
      assume "y \<noteq> w"
      then obtain p1 p2 where "post = p1 @ y # p2" using y by (auto simp: in_set_conv_decomp)
      with sees_earlier [of "pre @ w # p1" y p2 y w] s es assms(2) show False by simp
    qed
  qed
  ultimately have "sees (events_by_id es) (ev_id y) (ev_id w)" by (auto simp: sees_def)
  moreover have "witness_of st r c = Some (ev_id w)" using ok w by (simp add: rounds_ok_def)
  ultimately show ?thesis using wr es by (intro exI [of _ w]) simp
qed

lemma seen_creators_rounds:
  assumes ok: "rounds_ok (events_by_id es) membership es st" and "topo_ok es" "fork_free es"
  shows "seen_creators (events_by_id es) membership st r x =
    {c \<in> set membership. \<exists>y \<in> set es. ev_id y \<in> anc (events_by_id es) x \<and> in_round st c r y}"
proof (intro set_eqI iffI)
  fix c assume "c \<in> seen_creators (events_by_id es) membership st r x"
  then obtain w where w: "c \<in> set membership" "w \<in> anc (events_by_id es) x" "witness_of st r c = Some w"
    by (auto simp: seen_creators_def)
  obtain e where "e \<in> set es" "ev_id e = w" "creator_of e = c" "map_of (rs_rounds st) w = Some r"
    by (rule witness_in_pre [OF ok w(3)])
  with w show "c \<in> {c \<in> set membership. \<exists>y \<in> set es. ev_id y \<in> anc (events_by_id es) x \<and> in_round st c r y}"
    by (auto simp: in_round_def)
next
  fix c assume "c \<in> {c \<in> set membership. \<exists>y \<in> set es. ev_id y \<in> anc (events_by_id es) x \<and> in_round st c r y}"
  then obtain y where y: "c \<in> set membership" "y \<in> set es" "ev_id y \<in> anc (events_by_id es) x" "in_round st c r y" by auto
  obtain w :: event where "witness_of st r c = Some (ev_id w)" "sees (events_by_id es) (ev_id y) (ev_id w)"
    using witness_least [OF assms y(2,4)] by blast
  with y show "c \<in> seen_creators (events_by_id es) membership st r x"
    by (auto simp: seen_creators_def sees_def intro: anc_trans)
qed

section \<open>The same rounds in any order\<close>

definition same_graph :: "event list \<Rightarrow> event list \<Rightarrow> bool" where
  "same_graph es es' \<longleftrightarrow> topo_ok es \<and> topo_ok es' \<and> set es = set es' \<and> fork_free es"

lemma same_by_id:
  assumes "topo_ok es" "topo_ok es'" "set es = set es'"
  shows "map_of (events_by_id es) = map_of (events_by_id es')"
proof
  fix x show "map_of (events_by_id es) x = map_of (events_by_id es') x"
    using map_of_events_by_id [OF topo_ok_distinct [OF assms(1)], of x]
      map_of_events_by_id [OF topo_ok_distinct [OF assms(2)], of x] assms(3)
    by (cases "map_of (events_by_id es) x"; cases "map_of (events_by_id es') x") auto
qed

lemma same_anc: "map_of g = map_of g' \<Longrightarrow> anc g = anc g'"
  by (intro ext) (simp add: anc_def parent_rel_def)

lemma same_sees: "map_of g = map_of g' \<Longrightarrow> sees g = sees g'"
  by (intro ext) (simp add: sees_def same_anc [of g g'])

lemma same_graph_sym: "same_graph es es' \<Longrightarrow> same_graph es' es"
proof -
  assume g: "same_graph es es'"
  then have "sees (events_by_id es) = sees (events_by_id es')"
    by (intro same_sees same_by_id) (simp_all add: same_graph_def)
  with g show ?thesis by (simp add: same_graph_def fork_free_def)
qed

lemma rounds_agree:
  assumes "same_graph es es'" "set mem = set mem'" "length mem = length mem'"
    and ok: "rounds_ok (events_by_id es) mem es st" and inv: "round_inv es st"
    and ok': "rounds_ok (events_by_id es') mem' es' st'" and inv': "round_inv es' st'"
  shows "map_of (rs_rounds st) x = map_of (rs_rounds st') x"
proof -
  have topo: "topo_ok es" "topo_ok es'" and set_eq: "set es = set es'" and ff: "fork_free es" "fork_free es'"
    using assms(1) same_graph_sym [OF assms(1)] by (simp_all add: same_graph_def)
  have anc_eq: "anc (events_by_id es') = anc (events_by_id es)"
    using same_anc [OF same_by_id [OF topo set_eq]] by simp
  have none: "map_of (rs_rounds st) y = None \<longleftrightarrow> y \<notin> ev_id ` set es"
    "map_of (rs_rounds st') y = None \<longleftrightarrow> y \<notin> ev_id ` set es" for y
    using inv inv' set_eq by (simp_all add: round_inv_def map_of_eq_None_iff)
  have prefix: "\<forall>e \<in> set pre. map_of (rs_rounds st) (ev_id e) = map_of (rs_rounds st') (ev_id e)"
    if "es = pre @ post" for pre post
    using that
  proof (induction pre arbitrary: post rule: rev_induct)
    case (snoc e pre)
    then have pre: "\<forall>e \<in> set pre. map_of (rs_rounds st) (ev_id e) = map_of (rs_rounds st') (ev_id e)" by simp
    have IH: "map_of (rs_rounds st) y = map_of (rs_rounds st') y"
      if "y \<in> ev_id ` set pre \<or> y \<notin> ev_id ` set es" for y
    proof (cases "y \<in> ev_id ` set pre")
      case False
      then show ?thesis using that none [of y] by simp
    qed (use pre in auto)
    have es: "es = pre @ e # post" using snoc.prems by simp
    have par: "p \<in> ev_id ` set pre \<or> p \<notin> ev_id ` set es" if "p \<in> set (ev_parents e)" for p
      using topo_ok_parents [of pre e post p] topo(1) es that by auto
    have base: "base_round (rs_rounds st) e = base_round (rs_rounds st') e"
      unfolding base_round_def List.map_filter_def
      by (intro arg_cong [of _ _ "\<lambda>xs. max_default xs 0"] map_cong filter_cong) (auto simp: IH [OF par])
    have "map_of (rs_rounds st) (ev_id y) = map_of (rs_rounds st') (ev_id y)"
      if y: "y \<in> set es" "ev_id y \<in> anc (events_by_id es) (ev_id e)" for y
    proof (rule IH)
      obtain p where p: "p \<in> set (ev_parents e)" "ev_id y = p \<or> ev_id y \<in> anc (events_by_id es) p"
        using y(2) map_of_events_by_id [OF topo_ok_distinct [OF topo(1)], of "ev_id e" e] es
        by (auto simp: anc_unfold [of _ "ev_id e"])
      show "ev_id y \<in> ev_id ` set pre \<or> ev_id y \<notin> ev_id ` set es"
      proof (cases "p \<in> ev_id ` set pre")
        case True
        then show ?thesis using anc_topo [of pre "e # post" p "ev_id y"] topo(1) es p(2) by auto
      next
        case False
        then have "map_of (events_by_id es) p = None"
          using par [OF p(1)] dom_events_by_id [of es] by (auto simp: dom_def)
        then have "anc (events_by_id es) p = {}" by (simp add: anc_unfold [of _ p])
        then show ?thesis using p(2) par [OF p(1)] by auto
      qed
    qed
    then have "seen_creators (events_by_id es) mem st b (ev_id e) = seen_creators (events_by_id es') mem' st' b (ev_id e)" for b
      unfolding seen_creators_rounds [OF ok topo(1) ff(1)] seen_creators_rounds [OF ok' topo(2) ff(2)]
      by (auto simp: assms(2) anc_eq set_eq [symmetric] in_round_def)
    then have "advanced_round (events_by_id es) mem st e = advanced_round (events_by_id es') mem' st' e"
      by (simp add: advanced_round_def base assms(3))
    moreover have "e \<in> set es" "e \<in> set es'" using es set_eq by auto
    ultimately have "map_of (rs_rounds st) (ev_id e) = map_of (rs_rounds st') (ev_id e)"
      using ok ok' by (simp add: rounds_ok_def)
    with snoc.IH [of "e # post"] es show ?case by simp
  qed simp
  show ?thesis
  proof (cases "x \<in> ev_id ` set es")
    case True
    then show ?thesis using prefix [of es "[]"] by auto
  next
    case False
    then show ?thesis using none [of x] by simp
  qed
qed

lemma witnesses_agree:
  assumes "same_graph es es'" "set mem = set mem'" "length mem = length mem'"
    and ok: "rounds_ok (events_by_id es) mem es st" and inv: "round_inv es st"
    and ok': "rounds_ok (events_by_id es') mem' es' st'" and inv': "round_inv es' st'"
  shows "witness_of st r c = witness_of st' r c"
proof -
  have topo: "topo_ok es" "topo_ok es'" and set_eq: "set es = set es'" and ff: "fork_free es" "fork_free es'"
    using assms(1) same_graph_sym [OF assms(1)] by (simp_all add: same_graph_def)
  have sees_eq: "sees (events_by_id es') = sees (events_by_id es)"
    using same_sees [OF same_by_id [OF topo set_eq]] by simp
  have rounds: "in_round st c r = in_round st' c r"
    using rounds_agree [OF assms] by (intro ext) (simp add: in_round_def)
  show ?thesis
  proof (cases "\<exists>y \<in> set es. in_round st c r y")
    case True
    then obtain y where y: "y \<in> set es" "in_round st c r y" by blast
    obtain w where w: "witness_of st r c = Some (ev_id w)" "w \<in> set es" "in_round st c r w"
      using witness_least [OF ok topo(1) ff(1) y] by blast
    obtain w' where w': "witness_of st' r c = Some (ev_id w')" "w' \<in> set es'" "in_round st' c r w'"
      "sees (events_by_id es') (ev_id w) (ev_id w')"
      using witness_least [OF ok' topo(2) ff(2), of w c r] w(2,3) unfolding set_eq rounds by blast
    obtain v :: event where "witness_of st r c = Some (ev_id v)" "sees (events_by_id es) (ev_id w') (ev_id v)"
      using witness_least [OF ok topo(1) ff(1), of w' c r] w'(2,3) unfolding set_eq rounds by auto
    then have "ev_id w = ev_id w'"
      using w(1) w'(4) sees_antisym [OF topo(1), of "ev_id w" "ev_id w'"] by (simp add: sees_eq)
    with w(1) w'(1) show ?thesis by simp
  next
    case False
    then have "List.find (in_round st c r) es = None" "List.find (in_round st' c r) es' = None"
      unfolding find_None_iff using set_eq rounds by auto
    then show ?thesis using ok ok' by (simp add: rounds_ok_def)
  qed
qed

section \<open>Everything downstream reads dictionaries, not their order\<close>

definition dsim :: "('k, 'v) dict \<Rightarrow> ('k, 'v) dict \<Rightarrow> bool" where
  "dsim d d' \<longleftrightarrow> distinct (map fst d) \<and> distinct (map fst d') \<and> set d = set d'"

lemma dsim_map_of: "dsim d d' \<Longrightarrow> map_of d = map_of d'"
  unfolding dsim_def by (intro map_of_inject_set [THEN iffD2]) auto

lemma dsimI: "distinct (map fst d) \<Longrightarrow> distinct (map fst d') \<Longrightarrow> map_of d = map_of d' \<Longrightarrow> dsim d d'"
  using map_of_inject_set [of d d'] by (simp add: dsim_def)

lemma dsim_mset: "dsim d d' \<Longrightarrow> mset d = mset d'"
  unfolding dsim_def by (metis distinct_map set_eq_iff_mset_eq_distinct)

lemma dsim_Nil: "dsim d d' \<Longrightarrow> d = [] \<longleftrightarrow> d' = []"
  by (auto simp: dsim_def)

definition wsim :: "witnesses \<Rightarrow> witnesses \<Rightarrow> bool" where
  "wsim wbr wbr' \<longleftrightarrow> sort (map fst wbr) = sort (map fst wbr') \<and> (\<forall>r. dsim (dict_get wbr r []) (dict_get wbr' r []))"

lemma member_items_sim:
  "dsim d d' \<Longrightarrow> set mem = set mem' \<Longrightarrow> dsim (member_items mem d) (member_items mem' d')"
  by (auto simp: dsim_def member_items_def distinct_map_filter)

lemma dsim_map_values:
  "dsim d d' \<Longrightarrow> dsim (map (\<lambda>(k, v). (k, f k v)) d) (map (\<lambda>(k, v). (k, f k v)) d')"
  by (auto simp: dsim_def case_prod_unfold comp_def)

lemma first_votes_sim:
  "dsim d d' \<Longrightarrow> set mem = set mem' \<Longrightarrow> dsim (first_votes_spec seen mem w d) (first_votes_spec seen mem' w d')"
  unfolding first_votes_spec_def using dsim_map_values [OF member_items_sim, of d d' mem mem' "\<lambda>_ w'. Some (seen w' w)"] by simp

lemma length_filter_mset: "mset vs = mset vs' \<Longrightarrow> length (filter P vs) = length (filter P vs')"
  by (metis mset_filter size_mset)

lemma map_of_map_keys: "map_of (map (\<lambda>(k, h). (k, f k h)) al) k = map_option (f k) (map_of al k)"
  by (induction al) auto

lemma tally_mset: "mset vs = mset vs' \<Longrightarrow> tally t vs = tally t vs'"
  using length_filter_mset [of vs vs'] by (simp only: tally_def Let_def)

lemma later_vote_sim:
  assumes "dsim prevs prevs'" "dsim previous previous'" "set mem = set mem'" "length mem = length mem'"
  shows "later_vote seen mem prevs previous w = later_vote seen mem' prevs' previous' w"
  unfolding later_vote_def countable_votes_def assms(4) assms(3) dsim_map_of [OF assms(1)]
  by (rule tally_mset) (simp add: dsim_mset [OF assms(2)])

lemma later_votes_sim:
  assumes "dsim prevs prevs'" "dsim laters laters'" "dsim previous previous'" "set mem = set mem'" "length mem = length mem'"
  shows "dsim (later_votes_spec seen mem prevs laters previous) (later_votes_spec seen mem' prevs' laters' previous')"
  unfolding later_votes_spec_def later_vote_sim [OF assms(1,3-5)]
  using dsim_map_values [OF member_items_sim [OF assms(2,4)], of "\<lambda>_ w. later_vote seen mem' prevs' previous' w"] by simp

definition hsim :: "vote_history \<Rightarrow> vote_history \<Rightarrow> bool" where
  "hsim h h' \<longleftrightarrow> list_all2 (\<lambda>(q, v) (q', v'). q = q' \<and> dsim v v') h h'"

lemma hsim_update: "hsim h h' \<Longrightarrow> dsim v v' \<Longrightarrow> hsim (AList.update q v h) (AList.update q v' h')"
  unfolding hsim_def by (induction h h' rule: list_all2_induct) auto

lemma hsim_add_votes: "hsim h h' \<Longrightarrow> dsim v v' \<Longrightarrow> hsim (add_votes q v h) (add_votes q v' h')"
  using dsim_Nil [of v v'] by (simp add: add_votes_def hsim_update)

lemma hsim_keys: "hsim h h' \<Longrightarrow> map fst h = map fst h'"
  unfolding hsim_def by (induction h h' rule: list_all2_induct) auto

lemma hsim_get: "hsim h h' \<Longrightarrow> dsim (dict_get h q []) (dict_get h' q [])"
  unfolding hsim_def dict_get_def by (induction h h' rule: list_all2_induct) (auto simp: dsim_def split: if_splits)

lemma vote_fold_sim:
  assumes "wsim wbr wbr'" "set mem = set mem'" "length mem = length mem'" "hsim h h'" "dsim p p'"
  shows "hsim (fst (fold (vote_step_spec seen mem wbr r) rs (h, p))) (fst (fold (vote_step_spec seen mem' wbr' r) rs (h', p')))"
  using assms(4,5)
proof (induction rs arbitrary: h h' p p')
  case (Cons x rs)
  let ?c = "later_votes_spec seen mem (dict_get wbr (x - 1) []) (dict_get wbr x []) p"
  let ?c' = "later_votes_spec seen mem' (dict_get wbr' (x - 1) []) (dict_get wbr' x []) p'"
  have "dsim ?c ?c'" using assms(1-3) Cons.prems(2) by (intro later_votes_sim) (auto simp: wsim_def)
  then show ?case using Cons.IH Cons.prems by (simp add: vote_step_spec_def Let_def hsim_add_votes)
qed simp

lemma witness_history_sim:
  assumes "wsim wbr wbr'" "set mem = set mem'" "length mem = length mem'"
  shows "hsim (witness_history_spec seen mem wbr r w) (witness_history_spec seen mem' wbr' r w)"
proof -
  have f: "dsim (first_votes_spec seen mem w (dict_get wbr (r + 1) [])) (first_votes_spec seen mem' w (dict_get wbr' (r + 1) []))"
    using assms by (intro first_votes_sim) (auto simp: wsim_def)
  have "sort (map fst wbr) = sort (map fst wbr')" using assms(1) by (simp add: wsim_def)
  then show ?thesis unfolding witness_history_spec_def Let_def
    using vote_fold_sim [OF assms hsim_add_votes [OF _ f] f, of "[]" "[]"] by (simp add: hsim_def)
qed

lemma count_votes_sim: "dsim v v' \<Longrightarrow> count_votes b v = count_votes b v'"
  unfolding count_votes_def by (metis dsim_mset mset_filter mset_map size_mset)

lemma resolve_fame_sim:
  assumes "hsim h h'"
  shows "resolve_fame L w h t = resolve_fame L w h' t"
proof -
  have "resolve_loop t h rs d = resolve_loop t h' rs d" for rs d
    by (induction rs arbitrary: d) (simp_all add: count_votes_sim [OF hsim_get [OF assms]] Let_def)
  then show ?thesis unfolding resolve_fame_def hsim_keys [OF assms] map_eq_imp_length_eq [OF hsim_keys [OF assms]] by simp
qed

section \<open>Agreement\<close>

lemma normalize_membership_distinct: "distinct (normalize_membership n ms)"
  using normalize_entries_props [of "[]" ms] by (auto simp: normalize_membership_def Let_def)

lemma fame_spec_rounds:
  "dict_get (fame_spec L seen mem wbr) r [] =
     (if r \<in> set (map fst wbr) then map (\<lambda>(w, h). (w, resolve_fame L w h (supermajority_threshold (length mem))))
        (dict_of (map (\<lambda>w. (w, witness_history_spec seen mem wbr r w)) (map snd (dict_get wbr r [])))) else [])"
proof -
  have *: "map_of (map (\<lambda>r. (r, g r)) rs) q = (if q \<in> set rs then Some (g q) else None)" for g :: "int \<Rightarrow> 'z" and rs q
    by (induction rs) auto
  show ?thesis by (simp add: fame_spec_def history_spec_def dict_get_def comp_def * del: map_map)
     (simp add: comp_def *)
qed

lemma map_of_dict_of_fun: "map_of (dict_of (map (\<lambda>w. (w, g w)) ws)) k = (if k \<in> set ws then Some (g k) else None)"
proof -
  have "map_of (map (\<lambda>w. (w, g w)) xs) k = (if k \<in> set xs then Some (g k) else None)" for xs
    by (induction xs) auto
  from this [of "rev ws"] show ?thesis by (simp add: map_of_dict_of rev_map)
qed

lemma fame_agree:
  assumes "wsim wbr wbr'" "set mem = set mem'" "length mem = length mem'"
  shows "dsim (dict_get (fame_spec L seen mem wbr) r []) (dict_get (fame_spec L seen mem' wbr') r [])"
proof -
  have keys: "set (map fst wbr) = set (map fst wbr')" using assms(1) unfolding wsim_def by (metis set_sort)
  have ids: "set (map snd (dict_get wbr r [])) = set (map snd (dict_get wbr' r []))"
    using assms(1) by (simp add: wsim_def dsim_def)
  let ?f = "\<lambda>mem wbr. map (\<lambda>(w, h). (w, resolve_fame L w h (supermajority_threshold (length mem))))
        (dict_of (map (\<lambda>w. (w, witness_history_spec seen mem wbr r w)) (map snd (dict_get wbr r []))))"
  have dist: "distinct (map fst (?f mem wbr))" for mem wbr
  proof -
    have "map fst (?f mem wbr) = map fst (dict_of (map (\<lambda>w. (w, witness_history_spec seen mem wbr r w)) (map snd (dict_get wbr r []))))"
      by (simp add: case_prod_unfold)
    then show ?thesis by (simp only: dict_ok_dict_of)
  qed
  have "map_of (?f mem wbr) = map_of (?f mem' wbr')"
  proof
    fix w
    have "resolve_fame L w (witness_history_spec seen mem wbr r w) (supermajority_threshold (length mem)) =
      resolve_fame L w (witness_history_spec seen mem' wbr' r w) (supermajority_threshold (length mem'))"
      using resolve_fame_sim [OF witness_history_sim [OF assms]] assms(3) by simp
    then show "map_of (?f mem wbr) w = map_of (?f mem' wbr') w"
      using ids by (simp only: map_of_map_keys map_of_dict_of_fun) simp
  qed
  then have "dsim (?f mem wbr) (?f mem' wbr')" by (intro dsimI dist)
  then show ?thesis unfolding fame_spec_rounds using keys by (simp add: dsim_def)
qed

lemma received_agree:
  assumes "wsim wbr wbr'" "set mem = set mem'" "length mem = length mem'"
    and "\<And>r. dsim (dict_get fame r []) (dict_get fame' r [])"
  shows "received_in seen mem wbr fame x r = received_in seen mem' wbr' fame' x r"
proof -
  have fame: "fame_of fame q w = fame_of fame' q w" for q w
    using dsim_map_of [OF assms(4) [of q]] by (simp add: fame_of_def)
  have get: "dict_get (famous_witnesses f d) r [] =
      filter (\<lambda>(_, w). case fame_of f r w of Some f \<Rightarrow> fm_decided f \<and> fm_famous f | None \<Rightarrow> False) (dict_get d r [])" for f d
    unfolding famous_witnesses_def dict_get_def by (induction d) auto
  have famous: "set (dict_get (famous_witnesses fame wbr) r []) = set (dict_get (famous_witnesses fame' wbr') r [])"
    using assms(1) unfolding get fame by (simp add: wsim_def dsim_def)
  have all: "set (dict_get wbr r []) = set (dict_get wbr' r [])" using assms(1) by (simp add: wsim_def dsim_def)
  have vals: "set (map snd (dict_get fame r [])) = set (map snd (dict_get fame' r []))"
    using assms(4) [of r] by (simp add: dsim_def)
  have nil: "map snd (dict_get fame r []) = [] \<longleftrightarrow> map snd (dict_get fame' r []) = []"
    using dsim_Nil [OF assms(4)] by simp
  have members: "seeing_members seen mem ws x = seeing_members seen mem' ws' x" if "set ws = set ws'" for ws ws'
    using that assms(2) by (simp add: seeing_members_def)
  show ?thesis
    unfolding received_in_def receiving_witnesses_def Let_def list_all_iff list_ex_iff
    using nil vals members [OF famous] members [OF all] assms(3) by auto
qed

lemma timestamp_agree:
  assumes "set mem = set mem'" "length mem = length mem'"
  shows "timestamp_spec mem pm x = timestamp_spec mem' pm x"
proof -
  have "observe mem = observe mem'" using assms(1) by (intro ext) (simp only: observe_def)
  then show ?thesis by (simp add: timestamp_spec_def consensus_timestamp_def assms(2))
qed

lemma round_data_inv: "topo_ok es \<Longrightarrow> round_inv es (round_data n es ms)"
  unfolding round_data_def Let_def by (rule assign_rounds_ok [OF _ order_refl])

lemma round_keys:
  assumes "round_inv es st"
  shows "r \<in> fst ` set (rs_witnesses st) \<longleftrightarrow> (\<exists>c. witness_of st r c \<noteq> None)"
proof (cases "map_of (rs_witnesses st) r")
  case None
  then have "r \<notin> fst ` set (rs_witnesses st)" by (simp only: map_of_eq_None_iff not_False_eq_True)
  with None show ?thesis by (simp add: witness_of_def dict_get_def)
next
  case (Some ws)
  then have "ws \<noteq> []" using assms by (auto simp: round_inv_def)
  then obtain c w ws' where "ws = (c, w) # ws'" by (cases ws) auto
  then have "witness_of st r c \<noteq> None" using Some by (simp add: witness_of_def dict_get_def)
  moreover have "r \<in> fst ` set (rs_witnesses st)" using map_of_SomeD [OF Some] by (rule rev_image_eqI) simp
  ultimately show ?thesis by blast
qed

lemma round_data_sim:
  assumes "same_graph es es'" "set (normalize_membership n ms) = set (normalize_membership n' ms')"
  shows "wsim (rs_witnesses (round_data n es ms)) (rs_witnesses (round_data n' es' ms'))"
    and "map_of (rs_rounds (round_data n es ms)) = map_of (rs_rounds (round_data n' es' ms'))"
    and "witness_of (round_data n es ms) = witness_of (round_data n' es' ms')"
proof -
  let ?st = "round_data n es ms" and ?st' = "round_data n' es' ms'"
  have topo: "topo_ok es" "topo_ok es'" using assms(1) by (simp_all add: same_graph_def)
  have len: "length (normalize_membership n ms) = length (normalize_membership n' ms')"
    using assms(2) by (metis distinct_card normalize_membership_distinct)
  note oks = assms(1,2) len round_data_ok [OF topo(1), of n ms] round_data_inv [OF topo(1), of n ms]
    round_data_ok [OF topo(2), of n' ms'] round_data_inv [OF topo(2), of n' ms']
  show "map_of (rs_rounds ?st) = map_of (rs_rounds ?st')" using rounds_agree [OF oks] by (rule ext)
  show wit: "witness_of ?st = witness_of ?st'" using witnesses_agree [OF oks] by (intro ext)
  have "fst ` set (rs_witnesses ?st) = fst ` set (rs_witnesses ?st')"
    using round_keys [OF oks(5)] round_keys [OF oks(7)] wit by (intro set_eqI) simp
  moreover have "distinct (map fst (rs_witnesses ?st))" "distinct (map fst (rs_witnesses ?st'))"
    using oks(4,6) by (simp_all add: rounds_ok_def)
  ultimately have "mset (map fst (rs_witnesses ?st)) = mset (map fst (rs_witnesses ?st'))"
    using set_eq_iff_mset_eq_distinct [of "map fst (rs_witnesses ?st)" "map fst (rs_witnesses ?st')"] by simp
  then have "sort (map fst (rs_witnesses ?st)) = sort (map fst (rs_witnesses ?st'))"
    by (rule sort_key_perm_eq [of _ _ "\<lambda>x. x"]) simp
  moreover have "dsim (dict_get (rs_witnesses ?st) r []) (dict_get (rs_witnesses ?st') r [])" for r
    using oks(4,6) wit by (intro dsimI) (simp_all add: rounds_ok_def witness_of_def fun_eq_iff)
  ultimately show "wsim (rs_witnesses ?st) (rs_witnesses ?st')" by (simp add: wsim_def)
qed

lemma flag_of:
  assumes "rounds_ok g mem es st" "e \<in> set es" "map_of (rs_rounds st) (ev_id e) = Some r"
  shows "map_of (rs_flags st) (ev_id e) = Some (witness_of st r (creator_of e) = Some (ev_id e))"
  using assms unfolding rounds_ok_def by blast

lemma event_state_agree:
  assumes "same_graph es es'" "set (normalize_membership n ms) = set (normalize_membership n' ms')"
    and "e \<in> set es"
  shows "event_state L n es ms pm e = event_state L n' es' ms' pm e"
    and "round_received_spec (sees (events_by_id es)) (normalize_membership n ms)
        (rs_witnesses (round_data n es ms)) (fame_data L n es ms) (ev_id e) =
      round_received_spec (sees (events_by_id es')) (normalize_membership n' ms')
        (rs_witnesses (round_data n' es' ms')) (fame_data L n' es' ms') (ev_id e)"
proof -
  let ?mem = "normalize_membership n ms" and ?mem' = "normalize_membership n' ms'"
  let ?st = "round_data n es ms" and ?st' = "round_data n' es' ms'"
  have topo: "topo_ok es" "topo_ok es'" and set_eq: "set es = set es'" using assms(1) by (simp_all add: same_graph_def)
  have sees_eq: "sees (events_by_id es) = sees (events_by_id es')"
    by (rule same_sees [OF same_by_id [OF topo set_eq]])
  have len: "length ?mem = length ?mem'" using assms(2) by (metis distinct_card normalize_membership_distinct)
  note sim = round_data_sim [OF assms(1,2)]
  have fame: "dsim (dict_get (fame_data L n es ms) r []) (dict_get (fame_data L n' es' ms') r [])" for r
    unfolding fame_data_def sees_eq by (rule fame_agree [OF sim(1) assms(2) len])
  have fame_of: "fame_of (fame_data L n es ms) r w = fame_of (fame_data L n' es' ms') r w" for r w
    using dsim_map_of [OF fame [of r]] by (simp add: fame_of_def)
  have sorted: "sort (map fst (rs_witnesses ?st)) = sort (map fst (rs_witnesses ?st'))"
    using sim(1) by (simp add: wsim_def)
  show rr: "round_received_spec (sees (events_by_id es)) ?mem (rs_witnesses ?st) (fame_data L n es ms) (ev_id e) =
      round_received_spec (sees (events_by_id es')) ?mem' (rs_witnesses ?st') (fame_data L n' es' ms') (ev_id e)"
    unfolding round_received_spec_def sees_eq sorted
    using received_agree [OF sim(1) assms(2) len fame] by presburger
  have flag: "map_of (rs_flags ?st) (ev_id e) = map_of (rs_flags ?st') (ev_id e)"
    using flag_of [OF round_data_ok [OF topo(1)] assms(3) round_of_event [OF topo(1) assms(3)], of n ms]
      flag_of [OF round_data_ok [OF topo(2)], of e n' ms'] round_of_event [OF topo(1) assms(3), of n ms]
      assms(3) set_eq sim(2,3) by simp
  show "event_state L n es ms pm e = event_state L n' es' ms' pm e"
    unfolding event_state_def state_spec_def rr flag sim(2) timestamp_agree [OF assms(2) len]
    by (simp add: make_state_def fame_of)
qed

text \<open>The total order without the position of an event in the list.\<close>

definition order_key3 :: "(string, int option \<times> timestamp option) dict \<Rightarrow> event \<Rightarrow> (bool \<times> int) \<times> (bool \<times> rat) \<times> string" where
  "order_key3 resolved e =
     (case (case map_of resolved (ev_id e) of Some p \<Rightarrow> p | None \<Rightarrow> (ev_round_received e, ev_consensus_ts e)) of
       (rr, ts) \<Rightarrow> ((rr = None, case rr of Some r \<Rightarrow> r | None \<Rightarrow> 0), (ts = None, case ts of Some t \<Rightarrow> t | None \<Rightarrow> 0), ev_id e))"

lemma event_key_mono: "event_key resolved (i, e) \<le> event_key resolved (j, e') \<Longrightarrow> order_key3 resolved e \<le> order_key3 resolved e'"
  by (auto simp: event_key_def order_key3_def order_key_def less_eq_prod_def less_prod_def split: prod.splits)

lemma sort_key_cong: "(\<And>x. x \<in> set xs \<Longrightarrow> f x = g x) \<Longrightarrow> sort_key f xs = sort_key g xs"
proof (induction xs)
  case (Cons x xs)
  have ins: "insort_key f x ys = insort_key g x ys" if "\<And>y. y \<in> set (x # ys) \<Longrightarrow> f y = g y" for ys
    using that by (induction ys) auto
  have "sort_key f xs = sort_key g xs" by (rule Cons.IH) (simp add: Cons.prems)
  moreover have "insort_key f x (sort_key g xs) = insort_key g x (sort_key g xs)"
    by (rule ins) (use Cons.prems in auto)
  ultimately show ?case by simp
qed simp

lemma inj_order_key3: "distinct (map ev_id es) \<Longrightarrow> inj_on (order_key3 resolved) (set es)"
  by (rule inj_onI) (auto simp: order_key3_def distinct_map split: prod.splits dest: inj_onD)

lemma total_order_sort:
  assumes "distinct (map ev_id es)"
  shows "total_order es resolved = sort_key (order_key3 resolved) es"
proof -
  obtain keys where keys: "sorted (map fst keys)" "map (snd \<circ> snd) keys = total_order es resolved"
    "\<forall>(k, i, e) \<in> set keys. k = event_key resolved (i, e)"
    using total_order_sorted [of es resolved] by blast
  have "sorted_wrt (\<lambda>x y. order_key3 resolved (snd (snd x)) \<le> order_key3 resolved (snd (snd y))) keys"
  proof (rule sorted_wrt_mono_rel)
    show "sorted_wrt (\<lambda>x y. fst x \<le> fst y) keys" using keys(1) by (simp add: sorted_wrt_map)
    fix x y assume xy: "x \<in> set keys" "y \<in> set keys" "fst x \<le> fst y"
    obtain k i e k' j e' where xy': "x = (k, i, e)" "y = (k', j, e')" by (metis prod_cases3)
    then have "event_key resolved (i, e) \<le> event_key resolved (j, e')"
      using bspec [OF keys(3) xy(1)] bspec [OF keys(3) xy(2)] xy(3) by simp
    then show "order_key3 resolved (snd (snd x)) \<le> order_key3 resolved (snd (snd y))"
      using xy' by (simp add: event_key_mono)
  qed
  then have "sorted (map (order_key3 resolved) (total_order es resolved))"
    unfolding keys(2) [symmetric] by (simp add: sorted_wrt_map)
  then have "total_order es resolved = sort_key (order_key3 resolved) (total_order es resolved)"
    by (rule sort_key_id_if_sorted [symmetric])
  also have "\<dots> = sort_key (order_key3 resolved) es"
    using mset_total_order [of es resolved] inj_order_key3 [OF assms]
    by (intro sort_key_perm_eq) (auto dest: mset_eq_setD)
  finally show ?thesis .
qed

lemma resolved_lookup:
  assumes "distinct (map ev_id es)" "e \<in> set es"
  shows "map_of (dict_of (resolved_data L n es ms pm)) (ev_id e) = Some
    (round_received_spec (sees (events_by_id es)) (normalize_membership n ms)
         (rs_witnesses (round_data n es ms)) (fame_data L n es ms) (ev_id e),
       timestamp_spec (normalize_membership n ms) pm (ev_id e))"
proof -
  have d: "distinct (map fst (resolved_data L n es ms pm))" using assms(1) by (simp add: resolved_data_def comp_def)
  show ?thesis unfolding dict_of_id [OF d] using assms(2)
    by (intro map_of_is_SomeI [OF d]) (force simp: resolved_data_def)
qed


text \<open>Two parents and a child, in the two possible orders.\<close>

definition diamond :: "event list" where
  "diamond = [plain_event ''a'' ''n1'' [], plain_event ''b'' ''n2'' [], plain_event ''c'' ''n1'' [''a'', ''b'']]"

definition diamond' :: "event list" where
  "diamond' = [plain_event ''b'' ''n2'' [], plain_event ''a'' ''n1'' [], plain_event ''c'' ''n1'' [''a'', ''b'']]"

lemma diamond_fork_free: "fork_free diamond"
proof -
  have "map_of (events_by_id diamond) ''c'' = Some (plain_event ''c'' ''n1'' [''a'', ''b''])"
    by (simp add: diamond_def events_by_id_def dict_of_def)
  then have "''a'' \<in> anc (events_by_id diamond) ''c''" by (subst anc_unfold) simp
  then show ?thesis by (simp add: fork_free_def diamond_def creator_of_def plain_event_def sees_def str_or_def)
qed

definition two_members :: "membership_entry list" where
  "two_members = [\<lparr>me_node_id = ''n1'', me_address = ''x'', me_role = ''node'', me_is_self = True\<rparr>,
     \<lparr>me_node_id = ''n2'', me_address = ''y'', me_role = ''node'', me_is_self = False\<rparr>]"


end
