(* ===== verification/Toposort.thy ===== *)
theory Toposort
  imports Models
begin

text \<open>
  \<open>DAGStorage.toposort\<close> of \<open>mdrj/storage.py\<close>: Kahn's algorithm over the rows of the tables
  \<open>events\<close> and \<open>edges\<close>. The \<open>while\<close> loop takes fuel; \<open>toposort\<close> gives it one step per event,
  which is proved to be enough, so a missing result would show as \<open>RecursionError\<close> and never does.
\<close>

section \<open>The algorithm\<close>

type_synonym edge = "string \<times> string"

definition live_edges :: "string list \<Rightarrow> edge list \<Rightarrow> edge list" where
  "live_edges ids edges = filter (\<lambda>(p, c). p \<in> set ids \<and> c \<in> set ids) edges"

text \<open>One pass over the edges: \<open>graph[parent].append(child); indegree[child] += 1\<close>.\<close>

definition add_edge :: "edge \<Rightarrow> (string, string list) dict \<times> (string, int) dict \<Rightarrow>
    (string, string list) dict \<times> (string, int) dict" where
  "add_edge = (\<lambda>(p, c) (graph, indeg).
     if map_of graph p \<noteq> None \<and> map_of graph c \<noteq> None
     then (AList.update p (dict_get graph p [] @ [c]) graph, AList.update c (dict_get indeg c 0 + 1) indeg)
     else (graph, indeg))"

definition build_graph :: "string list \<Rightarrow> edge list \<Rightarrow> (string, string list) dict \<times> (string, int) dict" where
  "build_graph ids edges =
     fold add_edge edges (dict_of (map (\<lambda>i. (i, [])) ids), dict_of (map (\<lambda>i. (i, 0)) ids))"

definition relax :: "string \<Rightarrow> string list \<times> (string, int) dict \<Rightarrow> string list \<times> (string, int) dict" where
  "relax child = (\<lambda>(queue, indeg).
     let d = dict_get indeg child 0 - 1; indeg' = AList.update child d indeg
     in (if d = 0 then queue @ [child] else queue, indeg'))"

fun kahn_loop :: "nat \<Rightarrow> (string, string list) dict \<Rightarrow> string list \<Rightarrow> (string, int) dict \<Rightarrow> string list \<Rightarrow>
    string list option" where
  "kahn_loop fuel graph [] indeg order = Some order"
| "kahn_loop 0 graph (node # queue) indeg order = None"
| "kahn_loop (Suc fuel) graph (node # queue) indeg order =
     (case fold relax (dict_get graph node []) (queue, indeg) of
        (queue', indeg') \<Rightarrow> kahn_loop fuel graph queue' indeg' (order @ [node]))"

definition toposort :: "string list \<Rightarrow> edge list \<Rightarrow> string list result" where
  "toposort ids edges =
     (case build_graph ids edges of (graph, indeg) \<Rightarrow>
        let queue = map fst (filter (\<lambda>(_, d). d = 0) indeg)
        in case kahn_loop (length graph) graph queue indeg [] of
             None \<Rightarrow> Inl RecursionError
           | Some order \<Rightarrow>
               if length order \<noteq> length graph then Inl (ValueError ''cycle detected in DAG'') else Inr order)"

section \<open>The graph\<close>

definition children :: "edge list \<Rightarrow> string \<Rightarrow> string list" where
  "children es p = map snd (filter (\<lambda>(q, _). q = p) es)"

definition indegree_in :: "edge list \<Rightarrow> string set \<Rightarrow> string \<Rightarrow> int" where
  "indegree_in es gone v = int (length (filter (\<lambda>(p, c). c = v \<and> p \<notin> gone) es))"

definition graph_ok :: "string list \<Rightarrow> edge list \<Rightarrow> (string, string list) dict \<times> (string, int) dict \<Rightarrow> bool" where
  "graph_ok ids es gi \<longleftrightarrow> (case gi of (graph, indeg) \<Rightarrow> dict_ok graph \<and> dict_ok indeg \<and>
     (\<forall>p. map_of graph p = (if p \<in> set ids then Some (children (live_edges ids es) p) else None)) \<and>
     (\<forall>v. map_of indeg v = (if v \<in> set ids then Some (indegree_in (live_edges ids es) {} v) else None)))"

lemma map_of_dict_of_const: "map_of (dict_of (map (\<lambda>i. (i, x)) ids)) v = (if v \<in> set ids then Some x else None)"
proof -
  have "map_of (map (\<lambda>i. (i, x)) l) v = (if v \<in> set l then Some x else None)" for l
    by (induction l) auto
  from this [of "rev ids"] show ?thesis by (simp add: map_of_dict_of rev_map)
qed

lemma add_edge_ok: "graph_ok ids es gi \<Longrightarrow> graph_ok ids (es @ [e]) (add_edge e gi)"
proof -
  assume ok: "graph_ok ids es gi"
  obtain p c graph indeg where [simp]: "e = (p, c)" "gi = (graph, indeg)" by (cases e, cases gi)
  show ?thesis
  proof (cases "p \<in> set ids \<and> c \<in> set ids")
    case True
    have live: "live_edges ids (es @ [e]) = live_edges ids es @ [(p, c)]" using True by (simp add: live_edges_def)
    have "add_edge e gi = (AList.update p (children (live_edges ids es) p @ [c]) graph,
        AList.update c (indegree_in (live_edges ids es) {} c + 1) indeg)"
      using ok True by (simp add: add_edge_def graph_ok_def dict_get_def)
    then show ?thesis using ok True unfolding graph_ok_def live
      by (simp add: children_def indegree_in_def)
  next
    case False
    then have "live_edges ids (es @ [e]) = live_edges ids es" "add_edge e gi = gi"
      using ok by (auto simp: live_edges_def add_edge_def graph_ok_def)
    with ok show ?thesis by (simp add: graph_ok_def)
  qed
qed

lemma build_graph_ok: "graph_ok ids edges (build_graph ids edges)"
proof (induction edges rule: rev_induct)
  case Nil
  then show ?case
    by (simp add: graph_ok_def build_graph_def map_of_dict_of_const live_edges_def children_def indegree_in_def)
next
  case (snoc e es)
  from add_edge_ok [OF this] show ?case by (simp add: build_graph_def)
qed

section \<open>The loop\<close>

definition zero_after :: "(string \<Rightarrow> int) \<Rightarrow> string list \<Rightarrow> string set" where
  "zero_after d cs = {v \<in> set cs. d v = int (count_list cs v)}"

lemma relax_fold:
  assumes "\<And>v. v \<in> set cs \<Longrightarrow> int (count_list cs v) \<le> dict_get indeg v 0"
  shows "\<exists>new indeg'. fold relax cs (queue, indeg) = (queue @ new, indeg') \<and> distinct new \<and>
    set new = zero_after (\<lambda>v. dict_get indeg v 0) cs \<and>
    (\<forall>v. dict_get indeg' v 0 = dict_get indeg v 0 - int (count_list cs v))"
  using assms
proof (induction cs arbitrary: queue indeg)
  case Nil
  then show ?case by (simp add: zero_after_def)
next
  case (Cons c cs)
  let ?d = "dict_get indeg c 0 - 1"
  let ?q = "if ?d = 0 then queue @ [c] else queue" and ?i = "AList.update c ?d indeg"
  have i: "dict_get ?i v 0 = (if v = c then ?d else dict_get indeg v 0)" for v by (simp add: dict_get_def)
  have "int (count_list cs v) \<le> dict_get ?i v 0" if "v \<in> set cs" for v
    using Cons.prems [of v] that by (auto simp: i split: if_splits)
  from Cons.IH [OF this, of ?q] obtain new indeg' where new: "fold relax cs (?q, ?i) = (?q @ new, indeg')"
    "distinct new" "set new = zero_after (\<lambda>v. dict_get ?i v 0) cs"
    "\<forall>v. dict_get indeg' v 0 = dict_get ?i v 0 - int (count_list cs v)" by blast
  have first: "fold relax (c # cs) (queue, indeg) = fold relax cs (?q, ?i)" by (simp add: relax_def Let_def)
  have d': "\<forall>v. dict_get indeg' v 0 = dict_get indeg v 0 - int (count_list (c # cs) v)"
    using new(4) by (simp add: i)
  have c0: "?d = 0 \<Longrightarrow> c \<notin> set cs"
    using Cons.prems [of c] by (auto simp: count_list_0_iff [symmetric])
  have z: "v \<in> zero_after (\<lambda>v. dict_get indeg v 0) (c # cs) \<longleftrightarrow>
      (if v = c then ?d = int (count_list cs c) else v \<in> set new)" for v
    unfolding new(3) by (cases "v = c") (simp_all add: zero_after_def i, arith)
  show ?case
  proof (cases "?d = 0")
    case True
    then have c: "c \<notin> set cs" "c \<notin> set new" "count_list cs c = 0"
      using c0 by (simp_all add: new(3) zero_after_def count_list_0_iff)
    have "v \<in> set (c # new) \<longleftrightarrow> v \<in> zero_after (\<lambda>v. dict_get indeg v 0) (c # cs)" for v
      unfolding z using True c by simp
    then have "set (c # new) = zero_after (\<lambda>v. dict_get indeg v 0) (c # cs)" by (intro set_eqI)
    then show ?thesis using True first new(1,2) c(2) d' by (intro exI [of _ "c # new"] exI [of _ indeg']) simp
  next
    case False
    have "c \<in> set new \<longleftrightarrow> ?d = int (count_list cs c)"
      using False count_list_0_iff [of cs c] by (auto simp: new(3) zero_after_def i)
    then have "v \<in> set new \<longleftrightarrow> v \<in> zero_after (\<lambda>v. dict_get indeg v 0) (c # cs)" for v
      unfolding z by simp
    then have "set new = zero_after (\<lambda>v. dict_get indeg v 0) (c # cs)" by (intro set_eqI)
    then show ?thesis using False first new(1,2) d' by (intro exI [of _ new] exI [of _ indeg']) simp
  qed
qed

definition parents_first :: "edge list \<Rightarrow> string list \<Rightarrow> bool" where
  "parents_first es order \<longleftrightarrow> (\<forall>xs c ys. order = xs @ c # ys \<longrightarrow> (\<forall>p. (p, c) \<in> set es \<longrightarrow> p \<in> set xs))"

lemma parents_first_snoc:
  "parents_first es order \<Longrightarrow> (\<And>p. (p, c) \<in> set es \<Longrightarrow> p \<in> set order) \<Longrightarrow> parents_first es (order @ [c])"
  unfolding parents_first_def
proof (intro allI impI)
  fix xs d ys p
  assume r: "\<forall>xs c ys. order = xs @ c # ys \<longrightarrow> (\<forall>p. (p, c) \<in> set es \<longrightarrow> p \<in> set xs)"
    and new: "\<And>p. (p, c) \<in> set es \<Longrightarrow> p \<in> set order"
    and eq: "order @ [c] = xs @ d # ys" and e: "(p, d) \<in> set es"
  show "p \<in> set xs"
  proof (cases ys rule: rev_cases)
    case Nil
    then show ?thesis using eq e new by simp
  next
    case (snoc zs z)
    then have "order = xs @ d # zs" using eq by (simp add: append_eq_append_conv2)
    with r e show ?thesis by blast
  qed
qed

definition kahn_inv :: "string list \<Rightarrow> edge list \<Rightarrow> string list \<Rightarrow> (string, int) dict \<Rightarrow> string list \<Rightarrow> bool" where
  "kahn_inv ids es queue indeg order \<longleftrightarrow>
     distinct (order @ queue) \<and> set (order @ queue) \<subseteq> set ids \<and> parents_first es order \<and>
     (\<forall>v \<in> set ids. dict_get indeg v 0 = indegree_in es (set order) v) \<and>
     (\<forall>v \<in> set ids. v \<in> set (order @ queue) \<longleftrightarrow> indegree_in es (set order) v = 0)"

lemma indegree_zero: "indegree_in es gone v = 0 \<longleftrightarrow> (\<forall>p. (p, v) \<in> set es \<longrightarrow> p \<in> gone)"
  by (auto simp: indegree_in_def filter_empty_conv)

lemma indegree_remove:
  assumes "x \<notin> gone"
  shows "indegree_in es (insert x gone) v = indegree_in es gone v - int (count_list (children es x) v)"
  using assms by (induction es) (auto simp: indegree_in_def children_def split: prod.splits)

lemma kahn_step:
  assumes inv: "kahn_inv ids es (node # queue) indeg order" and edges: "\<forall>(p, c) \<in> set es. c \<in> set ids"
    and graph: "dict_get graph node [] = children es node"
  obtains queue' indeg' where "fold relax (dict_get graph node []) (queue, indeg) = (queue', indeg')"
    "kahn_inv ids es queue' indeg' (order @ [node])"
proof -
  let ?cs = "children es node"
  have node: "node \<notin> set order" "node \<in> set ids" "indegree_in es (set order) node = 0"
    and deg: "\<And>v. v \<in> set ids \<Longrightarrow> dict_get indeg v 0 = indegree_in es (set order) v"
    using inv by (auto simp: kahn_inv_def)
  have cs: "v \<in> set ids" if "v \<in> set ?cs" for v using that edges by (auto simp: children_def)
  have rem: "indegree_in es (set (order @ [node])) v = indegree_in es (set order) v - int (count_list ?cs v)" for v
    using indegree_remove [OF node(1), of es v] by simp
  have nonneg: "0 \<le> indegree_in es (set (order @ [node])) v" for v by (simp add: indegree_in_def)
  have "int (count_list ?cs v) \<le> dict_get indeg v 0" if "v \<in> set ?cs" for v
    using deg [OF cs [OF that]] rem [of v] nonneg [of v] by simp
  from relax_fold [OF this, of queue] obtain new indeg' where new:
    "fold relax ?cs (queue, indeg) = (queue @ new, indeg')" "distinct new"
    "set new = zero_after (\<lambda>v. dict_get indeg v 0) ?cs"
    "\<forall>v. dict_get indeg' v 0 = dict_get indeg v 0 - int (count_list ?cs v)" by blast
  have new_iff: "v \<in> set new \<longleftrightarrow> v \<in> set ?cs \<and> indegree_in es (set (order @ [node])) v = 0" for v
    using deg [OF cs, of v] rem [of v] by (auto simp: new(3) zero_after_def)
  have old_iff: "v \<in> set (order @ node # queue) \<longleftrightarrow> indegree_in es (set order) v = 0" if "v \<in> set ids" for v
    using inv that by (simp add: kahn_inv_def)
  have fresh: "v \<notin> set (order @ node # queue)" if "v \<in> set new" for v
  proof
    assume "v \<in> set (order @ node # queue)"
    moreover have v: "v \<in> set ?cs" "indegree_in es (set (order @ [node])) v = 0" using that new_iff by auto
    ultimately have "indegree_in es (set order) v = 0" using old_iff cs by blast
    moreover have "count_list ?cs v \<noteq> 0" using v(1) by (simp add: count_list_0_iff)
    ultimately show False using rem [of v] v(2) by simp
  qed
  have "kahn_inv ids es (queue @ new) indeg' (order @ [node])" unfolding kahn_inv_def
  proof (intro conjI ballI)
    show "distinct ((order @ [node]) @ queue @ new)" using inv new(2) fresh by (auto simp: kahn_inv_def)
    show "set ((order @ [node]) @ queue @ new) \<subseteq> set ids" using inv cs new_iff by (auto simp: kahn_inv_def)
    show "parents_first es (order @ [node])"
      using inv node(3) by (intro parents_first_snoc) (auto simp: kahn_inv_def indegree_zero)
    show "dict_get indeg' v 0 = indegree_in es (set (order @ [node])) v" if "v \<in> set ids" for v
      using new(4) deg [OF that] rem by simp
    show "v \<in> set ((order @ [node]) @ queue @ new) \<longleftrightarrow> indegree_in es (set (order @ [node])) v = 0" if "v \<in> set ids" for v
    proof
      assume "v \<in> set ((order @ [node]) @ queue @ new)"
      then consider "v \<in> set new" | "v \<in> set (order @ node # queue)" by auto
      then show "indegree_in es (set (order @ [node])) v = 0"
      proof cases
        case 2
        then have "indegree_in es (set order) v = 0" using old_iff [OF that] by simp
        then show ?thesis by (auto simp: indegree_zero)
      qed (simp add: new_iff)
    next
      assume zero: "indegree_in es (set (order @ [node])) v = 0"
      show "v \<in> set ((order @ [node]) @ queue @ new)"
      proof (cases "v \<in> set ?cs")
        case True
        then show ?thesis using zero new_iff by simp
      next
        case False
        then have "indegree_in es (set order) v = 0" using zero rem [of v] by (simp add: count_list_0_iff)
        then have "v \<in> set (order @ node # queue)" using old_iff [OF that] by simp
        then show ?thesis by auto
      qed
    qed
  qed
  with new(1) graph show thesis using that by simp
qed

lemma kahn_loop_correct:
  assumes "kahn_inv ids es queue indeg order" "\<forall>(p, c) \<in> set es. c \<in> set ids"
    and "\<And>p. p \<in> set ids \<Longrightarrow> dict_get graph p [] = children es p"
    and "card (set ids) \<le> fuel + length order"
  shows "\<exists>order' indeg'. kahn_loop fuel graph queue indeg order = Some order' \<and> kahn_inv ids es [] indeg' order'"
  using assms
proof (induction fuel graph queue indeg order rule: kahn_loop.induct)
  case (1 fuel graph indeg order)
  then show ?case by auto
next
  case (2 graph node queue indeg order)
  have "distinct (order @ node # queue)" "set (order @ node # queue) \<subseteq> set ids"
    using "2.prems"(1) by (simp_all add: kahn_inv_def)
  then have "length (order @ node # queue) \<le> card (set ids)"
    by (metis List.finite_set card_mono distinct_card)
  with "2.prems"(4) show ?case by simp
next
  case (3 fuel graph node queue indeg order)
  have node: "node \<in> set ids" using "3.prems"(1) by (simp add: kahn_inv_def)
  obtain queue' indeg' where step: "fold relax (dict_get graph node []) (queue, indeg) = (queue', indeg')"
    "kahn_inv ids es queue' indeg' (order @ [node])"
    by (rule kahn_step [OF "3.prems"(1,2) "3.prems"(3) [OF node]])
  have "\<exists>order' indeg''. kahn_loop fuel graph queue' indeg' (order @ [node]) = Some order' \<and> kahn_inv ids es [] indeg'' order'"
    using "3.IH" [OF step(1) [symmetric] step(2)] "3.prems" by simp
  then show ?case using step(1) by simp
qed

lemma toposort_run:
  obtains indeg order where "kahn_inv ids (live_edges ids edges) [] indeg order"
    "toposort ids edges = (if length order \<noteq> card (set ids) then Inl (ValueError ''cycle detected in DAG'') else Inr order)"
proof -
  let ?es = "live_edges ids edges"
  obtain graph indeg where b: "build_graph ids edges = (graph, indeg)" by fastforce
  have ok: "graph_ok ids edges (graph, indeg)" using build_graph_ok [of ids edges] b by simp
  then have dom: "fst ` set graph = set ids" "fst ` set indeg = set ids"
    unfolding graph_ok_def prod.case dom_map_of_conv_image_fst [symmetric] by (auto simp: dom_def)
  have len: "length graph = card (set ids)"
    using ok dom(1) by (metis (no_types, lifting) case_prodD distinct_card graph_ok_def length_map set_map)
  let ?q = "map fst (filter (\<lambda>(_, d). d = 0) indeg)"
  have q: "v \<in> set ?q \<longleftrightarrow> v \<in> set ids \<and> indegree_in ?es {} v = 0" for v
    using ok by (auto simp: graph_ok_def image_iff split: if_splits) (metis map_of_is_SomeI option.inject option.distinct(1) map_of_SomeD)+
  have inv: "kahn_inv ids ?es ?q indeg []"
    using ok q by (auto simp: kahn_inv_def graph_ok_def dict_get_def parents_first_def distinct_map_filter)
  have "\<exists>order indeg'. kahn_loop (length graph) graph ?q indeg [] = Some order \<and> kahn_inv ids ?es [] indeg' order"
    using ok len by (intro kahn_loop_correct [OF inv]) (auto simp: graph_ok_def dict_get_def live_edges_def)
  then obtain order indeg' where run: "kahn_loop (length graph) graph ?q indeg [] = Some order"
    "kahn_inv ids ?es [] indeg' order" by blast
  have "toposort ids edges = (if length order \<noteq> card (set ids) then Inl (ValueError ''cycle detected in DAG'') else Inr order)"
    using run(1) len by (simp add: toposort_def b Let_def)
  with run(2) show thesis by (rule that)
qed

section \<open>Correctness\<close>

lemma parents_first_acyclic:
  assumes "parents_first es order" "distinct order" "snd ` set es \<subseteq> set order"
  shows "acyclic (set es)"
proof -
  define pos where "pos v = length (takeWhile (\<lambda>x. x \<noteq> v) order)" for v
  have less: "pos p < pos c" if e: "(p, c) \<in> set es" for p c
  proof -
    have "c \<in> set order" using assms(3) e by force
    then obtain xs ys where o: "order = xs @ c # ys" by (auto simp: in_set_conv_decomp)
    then have p: "p \<in> set xs" using assms(1) e by (auto simp: parents_first_def)
    have "\<forall>x \<in> set xs. x \<noteq> c" using assms(2) o by auto
    then have "pos c = length xs" by (simp add: pos_def o takeWhile_append2)
    moreover have "pos p < length xs"
    proof -
      obtain as bs where "xs = as @ p # bs" "p \<notin> set as" using p by (meson split_list_first)
      then show ?thesis by (simp add: pos_def o takeWhile_append)
    qed
    ultimately show ?thesis by simp
  qed
  then have "set es \<subseteq> measure pos" by auto
  then show ?thesis using wf_measure wf_subset wf_acyclic by blast
qed

lemma toposort_outcome:
  "if acyclic (set (live_edges ids edges))
   then \<exists>order. toposort ids edges = Inr order \<and> distinct order \<and> set order = set ids \<and>
     parents_first (live_edges ids edges) order
   else toposort ids edges = Inl (ValueError ''cycle detected in DAG'')"
proof -
  let ?es = "live_edges ids edges"
  obtain indeg order where inv: "kahn_inv ids ?es [] indeg order"
    and run: "toposort ids edges = (if length order \<noteq> card (set ids) then Inl (ValueError ''cycle detected in DAG'') else Inr order)"
    by (rule toposort_run)
  have order: "distinct order" "set order \<subseteq> set ids" "parents_first ?es order"
    and zero: "\<And>v. v \<in> set ids \<Longrightarrow> v \<in> set order \<longleftrightarrow> indegree_in ?es (set order) v = 0"
    using inv by (simp_all add: kahn_inv_def)
  have full: "length order = card (set ids) \<longleftrightarrow> set order = set ids"
    using order(1,2) by (metis List.finite_set card_subset_eq distinct_card)
  have live: "p \<in> set ids \<and> c \<in> set ids" if "(p, c) \<in> set ?es" for p c using that by (auto simp: live_edges_def)
  show ?thesis
  proof (cases "acyclic (set ?es)")
    case True
    have "set order = set ids"
    proof (rule ccontr)
      assume "set order \<noteq> set ids"
      then obtain u where u: "u \<in> set ids - set order" using order(2) by auto
      have "wf (set ?es)" using True by (intro finite_acyclic_wf) simp_all
      from wfE_min [OF this u] obtain v where v: "v \<in> set ids - set order" "\<And>p. (p, v) \<in> set ?es \<Longrightarrow> p \<notin> set ids - set order" by blast
      then have "\<forall>p. (p, v) \<in> set ?es \<longrightarrow> p \<in> set order" using live by blast
      then have "indegree_in ?es (set order) v = 0" by (simp add: indegree_zero)
      with zero [of v] v(1) show False by blast
    qed
    with True run order full show ?thesis by simp
  next
    case False
    have "set order \<noteq> set ids"
    proof
      assume "set order = set ids"
      then have "snd ` set ?es \<subseteq> set order" using live by force
      with parents_first_acyclic [OF order(3,1)] False show False by blast
    qed
    with False run full show ?thesis by simp
  qed
qed

text \<open>
  C9: the topological sort is Kahn's algorithm done right. On an acyclic graph it returns
  every event exactly once, parents before children (edges to unknown events are ignored); on
  a graph with a cycle it raises \<open>ValueError\<close>. It always terminates within one step per event.
\<close>

theorem toposort_correct:
  "if acyclic (set (live_edges ids edges))
   then \<exists>order. toposort ids edges = Inr order \<and> distinct order \<and> set order = set ids \<and>
     parents_first (live_edges ids edges) order
   else toposort ids edges = Inl (ValueError ''cycle detected in DAG'')"
  by (rule toposort_outcome)

end
