(* ===== verification/Storage.thy ===== *)
theory Storage
  imports Toposort Consensus
begin

text \<open>
  \<open>DAGStorage\<close> of \<open>mdrj/storage.py\<close>: the SQLite database of a node. The database is a record
  of its tables. The table \<open>events\<close> is the list of its rows in the order of insertion; its
  JSON columns hold text. A table with another primary key is a dictionary from the key to the
  rest of the row, and its JSON columns (\<open>path_meta\<close>, \<open>signatures_json\<close>, the incident
  payload, the membership snapshot) hold the decoded value, which the round trip of
  \<open>Json\<close> justifies. \<open>ORDER BY\<close> is a stable sort in insertion order, \<open>DESC\<close> its reversal, as
  the indexes on these columns are traversed. \<open>time.time()\<close> is the argument \<open>now\<close>. A \<open>with\<close>
  block is a transaction: when it raises, the database is unchanged.
\<close>

section \<open>Tables\<close>

record stored_row = event_row +
  r_created_at :: timestamp

record peer_row =
  pw_node_id :: "string option"
  pw_last_seen :: "timestamp option"
  pw_healthy :: bool
  pw_enabled :: bool
  pw_note :: "string option"
  pw_source :: "string option"
  pw_role :: "string option"
  pw_approval_status :: "string option"

record incident_row =
  in_payload :: json
  in_created_at :: timestamp
  in_updated_at :: timestamp

record checkpoint_row =
  ck_merkle_root :: string
  ck_members_snapshot_hash :: string
  ck_signatures :: "(string, string) dict"
  ck_status :: string
  ck_confirmed_at :: "timestamp option"
  ck_created_at :: timestamp

record skeleton_row =
  sk_cls :: string
  sk_parent_ids :: string
  sk_round_received :: "int option"
  sk_payload_hash :: string
  sk_archived_at :: timestamp

record user_row =
  us_password_hash :: string
  us_role :: string
  us_created_at :: timestamp

record metrics_row =
  mr_id :: nat
  mr_ts :: timestamp
  mr_snapshot :: string

record db =
  t_events :: "stored_row list"
  t_edges :: "edge list"
  t_envelopes :: "(string, hop list) dict"
  t_peers :: "(string, peer_row) dict"
  t_consensus_state :: "membership_snap option"
  t_incidents :: "(string, incident_row) dict"
  t_metrics_history :: "metrics_row list"
  t_checkpoints :: "(int, checkpoint_row) dict"
  t_event_skeletons :: "(string, skeleton_row) dict"
  t_users :: "(string, user_row) dict"

definition empty_db :: db where
  "empty_db = \<lparr>t_events = [], t_edges = [], t_envelopes = [], t_peers = [], t_consensus_state = None,
     t_incidents = [], t_metrics_history = [], t_checkpoints = [], t_event_skeletons = [], t_users = []\<rparr>"

text \<open>\<open>COALESCE\<close>, and the SQL functions on text.\<close>

abbreviation coalesce :: "'a option \<Rightarrow> 'a option \<Rightarrow> 'a option" where
  "coalesce \<equiv> first_some"

definition blank :: "string option \<Rightarrow> bool" where
  "blank v \<longleftrightarrow> dropWhile (\<lambda>c. c = CHR '' '') (opt_str v) = []"

definition sql_trim :: "string \<Rightarrow> string" where
  "sql_trim s = rev (dropWhile (\<lambda>c. c = CHR '' '') (rev (dropWhile (\<lambda>c. c = CHR '' '') s)))"

text \<open>SQLite's \<open>LOWER\<close> folds the ASCII letters only.\<close>

definition sql_lower :: "string \<Rightarrow> string" where
  "sql_lower s = map (\<lambda>c. if 65 \<le> (of_char c :: nat) \<and> (of_char c :: nat) \<le> 90
     then char_of (of_char c + 32 :: nat) else c) s"

section \<open>Migration of old databases\<close>

definition fix_peer_role :: "peer_row \<Rightarrow> peer_row" where
  "fix_peer_role p =
     (if blank (pw_role p) \<or> sql_lower (sql_trim (opt_str (pw_role p))) \<notin> {''node'', ''responder''}
      then p\<lparr>pw_role := Some ''node''\<rparr> else p)"

definition fix_peer_approval :: "peer_row \<Rightarrow> peer_row" where
  "fix_peer_approval p = (if blank (pw_approval_status p) then p\<lparr>pw_approval_status := Some ''approved''\<rparr> else p)"

definition ensure_peers_schema :: "db \<Rightarrow> db" where
  "ensure_peers_schema d =
     d\<lparr>t_peers := map (\<lambda>(a, p). (a, fix_peer_approval (fix_peer_role p))) (t_peers d)\<rparr>"

definition fix_fame_kind :: "stored_row \<Rightarrow> stored_row" where
  "fix_fame_kind r =
     (if blank (r_fame_decision_kind r) \<or>
         sql_lower (sql_trim (opt_str (r_fame_decision_kind r))) \<notin> {''pending'', ''vote'', ''coin_surrogate''}
      then r\<lparr>r_fame_decision_kind := Some ''pending''\<rparr> else r)"

definition fix_creator :: "stored_row \<Rightarrow> stored_row" where
  "fix_creator r = (if blank (r_creator r) then r\<lparr>r_creator := Some (r_source r)\<rparr> else r)"

text \<open>\<open>json_extract(parents, '$[i]')\<close> on a column that holds a list of text.\<close>

definition json_extract_nth :: "pylib \<Rightarrow> string \<Rightarrow> nat \<Rightarrow> string option" where
  "json_extract_nth L txt i =
     (case json_loads (floats L) txt of
        Some j \<Rightarrow> (case json_strs j of Inr ps \<Rightarrow> nth_opt ps i | Inl _ \<Rightarrow> None)
      | None \<Rightarrow> None)"

definition fix_parents :: "pylib \<Rightarrow> stored_row \<Rightarrow> stored_row" where
  "fix_parents L r =
     r\<lparr>r_self_parent_id := coalesce (r_self_parent_id r) (json_extract_nth L (r_parents r) 0),
       r_other_parent_id := coalesce (r_other_parent_id r) (json_extract_nth L (r_parents r) 1)\<rparr>"

definition ensure_events_schema :: "pylib \<Rightarrow> db \<Rightarrow> db" where
  "ensure_events_schema L d =
     d\<lparr>t_events := map (\<lambda>r. fix_parents L (fix_creator (fix_fame_kind r))) (t_events d)\<rparr>"

section \<open>Events\<close>

definition clear_events :: "db \<Rightarrow> db" where
  "clear_events d = d\<lparr>t_events := [], t_envelopes := [], t_edges := [], t_incidents := [],
     t_metrics_history := [], t_checkpoints := [], t_event_skeletons := []\<rparr>"

definition hop_key :: "hop \<Rightarrow> string option \<times> timestamp option" where
  "hop_key h = (hop_node h, hop_ts h)"

fun add_hops :: "hop list \<Rightarrow> hop list \<Rightarrow> hop list" where
  "add_hops merged [] = merged"
| "add_hops merged (h # hs) =
     (if hop_key h \<in> hop_key ` set merged then add_hops merged hs else add_hops (merged @ [h]) hs)"

definition merge_path_meta :: "string \<Rightarrow> hop list \<Rightarrow> db \<Rightarrow> db" where
  "merge_path_meta event_id new_path d =
     (let merged = (case map_of (t_envelopes d) event_id of Some old \<Rightarrow> add_hops [] old | None \<Rightarrow> [])
      in d\<lparr>t_envelopes := AList.update event_id (add_hops merged new_path) (t_envelopes d)\<rparr>)"

definition has_event :: "db \<Rightarrow> string \<Rightarrow> bool" where
  "has_event d x \<longleftrightarrow> x \<in> r_id ` set (t_events d)"

definition update_rows :: "string \<Rightarrow> (stored_row \<Rightarrow> stored_row) \<Rightarrow> db \<Rightarrow> db" where
  "update_rows x f d = d\<lparr>t_events := map (\<lambda>r. if r_id r = x then f r else r) (t_events d)\<rparr>"

text \<open>The row \<open>INSERT\<close> writes: the columns of the fame decision keep their defaults.\<close>

definition new_row :: "pylib \<Rightarrow> event \<Rightarrow> timestamp option \<Rightarrow> timestamp \<Rightarrow> stored_row" where
  "new_row L e consensus_ts now =
     (let r = event_to_record L e
      in \<lparr>r_id = r_id r, r_cls = r_cls r, r_source = r_source r, r_creator = r_creator r,
          r_ts_local = r_ts_local r, r_vclock = r_vclock r, r_parents = r_parents r,
          r_self_parent_id = r_self_parent_id r, r_other_parent_id = r_other_parent_id r,
          r_payload = r_payload r, r_sig = r_sig r, r_consensus_ts = consensus_ts,
          r_lamport_ts = r_lamport_ts r, r_round = r_round r, r_round_received = r_round_received r,
          r_is_witness = r_is_witness r, r_is_famous_witness = 0, r_fame_decided = 0,
          r_fame_decision_round = None, r_fame_decision_kind = Some ''pending'', r_fame_needs_coin = 0,
          r_fame_coin_used = 0, r_fame_coin_round = None, r_fame_vote_round = None,
          r_fame_vote_yes = Some 0, r_fame_vote_no = Some 0, r_created_at = now\<rparr>)"

definition insert_edge :: "edge \<Rightarrow> edge list \<Rightarrow> edge list" where
  "insert_edge e es = (if e \<in> set es then es else es @ [e])"

definition coalesce_row :: "event \<Rightarrow> timestamp option \<Rightarrow> stored_row \<Rightarrow> stored_row" where
  "coalesce_row e consensus_ts r =
     r\<lparr>r_consensus_ts := coalesce (r_consensus_ts r) consensus_ts,
       r_creator := coalesce (r_creator r) (Some (ev_creator e)),
       r_self_parent_id := coalesce (r_self_parent_id r) (ev_self_parent_id e),
       r_other_parent_id := coalesce (r_other_parent_id r) (ev_other_parent_id e)\<rparr>"

definition store_envelope :: "pylib \<Rightarrow> timestamp \<Rightarrow> envelope \<Rightarrow> timestamp option \<Rightarrow> db \<Rightarrow> bool \<times> db" where
  "store_envelope L now env consensus_ts d =
     (let e = env_event env
      in if has_event d (ev_id e) then
           let d' = merge_path_meta (ev_id e) (env_path_meta env) d
           in (False, if consensus_ts = None then d' else update_rows (ev_id e) (coalesce_row e consensus_ts) d')
         else
           let d1 = d\<lparr>t_events := t_events d @ [new_row L e consensus_ts now],
                      t_edges := fold (\<lambda>p. insert_edge (p, ev_id e)) (ev_parents e) (t_edges d)\<rparr>
           in (True, merge_path_meta (ev_id e) (env_path_meta env) d1))"

definition state_row :: "consensus_state \<Rightarrow> stored_row \<Rightarrow> stored_row" where
  "state_row s r =
     r\<lparr>r_consensus_ts := cs_consensus_ts s, r_round := Some (cs_round s),
       r_round_received := cs_round_received s, r_is_witness := of_bool (cs_is_witness s),
       r_is_famous_witness := of_bool (cs_is_famous_witness s), r_fame_decided := of_bool (cs_fame_decided s),
       r_fame_decision_round := cs_fame_decision_round s,
       r_fame_decision_kind := Some (str_or (cs_fame_decision_kind s) ''pending''),
       r_fame_needs_coin := of_bool (cs_fame_needs_coin s), r_fame_coin_used := of_bool (cs_fame_coin_used s),
       r_fame_coin_round := cs_fame_coin_round s, r_fame_vote_round := cs_fame_vote_round s,
       r_fame_vote_yes := Some (cs_fame_vote_yes s), r_fame_vote_no := Some (cs_fame_vote_no s),
       r_creator := coalesce (r_creator r) (Some (cs_creator s)),
       r_self_parent_id := coalesce (r_self_parent_id r) (cs_self_parent_id s),
       r_other_parent_id := coalesce (r_other_parent_id r) (cs_other_parent_id s)\<rparr>"

definition replace_consensus_state :: "consensus_state list \<Rightarrow> db \<Rightarrow> db" where
  "replace_consensus_state states d = fold (\<lambda>s. update_rows (cs_event_id s) (state_row s)) states d"

definition select_row :: "db \<Rightarrow> string \<Rightarrow> stored_row option" where
  "select_row d x = List.find (\<lambda>r. r_id r = x) (t_events d)"

fun opt_event :: "pylib \<Rightarrow> stored_row option \<Rightarrow> event option result" where
  "opt_event L None = Inr None"
| "opt_event L (Some r) = res_bind (event_from_record L r) (\<lambda>e. Inr (Some e))"

definition get_event :: "pylib \<Rightarrow> db \<Rightarrow> string \<Rightarrow> event option result" where
  "get_event L d x = opt_event L (select_row d x)"

definition by_created :: "stored_row list \<Rightarrow> stored_row list" where
  "by_created rows = sort_key r_created_at rows"

definition head_opt :: "'a list \<Rightarrow> 'a option" where
  "head_opt xs = (case xs of [] \<Rightarrow> None | x # _ \<Rightarrow> Some x)"

definition latest_event_by_source :: "pylib \<Rightarrow> db \<Rightarrow> string \<Rightarrow> event option result" where
  "latest_event_by_source L d source =
     opt_event L (head_opt (rev (by_created (filter (\<lambda>r. r_source r = source) (t_events d)))))"

text \<open>\<open>LIMIT n\<close>: a negative limit means no limit.\<close>

definition sql_limit :: "int \<Rightarrow> 'a list \<Rightarrow> 'a list" where
  "sql_limit n xs = (if n < 0 then xs else take (nat n) xs)"

definition list_recent_events :: "pylib \<Rightarrow> db \<Rightarrow> int \<Rightarrow> event list result" where
  "list_recent_events L d n = res_map (event_from_record L) (sql_limit n (rev (by_created (t_events d))))"

definition get_envelope :: "pylib \<Rightarrow> db \<Rightarrow> string \<Rightarrow> envelope option result" where
  "get_envelope L d x =
     res_bind (get_event L d x) (\<lambda>e. case e of
        None \<Rightarrow> Inr None
      | Some event \<Rightarrow> Inr (Some \<lparr>env_event = event, env_path_meta = dict_get (t_envelopes d) x []\<rparr>))"

definition list_events :: "pylib \<Rightarrow> db \<Rightarrow> int \<Rightarrow> timestamp option \<Rightarrow> event list result" where
  "list_events L d n newer_than =
     res_map (event_from_record L) (sql_limit n (by_created (filter
       (\<lambda>r. case newer_than of None \<Rightarrow> True | Some t \<Rightarrow> t < r_created_at r) (t_events d))))"

definition all_events :: "pylib \<Rightarrow> db \<Rightarrow> event list result" where
  "all_events L d = res_map (event_from_record L) (by_created (t_events d))"

definition all_edges :: "db \<Rightarrow> edge list" where
  "all_edges d = t_edges d"

definition frontier_rows :: "db \<Rightarrow> stored_row list" where
  "frontier_rows d = filter (\<lambda>r. r_id r \<notin> fst ` set (t_edges d)) (t_events d)"

definition get_frontier :: "pylib \<Rightarrow> db \<Rightarrow> (string \<times> vclock) list result" where
  "get_frontier L d =
     res_map (\<lambda>r. case json_loads (floats L) (r_vclock r) of
        None \<Rightarrow> Inl (ValueError ''Expecting value'')
      | Some j \<Rightarrow> res_bind (json_clock j) (\<lambda>vc. Inr (r_id r, vc))) (frontier_rows d)"

definition subdag_since :: "pylib \<Rightarrow> db \<Rightarrow> timestamp \<Rightarrow> event list result" where
  "subdag_since L d ts =
     res_map (event_from_record L)
       (filter (\<lambda>r. ts \<le> the (coalesce (r_consensus_ts r) (Some (r_ts_local r)))) (t_events d))"

text \<open>The rows of \<open>SELECT id FROM events\<close> come in the order \<open>plan\<close> of the query planner.\<close>

definition db_toposort :: "(string list \<Rightarrow> string list) \<Rightarrow> db \<Rightarrow> string list result" where
  "db_toposort plan d = toposort (plan (map r_id (t_events d))) (t_edges d)"

definition event_count :: "db \<Rightarrow> nat" where
  "event_count d = length (t_events d)"

section \<open>Retention\<close>

record pruned_event =
  pr_id :: string
  pr_cls :: string
  pr_source :: string
  pr_creator :: "string option"
  pr_ts_local :: timestamp
  pr_vclock :: json
  pr_parents :: json
  pr_self_parent_id :: "string option"
  pr_other_parent_id :: "string option"
  pr_payload :: json
  pr_sig :: "string option"
  pr_consensus_ts :: "timestamp option"
  pr_lamport_ts :: "int option"
  pr_round :: "int option"
  pr_round_received :: "int option"
  pr_payload_hash :: string

definition loads :: "pylib \<Rightarrow> string \<Rightarrow> json result" where
  "loads L txt = (case json_loads (floats L) txt of Some j \<Rightarrow> Inr j | None \<Rightarrow> Inl (ValueError ''Expecting value''))"

definition prunable :: "int \<Rightarrow> timestamp \<Rightarrow> bool \<Rightarrow> stored_row \<Rightarrow> bool" where
  "prunable confirmed_round age_threshold keep_class_a r \<longleftrightarrow>
     (case r_round_received r of None \<Rightarrow> False | Some rr \<Rightarrow> rr \<le> confirmed_round) \<and>
     r_created_at r < age_threshold \<and> (keep_class_a \<longrightarrow> r_cls r \<noteq> ''A'')"

definition prune_record :: "pylib \<Rightarrow> stored_row \<Rightarrow> pruned_event result" where
  "prune_record L r =
     res_bind (loads L (r_vclock r)) (\<lambda>vclock.
     res_bind (loads L (r_parents r)) (\<lambda>parents.
     res_bind (loads L (r_payload r)) (\<lambda>payload.
     Inr \<lparr>pr_id = r_id r, pr_cls = r_cls r, pr_source = r_source r, pr_creator = r_creator r,
      pr_ts_local = r_ts_local r, pr_vclock = vclock, pr_parents = parents,
      pr_self_parent_id = r_self_parent_id r, pr_other_parent_id = r_other_parent_id r,
      pr_payload = payload, pr_sig = r_sig r, pr_consensus_ts = r_consensus_ts r,
      pr_lamport_ts = r_lamport_ts r, pr_round = r_round r, pr_round_received = r_round_received r,
      pr_payload_hash = sha256_hex L (r_payload r)\<rparr>)))"

definition skeleton_of :: "pylib \<Rightarrow> timestamp \<Rightarrow> stored_row \<Rightarrow> skeleton_row" where
  "skeleton_of L now r = \<lparr>sk_cls = r_cls r, sk_parent_ids = r_parents r, sk_round_received = r_round_received r,
     sk_payload_hash = sha256_hex L (r_payload r), sk_archived_at = now\<rparr>"

definition delete_event_rows :: "string \<Rightarrow> db \<Rightarrow> db" where
  "delete_event_rows x d = d\<lparr>t_events := filter (\<lambda>r. r_id r \<noteq> x) (t_events d),
     t_envelopes := AList.delete x (t_envelopes d)\<rparr>"

definition prune_row :: "pylib \<Rightarrow> timestamp \<Rightarrow> stored_row \<Rightarrow> db \<Rightarrow> db" where
  "prune_row L now r d = delete_event_rows (r_id r)
     (d\<lparr>t_event_skeletons := AList.update (r_id r) (skeleton_of L now r) (t_event_skeletons d)\<rparr>)"

definition prune_under_checkpoint :: "pylib \<Rightarrow> int \<Rightarrow> timestamp \<Rightarrow> bool \<Rightarrow> timestamp \<Rightarrow> db \<Rightarrow>
    (pruned_event list \<times> db) result" where
  "prune_under_checkpoint L confirmed_round max_age_seconds keep_class_a now d =
     (let rows = sort_key (\<lambda>r. the (r_round_received r)) (filter (prunable confirmed_round (now - max_age_seconds) keep_class_a) (t_events d))
      in res_bind (res_map (prune_record L) rows) (\<lambda>pruned. Inr (pruned, fold (prune_row L now) rows d)))"

definition payload_length :: "stored_row \<Rightarrow> int" where
  "payload_length r = int (length (r_payload r))"

fun gc_select :: "int \<Rightarrow> stored_row list \<Rightarrow> int \<Rightarrow> string list" where
  "gc_select target [] remaining = []"
| "gc_select target (r # rs) remaining =
     (if remaining \<le> target then [] else r_id r # gc_select target rs (remaining - payload_length r))"

definition gc_delete :: "string \<Rightarrow> db \<Rightarrow> db" where
  "gc_delete x d = (delete_event_rows x d)\<lparr>t_edges := filter (\<lambda>(p, c). c \<noteq> x \<and> p \<noteq> x) (t_edges d)\<rparr>"

definition payload_total :: "db \<Rightarrow> int" where
  "payload_total d = sum_list (map payload_length (t_events d))"

definition gc_by_quota :: "int \<Rightarrow> db \<Rightarrow> nat \<times> db" where
  "gc_by_quota memory_mb d =
     (let target_bytes = memory_mb * 1024 * 1024; current = payload_total d
      in if current \<le> target_bytes then (0, d)
         else let to_delete = gc_select target_bytes (by_created (t_events d)) current
              in (length to_delete, fold gc_delete to_delete d))"

definition storage_usage_bytes :: "db \<Rightarrow> int" where
  "storage_usage_bytes d =
     sum_list (map (\<lambda>r. int (length (r_payload r) + length (r_vclock r) + length (r_parents r))) (t_events d))"

section \<open>Metrics history\<close>

definition append_metrics_snapshot :: "timestamp \<Rightarrow> string \<Rightarrow> db \<Rightarrow> db" where
  "append_metrics_snapshot ts snapshot_json d =
     (let next_id = fold max (map mr_id (t_metrics_history d)) 0 + 1
      in d\<lparr>t_metrics_history := t_metrics_history d @ [\<lparr>mr_id = next_id, mr_ts = ts, mr_snapshot = snapshot_json\<rparr>]\<rparr>)"

definition list_metrics_history :: "pylib \<Rightarrow> db \<Rightarrow> int \<Rightarrow> timestamp \<Rightarrow> (timestamp \<times> json) list result" where
  "list_metrics_history L d n since_ts =
     res_map (\<lambda>r. res_bind (loads L (mr_snapshot r)) (\<lambda>j. Inr (mr_ts r, j)))
       (sql_limit n (sort_key mr_ts (filter (\<lambda>r. since_ts \<le> mr_ts r) (t_metrics_history d))))"

definition prune_metrics_history :: "int \<Rightarrow> db \<Rightarrow> nat \<times> db" where
  "prune_metrics_history keep_last d =
     (if keep_last \<le> 0 then (0, d)
      else let keep = map mr_id (take (nat keep_last) (rev (sort_key mr_ts (t_metrics_history d))));
               kept = filter (\<lambda>r. mr_id r \<in> set keep) (t_metrics_history d)
           in (length (t_metrics_history d) - length kept, d\<lparr>t_metrics_history := kept\<rparr>))"

section \<open>Incidents\<close>

definition list_incidents :: "db \<Rightarrow> json list" where
  "list_incidents d =
     filter (\<lambda>j. case j of JObj _ \<Rightarrow> True | _ \<Rightarrow> False)
       (map (in_payload \<circ> snd) (rev (sort_key (\<lambda>(_, i). (in_updated_at i, in_created_at i)) (t_incidents d))))"

text \<open>\<open>datetime.fromisoformat\<close> on the stripped text, after \<open>Z\<close> has been replaced, is the argument \<open>from_iso\<close>.\<close>

definition parse_iso :: "(string \<Rightarrow> timestamp option) \<Rightarrow> json \<Rightarrow> timestamp \<Rightarrow> timestamp" where
  "parse_iso from_iso value fallback =
     (case value of
        JStr s \<Rightarrow> (let text = py_strip s in if text = [] then fallback
                   else case from_iso text of Some t \<Rightarrow> t | None \<Rightarrow> fallback)
      | _ \<Rightarrow> fallback)"

definition incident_id :: "json \<Rightarrow> string" where
  "incident_id j = (case j of JObj kvs \<Rightarrow> (case jget kvs ''id'' of JStr s \<Rightarrow> py_strip s | _ \<Rightarrow> []) | _ \<Rightarrow> [])"

definition incident_row_of :: "(string \<Rightarrow> timestamp option) \<Rightarrow> timestamp \<Rightarrow> nat \<Rightarrow> json \<Rightarrow> incident_row" where
  "incident_row_of from_iso now index j =
     (let kvs = (case j of JObj kvs \<Rightarrow> kvs | _ \<Rightarrow> []);
          created_ts = parse_iso from_iso (jget kvs ''createdAt'') (now + of_nat index / 10000)
      in \<lparr>in_payload = j, in_created_at = created_ts,
          in_updated_at = parse_iso from_iso (jget kvs ''updatedAt'') created_ts\<rparr>)"

text \<open>A repeated identifier violates the primary key: \<open>sqlite3.IntegrityError\<close>, a \<open>ValueError\<close> here.\<close>

fun insert_incidents :: "(string \<times> incident_row) list \<Rightarrow> (string, incident_row) dict \<Rightarrow> (string, incident_row) dict result" where
  "insert_incidents [] t = Inr t"
| "insert_incidents ((x, i) # rest) t =
     (if x \<in> fst ` set t then Inl (ValueError ''UNIQUE constraint failed: incidents.id'')
      else insert_incidents rest (t @ [(x, i)]))"

definition replace_incidents :: "(string \<Rightarrow> timestamp option) \<Rightarrow> timestamp \<Rightarrow> json list \<Rightarrow> db \<Rightarrow> db result" where
  "replace_incidents from_iso now incidents d =
     res_bind (insert_incidents (List.map_filter (\<lambda>(index, j).
         if incident_id j = [] then None else Some (incident_id j, incident_row_of from_iso now index j))
       (enumerate 0 incidents)) []) (\<lambda>t. Inr (d\<lparr>t_incidents := t\<rparr>))"

section \<open>Users\<close>

definition upsert_user :: "timestamp \<Rightarrow> string \<Rightarrow> string \<Rightarrow> string \<Rightarrow> db \<Rightarrow> db" where
  "upsert_user now username password_hash role d =
     d\<lparr>t_users := AList.update username
        (case map_of (t_users d) username of
           Some u \<Rightarrow> u\<lparr>us_password_hash := password_hash, us_role := role\<rparr>
         | None \<Rightarrow> \<lparr>us_password_hash = password_hash, us_role = role, us_created_at = now\<rparr>) (t_users d)\<rparr>"

definition get_user :: "db \<Rightarrow> string \<Rightarrow> user_row option" where
  "get_user d username = map_of (t_users d) username"

definition list_users :: "db \<Rightarrow> (string \<times> string \<times> timestamp) list" where
  "list_users d = map (\<lambda>(n, u). (n, us_role u, us_created_at u)) (sort_key fst (t_users d))"

definition delete_user :: "string \<Rightarrow> db \<Rightarrow> bool \<times> db" where
  "delete_user username d =
     (map_of (t_users d) username \<noteq> None, d\<lparr>t_users := AList.delete username (t_users d)\<rparr>)"

definition users_count :: "db \<Rightarrow> nat" where
  "users_count d = length (t_users d)"

section \<open>Checkpoints and skeletons\<close>

definition upsert_checkpoint :: "timestamp \<Rightarrow> int \<Rightarrow> string \<Rightarrow> string \<Rightarrow> (string, string) dict \<Rightarrow> string \<Rightarrow>
    timestamp option \<Rightarrow> db \<Rightarrow> db" where
  "upsert_checkpoint now rr merkle_root members_hash signatures status confirmed_at d =
     d\<lparr>t_checkpoints := AList.update rr
        \<lparr>ck_merkle_root = merkle_root, ck_members_snapshot_hash = members_hash, ck_signatures = signatures,
         ck_status = status, ck_confirmed_at = confirmed_at,
         ck_created_at = (case map_of (t_checkpoints d) rr of Some c \<Rightarrow> ck_created_at c | None \<Rightarrow> now)\<rparr>
        (t_checkpoints d)\<rparr>"

definition get_checkpoint :: "db \<Rightarrow> int \<Rightarrow> checkpoint_row option" where
  "get_checkpoint d r = map_of (t_checkpoints d) r"

definition list_checkpoints :: "db \<Rightarrow> string option \<Rightarrow> int \<Rightarrow> (int \<times> checkpoint_row) list" where
  "list_checkpoints d status n =
     sql_limit n (rev (sort_key fst (filter (\<lambda>(_, c). case status of None \<Rightarrow> True | Some s \<Rightarrow> ck_status c = s)
       (t_checkpoints d))))"

definition latest_confirmed_checkpoint :: "db \<Rightarrow> (int \<times> checkpoint_row) option" where
  "latest_confirmed_checkpoint d = head_opt (list_checkpoints d (Some ''confirmed'') 1)"

definition add_event_skeleton :: "pylib \<Rightarrow> timestamp \<Rightarrow> string \<Rightarrow> string \<Rightarrow> string list \<Rightarrow> int option \<Rightarrow> string \<Rightarrow> db \<Rightarrow> db" where
  "add_event_skeleton L now event_id cls parent_ids rr payload_hash d =
     d\<lparr>t_event_skeletons := AList.update event_id
        \<lparr>sk_cls = cls, sk_parent_ids = canonical L (strs_json parent_ids), sk_round_received = rr,
         sk_payload_hash = payload_hash, sk_archived_at = now\<rparr> (t_event_skeletons d)\<rparr>"

definition list_event_skeletons :: "db \<Rightarrow> int \<Rightarrow> (string \<times> skeleton_row) list" where
  "list_event_skeletons d n = sql_limit n (sort_key (sk_archived_at \<circ> snd) (t_event_skeletons d))"

section \<open>Peers\<close>

definition upsert_peer :: "string \<Rightarrow> timestamp \<Rightarrow> bool \<Rightarrow> db \<Rightarrow> db" where
  "upsert_peer address last_seen healthy d =
     d\<lparr>t_peers := AList.update address
        (case map_of (t_peers d) address of
           Some p \<Rightarrow> p\<lparr>pw_last_seen := Some last_seen, pw_healthy := healthy\<rparr>
         | None \<Rightarrow> \<lparr>pw_node_id = Some [], pw_last_seen = Some last_seen, pw_healthy = healthy, pw_enabled = True,
             pw_note = Some [], pw_source = Some ''runtime'', pw_role = Some ''node'', pw_approval_status = Some ''approved''\<rparr>)
        (t_peers d)\<rparr>"

definition row_peer_info :: "string \<Rightarrow> peer_row \<Rightarrow> peer_info" where
  "row_peer_info address p =
     (let source = str_or (opt_str (pw_source p)) ''runtime''
      in \<lparr>pi_address = address, pi_node_id = opt_str (pw_node_id p), pi_last_seen = pw_last_seen p,
          pi_healthy = pw_healthy p, pi_enabled = pw_enabled p, pi_note = opt_str (pw_note p), pi_source = source,
          pi_role = normalize_node_role (Some (str_or (opt_str (pw_role p)) ''node'')), pi_is_self = (source = ''self''),
          pi_approval_status = normalize_approval_status (pw_approval_status p)\<rparr>)"

definition store_peer :: "peer_info \<Rightarrow> db \<Rightarrow> db" where
  "store_peer p d =
     d\<lparr>t_peers := AList.update (pi_address p)
        \<lparr>pw_node_id = Some (pi_node_id p), pw_last_seen = pi_last_seen p, pw_healthy = pi_healthy p,
         pw_enabled = pi_enabled p, pw_note = Some (pi_note p), pw_source = Some (pi_source p),
         pw_role = Some (pi_role p), pw_approval_status = Some (pi_approval_status p)\<rparr> (t_peers d)\<rparr>"

definition ensure_peer :: "string \<Rightarrow> string \<Rightarrow> timestamp option \<Rightarrow> bool \<Rightarrow> bool \<Rightarrow> string \<Rightarrow> string \<Rightarrow> string \<Rightarrow> string \<Rightarrow>
    db \<Rightarrow> peer_info \<times> db" where
  "ensure_peer address node_id last_seen healthy enabled note source role approval_status d =
     (let next_role = normalize_node_role (Some role); next_approval = normalize_approval_status (Some approval_status)
      in case map_of (t_peers d) address of
           Some old \<Rightarrow>
             (let merged_source = str_or (opt_str (pw_source old)) source;
                  p = \<lparr>pi_address = address, pi_node_id = str_or (opt_str (pw_node_id old)) node_id,
                       pi_last_seen = coalesce last_seen (pw_last_seen old), pi_healthy = healthy,
                       pi_enabled = pw_enabled old, pi_note = str_or (opt_str (pw_note old)) note,
                       pi_source = merged_source, pi_role = normalize_node_role (pw_role old),
                       pi_is_self = (merged_source = ''self''),
                       pi_approval_status = normalize_approval_status (pw_approval_status old)\<rparr>
              in (p, store_peer p d))
         | None \<Rightarrow>
             (let p = \<lparr>pi_address = address, pi_node_id = node_id, pi_last_seen = last_seen, pi_healthy = healthy,
                       pi_enabled = enabled, pi_note = note, pi_source = source, pi_role = next_role,
                       pi_is_self = (source = ''self''), pi_approval_status = next_approval\<rparr>
              in (p, store_peer p d)))"

definition update_peer :: "string \<Rightarrow> bool option \<Rightarrow> string option \<Rightarrow> timestamp option \<Rightarrow> bool option \<Rightarrow> string option \<Rightarrow>
    string option \<Rightarrow> string option \<Rightarrow> db \<Rightarrow> peer_info option \<times> db" where
  "update_peer address enabled note last_seen healthy role node_id approval_status d =
     (case map_of (t_peers d) address of
        None \<Rightarrow> (None, d)
      | Some old \<Rightarrow>
          (let next_source = str_or (opt_str (pw_source old)) ''runtime'';
               p = \<lparr>pi_address = address,
                    pi_node_id = (case node_id of None \<Rightarrow> opt_str (pw_node_id old) | Some n \<Rightarrow> n),
                    pi_last_seen = coalesce last_seen (pw_last_seen old),
                    pi_healthy = (case healthy of None \<Rightarrow> pw_healthy old | Some h \<Rightarrow> h),
                    pi_enabled = (case enabled of None \<Rightarrow> pw_enabled old | Some b \<Rightarrow> b),
                    pi_note = (case note of None \<Rightarrow> opt_str (pw_note old) | Some n \<Rightarrow> n),
                    pi_source = next_source,
                    pi_role = normalize_node_role (case role of None \<Rightarrow> pw_role old | Some r \<Rightarrow> Some r),
                    pi_is_self = (next_source = ''self''),
                    pi_approval_status = normalize_approval_status
                      (case approval_status of None \<Rightarrow> Some (str_or (opt_str (pw_approval_status old)) ''approved'')
                       | Some a \<Rightarrow> Some a)\<rparr>
           in (Some p, store_peer p d)))"

definition delete_peer :: "string \<Rightarrow> db \<Rightarrow> db" where
  "delete_peer address d = d\<lparr>t_peers := AList.delete address (t_peers d)\<rparr>"

definition list_peers :: "db \<Rightarrow> peer_info list" where
  "list_peers d = sort_key (\<lambda>p. (\<not> pi_is_self p, pi_address p)) (map (\<lambda>(a, p). row_peer_info a p) (t_peers d))"

section \<open>Membership snapshot\<close>

definition get_consensus_membership_snapshot :: "db \<Rightarrow> membership_snap option" where
  "get_consensus_membership_snapshot d = t_consensus_state d"

definition save_consensus_membership_snapshot :: "membership_snap \<Rightarrow> db \<Rightarrow> db" where
  "save_consensus_membership_snapshot snap d = d\<lparr>t_consensus_state := Some snap\<rparr>"

end
