(* ===== verification/StorageProps.thy ===== *)
theory StorageProps
  imports Storage
begin

text \<open>
  Correctness of the database operations: observation paths are merged as sets, a stored
  envelope is read back, pruning keeps its contract, garbage collection reaches its target,
  and every operation keeps the keys of the tables unique.
\<close>

section \<open>Observation paths\<close>

lemma add_hops_keys: "hop_key ` set (add_hops merged hs) = hop_key ` set merged \<union> hop_key ` set hs"
  by (induction merged hs rule: add_hops.induct) auto

lemma add_hops_distinct: "distinct (map hop_key merged) \<Longrightarrow> distinct (map hop_key (add_hops merged hs))"
  by (induction merged hs rule: add_hops.induct) auto

lemma add_hops_absorb: "hop_key ` set hs \<subseteq> hop_key ` set merged \<Longrightarrow> add_hops merged hs = merged"
  by (induction merged hs rule: add_hops.induct) auto

lemma add_hops_id: "distinct (map hop_key (merged @ hs)) \<Longrightarrow> add_hops merged hs = merged @ hs"
  by (induction merged hs rule: add_hops.induct) auto

lemma hop_key_inj: "hop_key h = hop_key h' \<Longrightarrow> h = h'"
  by (simp add: hop_key_def)

lemma hop_key_image_eq: "hop_key ` A = hop_key ` B \<longleftrightarrow> A = B"
  by (intro inj_image_eq_iff injI) (rule hop_key_inj)

lemma add_hops_set: "set (add_hops merged hs) = set merged \<union> set hs"
  using add_hops_keys [of merged hs] hop_key_image_eq by (simp only: image_Un [symmetric])

definition path_of :: "db \<Rightarrow> string \<Rightarrow> hop list" where
  "path_of d x = dict_get (t_envelopes d) x []"

lemma path_of_merge:
  "path_of (merge_path_meta x hs d) y = (if y = x then add_hops (add_hops [] (path_of d x)) hs else path_of d y)"
  by (simp add: merge_path_meta_def path_of_def dict_get_def Let_def split: option.splits)

lemma update_rows_frame [frame_simps, simp]:
  "t_edges (update_rows x f d) = t_edges d" "t_envelopes (update_rows x f d) = t_envelopes d"
  "path_of (update_rows x f d) = path_of d"
  by (simp_all add: update_rows_def path_of_def fun_eq_iff)

lemma merge_frame [frame_simps, simp]:
  "t_events (merge_path_meta x hs d) = t_events d" "t_edges (merge_path_meta x hs d) = t_edges d"
  by (simp_all add: merge_path_meta_def Let_def)

lemma path_of_store:
  "path_of (snd (store_envelope L now env ts d)) y =
     (if y = ev_id (env_event env) then add_hops (add_hops [] (path_of d y)) (env_path_meta env) else path_of d y)"
  by (auto simp: store_envelope_def Let_def path_of_merge) (simp_all add: path_of_def)

text \<open>
  The observation path of an event grows as a set. Receiving the same event over
  several routes, in any order and any number of times, leaves the set of all reported hops,
  each exactly once; no report is lost.
\<close>

theorem store_envelope_path:
  assumes "ev_id (env_event env) = x" "ev_id (env_event env') = x"
  shows "set (path_of (snd (store_envelope L now' env' ts' (snd (store_envelope L now env ts d)))) x) =
      set (path_of d x) \<union> set (env_path_meta env) \<union> set (env_path_meta env') \<and>
    distinct (path_of (snd (store_envelope L now env ts d)) x) \<and>
    set (path_of (snd (store_envelope L now' env' ts' (snd (store_envelope L now env ts d)))) x) =
      set (path_of (snd (store_envelope L now env ts (snd (store_envelope L now' env' ts' d)))) x)"
proof -
  have "distinct (map hop_key (add_hops (add_hops [] (path_of d x)) (env_path_meta env)))"
    by (intro add_hops_distinct) simp
  then have "distinct (add_hops (add_hops [] (path_of d x)) (env_path_meta env))" by (simp add: distinct_map)
  then show ?thesis using assms by (auto simp: path_of_store add_hops_set)
qed

section \<open>Reading back\<close>

lemma select_row_snoc:
  "select_row (d\<lparr>t_events := t_events d @ [r], t_edges := es\<rparr>) x =
     (case select_row d x of Some q \<Rightarrow> Some q | None \<Rightarrow> if r_id r = x then Some r else None)"
  by (simp add: select_row_def find_snoc)

lemma select_row_None: "select_row d x = None \<longleftrightarrow> \<not> has_event d x"
  by (auto simp: select_row_def has_event_def find_None_iff)

lemma select_row_merge [simp]: "select_row (merge_path_meta x hs d) y = select_row d y"
  by (simp add: select_row_def)

lemma find_map_id:
  assumes "\<And>r. r_id (f r) = r_id r"
  shows "List.find (\<lambda>r. r_id r = y) (map f rs) = map_option f (List.find (\<lambda>r. r_id r = y) rs)"
  by (induction rs) (simp_all add: assms)

lemma coalesce_row_id [simp]: "r_id (coalesce_row e ts r) = r_id r"
  by (simp add: coalesce_row_def)

lemma state_row_id [simp]: "r_id (state_row s r) = r_id r"
  by (simp add: state_row_def)

lemma select_update_rows:
  assumes "\<And>r. r_id (f r) = r_id r"
  shows "select_row (update_rows x f d) y = (if y = x then map_option f (select_row d y) else select_row d y)"
proof -
  have "select_row (update_rows x f d) y = map_option (\<lambda>r. if r_id r = x then f r else r) (select_row d y)"
    unfolding select_row_def update_rows_def by (simp add: find_map_id assms)
  moreover have "r_id r = y" if "select_row d y = Some r" for r
    using that by (auto simp: select_row_def find_Some_iff)
  ultimately show ?thesis by (cases "select_row d y") auto
qed

text \<open>The event as a new row holds it: the fame columns are not part of the insertion.\<close>

definition fresh_event :: "event \<Rightarrow> timestamp option \<Rightarrow> event" where
  "fresh_event e ts = (event_view e)\<lparr>ev_consensus_ts := ts, ev_is_famous_witness := False, ev_fame_decided := False,
     ev_fame_decision_round := None, ev_fame_decision_kind := ''pending'', ev_fame_needs_coin := False,
     ev_fame_coin_used := False, ev_fame_coin_round := None, ev_fame_vote_round := None,
     ev_fame_vote_yes := 0, ev_fame_vote_no := 0\<rparr>"

lemma event_from_new_row:
  assumes "codec_ok (floats L)" "event_ok e"
  shows "event_from_record L (new_row L e ts now) = Inr (fresh_event e ts)"
  using assms
  by (simp add: event_from_record_def new_row_def event_to_record_def event_ok_def load_canonical Let_def
      json_view_clock json_view_strs json_view_payload event_view_def fresh_event_def str_or_def
      del: json_view.simps wf_json.simps)

lemma new_row_id [simp]: "r_id (new_row L e ts now) = ev_id e"
  by (simp add: new_row_def event_to_record_def Let_def)

lemma store_new:
  "\<not> has_event d (ev_id (env_event env)) \<Longrightarrow> store_envelope L now env ts d =
     (True, merge_path_meta (ev_id (env_event env)) (env_path_meta env)
       (d\<lparr>t_events := t_events d @ [new_row L (env_event env) ts now],
          t_edges := fold (\<lambda>p. insert_edge (p, ev_id (env_event env))) (ev_parents (env_event env)) (t_edges d)\<rparr>))"
  by (simp add: store_envelope_def Let_def)

lemma get_envelope_cong:
  "select_row d y = select_row d' y \<Longrightarrow> dict_get (t_envelopes d) y [] = dict_get (t_envelopes d') y [] \<Longrightarrow>
   get_envelope L d y = get_envelope L d' y"
  by (simp only: get_envelope_def get_event_def)

lemma store_envelope_get:
  assumes "codec_ok (floats L)" "event_ok (env_event env)" "\<not> has_event d (ev_id (env_event env))"
    and "map_of (t_envelopes d) (ev_id (env_event env)) = None"
  shows "fst (store_envelope L now env ts d) \<and>
    get_envelope L (snd (store_envelope L now env ts d)) (ev_id (env_event env)) =
      Inr (Some \<lparr>env_event = fresh_event (env_event env) ts, env_path_meta = add_hops [] (env_path_meta env)\<rparr>) \<and>
    (\<forall>y. y \<noteq> ev_id (env_event env) \<longrightarrow>
      get_envelope L (snd (store_envelope L now env ts d)) y = get_envelope L d y)"
proof -
  let ?e = "env_event env" let ?d = "snd (store_envelope L now env ts d)"
  have row: "select_row ?d y = (if y = ev_id ?e then Some (new_row L ?e ts now) else select_row d y)" for y
    using assms(3) by (simp add: store_new select_row_snoc select_row_None [THEN iffD2] split: option.splits)
  have path: "dict_get (t_envelopes ?d) y [] = (if y = ev_id ?e then add_hops [] (env_path_meta env) else dict_get (t_envelopes d) y [])" for y
    using path_of_store [of L now env ts d y] assms(4) by (simp add: path_of_def dict_get_def)
  have "fst (store_envelope L now env ts d)" using assms(3) by (simp add: store_new)
  moreover have "get_envelope L ?d (ev_id ?e) =
      Inr (Some \<lparr>env_event = fresh_event ?e ts, env_path_meta = add_hops [] (env_path_meta env)\<rparr>)"
    by (simp add: get_envelope_def get_event_def row path event_from_new_row [OF assms(1,2)])
  moreover have "get_envelope L ?d y = get_envelope L d y" if "y \<noteq> ev_id ?e" for y
    by (rule get_envelope_cong) (simp_all only: row path that if_False)
  ultimately show ?thesis by blast
qed

text \<open>
  C11: storing a new envelope makes it readable and disturbs nothing else: the event comes
  back with every hashed field, the given consensus timestamp and undecided fame, its path is
  the given path without repetitions, and every other event reads as before.
\<close>

theorem store_then_get:
  assumes "codec_ok (floats L)" "event_ok (env_event env)" "\<not> has_event d (ev_id (env_event env))"
    and "map_of (t_envelopes d) (ev_id (env_event env)) = None"
  shows "fst (store_envelope L now env ts d) \<and>
    get_envelope L (snd (store_envelope L now env ts d)) (ev_id (env_event env)) =
      Inr (Some \<lparr>env_event = fresh_event (env_event env) ts, env_path_meta = add_hops [] (env_path_meta env)\<rparr>) \<and>
    (\<forall>y. y \<noteq> ev_id (env_event env) \<longrightarrow>
      get_envelope L (snd (store_envelope L now env ts d)) y = get_envelope L d y)"
  using assms by (rule store_envelope_get)

section \<open>Consensus columns\<close>

lemma replace_consensus_select:
  assumes "distinct (map cs_event_id states)"
  shows "select_row (replace_consensus_state states d) y =
    (case List.find (\<lambda>s. cs_event_id s = y) states of
       Some s \<Rightarrow> map_option (state_row s) (select_row d y) | None \<Rightarrow> select_row d y)"
  using assms
proof (induction states arbitrary: d)
  case (Cons s states)
  have none: "List.find (\<lambda>s'. cs_event_id s' = cs_event_id s) states = None"
    using Cons.prems by (auto simp: find_None_iff intro: rev_image_eqI)
  have "replace_consensus_state (s # states) d = replace_consensus_state states (update_rows (cs_event_id s) (state_row s) d)"
    by (simp add: replace_consensus_state_def)
  with Cons.IH [of "update_rows (cs_event_id s) (state_row s) d"] Cons.prems none show ?case
    by (auto simp: select_update_rows split: option.splits)
qed (simp add: replace_consensus_state_def)

section \<open>Pruning\<close>

lemma prune_fold_events:
  "t_events (fold (prune_row L now) rows d) = filter (\<lambda>r. r_id r \<notin> r_id ` set rows) (t_events d)"
  by (induction rows arbitrary: d) (auto simp: prune_row_def delete_event_rows_def conj_commute intro!: filter_cong)

lemma prune_fold_edges: "t_edges (fold (prune_row L now) rows d) = t_edges d"
  by (induction rows arbitrary: d) (simp_all add: prune_row_def delete_event_rows_def)

lemma prune_fold_skeletons:
  "t_event_skeletons (fold (prune_row L now) rows d) =
     fold (\<lambda>(k, v). AList.update k v) (map (\<lambda>r. (r_id r, skeleton_of L now r)) rows) (t_event_skeletons d)"
  by (induction rows arbitrary: d) (simp_all add: prune_row_def delete_event_rows_def)

lemma prune_fold_envelopes:
  "t_envelopes (fold (prune_row L now) rows d) = fold AList.delete (map r_id rows) (t_envelopes d)"
  by (induction rows arbitrary: d) (simp_all add: prune_row_def delete_event_rows_def)

lemma prune_record_id:
  "prune_record L r = Inr p \<Longrightarrow> pr_id p = r_id r \<and> pr_payload_hash p = sha256_hex L (r_payload r) \<and>
     json_loads (floats L) (r_payload r) = Some (pr_payload p)"
  by (auto simp: prune_record_def loads_def split: option.splits)

text \<open>
  C10: pruning under a confirmed checkpoint keeps its safety contract. Exactly the rows that
  are received no later than the confirmed round, older than the age limit and, if class A is
  kept, not of class A leave the table; every other row and all edges stay; each removed row
  leaves a skeleton with its class, parents, round and payload hash, and is handed to the
  caller with its payload.
\<close>

theorem prune_contract:
  assumes "distinct (map r_id (t_events d))" "prune_under_checkpoint L confirmed max_age keep_a now d = Inr (pruned, d')"
  defines "gone \<equiv> \<lambda>r. prunable confirmed (now - max_age) keep_a r"
  shows "t_events d' = filter (\<lambda>r. \<not> gone r) (t_events d) \<and> t_edges d' = t_edges d \<and>
    (\<forall>r \<in> set (t_events d). gone r \<longrightarrow>
       map_of (t_event_skeletons d') (r_id r) = Some (skeleton_of L now r) \<and> map_of (t_envelopes d') (r_id r) = None \<and>
       (\<exists>p \<in> set pruned. pr_id p = r_id r \<and> json_loads (floats L) (r_payload r) = Some (pr_payload p) \<and>
          pr_payload_hash p = sk_payload_hash (skeleton_of L now r))) \<and>
    mset (map pr_id pruned) = mset (map r_id (filter gone (t_events d)))"
proof -
  let ?rows = "sort_key (\<lambda>r. the (r_round_received r)) (filter gone (t_events d))"
  have run: "res_map (prune_record L) ?rows = Inr pruned" "d' = fold (prune_row L now) ?rows d"
    using assms(2) by (auto simp: prune_under_checkpoint_def gone_def Let_def)
  have inj: "inj_on r_id (set (t_events d))" using assms(1) by (simp add: distinct_map)
  have events: "t_events d' = filter (\<lambda>r. \<not> gone r) (t_events d)"
    unfolding run(2) prune_fold_events using inj by (intro filter_cong) (auto dest: inj_onD)
  have rel: "list_all2 (\<lambda>r p. prune_record L r = Inr p) ?rows pruned" using run(1) by (simp only: res_map_Inr_iff)
  have ids: "map pr_id pruned = map r_id ?rows"
    using rel by (induction rule: list_all2_induct) (auto dest: prune_record_id)
  have handed: "\<exists>p \<in> set pruned. prune_record L r = Inr p" if "r \<in> set ?rows" for r
    using rel that by (induction rule: list_all2_induct) auto
  have dist: "distinct (map fst (map (\<lambda>r. (r_id r, skeleton_of L now r)) ?rows))"
  proof -
    have "mset (map r_id ?rows) = mset (map r_id (filter gone (t_events d)))" by (simp only: mset_map mset_sort)
    then have "distinct (map r_id ?rows)"
      using distinct_map_filter [OF assms(1)] mset_eq_imp_distinct_iff by blast
    then show ?thesis by (simp add: comp_def)
  qed
  have "map_of (t_event_skeletons d') (r_id r) = Some (skeleton_of L now r)" if "r \<in> set (t_events d)" "gone r" for r
  proof -
    have "(r_id r, skeleton_of L now r) \<in> set (map (\<lambda>r. (r_id r, skeleton_of L now r)) ?rows)" using that by auto
    then have "map_of (rev (map (\<lambda>r. (r_id r, skeleton_of L now r)) ?rows)) (r_id r) = Some (skeleton_of L now r)"
      using dist by (simp add: map_of_rev_distinct del: set_map)
    then show ?thesis unfolding run(2) prune_fold_skeletons pydict.lookup_fold_update by simp
  qed
  moreover have "map_of (t_envelopes d') (r_id r) = None" if "r \<in> set (t_events d)" "gone r" for r
    unfolding run(2) prune_fold_envelopes pydict.lookup_fold_delete using that by simp
  moreover have "\<exists>p \<in> set pruned. pr_id p = r_id r \<and> json_loads (floats L) (r_payload r) = Some (pr_payload p) \<and>
          pr_payload_hash p = sk_payload_hash (skeleton_of L now r)" if gr: "r \<in> set (t_events d)" "gone r" for r
  proof -
    obtain p where p: "p \<in> set pruned" "prune_record L r = Inr p" using handed [of r] gr by auto
    from prune_record_id [OF p(2)] p(1) show ?thesis by (intro bexI [of _ p]) (simp_all add: skeleton_of_def)
  qed
  moreover have "mset (map pr_id pruned) = mset (map r_id (filter gone (t_events d)))"
    unfolding ids by (simp only: mset_map mset_sort)
  ultimately show ?thesis using events prune_fold_edges [of L now ?rows d] run(2) by simp
qed

section \<open>Garbage collection\<close>

lemma gc_select_prefix:
  "\<exists>k \<le> length rs. gc_select target rs t = map r_id (take k rs) \<and>
     (t - sum_list (map payload_length (take k rs)) \<le> target \<or> k = length rs)"
proof (induction rs arbitrary: t)
  case (Cons r rs)
  show ?case
  proof (cases "t \<le> target")
    case True
    then show ?thesis by (intro exI [of _ 0]) simp
  next
    case False
    from Cons.IH [of "t - payload_length r"] obtain k where "k \<le> length rs"
      "gc_select target rs (t - payload_length r) = map r_id (take k rs)"
      "t - payload_length r - sum_list (map payload_length (take k rs)) \<le> target \<or> k = length rs" by blast
    with False show ?thesis by (intro exI [of _ "Suc k"]) auto
  qed
qed simp

lemma gc_fold_events: "t_events (fold gc_delete xs d) = filter (\<lambda>r. r_id r \<notin> set xs) (t_events d)"
  by (induction xs arbitrary: d) (auto simp: gc_delete_def delete_event_rows_def conj_commute intro!: filter_cong)

lemma filter_out_prefix:
  "distinct (map f (xs @ ys)) \<Longrightarrow> filter (\<lambda>r. f r \<notin> f ` set xs) (xs @ ys) = ys"
  by (auto simp: filter_empty_conv filter_id_conv)

text \<open>
  Garbage collection reaches its target and removes the oldest events first: afterwards
  the payloads fit into the quota, the number returned is the number of rows removed, and no
  surviving event is older than a removed one.
\<close>

theorem gc_by_quota_correct:
  assumes "distinct (map r_id (t_events d))" "0 \<le> memory_mb" "gc_by_quota memory_mb d = (n, d')"
  shows "payload_total d' \<le> memory_mb * 1024 * 1024 \<and> event_count d' + n = event_count d \<and>
    set (t_events d') \<subseteq> set (t_events d) \<and>
    (\<forall>r \<in> set (t_events d) - set (t_events d'). \<forall>s \<in> set (t_events d'). r_created_at r \<le> r_created_at s)"
proof (cases "payload_total d \<le> memory_mb * 1024 * 1024")
  case True
  then show ?thesis using assms(3) by (simp add: gc_by_quota_def Let_def)
next
  case False
  let ?t = "memory_mb * 1024 * 1024" let ?rs = "by_created (t_events d)"
  obtain k where k: "k \<le> length ?rs" "gc_select ?t ?rs (payload_total d) = map r_id (take k ?rs)"
    "payload_total d - sum_list (map payload_length (take k ?rs)) \<le> ?t \<or> k = length ?rs"
    using gc_select_prefix by blast
  have d': "d' = fold gc_delete (map r_id (take k ?rs)) d" and n: "n = k"
    using assms(3) False k(1,2) by (auto simp: gc_by_quota_def Let_def)
  have perm: "mset ?rs = mset (t_events d)" by (simp add: by_created_def)
  have dist: "distinct (map r_id (take k ?rs @ drop k ?rs))"
    using assms(1) perm by (simp only: append_take_drop_id) (metis mset_map mset_eq_imp_distinct_iff)
  have ev: "t_events d' = filter (\<lambda>r. r_id r \<notin> r_id ` set (take k ?rs)) (t_events d)"
    unfolding d' gc_fold_events by simp
  have "filter (\<lambda>r. r_id r \<notin> r_id ` set (take k ?rs)) (take k ?rs @ drop k ?rs) = drop k ?rs"
    by (rule filter_out_prefix [OF dist])
  then have left: "mset (t_events d') = mset (drop k ?rs)"
    unfolding ev by (metis append_take_drop_id mset_filter perm)
  have total: "payload_total d = sum_list (map payload_length (take k ?rs)) + sum_list (map payload_length (drop k ?rs))"
  proof -
    have "payload_total d = sum_mset (image_mset payload_length (mset ?rs))"
      unfolding payload_total_def perm by (metis mset_map sum_mset_sum_list)
    also have "\<dots> = sum_list (map payload_length (take k ?rs @ drop k ?rs))"
      by (simp only: append_take_drop_id) (metis mset_map sum_mset_sum_list)
    finally show ?thesis by (simp only: map_append sum_list_append)
  qed
  have "payload_total d' = sum_list (map payload_length (drop k ?rs))"
    unfolding payload_total_def using left by (metis mset_map sum_mset_sum_list)
  then have "payload_total d' \<le> ?t" using total k(3) assms(2) by auto
  moreover have "event_count d' + n = event_count d"
    using left perm k(1) n unfolding event_count_def by (metis (no_types, lifting) length_drop le_add_diff_inverse2 size_mset)
  moreover have "set (t_events d') \<subseteq> set (t_events d)" unfolding ev by auto
  moreover have "r_created_at r \<le> r_created_at s" if "r \<in> set (t_events d) - set (t_events d')" "s \<in> set (t_events d')" for r s
  proof -
    have "set (t_events d') = set (drop k ?rs)" using left by (rule mset_eq_setD)
    moreover have "set (t_events d) = set (take k ?rs) \<union> set (drop k ?rs)"
      using mset_eq_setD [OF perm] by (metis append_take_drop_id set_append)
    ultimately have "r \<in> set (take k ?rs)" "s \<in> set (drop k ?rs)" using that by auto
    moreover have "sorted (map r_created_at (take k ?rs @ drop k ?rs))" by (simp add: by_created_def)
    ultimately show ?thesis by (simp only: map_append sorted_append set_map) blast
  qed
  ultimately show ?thesis by blast
qed

section \<open>Unique keys\<close>

definition db_ok :: "db \<Rightarrow> bool" where
  "db_ok d \<longleftrightarrow> distinct (map r_id (t_events d)) \<and> distinct (t_edges d) \<and>
     dict_ok (t_envelopes d) \<and> dict_ok (t_peers d) \<and> dict_ok (t_incidents d) \<and>
     dict_ok (t_checkpoints d) \<and> dict_ok (t_event_skeletons d) \<and> dict_ok (t_users d) \<and>
     (\<forall>r \<in> set (t_events d). map_of (t_envelopes d) (r_id r) \<noteq> None) \<and>
     (\<forall>(x, hops) \<in> set (t_envelopes d). distinct (map hop_key hops))"

text \<open>One operation on the database, with arguments of its own choice.\<close>

inductive db_step :: "pylib \<Rightarrow> db \<Rightarrow> db \<Rightarrow> bool" for L where
  step_store: "db_step L d (snd (store_envelope L now env ts d))"
| step_consensus: "db_step L d (replace_consensus_state states d)"
| step_clear: "db_step L d (clear_events d)"
| step_prune: "prune_under_checkpoint L r age keep now d = Inr (pruned, d') \<Longrightarrow> db_step L d d'"
| step_gc: "db_step L d (snd (gc_by_quota mb d))"
| step_metrics: "db_step L d (append_metrics_snapshot ts txt d)"
| step_prune_metrics: "db_step L d (snd (prune_metrics_history keep d))"
| step_incidents: "replace_incidents from_iso now js d = Inr d' \<Longrightarrow> db_step L d d'"
| step_user: "db_step L d (upsert_user now n h role d)"
| step_delete_user: "db_step L d (snd (delete_user n d))"
| step_checkpoint: "db_step L d (upsert_checkpoint now r mroot h sigs status c d)"
| step_skeleton: "db_step L d (add_event_skeleton L now x c ps rr h d)"
| step_peer: "db_step L d (upsert_peer a t h d)"
| step_ensure_peer: "db_step L d (snd (ensure_peer a n ls h en note src role ap d))"
| step_update_peer: "db_step L d (snd (update_peer a en note ls h role n ap d))"
| step_delete_peer: "db_step L d (delete_peer a d)"
| step_snapshot: "db_step L d (save_consensus_membership_snapshot snap d)"

lemma db_ok_cong:
  assumes "db_ok d" "map r_id (t_events d') = map r_id (t_events d)" "t_edges d' = t_edges d" "t_envelopes d' = t_envelopes d"
    "dict_ok (t_peers d')" "dict_ok (t_incidents d')" "dict_ok (t_checkpoints d')" "dict_ok (t_event_skeletons d')" "dict_ok (t_users d')"
  shows "db_ok d'"
proof -
  have "r_id ` set (t_events d') = r_id ` set (t_events d)" using arg_cong [OF assms(2), of set] by simp
  then have "\<forall>r \<in> set (t_events d'). map_of (t_envelopes d) (r_id r) \<noteq> None"
    using assms(1) unfolding db_ok_def by (metis image_iff)
  with assms show ?thesis unfolding db_ok_def by (simp only: simp_thms) blast
qed

lemma map_id_update: "(\<And>r. r_id (f r) = r_id r) \<Longrightarrow> map r_id (t_events (update_rows x f d)) = map r_id (t_events d)"
  by (simp add: update_rows_def comp_def)

lemma db_ok_update_rows:
  assumes "db_ok d" "\<And>r. r_id (f r) = r_id r"
  shows "db_ok (update_rows x f d)"
  by (rule db_ok_cong [OF assms(1) map_id_update [OF assms(2)]]) (use assms(1) in \<open>simp_all add: update_rows_def db_ok_def\<close>)

lemma db_ok_replace: "db_ok d \<Longrightarrow> db_ok (replace_consensus_state states d)"
  unfolding replace_consensus_state_def by (induction states arbitrary: d) (simp_all add: db_ok_update_rows)

lemma merge_entry:
  "t_envelopes (merge_path_meta x hs d) = AList.update x (add_hops (add_hops [] (path_of d x)) hs) (t_envelopes d)"
  by (simp add: merge_path_meta_def path_of_def dict_get_def Let_def split: option.splits)

lemma set_update_subset: "set (AList.update k v al) \<subseteq> insert (k, v) (set al)"
  by (induction al) auto

lemma merge_hops_ok:
  assumes "\<forall>(x, hops) \<in> set (t_envelopes d). distinct (map hop_key hops)"
  shows "\<forall>(y, hops) \<in> set (t_envelopes (merge_path_meta x hs d)). distinct (map hop_key hops)"
proof -
  have "distinct (map hop_key (add_hops (add_hops [] (path_of d x)) hs))" by (intro add_hops_distinct) simp
  with assms show ?thesis unfolding merge_entry using set_update_subset by fastforce
qed

lemma db_ok_merge:
  assumes "distinct (map r_id (t_events d))" "distinct (t_edges d)" "dict_ok (t_envelopes d)" "dict_ok (t_peers d)"
    "dict_ok (t_incidents d)" "dict_ok (t_checkpoints d)" "dict_ok (t_event_skeletons d)" "dict_ok (t_users d)"
    "\<forall>r \<in> set (t_events d). r_id r = x \<or> map_of (t_envelopes d) (r_id r) \<noteq> None"
    "\<forall>(x, hops) \<in> set (t_envelopes d). distinct (map hop_key hops)"
  shows "db_ok (merge_path_meta x hs d)"
proof -
  have "t_peers (merge_path_meta x hs d) = t_peers d" "t_incidents (merge_path_meta x hs d) = t_incidents d"
    "t_checkpoints (merge_path_meta x hs d) = t_checkpoints d"
    "t_event_skeletons (merge_path_meta x hs d) = t_event_skeletons d" "t_users (merge_path_meta x hs d) = t_users d"
    by (simp_all add: merge_path_meta_def Let_def)
  with assms merge_hops_ok [OF assms(10), of x hs] show ?thesis
    by (simp add: db_ok_def) (auto simp: merge_entry)
qed

lemma insert_edges_distinct: "distinct es \<Longrightarrow> distinct (fold (\<lambda>p. insert_edge (p, x)) ps es)"
  by (induction ps arbitrary: es) (simp_all add: insert_edge_def)

lemma db_ok_store: "db_ok d \<Longrightarrow> db_ok (snd (store_envelope L now env ts d))"
proof (cases "has_event d (ev_id (env_event env))")
  case True
  assume ok: "db_ok d"
  then have "db_ok (merge_path_meta (ev_id (env_event env)) (env_path_meta env) d)"
    by (intro db_ok_merge) (auto simp: db_ok_def)
  then show ?thesis using True by (simp add: store_envelope_def Let_def db_ok_update_rows)
next
  case False
  assume ok: "db_ok d"
  show ?thesis unfolding store_new [OF False] snd_conv
    by (rule db_ok_merge) (use ok False in \<open>auto simp: db_ok_def has_event_def insert_edges_distinct\<close>)
qed

lemma dict_ok_fold_update: "dict_ok t \<Longrightarrow> dict_ok (fold (\<lambda>(k, v). AList.update k v) kvs t)"
  by (rule pydict.invar_fold_update)

lemma set_fold_delete: "set (fold AList.delete ks t) \<subseteq> set t"
proof (induction ks arbitrary: t)
  case (Cons k ks)
  have "set (AList.delete k t) \<subseteq> set t" by (auto simp: AList.delete_eq)
  with Cons [of "AList.delete k t"] show ?case by simp
qed simp

lemma db_ok_subset:
  assumes "db_ok d" "distinct (map r_id (t_events d'))" "set (t_events d') \<subseteq> set (t_events d)"
    "distinct (t_edges d')" "dict_ok (t_envelopes d')" "set (t_envelopes d') \<subseteq> set (t_envelopes d)"
    "\<forall>r \<in> set (t_events d'). map_of (t_envelopes d') (r_id r) = map_of (t_envelopes d) (r_id r)"
    "t_peers d' = t_peers d" "t_incidents d' = t_incidents d" "t_checkpoints d' = t_checkpoints d"
    "dict_ok (t_event_skeletons d')" "t_users d' = t_users d"
  shows "db_ok d'"
proof -
  have "\<forall>r \<in> set (t_events d'). map_of (t_envelopes d') (r_id r) \<noteq> None"
    using assms(1,3,7) unfolding db_ok_def by (metis subsetD)
  moreover have "\<forall>(x, hops) \<in> set (t_envelopes d'). distinct (map hop_key hops)"
    using assms(1,6) unfolding db_ok_def by blast
  ultimately show ?thesis using assms by (simp add: db_ok_def)
qed

lemma prune_fold_other:
  "t_peers (fold (prune_row L now) rows d) = t_peers d" "t_incidents (fold (prune_row L now) rows d) = t_incidents d"
  "t_checkpoints (fold (prune_row L now) rows d) = t_checkpoints d" "t_users (fold (prune_row L now) rows d) = t_users d"
  by (induction rows arbitrary: d) (simp_all add: prune_row_def delete_event_rows_def)

lemma db_ok_prune: "db_ok d \<Longrightarrow> db_ok (fold (prune_row L now) rows d)"
proof (rule db_ok_subset)
  assume ok: "db_ok d"
  show "distinct (map r_id (t_events (fold (prune_row L now) rows d)))"
    using ok by (simp add: prune_fold_events db_ok_def distinct_map_filter)
  show "\<forall>r \<in> set (t_events (fold (prune_row L now) rows d)).
      map_of (t_envelopes (fold (prune_row L now) rows d)) (r_id r) = map_of (t_envelopes d) (r_id r)"
    by (auto simp: prune_fold_events prune_fold_envelopes pydict.lookup_fold_delete)
qed (auto simp: db_ok_def prune_fold_events prune_fold_edges prune_fold_envelopes prune_fold_skeletons prune_fold_other
    dict_ok_fold_delete dict_ok_fold_update dest: set_fold_delete [THEN subsetD] simp del: fold_map)

lemma gc_fold_other:
  "t_peers (fold gc_delete xs d) = t_peers d" "t_incidents (fold gc_delete xs d) = t_incidents d"
  "t_checkpoints (fold gc_delete xs d) = t_checkpoints d" "t_users (fold gc_delete xs d) = t_users d"
  "t_event_skeletons (fold gc_delete xs d) = t_event_skeletons d"
  "t_envelopes (fold gc_delete xs d) = fold AList.delete xs (t_envelopes d)"
  by (induction xs arbitrary: d) (simp_all add: gc_delete_def delete_event_rows_def)

lemma gc_fold_edges: "distinct (t_edges d) \<Longrightarrow> distinct (t_edges (fold gc_delete xs d))"
  by (induction xs arbitrary: d) (simp_all add: gc_delete_def delete_event_rows_def)

lemma db_ok_gc: "db_ok d \<Longrightarrow> db_ok (snd (gc_by_quota mb d))"
proof -
  assume ok: "db_ok d"
  have "db_ok (fold gc_delete xs d)" for xs
  proof (rule db_ok_subset [OF ok])
    show "distinct (map r_id (t_events (fold gc_delete xs d)))"
      using ok by (simp add: gc_fold_events db_ok_def distinct_map_filter)
    show "\<forall>r \<in> set (t_events (fold gc_delete xs d)).
        map_of (t_envelopes (fold gc_delete xs d)) (r_id r) = map_of (t_envelopes d) (r_id r)"
      by (auto simp: gc_fold_events gc_fold_other pydict.lookup_fold_delete)
  qed (use ok in \<open>auto simp: db_ok_def gc_fold_events gc_fold_edges gc_fold_other dict_ok_fold_delete
      dest: set_fold_delete [THEN subsetD]\<close>)
  with ok show ?thesis by (simp add: gc_by_quota_def Let_def)
qed

lemma insert_incidents_ok: "insert_incidents xs t = Inr t' \<Longrightarrow> dict_ok t \<Longrightarrow> dict_ok t'"
  by (induction xs t rule: insert_incidents.induct) (auto split: if_splits)

lemma db_ok_tables:
  assumes "db_ok d" "t_events d' = t_events d" "t_edges d' = t_edges d" "t_envelopes d' = t_envelopes d"
    "dict_ok (t_peers d')" "dict_ok (t_incidents d')" "dict_ok (t_checkpoints d')" "dict_ok (t_event_skeletons d')" "dict_ok (t_users d')"
  shows "db_ok d'"
  using assms by (intro db_ok_cong [OF assms(1)]) simp_all

lemma db_ok_store_peer:
  assumes "db_ok d"
  shows "db_ok (store_peer p d)"
  by (rule db_ok_tables [OF assms]) (use assms in \<open>auto simp: store_peer_def db_ok_def\<close>)

lemma db_ok_simple:
  assumes ok: "db_ok d"
  shows "db_ok (append_metrics_snapshot ts txt d)" "db_ok (snd (prune_metrics_history keep d))"
    "db_ok (upsert_user now n h role d)" "db_ok (snd (delete_user n d))"
    "db_ok (upsert_checkpoint now' r mroot mh sigs status c d)" "db_ok (add_event_skeleton L now'' x cl ps rr ph d)"
    "db_ok (upsert_peer a t healthy d)" "db_ok (delete_peer a d)" "db_ok (save_consensus_membership_snapshot snap d)"
  by (rule db_ok_tables [OF ok]; use ok in \<open>auto simp: append_metrics_snapshot_def prune_metrics_history_def
      upsert_user_def delete_user_def upsert_checkpoint_def add_event_skeleton_def upsert_peer_def delete_peer_def
      save_consensus_membership_snapshot_def db_ok_def Let_def\<close>)+

lemma db_ok_step: "db_step L d d' \<Longrightarrow> db_ok d \<Longrightarrow> db_ok d'"
proof (induction rule: db_step.induct)
  case (step_prune r age keep now d pruned d')
  then show ?case by (auto simp: prune_under_checkpoint_def Let_def db_ok_prune)
next
  case (step_incidents from_iso now js d d')
  then obtain t where t: "dict_ok t" "d' = d\<lparr>t_incidents := t\<rparr>"
    by (auto simp: replace_incidents_def dest: insert_incidents_ok)
  show ?case unfolding t(2) by (rule db_ok_tables [OF step_incidents.prems]) (use step_incidents.prems t(1) in \<open>auto simp: db_ok_def\<close>)
next
  case (step_ensure_peer d a n ls h en nt src role ap)
  then show ?case by (simp add: ensure_peer_def Let_def db_ok_store_peer split: option.splits)
next
  case (step_update_peer d a en nt ls h role n ap)
  then show ?case by (simp add: update_peer_def Let_def db_ok_store_peer split: option.splits)
next
  case (step_clear d)
  then show ?case by (simp add: clear_events_def db_ok_def)
qed (simp_all add: db_ok_store db_ok_replace db_ok_gc db_ok_simple)

interpretation database: invariant_system "\<lambda>d. d = empty_db" "db_step L" db_ok for L
proof
  show "d = empty_db \<Longrightarrow> db_ok d" for d by (simp add: empty_db_def db_ok_def)
  show "db_ok d \<Longrightarrow> db_step L d d' \<Longrightarrow> db_ok d'" for d d' by (rule db_ok_step)
qed

text \<open>
  C12: in every database the program can reach from an empty one, primary keys are unique in
  every table, every event has an observation path, and no path lists a hop twice.
\<close>

theorem reachable_db_ok:
  assumes "reachable (\<lambda>d. d = empty_db) (db_step L) d"
  shows "db_ok d"
  using assms by (rule database.reachable_inv)

section \<open>Concrete databases\<close>

definition demo_envelope :: envelope where
  "demo_envelope = \<lparr>env_event = demo_event, env_path_meta = [\<lparr>hop_node = Some ''n1'', hop_ts = Some 7\<rparr>]\<rparr>"

definition demo_db :: db where
  "demo_db = snd (store_envelope demo_lib 1 demo_envelope None empty_db)"

theorem reachable_db_ok_witness: "reachable (\<lambda>d. d = empty_db) (db_step demo_lib) demo_db \<and> db_ok demo_db"
proof -
  have "reachable (\<lambda>d. d = empty_db) (db_step demo_lib) demo_db"
    unfolding demo_db_def by (rule reach_step, rule reach_init, rule refl, rule step_store)
  with reachable_db_ok [OF this] show ?thesis by blast
qed

theorem store_envelope_path_witness:
  "set (path_of (snd (store_envelope demo_lib 2 demo_envelope None demo_db)) (ev_id demo_event)) =
     {\<lparr>hop_node = Some ''n1'', hop_ts = Some 7\<rparr>}"
  using store_envelope_path [of demo_envelope "ev_id demo_event" demo_envelope demo_lib 2 None 1 None empty_db]
  by (simp add: demo_envelope_def demo_db_def path_of_def empty_db_def dict_get_def)

theorem store_then_get_witness:
  "get_envelope demo_lib demo_db (ev_id demo_event) =
     Inr (Some \<lparr>env_event = fresh_event demo_event None, env_path_meta = [\<lparr>hop_node = Some ''n1'', hop_ts = Some 7\<rparr>]\<rparr>)"
  using store_then_get [of demo_lib demo_envelope empty_db 1 None]
  by (simp add: demo_db_def demo_envelope_def has_event_def empty_db_def)

lemma get_demo_envelope:
  "get_envelope demo_lib demo_db (ev_id demo_event) =
     Inr (Some \<lparr>env_event = fresh_event demo_event None, env_path_meta = [\<lparr>hop_node = Some ''n1'', hop_ts = Some 7\<rparr>]\<rparr>)"
  using store_envelope_get [of demo_lib demo_envelope empty_db 1 None]
  by (simp add: demo_db_def demo_envelope_def has_event_def empty_db_def)

definition aged_db :: db where
  "aged_db = empty_db\<lparr>t_events := [(new_row demo_lib demo_event None 1)\<lparr>r_round_received := Some 0\<rparr>]\<rparr>"

theorem prune_contract_witness:
  "\<exists>pruned d'. prune_under_checkpoint demo_lib 0 0 False 5 aged_db = Inr (pruned, d') \<and> t_events d' = []"
proof -
  let ?r = "(new_row demo_lib demo_event None 1)\<lparr>r_round_received := Some 0\<rparr>"
  have ok: "codec_ok (floats demo_lib)" "event_ok demo_event" by simp_all
  then have "\<exists>p. prune_record demo_lib ?r = Inr p"
    by (simp add: prune_record_def loads_def new_row_def event_to_record_def Let_def canonical_def event_ok_def
        loads_canonical del: wf_json.simps)
  then obtain pruned d' where run: "prune_under_checkpoint demo_lib 0 0 False 5 aged_db = Inr (pruned, d')"
    by (auto simp: prune_under_checkpoint_def aged_db_def prunable_def Let_def new_row_def)
  have "distinct (map r_id (t_events aged_db))" by (simp add: aged_db_def)
  from prune_contract [OF this run] run show ?thesis
    by (simp add: aged_db_def prunable_def new_row_def Let_def)
qed

theorem gc_by_quota_correct_witness:
  "\<exists>n d'. gc_by_quota 0 aged_db = (n, d') \<and> payload_total d' \<le> 0"
proof -
  obtain n d' where run: "gc_by_quota 0 aged_db = (n, d')" by fastforce
  have "distinct (map r_id (t_events aged_db))" by (simp add: aged_db_def)
  from gc_by_quota_correct [OF this _ run] run show ?thesis by simp
qed

end
