(* ===== verification/Prioritization.thy ===== *)
theory Prioritization
  imports Models "HOL-Library.Sublist"
begin

text \<open>
  \<open>Prioritizer\<close> of \<open>mdrj/prioritization.py\<close>: which of the pending envelopes go into the next
  gossip batch. The prioritizer's state (profile, gossip and prioritization settings) never
  changes, so it is an argument. An event's payload is a dictionary in this model, hence the
  test \<open>isinstance(payload, dict)\<close> is always true.
\<close>

definition THREAT_RANK :: "(string, int) dict" where
  "THREAT_RANK = [(''LOW'', 0), (''ELEV'', 1), (''HIGH'', 2)]"

record prioritizer =
  pz_profile :: node_profile
  pz_period_sec :: rat
  pz_level_threshold_B :: string
  pz_max_batch_bytes :: int

record batch_plan =
  bp_envelopes :: "envelope list"
  bp_total_bytes :: int
  bp_dropped :: nat
  bp_deferred :: "envelope list"

definition bandwidth_budget_bytes :: "prioritizer \<Rightarrow> int" where
  "bandwidth_budget_bytes p =
     (let bytes_per_sec = np_bw_kbps (pz_profile p) * 1000 div 8
      in max 1024 (rat_trunc (of_int bytes_per_sec * pz_period_sec p)))"

definition threshold_allows_b :: "prioritizer \<Rightarrow> bool" where
  "threshold_allows_b p =
     (dict_get THREAT_RANK (pz_level_threshold_B p) 1 \<le> dict_get THREAT_RANK (np_threat_level (pz_profile p)) 0)"

definition should_relay :: "prioritizer \<Rightarrow> EventClass \<Rightarrow> bool \<Rightarrow> bool \<Rightarrow> bool" where
  "should_relay p cls required_for_causality force =
     (if force then True
      else case cls of
        ClassA \<Rightarrow> True
      | ClassB \<Rightarrow> threshold_allows_b p \<or> required_for_causality
      | ClassC \<Rightarrow> required_for_causality)"

fun class_rank :: "EventClass \<Rightarrow> int" where
  "class_rank ClassA = 0"
| "class_rank ClassB = 1"
| "class_rank ClassC = 2"

definition batch_key :: "envelope \<Rightarrow> int \<times> timestamp" where
  "batch_key env = (class_rank (ev_cls (env_event env)), ev_ts_local (env_event env))"

definition is_genesis :: "event \<Rightarrow> bool" where
  "is_genesis e = json_truthy (jget (ev_payload e) ''genesis'')"

definition env_cost :: "pylib \<Rightarrow> envelope \<Rightarrow> int" where
  "env_cost L env = int (bytes_cost L (envelope_to_dict env))"

definition batch_limit :: "prioritizer \<Rightarrow> int" where
  "batch_limit p = min (bandwidth_budget_bytes p) (pz_max_batch_bytes p)"

definition plan_step :: "pylib \<Rightarrow> prioritizer \<Rightarrow> envelope \<Rightarrow> batch_plan \<times> string set \<Rightarrow> batch_plan \<times> string set" where
  "plan_step L p env = (\<lambda>(plan, required).
     let e = env_event env;
         is_required = ev_id e \<in> required \<or> set (ev_parents e) \<inter> required \<noteq> {} \<or> is_genesis e;
         force_flag = is_genesis e \<or> ev_cls e = ClassB
     in if \<not> should_relay p (ev_cls e) is_required force_flag
        then (plan\<lparr>bp_dropped := bp_dropped plan + 1\<rparr>, required)
        else if bp_total_bytes plan + env_cost L env > batch_limit p
        then (plan\<lparr>bp_deferred := bp_deferred plan @ [env]\<rparr>, required)
        else (plan\<lparr>bp_envelopes := bp_envelopes plan @ [env],
                   bp_total_bytes := bp_total_bytes plan + env_cost L env\<rparr>,
              required \<union> set (ev_parents e)))"

definition plan_batch :: "pylib \<Rightarrow> prioritizer \<Rightarrow> envelope list \<Rightarrow> string set \<Rightarrow> batch_plan" where
  "plan_batch L p envelopes required_events =
     fst (fold (plan_step L p) (sort_key batch_key envelopes)
       (\<lparr>bp_envelopes = [], bp_total_bytes = 0, bp_dropped = 0, bp_deferred = []\<rparr>, required_events))"

section \<open>What a plan contains\<close>

text \<open>An envelope no policy asks for: class C, not required by \<open>req\<close>, and not a genesis event.\<close>

definition expendable :: "string set \<Rightarrow> envelope \<Rightarrow> bool" where
  "expendable req env \<longleftrightarrow> ev_cls (env_event env) = ClassC \<and> \<not> is_genesis (env_event env) \<and>
     ev_id (env_event env) \<notin> req \<and> set (ev_parents (env_event env)) \<inter> req = {}"

definition costs :: "pylib \<Rightarrow> envelope list \<Rightarrow> int" where
  "costs L envs = sum_list (map (env_cost L) envs)"

text \<open>
  The invariant of the loop: \<open>scanned\<close> has been scanned and \<open>out\<close> is what was dropped from it.
\<close>

definition plan_inv :: "pylib \<Rightarrow> prioritizer \<Rightarrow> string set \<Rightarrow> envelope list \<Rightarrow> batch_plan \<times> string set \<Rightarrow> bool" where
  "plan_inv L p req scanned = (\<lambda>(plan, required).
     req \<subseteq> required \<and> bp_total_bytes plan = costs L (bp_envelopes plan) \<and>
     bp_total_bytes plan \<le> max 0 (batch_limit p) \<and>
     (\<exists>out. mset scanned = mset (bp_envelopes plan) + mset (bp_deferred plan) + mset out \<and>
        length out = bp_dropped plan \<and> (\<forall>env \<in> set out. expendable req env)) \<and>
     (\<forall>env \<in> set (bp_deferred plan). batch_limit p < bp_total_bytes plan + env_cost L env) \<and>
     subseq (bp_envelopes plan) scanned)"

lemma env_cost_nonneg [simp]: "0 \<le> env_cost L env"
  by (simp add: env_cost_def)

lemma costs_snoc [simp]: "costs L (envs @ [env]) = costs L envs + env_cost L env"
  by (simp add: costs_def)

lemma not_relayed_expendable:
  assumes "\<not> should_relay p (ev_cls e) (ev_id e \<in> req \<or> set (ev_parents e) \<inter> req \<noteq> {} \<or> is_genesis e)
     (is_genesis e \<or> ev_cls e = ClassB)" "e = env_event env" "req' \<subseteq> req"
  shows "expendable req' env"
  using assms by (cases "ev_cls e") (auto simp: should_relay_def expendable_def split: if_splits)

lemma plan_step_inv:
  assumes "plan_inv L p req scanned (plan, required)"
  shows "plan_inv L p req (scanned @ [env]) (plan_step L p env (plan, required))"
proof -
  let ?e = "env_event env"
  let ?relay = "should_relay p (ev_cls ?e) (ev_id ?e \<in> required \<or> set (ev_parents ?e) \<inter> required \<noteq> {} \<or> is_genesis ?e)
     (is_genesis ?e \<or> ev_cls ?e = ClassB)"
  from assms obtain out where sub: "req \<subseteq> required" and tot: "bp_total_bytes plan = costs L (bp_envelopes plan)"
    and le: "bp_total_bytes plan \<le> max 0 (batch_limit p)"
    and out: "mset scanned = mset (bp_envelopes plan) + mset (bp_deferred plan) + mset out"
      "length out = bp_dropped plan" "\<forall>env \<in> set out. expendable req env"
    and full: "\<forall>env \<in> set (bp_deferred plan). batch_limit p < bp_total_bytes plan + env_cost L env"
    and seq: "subseq (bp_envelopes plan) scanned"
    by (auto simp: plan_inv_def)
  consider (drop) "\<not> ?relay" | (wait) "?relay" "batch_limit p < bp_total_bytes plan + env_cost L env"
    | (take) "?relay" "\<not> batch_limit p < bp_total_bytes plan + env_cost L env" by blast
  then show ?thesis
  proof cases
    case drop
    then have "expendable req env" by (rule not_relayed_expendable) (use sub in auto)
    moreover have "plan_step L p env (plan, required) = (plan\<lparr>bp_dropped := bp_dropped plan + 1\<rparr>, required)"
      using drop by (simp add: plan_step_def Let_def)
    ultimately show ?thesis using sub tot le out full seq
      by (auto simp: plan_inv_def list_emb_append2 intro!: exI [of _ "env # out"])
  next
    case wait
    then have "plan_step L p env (plan, required) = (plan\<lparr>bp_deferred := bp_deferred plan @ [env]\<rparr>, required)"
      by (simp add: plan_step_def Let_def)
    then show ?thesis using wait sub tot le out full seq
      by (auto simp: plan_inv_def intro!: exI [of _ out])
  next
    case take
    then have "plan_step L p env (plan, required) =
       (plan\<lparr>bp_envelopes := bp_envelopes plan @ [env], bp_total_bytes := bp_total_bytes plan + env_cost L env\<rparr>,
        required \<union> set (ev_parents ?e))"
      by (simp add: plan_step_def Let_def)
    moreover have "batch_limit p < bp_total_bytes plan + env_cost L env + env_cost L f"
      if "f \<in> set (bp_deferred plan)" for f
      using bspec [OF full that] env_cost_nonneg [of L env] by linarith
    ultimately show ?thesis using take sub tot le out full seq
      by (auto simp: plan_inv_def intro!: exI [of _ out])
  qed
qed

lemma plan_loop_inv:
  assumes "plan_inv L p req scanned st"
  shows "plan_inv L p req (scanned @ envs) (fold (plan_step L p) envs st)"
  using assms
proof (induction envs arbitrary: scanned st)
  case Nil
  then show ?case by simp
next
  case (Cons env envs)
  have "plan_inv L p req (scanned @ [env]) (plan_step L p env st)"
    using plan_step_inv [of L p req scanned "fst st" "snd st"] Cons.prems by simp
  from Cons.IH [OF this] show ?case by simp
qed

lemma plan_batch_inv:
  "\<exists>required. plan_inv L p req (sort_key batch_key envs) (plan_batch L p envs req, required)"
proof -
  let ?st = "fold (plan_step L p) (sort_key batch_key envs)
       (\<lparr>bp_envelopes = [], bp_total_bytes = 0, bp_dropped = 0, bp_deferred = []\<rparr>, req)"
  have "plan_inv L p req [] (\<lparr>bp_envelopes = [], bp_total_bytes = 0, bp_dropped = 0, bp_deferred = []\<rparr>, req)"
    by (simp add: plan_inv_def costs_def)
  from plan_loop_inv [OF this, of "sort_key batch_key envs"]
  have "plan_inv L p req (sort_key batch_key envs) ?st" by simp
  moreover have "?st = (plan_batch L p envs req, snd ?st)" by (simp add: plan_batch_def)
  ultimately show ?thesis by metis
qed

text \<open>
  C26: a batch plan loses nothing that matters. Every envelope is accepted, deferred or
  counted as dropped, and a dropped one is of class C, is not a genesis event and neither it nor
  its parents were required; the accepted ones are in the order of class and local time, their
  total size is reported exactly and stays within the limit, and a deferred envelope really does
  not fit.
\<close>

theorem plan_batch_correct:
  fixes L p req and envs :: "envelope list"
  defines "plan \<equiv> plan_batch L p envs req"
  shows "(\<exists>out. mset envs = mset (bp_envelopes plan) + mset (bp_deferred plan) + mset out \<and>
       length out = bp_dropped plan \<and> list_all (expendable req) out) \<and>
     subseq (bp_envelopes plan) (sort_key batch_key envs) \<and>
     bp_total_bytes plan = (\<Sum>env \<leftarrow> bp_envelopes plan. env_cost L env) \<and>
     bp_total_bytes plan \<le> max 0 (batch_limit p) \<and>
     list_all (\<lambda>env. batch_limit p < bp_total_bytes plan + env_cost L env) (bp_deferred plan)"
proof -
  obtain required where "plan_inv L p req (sort_key batch_key envs) (plan, required)"
    using plan_batch_inv unfolding plan_def by blast
  then show ?thesis by (auto simp: plan_inv_def costs_def list_all_iff)
qed

end
