(* ===== verification/Metrics.thy ===== *)
theory Metrics
  imports Storage
begin

text \<open>
  \<open>MetricsEngine\<close> of \<open>mdrj/metrics.py\<close>. The engine's own state is the record
  \<open>metrics_engine\<close>. What the operating system reports is an argument of \<open>metrics_snapshot\<close>:
  \<open>db_size\<close> is the size of the database file, \<open>process\<close> the reading of \<open>psutil\<close> (none when the
  package is missing or the reading fails). Floats are rationals.
\<close>

section \<open>Engine\<close>

record metrics_engine =
  me_period_sec :: rat
  me_memory_bytes :: int
  me_bw_kbps :: int
  me_gossip_latencies :: "rat list"
  me_merge_quality :: rat
  me_last_batch_bytes :: int
  me_peer_health :: "peer_info list"
  me_quorum :: int
  me_gossip_bytes_in_total :: int
  me_gossip_bytes_out_total :: int
  me_emit_to_consensus_latencies :: "rat list"

record metrics_snap =
  ms_a_est :: rat
  ms_t_gossip :: rat
  ms_k_r :: rat
  ms_c_mem :: rat
  ms_c_net :: rat
  ms_event_count :: int
  ms_rss_bytes :: int
  ms_cpu_percent :: rat
  ms_db_size_bytes :: int
  ms_gossip_bytes_in_total :: int
  ms_gossip_bytes_out_total :: int
  ms_bytes_per_event :: rat
  ms_latency_p50_ms :: rat
  ms_latency_p95_ms :: rat

definition metrics_init :: "rat \<Rightarrow> int \<Rightarrow> int \<Rightarrow> metrics_engine" where
  "metrics_init period_sec memory_mb bw_kbps =
     \<lparr>me_period_sec = period_sec, me_memory_bytes = memory_mb * 1024 * 1024, me_bw_kbps = bw_kbps,
      me_gossip_latencies = [], me_merge_quality = 1, me_last_batch_bytes = 0, me_peer_health = [],
      me_quorum = 1, me_gossip_bytes_in_total = 0, me_gossip_bytes_out_total = 0,
      me_emit_to_consensus_latencies = []\<rparr>"

text \<open>\<open>values.append(x)\<close>, then \<open>values.pop(0)\<close> when there are more than \<open>n\<close> of them.\<close>

definition push_window :: "nat \<Rightarrow> 'a \<Rightarrow> 'a list \<Rightarrow> 'a list" where
  "push_window n x xs = (let ys = xs @ [x] in if n < length ys then tl ys else ys)"

definition record_gossip_latency :: "rat \<Rightarrow> metrics_engine \<Rightarrow> metrics_engine" where
  "record_gossip_latency latency m = m\<lparr>me_gossip_latencies := push_window 100 latency (me_gossip_latencies m)\<rparr>"

definition record_merge_quality :: "rat \<Rightarrow> metrics_engine \<Rightarrow> metrics_engine" where
  "record_merge_quality ratio m = m\<lparr>me_merge_quality := ratio\<rparr>"

definition record_batch_size :: "int \<Rightarrow> metrics_engine \<Rightarrow> metrics_engine" where
  "record_batch_size batch_bytes m = m\<lparr>me_last_batch_bytes := batch_bytes\<rparr>"

definition record_gossip_in_bytes :: "int \<Rightarrow> metrics_engine \<Rightarrow> metrics_engine" where
  "record_gossip_in_bytes n m = m\<lparr>me_gossip_bytes_in_total := me_gossip_bytes_in_total m + n\<rparr>"

definition record_gossip_out_bytes :: "int \<Rightarrow> metrics_engine \<Rightarrow> metrics_engine" where
  "record_gossip_out_bytes n m = m\<lparr>me_gossip_bytes_out_total := me_gossip_bytes_out_total m + n\<rparr>"

definition record_emit_to_consensus_latency :: "rat \<Rightarrow> metrics_engine \<Rightarrow> metrics_engine" where
  "record_emit_to_consensus_latency latency_sec m =
     m\<lparr>me_emit_to_consensus_latencies := push_window 1000 latency_sec (me_emit_to_consensus_latencies m)\<rparr>"

definition update_peer_health :: "peer_info list \<Rightarrow> int \<Rightarrow> metrics_engine \<Rightarrow> metrics_engine" where
  "update_peer_health peers quorum m = m\<lparr>me_peer_health := peers, me_quorum := max 1 quorum\<rparr>"

definition metrics_reset :: "metrics_engine \<Rightarrow> metrics_engine" where
  "metrics_reset m = m\<lparr>me_gossip_latencies := [], me_merge_quality := 1, me_last_batch_bytes := 0,
     me_gossip_bytes_in_total := 0, me_gossip_bytes_out_total := 0, me_emit_to_consensus_latencies := []\<rparr>"

definition availability_estimate :: "metrics_engine \<Rightarrow> rat" where
  "availability_estimate m =
     (if me_peer_health m = [] then 1
      else min 1 (of_nat (length (filter pi_healthy (me_peer_health m))) / of_int (max (me_quorum m) 1)))"

definition gossip_metric :: "metrics_engine \<Rightarrow> rat" where
  "gossip_metric m =
     (if me_gossip_latencies m = [] then me_period_sec m
      else sum_list (me_gossip_latencies m) / of_nat (length (me_gossip_latencies m)))"

definition network_budget_bytes :: "metrics_engine \<Rightarrow> int" where
  "network_budget_bytes m =
     (let bytes_per_sec = me_bw_kbps m * 1000 div 8
      in max 1024 (rat_trunc (of_int bytes_per_sec * me_period_sec m)))"

text \<open>\<open>round(x)\<close>: to the nearest integer, halves to the even one.\<close>

definition py_round :: "rat \<Rightarrow> int" where
  "py_round x =
     (let f = \<lfloor>x\<rfloor>; d = x - of_int f
      in if d < 1 / 2 then f else if 1 / 2 < d then f + 1 else if even f then f else f + 1)"

definition percentile :: "rat list \<Rightarrow> rat \<Rightarrow> rat" where
  "percentile values pct =
     (if values = [] then 0
      else let ordered = sort values
           in if length ordered = 1 then ordered ! 0
              else let index = max 0 (min (int (length ordered) - 1)
                         (py_round (pct / 100 * of_int (int (length ordered) - 1))))
                   in ordered ! nat index)"

definition metrics_snapshot :: "int \<Rightarrow> (int \<times> rat) option \<Rightarrow> db \<Rightarrow> metrics_engine \<Rightarrow> metrics_snap" where
  "metrics_snapshot db_size process d m =
     (let storage_bytes = storage_usage_bytes d;
          c_mem = (if me_memory_bytes m \<noteq> 0 then min 1 (of_int storage_bytes / of_int (me_memory_bytes m)) else 0);
          budget = network_budget_bytes m;
          c_net = (if budget \<noteq> 0 then min 1 (of_int (me_last_batch_bytes m) / of_int budget) else 0);
          event_count = int (event_count d);
          (rss, cpu) = (case process of None \<Rightarrow> (0, 0) | Some reading \<Rightarrow> reading);
          total_gossip_bytes = me_gossip_bytes_in_total m + me_gossip_bytes_out_total m;
          bytes_per_event = (if event_count > 0 then of_int total_gossip_bytes / of_int event_count else 0);
          latencies_ms = map (\<lambda>lat. lat * 1000) (me_emit_to_consensus_latencies m)
      in \<lparr>ms_a_est = availability_estimate m, ms_t_gossip = gossip_metric m, ms_k_r = me_merge_quality m,
          ms_c_mem = c_mem, ms_c_net = c_net, ms_event_count = event_count, ms_rss_bytes = rss,
          ms_cpu_percent = cpu, ms_db_size_bytes = db_size,
          ms_gossip_bytes_in_total = me_gossip_bytes_in_total m,
          ms_gossip_bytes_out_total = me_gossip_bytes_out_total m, ms_bytes_per_event = bytes_per_event,
          ms_latency_p50_ms = percentile latencies_ms 50, ms_latency_p95_ms = percentile latencies_ms 95\<rparr>)"

section \<open>Percentiles\<close>

lemma py_round_mono: "x \<le> y \<Longrightarrow> py_round x \<le> py_round y"
proof -
  assume le: "x \<le> y"
  have b: "\<lfloor>z\<rfloor> \<le> py_round z" "py_round z \<le> \<lfloor>z\<rfloor> + 1" for z :: rat
    by (auto simp: py_round_def Let_def)
  show ?thesis
  proof (cases "\<lfloor>x\<rfloor> = \<lfloor>y\<rfloor>")
    case True
    with le show ?thesis by (auto simp: py_round_def Let_def)
  next
    case False
    then have "\<lfloor>x\<rfloor> + 1 \<le> \<lfloor>y\<rfloor>" using floor_mono [OF le] by linarith
    with b(2) [of x] b(1) [of y] show ?thesis by linarith
  qed
qed

lemma py_round_of_int [simp]: "py_round (of_int i) = i"
  by (simp add: py_round_def Let_def)

definition rank_of :: "rat \<Rightarrow> nat \<Rightarrow> nat" where
  "rank_of pct n = nat (max 0 (min (int n - 1) (py_round (pct / 100 * of_int (int n - 1)))))"

lemma percentile_nth: "values \<noteq> [] \<Longrightarrow> percentile values pct = sort values ! rank_of pct (length values)"
  by (auto simp: percentile_def rank_of_def Let_def)

lemma rank_of_less: "0 < n \<Longrightarrow> rank_of pct n < n"
  by (auto simp: rank_of_def)

lemma rank_of_mono:
  assumes "0 < n" "p \<le> q"
  shows "rank_of p n \<le> rank_of q n"
proof -
  have "p / 100 * of_int (int n - 1) \<le> q / 100 * of_int (int n - 1)"
    using assms by (intro mult_right_mono) auto
  from py_round_mono [OF this] show ?thesis by (auto simp: rank_of_def)
qed

lemma percentile_in: "values \<noteq> [] \<Longrightarrow> percentile values pct \<in> set values"
  by (metis percentile_nth rank_of_less length_greater_0_conv length_sort nth_mem set_sort)

lemma percentile_mono: "p \<le> q \<Longrightarrow> percentile values p \<le> percentile values q"
proof (cases "values = []")
  case True
  then show ?thesis by (simp add: percentile_def)
next
  case False
  assume "p \<le> q"
  with False have "rank_of p (length values) \<le> rank_of q (length values)"
    and "rank_of q (length values) < length (sort values)"
    by (simp_all add: rank_of_mono rank_of_less)
  with False show ?thesis by (simp add: percentile_nth sorted_nth_mono)
qed

section \<open>Invariant\<close>

definition metrics_ok :: "metrics_engine \<Rightarrow> bool" where
  "metrics_ok m \<longleftrightarrow> length (me_gossip_latencies m) \<le> 100 \<and>
     length (me_emit_to_consensus_latencies m) \<le> 1000 \<and> 0 \<le> me_memory_bytes m \<and>
     0 \<le> me_last_batch_bytes m \<and> 1 \<le> me_quorum m \<and>
     0 \<le> me_gossip_bytes_in_total m \<and> 0 \<le> me_gossip_bytes_out_total m"

lemma push_window_length: "length xs \<le> n \<Longrightarrow> length (push_window n x xs) \<le> n"
  by (auto simp: push_window_def Let_def)

lemmas metrics_defs = record_gossip_latency_def record_merge_quality_def record_batch_size_def
  record_gossip_in_bytes_def record_gossip_out_bytes_def record_emit_to_consensus_latency_def
  update_peer_health_def metrics_reset_def

text \<open>The calls the node makes; sizes of batches and messages are lengths, hence not negative.\<close>

inductive metrics_step :: "metrics_engine \<Rightarrow> metrics_engine \<Rightarrow> bool" where
  "metrics_step m (record_gossip_latency t m)"
| "metrics_step m (record_merge_quality q m)"
| "0 \<le> n \<Longrightarrow> metrics_step m (record_batch_size n m)"
| "0 \<le> n \<Longrightarrow> metrics_step m (record_gossip_in_bytes n m)"
| "0 \<le> n \<Longrightarrow> metrics_step m (record_gossip_out_bytes n m)"
| "metrics_step m (record_emit_to_consensus_latency t m)"
| "metrics_step m (update_peer_health ps k m)"
| "metrics_step m (metrics_reset m)"

definition metrics_start :: "metrics_engine \<Rightarrow> bool" where
  "metrics_start m \<longleftrightarrow> (\<exists>period memory_mb bw. 0 \<le> memory_mb \<and> m = metrics_init period memory_mb bw)"

interpretation metrics: invariant_system metrics_start metrics_step metrics_ok
proof
  show "metrics_ok m" if "metrics_start m" for m
    using that by (auto simp: metrics_start_def metrics_init_def metrics_ok_def)
  show "metrics_ok m'" if "metrics_ok m" "metrics_step m m'" for m m'
    using that(2,1) by cases (auto simp: metrics_ok_def metrics_defs push_window_length)
qed

text \<open>
  However the engine was used since the node started, its two windows stay bounded, the
  availability and both load figures of a snapshot are fractions between 0 and 1, the traffic per
  event is not negative, and the median latency is at most the 95th percentile, each being one of
  the recorded latencies when there is any.
\<close>

theorem metrics_snapshot_bounds:
  assumes "reachable metrics_start metrics_step m"
  shows "length (me_gossip_latencies m) \<le> 100 \<and> length (me_emit_to_consensus_latencies m) \<le> 1000 \<and>
    ms_a_est (metrics_snapshot file_size process d m) \<in> {0..1} \<and>
    ms_c_mem (metrics_snapshot file_size process d m) \<in> {0..1} \<and>
    ms_c_net (metrics_snapshot file_size process d m) \<in> {0..1} \<and>
    0 \<le> ms_bytes_per_event (metrics_snapshot file_size process d m) \<and>
    ms_latency_p50_ms (metrics_snapshot file_size process d m) \<le> ms_latency_p95_ms (metrics_snapshot file_size process d m) \<and>
    (me_emit_to_consensus_latencies m \<noteq> [] \<longrightarrow>
      ms_latency_p95_ms (metrics_snapshot file_size process d m) \<in> (\<lambda>t. t * 1000) ` set (me_emit_to_consensus_latencies m))"
proof -
  have ok: "metrics_ok m" by (rule metrics.reachable_inv [OF assms])
  have usage: "0 \<le> storage_usage_bytes d"
    unfolding storage_usage_bytes_def by (rule sum_list_nonneg) auto
  have budget: "0 < network_budget_bytes m" by (simp add: network_budget_bytes_def Let_def)
  have "percentile (map (\<lambda>lat. lat * 1000) (me_emit_to_consensus_latencies m)) 95 \<in>
      (\<lambda>t. t * 1000) ` set (me_emit_to_consensus_latencies m)" if "me_emit_to_consensus_latencies m \<noteq> []"
    using percentile_in [of "map (\<lambda>lat. lat * 1000) (me_emit_to_consensus_latencies m)" 95] that by simp
  moreover have "0 \<le> availability_estimate m \<and> availability_estimate m \<le> 1"
    by (auto simp: availability_estimate_def)
  ultimately show ?thesis using ok usage budget
    by (auto simp: metrics_snapshot_def Let_def metrics_ok_def percentile_mono split: option.splits prod.splits)
qed

definition busy_metrics :: metrics_engine where
  "busy_metrics = record_emit_to_consensus_latency (1 / 4) (record_batch_size 512 (metrics_init 2 64 100))"

theorem metrics_snapshot_bounds_witness:
  "ms_c_net (metrics_snapshot 4096 None empty_db busy_metrics) \<in> {0..1} \<and>
   ms_latency_p95_ms (metrics_snapshot 4096 None empty_db busy_metrics) = 250"
proof -
  have "metrics_start (metrics_init 2 64 100)"
    unfolding metrics_start_def by (rule exI [of _ 2], rule exI [of _ 64], rule exI [of _ 100]) simp
  moreover have "metrics_step (metrics_init 2 64 100) (record_batch_size 512 (metrics_init 2 64 100))"
    by (rule metrics_step.intros) simp
  moreover have "metrics_step (record_batch_size 512 (metrics_init 2 64 100)) busy_metrics"
    unfolding busy_metrics_def by (rule metrics_step.intros)
  ultimately have r: "reachable metrics_start metrics_step busy_metrics"
    by (blast intro: reachable.intros)
  have lat: "me_emit_to_consensus_latencies busy_metrics = [1 / 4]"
    by (simp add: busy_metrics_def metrics_defs metrics_init_def push_window_def)
  with metrics_snapshot_bounds [OF r, of 4096 None empty_db] show ?thesis by simp
qed

end
