(* ===== verification/Gossip.thy ===== *)
theory Gossip
  imports Prioritization Metrics StorageProps
begin

text \<open>
  \<open>GossipEngine\<close> of \<open>mdrj/gossip.py\<close>. Its queue and the set of queued identifiers, the
  database and the metrics engine it writes to are the record \<open>gossip_state\<close>; its settings are
  \<open>gossip_engine\<close>. One tick reads the outside world through \<open>gossip_world\<close>: the clock, the
  random choice of peers, the answers to HTTP requests. The task management of \<open>start\<close>,
  \<open>stop\<close> and \<open>_loop\<close> (an asyncio task that sleeps between ticks) is not modelled; a run of the
  loop is a sequence of ticks interleaved with \<open>add_pending\<close> calls from other coroutines and
  with their changes of the database. A tick is one step; a call that arrives while it awaits an
  answer only appends to the queue, which the requests do not touch.
\<close>

section \<open>State\<close>

record gossip_engine =
  ge_node_id :: string
  ge_prioritizer :: prioritizer
  ge_fan_out :: int
  ge_hmac_key :: "string option"

record gossip_state =
  gs_pending :: "string list"
  gs_known_pending :: "string set"
  gs_db :: db
  gs_metrics :: metrics_engine

record gossip_stats =
  st_sent :: nat
  st_peers_contacted :: nat
  st_dropped :: nat

text \<open>An HTTP request fails, or has a status and a body that is JSON or not.\<close>

datatype http_answer = HttpFailed | HttpAnswer (http_status: nat) (http_json: bool)

record gossip_world =
  gw_hop_time :: "string \<Rightarrow> timestamp"
  gw_sample :: "peer_info list \<Rightarrow> nat \<Rightarrow> peer_info list"
  gw_post :: "string \<Rightarrow> string \<Rightarrow> (string, string) dict \<Rightarrow> http_answer"
  gw_now :: "string \<Rightarrow> timestamp"
  gw_latency :: rat

section \<open>The queue\<close>

definition add_pending :: "string \<Rightarrow> gossip_state \<Rightarrow> gossip_state" where
  "add_pending event_id s =
     (if event_id \<in> gs_known_pending s then s
      else s\<lparr>gs_known_pending := insert event_id (gs_known_pending s), gs_pending := gs_pending s @ [event_id]\<rparr>)"

definition requeue_envelopes :: "envelope list \<Rightarrow> gossip_state \<Rightarrow> gossip_state" where
  "requeue_envelopes envelopes s = fold (\<lambda>env. add_pending (ev_id (env_event env))) envelopes s"

text \<open>
  The loop of \<open>_collect_pending\<close> over the queue: an identifier leaves the queue before its
  envelope is read, so an error leaves the rest of the queue in place.
\<close>

fun collect_loop :: "pylib \<Rightarrow> gossip_engine \<Rightarrow> gossip_world \<Rightarrow> string list \<Rightarrow> gossip_state \<Rightarrow>
    (envelope list \<times> gossip_state) result" where
  "collect_loop L g w [] s = Inr ([], s\<lparr>gs_pending := []\<rparr>)"
| "collect_loop L g w (x # xs) s =
     (let s' = s\<lparr>gs_pending := xs, gs_known_pending := gs_known_pending s - {x}\<rparr>
      in res_bind (get_envelope L (gs_db s') x) (\<lambda>found.
         res_bind (collect_loop L g w xs s') (\<lambda>(envs, s'').
         Inr (case found of
                None \<Rightarrow> (envs, s'')
              | Some env \<Rightarrow> (add_hop (ge_node_id g) (gw_hop_time w x) env # envs, s'')))))"

definition collect_pending :: "pylib \<Rightarrow> gossip_engine \<Rightarrow> gossip_world \<Rightarrow> gossip_state \<Rightarrow>
    (envelope list \<times> gossip_state) result" where
  "collect_pending L g w s = collect_loop L g w (gs_pending s) s"

section \<open>Sending\<close>

definition gossip_item :: "envelope \<Rightarrow> json" where
  "gossip_item env =
     JObj [(''event'', JObj (AList.update ''consensus_ts'' (opt_json JFloat (ev_consensus_ts (env_event env)))
              (event_to_dict (env_event env)))),
           (''path_meta'', JList (map hop_json (env_path_meta env)))]"

definition gossip_request :: "pylib \<Rightarrow> gossip_engine \<Rightarrow> envelope list \<Rightarrow> string \<times> (string, string) dict" where
  "gossip_request L g envelopes = signed_request_body L (JList (map gossip_item envelopes)) (ge_hmac_key g)"

definition post_batch :: "pylib \<Rightarrow> gossip_engine \<Rightarrow> gossip_world \<Rightarrow> string \<Rightarrow> envelope list \<Rightarrow> http_answer" where
  "post_batch L g w address envelopes =
     (let (body, headers) = gossip_request L g envelopes
      in gw_post w (''http://'' @ address @ ''/event/batch'') body headers)"

definition send_to_peer :: "pylib \<Rightarrow> gossip_engine \<Rightarrow> gossip_world \<Rightarrow> string \<Rightarrow> envelope list \<Rightarrow> gossip_state \<Rightarrow>
    bool \<times> gossip_state" where
  "send_to_peer L g w address envelopes s =
     (let body = fst (gossip_request L g envelopes);
          unhealthy = s\<lparr>gs_db := upsert_peer address (gw_now w address) False (gs_db s)\<rparr>
      in case post_batch L g w address envelopes of
           HttpFailed \<Rightarrow> (False, unhealthy)
         | HttpAnswer status is_json \<Rightarrow>
             if status \<noteq> 200 \<or> \<not> is_json then (False, unhealthy)
             else (True, s\<lparr>gs_metrics := record_gossip_out_bytes (int (length body)) (gs_metrics s),
                           gs_db := upsert_peer address (gw_now w address) True (gs_db s)\<rparr>))"

fun send_loop :: "pylib \<Rightarrow> gossip_engine \<Rightarrow> gossip_world \<Rightarrow> envelope list \<Rightarrow> peer_info list \<Rightarrow> nat \<Rightarrow> gossip_state \<Rightarrow>
    nat \<times> gossip_state" where
  "send_loop L g w envelopes [] sent_total s = (sent_total, s)"
| "send_loop L g w envelopes (peer # peers) sent_total s =
     (let (ok, s') = send_to_peer L g w (pi_address peer) envelopes s
      in send_loop L g w envelopes peers (if ok then sent_total + length envelopes else sent_total) s')"

section \<open>One tick\<close>

definition tick_required :: "envelope list \<Rightarrow> string set" where
  "tick_required envelopes =
     fold (\<lambda>env required.
       if ev_cls (env_event env) \<in> {ClassA, ClassB}
       then insert (ev_id (env_event env)) required \<union> set (ev_parents (env_event env)) else required) envelopes {}"

definition tick_plan :: "pylib \<Rightarrow> gossip_engine \<Rightarrow> envelope list \<Rightarrow> batch_plan" where
  "tick_plan L g envelopes = plan_batch L (ge_prioritizer g) envelopes (tick_required envelopes)"

definition tick_deliver :: "pylib \<Rightarrow> gossip_engine \<Rightarrow> gossip_world \<Rightarrow> peer_info list \<Rightarrow> batch_plan \<Rightarrow> gossip_state \<Rightarrow>
    (gossip_stats \<times> gossip_state) result" where
  "tick_deliver L g w peers plan s =
     (if peers = [] then
        Inr (\<lparr>st_sent = 0, st_peers_contacted = 0, st_dropped = bp_dropped plan\<rparr>,
             requeue_envelopes (bp_envelopes plan) s)
      else if ge_fan_out g < 0 then Inl (ValueError ''Sample larger than population or is negative'')
      else
        let selected = gw_sample w peers (nat (min (ge_fan_out g) (int (length peers))));
            (sent_total, s1) = send_loop L g w (bp_envelopes plan) selected 0 s;
            s2 = (if sent_total = 0 then requeue_envelopes (bp_envelopes plan) s1 else s1)
        in Inr (\<lparr>st_sent = sent_total, st_peers_contacted = length selected, st_dropped = bp_dropped plan\<rparr>,
                s2\<lparr>gs_metrics := record_gossip_latency (gw_latency w) (gs_metrics s2)\<rparr>))"

definition tick :: "pylib \<Rightarrow> gossip_engine \<Rightarrow> gossip_world \<Rightarrow> (db \<Rightarrow> peer_info list) \<Rightarrow> gossip_state \<Rightarrow>
    (gossip_stats \<times> gossip_state) result" where
  "tick L g w peer_provider s =
     res_bind (collect_pending L g w s) (\<lambda>(envelopes, s1).
       if envelopes = [] then Inr (\<lparr>st_sent = 0, st_peers_contacted = 0, st_dropped = 0\<rparr>, s1)
       else
         let plan = tick_plan L g envelopes;
             s2 = (if bp_deferred plan \<noteq> [] then requeue_envelopes (bp_deferred plan) s1 else s1)
         in if bp_envelopes plan = []
            then Inr (\<lparr>st_sent = 0, st_peers_contacted = 0, st_dropped = bp_dropped plan\<rparr>, s2)
            else let s3 = s2\<lparr>gs_metrics := record_batch_size (bp_total_bytes plan) (gs_metrics s2)\<rparr>
                 in tick_deliver L g w (peer_provider (gs_db s3)) plan s3)"

section \<open>The queue never holds an identifier twice\<close>

definition gossip_ok :: "gossip_state \<Rightarrow> bool" where
  "gossip_ok s \<longleftrightarrow> distinct (gs_pending s) \<and> set (gs_pending s) = gs_known_pending s"

lemma add_pending_ok: "gossip_ok s \<Longrightarrow> gossip_ok (add_pending x s)"
  by (auto simp: gossip_ok_def add_pending_def)

lemma add_pending_set: "gossip_ok s \<Longrightarrow> set (gs_pending (add_pending x s)) = insert x (set (gs_pending s))"
  by (auto simp: gossip_ok_def add_pending_def)

lemma requeue_ok:
  "gossip_ok s \<Longrightarrow> gossip_ok (requeue_envelopes envs s) \<and>
   set (gs_pending (requeue_envelopes envs s)) = set (gs_pending s) \<union> (\<lambda>env. ev_id (env_event env)) ` set envs"
  unfolding requeue_envelopes_def
  by (induction envs arbitrary: s) (auto simp: add_pending_ok add_pending_set)

lemma collect_loop_ok:
  "collect_loop L g w xs s = Inr (envs, s') \<Longrightarrow> distinct xs \<Longrightarrow> gs_known_pending s = set xs \<Longrightarrow>
   gs_known_pending s' = {} \<and> gs_pending s' = []"
  by (induction xs arbitrary: s envs s') (fastforce simp: Let_def split: option.splits prod.splits)+

lemma collect_loop_frame:
  "collect_loop L g w xs s = Inr (envs, s') \<Longrightarrow> gs_db s' = gs_db s \<and> gs_metrics s' = gs_metrics s"
  by (induction xs arbitrary: s envs s') (fastforce simp: Let_def split: option.splits prod.splits)+

lemma collect_loop_finds:
  "collect_loop L g w xs s = Inr (envs, s') \<Longrightarrow> x \<in> set xs \<Longrightarrow> get_envelope L (gs_db s) x = Inr (Some env) \<Longrightarrow>
   add_hop (ge_node_id g) (gw_hop_time w x) env \<in> set envs"
  by (induction xs arbitrary: s envs s') (fastforce simp: Let_def split: option.splits prod.splits)+

lemma send_to_peer_frame:
  "send_to_peer L g w a envs s = (ok, s') \<Longrightarrow> gs_pending s' = gs_pending s \<and> gs_known_pending s' = gs_known_pending s"
  by (auto simp: send_to_peer_def Let_def split: http_answer.splits if_splits)

lemma send_to_peer_ok:
  "send_to_peer L g w a envs s = (True, s') \<Longrightarrow> post_batch L g w a envs = HttpAnswer 200 True"
  by (auto simp: send_to_peer_def Let_def split: http_answer.splits if_splits)

lemma send_loop_frame:
  "send_loop L g w envs ps n s = (m, s') \<Longrightarrow> gs_pending s' = gs_pending s \<and> gs_known_pending s' = gs_known_pending s"
  by (induction ps arbitrary: n s) (auto simp: Let_def split: prod.splits dest: send_to_peer_frame)

lemma send_loop_sent:
  "send_loop L g w envs ps n s = (m, s') \<Longrightarrow> m \<noteq> n \<Longrightarrow>
   \<exists>peer \<in> set ps. post_batch L g w (pi_address peer) envs = HttpAnswer 200 True"
proof (induction ps arbitrary: n s)
  case Nil
  then show ?case by simp
next
  case (Cons peer ps)
  obtain ok s1 where one: "send_to_peer L g w (pi_address peer) envs s = (ok, s1)" by fastforce
  show ?case
  proof (cases ok)
    case True
    with one send_to_peer_ok show ?thesis by fastforce
  next
    case False
    with Cons.prems one have "send_loop L g w envs ps n s1 = (m, s')" by (simp add: Let_def)
    from Cons.IH [OF this Cons.prems(2)] show ?thesis by auto
  qed
qed

lemma tick_deliver_ok:
  assumes "gossip_ok s" "tick_deliver L g w peers plan s = Inr (stats, s')"
  shows "gossip_ok s' \<and> set (gs_pending s) \<subseteq> set (gs_pending s') \<and>
    ((\<lambda>env. ev_id (env_event env)) ` set (bp_envelopes plan) \<subseteq> set (gs_pending s') \<or>
     (\<exists>peer \<in> set (gw_sample w peers (nat (min (ge_fan_out g) (int (length peers))))).
        post_batch L g w (pi_address peer) (bp_envelopes plan) = HttpAnswer 200 True))"
proof (cases "peers = []")
  case True
  with assms requeue_ok [OF assms(1), of "bp_envelopes plan"] show ?thesis
    by (auto simp: tick_deliver_def)
next
  case False
  let ?sel = "gw_sample w peers (nat (min (ge_fan_out g) (int (length peers))))"
  obtain n s1 where run: "send_loop L g w (bp_envelopes plan) ?sel 0 s = (n, s1)" by fastforce
  have s1: "gossip_ok s1" "gs_pending s1 = gs_pending s"
    using send_loop_frame [OF run] assms(1) by (simp_all add: gossip_ok_def)
  show ?thesis
  proof (cases "n = 0")
    case True
    with False assms(2) run have "s' = requeue_envelopes (bp_envelopes plan) s1
        \<lparr>gs_metrics := record_gossip_latency (gw_latency w) (gs_metrics (requeue_envelopes (bp_envelopes plan) s1))\<rparr>"
      by (auto simp: tick_deliver_def Let_def split: if_splits)
    with requeue_ok [OF s1(1), of "bp_envelopes plan"] s1(2) show ?thesis
      by (auto simp: gossip_ok_def)
  next
    case n: False
    with False assms(2) run have "s' = s1\<lparr>gs_metrics := record_gossip_latency (gw_latency w) (gs_metrics s1)\<rparr>"
      by (auto simp: tick_deliver_def Let_def split: if_splits)
    with send_loop_sent [OF run n] s1 show ?thesis by (auto simp: gossip_ok_def)
  qed
qed

lemma event_from_record_id: "event_from_record L r = Inr e \<Longrightarrow> ev_id e = r_id r"
  by (auto simp: event_from_record_def)

lemma get_envelope_id:
  assumes "get_envelope L d x = Inr (Some env)"
  shows "ev_id (env_event env) = x"
proof -
  from assms obtain e where e: "opt_event L (select_row d x) = Inr (Some e)" "env_event env = e"
    by (auto simp: get_envelope_def get_event_def split: option.splits)
  then obtain r where "select_row d x = Some r" "event_from_record L r = Inr e"
    by (cases "select_row d x") auto
  then show ?thesis using e(2) event_from_record_id [of L r e]
    by (auto simp: select_row_def find_Some_iff)
qed

section \<open>A tick loses no event\<close>

lemma tick_cases:
  assumes "gossip_ok s" "tick L g w provider s = Inr (stats, s')"
  obtains (idle) s1 where "collect_pending L g w s = Inr ([], s1)" "s' = s1" "gossip_ok s1"
  | (sent) envs s1 where "collect_pending L g w s = Inr (envs, s1)" "envs \<noteq> []" "gossip_ok s'"
      "(\<lambda>env. ev_id (env_event env)) ` set (bp_deferred (tick_plan L g envs)) \<subseteq> set (gs_pending s')"
      "(\<lambda>env. ev_id (env_event env)) ` set (bp_envelopes (tick_plan L g envs)) \<subseteq> set (gs_pending s') \<or>
       (\<exists>n d. \<exists>peer \<in> set (gw_sample w (provider d) n).
          post_batch L g w (pi_address peer) (bp_envelopes (tick_plan L g envs)) = HttpAnswer 200 True)"
proof -
  from assms(2) obtain envs s1 where c: "collect_pending L g w s = Inr (envs, s1)"
    by (auto simp: tick_def)
  have ok1: "gossip_ok s1"
    using collect_loop_ok [OF c [unfolded collect_pending_def]] assms(1) by (simp add: gossip_ok_def)
  show thesis
  proof (cases "envs = []")
    case True
    with assms(2) c ok1 show thesis by (intro idle) (auto simp: tick_def)
  next
    case False
    let ?plan = "tick_plan L g envs"
    define s2 where "s2 = (if bp_deferred ?plan \<noteq> [] then requeue_envelopes (bp_deferred ?plan) s1 else s1)"
    have s2: "gossip_ok s2"
      "(\<lambda>env. ev_id (env_event env)) ` set (bp_deferred ?plan) \<subseteq> set (gs_pending s2)"
      using requeue_ok [OF ok1, of "bp_deferred ?plan"] ok1 by (auto simp: s2_def)
    show thesis
    proof (cases "bp_envelopes ?plan = []")
      case True
      with False assms(2) c have "s' = s2" by (auto simp: tick_def Let_def s2_def)
      with True s2 show thesis by (intro sent [OF c False]) auto
    next
      case ne: False
      define s3 where "s3 = s2\<lparr>gs_metrics := record_batch_size (bp_total_bytes ?plan) (gs_metrics s2)\<rparr>"
      have d: "tick_deliver L g w (provider (gs_db s3)) ?plan s3 = Inr (stats, s')"
        using False ne assms(2) c by (auto simp: tick_def Let_def s2_def s3_def)
      have "gossip_ok s3" using s2(1) by (simp add: s3_def gossip_ok_def)
      from tick_deliver_ok [OF this d] s2(2) show thesis
        by (intro sent [OF c False]) (auto simp: s3_def)
    qed
  qed
qed

inductive gossip_step :: "pylib \<Rightarrow> gossip_engine \<Rightarrow> (db \<Rightarrow> peer_info list) \<Rightarrow> gossip_state \<Rightarrow> gossip_state \<Rightarrow> bool"
  for L g provider where
  gossip_add: "gossip_step L g provider s (add_pending x s)"
| gossip_tick: "tick L g w provider s = Inr (stats, s') \<Longrightarrow> gossip_step L g provider s s'"
| gossip_other: "gossip_step L g provider s (s\<lparr>gs_db := d, gs_metrics := m\<rparr>)"

definition gossip_start :: "gossip_state \<Rightarrow> bool" where
  "gossip_start s \<longleftrightarrow> gs_pending s = [] \<and> gs_known_pending s = {}"

interpretation gossip: invariant_system gossip_start "gossip_step L g provider" gossip_ok for L g provider
proof
  show "gossip_ok s" if "gossip_start s" for s
    using that by (simp add: gossip_start_def gossip_ok_def)
  show "gossip_ok s'" if "gossip_ok s" "gossip_step L g provider s s'" for s s'
    using that(2,1)
  proof cases
    case (gossip_tick w stats)
    from that(1) gossip_tick(1) show ?thesis by (rule tick_cases) simp_all
  qed (auto simp: gossip_ok_def add_pending_def)
qed

lemma plan_batch_places:
  assumes "env \<in> set envs"
  shows "env \<in> set (bp_envelopes (plan_batch L p envs req)) \<or> env \<in> set (bp_deferred (plan_batch L p envs req)) \<or>
    expendable req env"
proof -
  obtain required where "plan_inv L p req (sort_key batch_key envs) (plan_batch L p envs req, required)"
    using plan_batch_inv by blast
  then obtain out where m: "mset envs = mset (bp_envelopes (plan_batch L p envs req)) +
      mset (bp_deferred (plan_batch L p envs req)) + mset out" "\<forall>env \<in> set out. expendable req env"
    by (auto simp: plan_inv_def)
  have "env \<in># mset envs" using assms by simp
  then show ?thesis unfolding m(1) using m(2) by auto
qed

text \<open>
  C24: gossip loses no event. In every reachable state of the queue, a tick that completes leaves
  each queued event whose envelope is stored in the queue, unless a peer the node chose has answered
  200 to a batch containing it, or the event is of class C and no genesis event; and the queue
  holds every identifier at most once.
\<close>

theorem gossip_tick_no_loss:
  assumes "reachable gossip_start (gossip_step L g provider) s"
    and "tick L g w provider s = Inr (stats, s')"
    and "x \<in> set (gs_pending s)" "get_envelope L (gs_db s) x = Inr (Some env)"
    and sample: "\<And>ps n. set (gw_sample w ps n) \<subseteq> set ps"
  shows "distinct (gs_pending s') \<and>
    (x \<in> set (gs_pending s') \<or>
     (\<exists>batch d. \<exists>peer \<in> set (provider d). x \<in> (\<lambda>env. ev_id (env_event env)) ` set batch \<and>
        post_batch L g w (pi_address peer) batch = HttpAnswer 200 True) \<or>
     ev_cls (env_event env) = ClassC \<and> \<not> is_genesis (env_event env))"
proof -
  let ?env = "add_hop (ge_node_id g) (gw_hop_time w x) env"
  let ?ids = "\<lambda>envs. (\<lambda>env. ev_id (env_event env)) ` set envs"
  have ok: "gossip_ok s" by (rule gossip.reachable_inv [OF assms(1)])
  have same: "env_event ?env = env_event env" by (simp add: add_hop_def)
  have id: "ev_id (env_event ?env) = x" using get_envelope_id [OF assms(4)] same by simp
  from ok assms(2) show ?thesis
  proof (cases rule: tick_cases)
    case (idle s1)
    then show ?thesis using collect_loop_finds [OF idle(1) [unfolded collect_pending_def] assms(3,4)] by simp
  next
    case (sent envs s1)
    let ?plan = "tick_plan L g envs"
    have "?env \<in> set envs" by (rule collect_loop_finds [OF sent(1) [unfolded collect_pending_def] assms(3,4)])
    from plan_batch_places [OF this, of L "ge_prioritizer g" "tick_required envs"]
    consider "?env \<in> set (bp_envelopes ?plan)" | "?env \<in> set (bp_deferred ?plan)"
      | "expendable (tick_required envs) ?env" unfolding tick_plan_def by blast
    then show ?thesis
    proof cases
      case 1
      then have "x \<in> ?ids (bp_envelopes ?plan)" using id by force
      with sent(5) sample show ?thesis using sent(3) unfolding gossip_ok_def by blast
    next
      case 2
      then have "x \<in> ?ids (bp_deferred ?plan)" using id by force
      with sent(3,4) show ?thesis unfolding gossip_ok_def by blast
    next
      case 3
      with sent(3) same show ?thesis by (simp add: gossip_ok_def expendable_def)
    qed
  qed
qed

definition demo_gossip :: gossip_engine where
  "demo_gossip = \<lparr>ge_node_id = ''n1'', ge_prioritizer = \<lparr>pz_profile = \<lparr>np_memory_mb = 64, np_bw_kbps = 64,
       np_cpu_quota = 1, np_role = ''node'', np_threat_level = ''LOW''\<rparr>, pz_period_sec = 2,
       pz_level_threshold_B = ''ELEV'', pz_max_batch_bytes = 4096\<rparr>, ge_fan_out = 2, ge_hmac_key = None\<rparr>"

definition offline_world :: gossip_world where
  "offline_world = \<lparr>gw_hop_time = (\<lambda>_. 9), gw_sample = (\<lambda>ps n. take n ps), gw_post = (\<lambda>_ _ _. HttpFailed),
     gw_now = (\<lambda>_. 10), gw_latency = 1\<rparr>"

definition queued_gossip :: gossip_state where
  "queued_gossip = add_pending (ev_id demo_event)
     \<lparr>gs_pending = [], gs_known_pending = {}, gs_db = demo_db, gs_metrics = metrics_init 2 64 64\<rparr>"

theorem gossip_tick_no_loss_witness:
  "\<exists>stats s'. tick demo_lib demo_gossip offline_world (\<lambda>_. []) queued_gossip = Inr (stats, s') \<and>
     ev_id demo_event \<in> set (gs_pending s')"
proof -
  let ?init = "\<lparr>gs_pending = [], gs_known_pending = {}, gs_db = demo_db, gs_metrics = metrics_init 2 64 64\<rparr>"
  have "gossip_start ?init" by (simp add: gossip_start_def)
  then have r: "reachable gossip_start (gossip_step demo_lib demo_gossip (\<lambda>_. [])) queued_gossip"
    unfolding queued_gossip_def by (blast intro: reachable.intros gossip_add)
  have q: "gs_pending queued_gossip = [ev_id demo_event]" "gs_db queued_gossip = demo_db"
    by (simp_all add: queued_gossip_def add_pending_def)
  have "\<exists>p. tick demo_lib demo_gossip offline_world (\<lambda>_. []) queued_gossip = Inr p"
    by (simp add: tick_def collect_pending_def tick_deliver_def q get_demo_envelope Let_def)
  then obtain stats s' where run: "tick demo_lib demo_gossip offline_world (\<lambda>_. []) queued_gossip = Inr (stats, s')"
    by auto
  have "ev_cls (fresh_event demo_event None) = ClassA"
    by (simp add: fresh_event_def event_view_def demo_event_def event_create_def)
  moreover have "set (gw_sample offline_world ps n) \<subseteq> set ps" for ps n
    by (simp add: offline_world_def set_take_subset)
  ultimately have "ev_id demo_event \<in> set (gs_pending s')"
    using gossip_tick_no_loss [OF r run, of "ev_id demo_event"] q get_demo_envelope by auto
  with run show ?thesis by blast
qed

end
