(* ===== verification/Conversions.thy ===== *)
theory Conversions
  imports Models
begin

text \<open>
  The conversions \<open>int(x)\<close>, \<open>str(x)\<close> and \<open>bool(x)\<close> of Python that several modules apply to
  decoded JSON values and to text. The text of a list or a dictionary is not modelled:
  \<open>py_str\<close> answers \<open>TypeError\<close> there.
\<close>

text \<open>Decimal digits, with single underscores between them.\<close>

fun digit_run :: "string \<Rightarrow> nat \<Rightarrow> nat option" where
  "digit_run [] acc = None"
| "digit_run [c] acc = (if is_digit c then Some (10 * acc + digit_val c) else None)"
| "digit_run (c # d # ds) acc =
     (if \<not> is_digit c then None
      else if d = CHR ''_'' then digit_run ds (10 * acc + digit_val c)
      else digit_run (d # ds) (10 * acc + digit_val c))"

definition py_int_text :: "string \<Rightarrow> int option" where
  "py_int_text s =
     (case py_strip s of
        [] \<Rightarrow> None
      | c # cs \<Rightarrow> if c = CHR ''-'' then map_option (\<lambda>n. - int n) (digit_run cs 0)
                 else if c = CHR ''+'' then map_option int (digit_run cs 0)
                 else map_option int (digit_run (c # cs) 0))"

fun py_int :: "json \<Rightarrow> int result" where
  "py_int (JInt i) = Inr i"
| "py_int (JFloat x) = Inr (rat_trunc x)"
| "py_int (JBool b) = Inr (of_bool b)"
| "py_int (JStr s) = (case py_int_text s of Some i \<Rightarrow> Inr i | None \<Rightarrow> Inl (ValueError ''invalid literal for int()''))"
| "py_int _ = Inl TypeError"

fun py_str :: "pylib \<Rightarrow> json \<Rightarrow> string result" where
  "py_str L (JStr s) = Inr s"
| "py_str L (JInt i) = Inr (int_str i)"
| "py_str L (JFloat x) = Inr (repr_float (floats L) x)"
| "py_str L (JBool b) = Inr (if b then ''True'' else ''False'')"
| "py_str L JNull = Inr ''None''"
| "py_str L _ = Inl TypeError"

text \<open>\<open>str(value or "")\<close>.\<close>

definition str_or_empty :: "pylib \<Rightarrow> json \<Rightarrow> string result" where
  "str_or_empty L j = (if json_truthy j then py_str L j else Inr [])"

lemma digit_run_digits:
  "list_all is_digit ds \<Longrightarrow> ds \<noteq> [] \<Longrightarrow>
   digit_run ds acc = Some (foldl (\<lambda>n c. n * 10 + digit_val c) acc ds)"
proof (induction ds acc rule: digit_run.induct)
  case (3 c d ds acc)
  then have "d \<noteq> CHR ''_''" by (auto simp: is_digit_def)
  with 3 show ?case by (auto simp: mult.commute)
qed (auto simp: mult.commute)

lemma py_strip_digits:
  assumes "list_all is_digit ds"
  shows "py_strip ds = ds"
proof -
  have "dropWhile is_space xs = xs" if "list_all is_digit xs" for xs
    using that by (cases xs) (auto simp: is_digit_def is_space_def Let_def)
  with assms show ?thesis by (simp add: py_strip_def list_all_iff)
qed

lemma py_int_text_nat_str [simp]: "py_int_text (nat_str n) = Some (int n)"
proof -
  have ds: "list_all is_digit (nat_str n)" using nat_str_digits [of n] by (simp add: list_all_iff)
  obtain c cs where c: "nat_str n = c # cs" by (cases "nat_str n") auto
  with ds have "c \<noteq> CHR ''-''" "c \<noteq> CHR ''+''" by (auto simp: is_digit_def)
  moreover have "digit_run (nat_str n) 0 = Some n"
    using digit_run_digits [OF ds, of 0] nat_of_nat_str [of n] by (simp add: nat_of_digits_def)
  ultimately show ?thesis using py_strip_digits [OF ds] c by (simp add: py_int_text_def)
qed

end
