(* ===== verification/Checkpoint.thy ===== *)
theory Checkpoint
  imports Conversions Storage
begin

text \<open>
  \<open>mdrj/checkpoint.py\<close>: proposals, the digest over the covered events, signatures and the
  quorum of signatures that confirms a checkpoint.
\<close>

section \<open>Proposals\<close>

record checkpoint_proposal =
  cp_round_received :: int
  cp_merkle_root :: string
  cp_members_snapshot_hash :: string
  cp_proposer_node_id :: string
  cp_signature :: string

definition canonical_body :: "checkpoint_proposal \<Rightarrow> (string, json) dict" where
  "canonical_body p =
     [(''round_received'', JInt (cp_round_received p)),
      (''merkle_root'', JStr (cp_merkle_root p)),
      (''members_snapshot_hash'', JStr (cp_members_snapshot_hash p))]"

definition proposal_to_dict :: "checkpoint_proposal \<Rightarrow> (string, json) dict" where
  "proposal_to_dict p =
     canonical_body p @ [(''proposer_node_id'', JStr (cp_proposer_node_id p)), (''signature'', JStr (cp_signature p))]"

definition proposal_from_dict :: "pylib \<Rightarrow> (string, json) dict \<Rightarrow> checkpoint_proposal result" where
  "proposal_from_dict L data =
     res_bind (res_bind (get_item data ''round_received'') py_int) (\<lambda>round.
     res_bind (res_bind (get_item data ''merkle_root'') (py_str L)) (\<lambda>root_hash.
     res_bind (res_bind (get_item data ''members_snapshot_hash'') (py_str L)) (\<lambda>members_hash.
     res_bind (py_str L (dict_get data ''proposer_node_id'' (JStr []))) (\<lambda>proposer.
     res_bind (py_str L (dict_get data ''signature'' (JStr []))) (\<lambda>signature.
     Inr \<lparr>cp_round_received = round, cp_merkle_root = root_hash, cp_members_snapshot_hash = members_hash,
          cp_proposer_node_id = proposer, cp_signature = signature\<rparr>)))))"

section \<open>The digest of the covered events\<close>

definition payload_text :: "pylib \<Rightarrow> event \<Rightarrow> string" where
  "payload_text L e = canonical L (JObj (ev_payload e))"

definition leaf_body :: "pylib \<Rightarrow> event \<Rightarrow> json" where
  "leaf_body L e =
     JObj [(''id'', JStr (ev_id e)), (''cls'', JStr (cls_value (ev_cls e))), (''creator'', JStr (ev_creator e)),
           (''parents'', strs_json (ev_parents e)), (''consensus_ts'', opt_json JFloat (ev_consensus_ts e)),
           (''round_received'', opt_json JInt (ev_round_received e)),
           (''payload_hash'', JStr (sha256_hex L (payload_text L e)))]"

definition event_leaf_hash :: "pylib \<Rightarrow> event \<Rightarrow> string" where
  "event_leaf_hash L e = sha256_hex L (canonical L (leaf_body L e))"

definition merkle_key :: "event \<Rightarrow> int \<times> string" where
  "merkle_key e = ((case ev_round_received e of None \<Rightarrow> - 1 | Some r \<Rightarrow> r), ev_id e)"

definition root_text :: "pylib \<Rightarrow> event list \<Rightarrow> string" where
  "root_text L events = concat (map (event_leaf_hash L) (sort_key merkle_key events))"

definition compute_merkle_root :: "pylib \<Rightarrow> event list \<Rightarrow> string" where
  "compute_merkle_root L events = sha256_hex L (root_text L events)"

section \<open>Signatures and quorum\<close>

definition sign_proposal :: "pylib \<Rightarrow> checkpoint_proposal \<Rightarrow> string \<Rightarrow> string" where
  "sign_proposal L p hmac_key = hexdigest (hmac_sha256 L hmac_key (canonical L (JObj (canonical_body p))))"

definition verify_proposal_signature :: "pylib \<Rightarrow> checkpoint_proposal \<Rightarrow> string \<Rightarrow> string \<Rightarrow> bool" where
  "verify_proposal_signature L p signature hmac_key \<longleftrightarrow> sign_proposal L p hmac_key = signature"

definition quorum_threshold :: "nat \<Rightarrow> nat" where
  "quorum_threshold n = (2 * n + 2) div 3"

definition is_quorum_reached :: "(string, string) dict \<Rightarrow> string list \<Rightarrow> bool" where
  "is_quorum_reached signatures members =
     (let member_set = remdups (filter (\<lambda>m. m \<noteq> []) members)
      in if member_set = [] then False
         else quorum_threshold (length member_set) \<le> length (filter (\<lambda>m. m \<in> fst ` set signatures) member_set))"

record verification_report =
  vr_matches_merkle :: bool
  vr_local_merkle_root :: string
  vr_confirmed_merkle_root :: string
  vr_checkpoint_round :: int
  vr_has_tamper_evidence :: bool
  vr_notes :: "string list"

definition report_to_dict :: "verification_report \<Rightarrow> (string, json) dict" where
  "report_to_dict r =
     [(''matches_merkle'', JBool (vr_matches_merkle r)),
      (''local_merkle_root'', JStr (vr_local_merkle_root r)),
      (''confirmed_merkle_root'', JStr (vr_confirmed_merkle_root r)),
      (''checkpoint_round'', JInt (vr_checkpoint_round r)),
      (''has_tamper_evidence'', JBool (vr_has_tamper_evidence r)),
      (''notes'', strs_json (vr_notes r))]"

section \<open>Proposals survive the wire\<close>

lemma proposal_roundtrip: "proposal_from_dict L (proposal_to_dict p) = Inr p"
  by (simp add: proposal_from_dict_def proposal_to_dict_def canonical_body_def get_item_def dict_get_def)

section \<open>Two quorums share a signer\<close>

interpretation checkpoint_quorum: quorum_counting quorum_threshold
  by unfold_locales (auto simp: quorum_threshold_def)

definition signers :: "(string, string) dict \<Rightarrow> string list \<Rightarrow> string set" where
  "signers signatures members = {m \<in> set members. m \<noteq> [] \<and> m \<in> fst ` set signatures}"

lemma is_quorum_reached_card:
  "is_quorum_reached sigs members \<longleftrightarrow> set members - {[]} \<noteq> {} \<and>
     quorum_threshold (card (set members - {[]})) \<le> card (signers sigs members)"
proof -
  have s: "set (remdups (filter (\<lambda>m. m \<noteq> []) members)) = set members - {[]}" by auto
  have l: "length (remdups (filter (\<lambda>m. m \<noteq> []) members)) = card (set members - {[]})"
    by (metis s length_remdups_card_conv set_remdups)
  have "length (filter (\<lambda>m. m \<in> fst ` set sigs) (remdups (filter (\<lambda>m. m \<noteq> []) members))) =
      card (set (filter (\<lambda>m. m \<in> fst ` set sigs) (remdups (filter (\<lambda>m. m \<noteq> []) members))))"
    by (metis distinct_card distinct_filter distinct_remdups)
  also have "set (filter (\<lambda>m. m \<in> fst ` set sigs) (remdups (filter (\<lambda>m. m \<noteq> []) members))) = signers sigs members"
    by (auto simp: signers_def)
  finally have c: "length (filter (\<lambda>m. m \<in> fst ` set sigs) (remdups (filter (\<lambda>m. m \<noteq> []) members))) =
    card (signers sigs members)" .
  have "remdups (filter (\<lambda>m. m \<noteq> []) members) = [] \<longleftrightarrow> set members - {[]} = {}"
    using s by (metis set_empty)
  then show ?thesis by (simp only: is_quorum_reached_def Let_def l c if_bool_eq_disj) auto
qed

text \<open>
  A quorum of checkpoint signatures is at least two thirds of the distinct, non-empty
  member identifiers; two quorums over the same members, whatever they signed, share a member
  that signed both.
\<close>

lemma checkpoint_quorums_intersect:
  assumes "is_quorum_reached sigs members" "is_quorum_reached sigs' members"
  shows "2 * card (set members - {[]}) \<le> 3 * card (signers sigs members) \<and>
    signers sigs members \<inter> signers sigs' members \<noteq> {}"
proof
  have sub: "signers s members \<subseteq> set members - {[]}" for s by (auto simp: signers_def)
  from assms show "signers sigs members \<inter> signers sigs' members \<noteq> {}"
    unfolding is_quorum_reached_card
    by (intro checkpoint_quorum.quorums_meet [OF _ _ sub sub]) auto
  from assms(1) show "2 * card (set members - {[]}) \<le> 3 * card (signers sigs members)"
    by (simp add: is_quorum_reached_card quorum_threshold_def) linarith
qed

section \<open>The digest pins the covered events down\<close>

text \<open>What the digest fixes of an event: the fields hashed into its leaf, the payload up to the order of keys.\<close>

definition leaf_view :: "event \<Rightarrow> string \<times> EventClass \<times> string \<times> string list \<times> timestamp option \<times> int option \<times> json" where
  "leaf_view e = (ev_id e, ev_cls e, ev_creator e, ev_parents e, ev_consensus_ts e, ev_round_received e,
     json_view True (JObj (ev_payload e)))"

definition sha_len_ok :: "pylib \<Rightarrow> bool" where
  "sha_len_ok L \<longleftrightarrow> (\<forall>s. length (sha256 L s) = 32)"

text \<open>Two events whose texts collide at one of the two hashes of a leaf.\<close>

definition leaf_collision :: "pylib \<Rightarrow> event \<Rightarrow> event \<Rightarrow> bool" where
  "leaf_collision L e f \<longleftrightarrow> sha_collision L (payload_text L e) (payload_text L f) \<or>
     sha_collision L (canonical L (leaf_body L e)) (canonical L (leaf_body L f))"

lemma merkle_root_perm:
  assumes "mset es = mset es'" "inj_on ev_id (set es)"
  shows "compute_merkle_root L es = compute_merkle_root L es'"
proof -
  have "inj_on merkle_key (set es)"
    using assms(2) by (auto simp: inj_on_def merkle_key_def)
  from sort_key_perm_eq [OF assms(1) this] show ?thesis
    by (simp add: compute_merkle_root_def root_text_def)
qed

lemma hexdigest_length: "length (hexdigest s) = 2 * length s"
  by (induction s) (simp_all add: hexdigest_def Let_def)

lemma leaf_length: "sha_len_ok L \<Longrightarrow> length (event_leaf_hash L e) = 64"
  by (simp add: event_leaf_hash_def sha256_hex_def hexdigest_length sha_len_ok_def)

lemma concat_eq_blocks:
  assumes "list_all (\<lambda>x. length x = n) xs" "list_all (\<lambda>x. length x = n) ys" "0 < n" "concat xs = concat ys"
  shows "xs = ys"
  using assms
proof (induction xs arbitrary: ys)
  case Nil
  then show ?case by (cases ys) auto
next
  case (Cons x xs)
  from Cons.prems obtain y ys' where ys: "ys = y # ys'" by (cases ys) auto
  with Cons.prems have "x = y \<and> concat xs = concat ys'"
    by (intro append_eq_append_conv [THEN iffD1]) auto
  with Cons ys show ?case by auto
qed

lemma opt_json_inj [simp]:
  "opt_json JFloat a = opt_json JFloat b \<longleftrightarrow> a = b" "opt_json JInt c = opt_json JInt d \<longleftrightarrow> c = d"
  by (cases a; cases b; simp) (cases c; cases d; simp)

lemma json_view_flat [simp]:
  "json_view True (opt_json JFloat a) = opt_json JFloat a" "json_view True (opt_json JInt c) = opt_json JInt c"
  "json_view True (strs_json xs) = strs_json xs"
  by (cases a, simp_all, cases c, simp_all add: strs_json_def comp_def)

lemma strs_json_inj [simp]: "strs_json xs = strs_json ys \<longleftrightarrow> xs = ys"
  by (metis Inr_inject json_strs_strs_json)

lemma cls_value_inj [simp]: "cls_value a = cls_value b \<longleftrightarrow> a = b"
  by (cases a; cases b; simp)

lemma wf_leaf_body: "wf_json (leaf_body L e)"
  by (cases "ev_consensus_ts e"; cases "ev_round_received e")
    (auto simp: leaf_body_def strs_json_def list_all_iff)

lemma leaf_hash_eqD:
  assumes "codec_ok (floats L)" "wf_json (JObj (ev_payload e))" "wf_json (JObj (ev_payload f))"
    and "event_leaf_hash L e = event_leaf_hash L f"
  shows "leaf_view e = leaf_view f \<or> leaf_collision L e f"
proof (cases "leaf_collision L e f")
  case False
  with assms(4) have "canonical L (leaf_body L e) = canonical L (leaf_body L f)"
    unfolding event_leaf_hash_def leaf_collision_def by (metis sha256_hex_eqD)
  then have "json_view True (leaf_body L e) = json_view True (leaf_body L f)"
    using canonical_json_eq_iff [OF assms(1) wf_leaf_body wf_leaf_body] by (simp add: canonical_def)
  then have fields: "ev_id e = ev_id f" "ev_cls e = ev_cls f" "ev_creator e = ev_creator f" "ev_parents e = ev_parents f"
    "ev_consensus_ts e = ev_consensus_ts f" "ev_round_received e = ev_round_received f"
    "sha256_hex L (payload_text L e) = sha256_hex L (payload_text L f)"
    by (simp_all add: leaf_body_def)
  with False have "payload_text L e = payload_text L f"
    unfolding leaf_collision_def by (metis sha256_hex_eqD)
  then have "json_view True (JObj (ev_payload e)) = json_view True (JObj (ev_payload f))"
    using canonical_json_eq_iff [OF assms(1-3)] by (simp add: payload_text_def canonical_def)
  with fields show ?thesis by (simp add: leaf_view_def)
qed simp
lemma leaf_hashes_eqD:
  assumes "codec_ok (floats L)" "\<forall>e \<in> set es \<union> set es'. wf_json (JObj (ev_payload e))"
    and "map (event_leaf_hash L) es = map (event_leaf_hash L) es'"
  shows "map leaf_view es = map leaf_view es' \<or> (\<exists>i < length es. leaf_collision L (es ! i) (es' ! i))"
proof (cases "\<exists>i < length es. leaf_collision L (es ! i) (es' ! i)")
  case False
  have len: "length es = length es'" by (rule map_eq_imp_length_eq [OF assms(3)])
  have "leaf_view (es ! i) = leaf_view (es' ! i)" if i: "i < length es" for i
  proof -
    have "event_leaf_hash L (es ! i) = event_leaf_hash L (es' ! i)"
      using assms(3) i len by (metis nth_map)
    moreover have "wf_json (JObj (ev_payload (es ! i)))" "wf_json (JObj (ev_payload (es' ! i)))"
      using assms(2) i len by (metis Un_iff nth_mem)+
    ultimately show ?thesis using leaf_hash_eqD [OF assms(1)] False i by blast
  qed
  with len show ?thesis by (auto intro: nth_equalityI)
qed simp

text \<open>
  C22: the checkpoint digest is a faithful fingerprint of the covered events. It does not depend
  on the order in which they are listed, and two sets of events with the same digest agree, event
  by event, on identifier, class, creator, parents, consensus time, round received and payload,
  unless SHA-256 collides on the two concatenations of leaf hashes or on the texts of two
  corresponding leaves. SHA-256 digests have 32 bytes (\<open>sha_len_ok\<close>).
\<close>

theorem merkle_root_fingerprint:
  assumes "codec_ok (floats L)" "sha_len_ok L" "inj_on ev_id (set es)"
    and "\<forall>e \<in> set es \<union> set es'. wf_json (JObj (ev_payload e))"
  shows "(mset es = mset es' \<longrightarrow> compute_merkle_root L es = compute_merkle_root L es') \<and>
    (compute_merkle_root L es = compute_merkle_root L es' \<longrightarrow>
      map leaf_view (sort_key merkle_key es) = map leaf_view (sort_key merkle_key es') \<or>
      sha_collision L (root_text L es) (root_text L es') \<or>
      (\<exists>i < length es. leaf_collision L (sort_key merkle_key es ! i) (sort_key merkle_key es' ! i)))"
proof (intro conjI impI)
  show "compute_merkle_root L es = compute_merkle_root L es'" if "mset es = mset es'"
    using that assms(3) by (rule merkle_root_perm)
  assume "compute_merkle_root L es = compute_merkle_root L es'"
  then consider "sha_collision L (root_text L es) (root_text L es')" | "root_text L es = root_text L es'"
    unfolding compute_merkle_root_def by (metis sha256_hex_eqD)
  then show "map leaf_view (sort_key merkle_key es) = map leaf_view (sort_key merkle_key es') \<or>
      sha_collision L (root_text L es) (root_text L es') \<or>
      (\<exists>i < length es. leaf_collision L (sort_key merkle_key es ! i) (sort_key merkle_key es' ! i))"
  proof cases
    case 2
    let ?hs = "\<lambda>es. map (event_leaf_hash L) (sort_key merkle_key es)"
    have "?hs es = ?hs es'"
      by (rule concat_eq_blocks [of 64]) (use 2 leaf_length [OF assms(2)] in \<open>auto simp: root_text_def list_all_iff\<close>)
    from leaf_hashes_eqD [OF assms(1) _ this] assms(4) show ?thesis by auto
  qed blast
qed

text \<open>A library whose digests have 32 bytes, as \<open>sha_len_ok\<close> asks.\<close>

definition pad_lib :: pylib where
  "pad_lib = demo_lib\<lparr>sha256 := (\<lambda>s. take 32 (s @ replicate 32 (CHR ''0'')))\<rparr>"

lemma pad_lib_ok: "sha_len_ok pad_lib" "codec_ok (floats pad_lib)"
  using demo_lib_ok(1) by (auto simp: sha_len_ok_def pad_lib_def)

theorem merkle_root_fingerprint_witness:
  "compute_merkle_root pad_lib [plain_event ''a'' ''n'' [], plain_event ''b'' ''n'' [''a'']] =
   compute_merkle_root pad_lib [plain_event ''b'' ''n'' [''a''], plain_event ''a'' ''n'' []]"
  using merkle_root_fingerprint [OF pad_lib_ok(2,1),
      of "[plain_event ''a'' ''n'' [], plain_event ''b'' ''n'' [''a'']]" "[plain_event ''b'' ''n'' [''a''], plain_event ''a'' ''n'' []]"]
  by (simp add: plain_event_def)

end
