(* ===== verification/Base64.thy ===== *)
theory Base64
  imports Prelude
begin

text \<open>
  The base64 codec of Python's standard library, as \<open>mdrj/auth.py\<close> uses it for salts and
  derived keys: \<open>b64encode\<close>, and \<open>b64decode\<close> in its default, non-validating mode, which skips
  characters outside the alphabet and fails on a wrong number of characters.
\<close>

definition b64_char :: "nat \<Rightarrow> char" where
  "b64_char n = (if n < 26 then char_of (65 + n) else if n < 52 then char_of (71 + n)
     else if n < 62 then char_of (n - 4) else if n = 62 then CHR ''+'' else CHR ''/'')"

definition b64_val :: "char \<Rightarrow> nat option" where
  "b64_val c = (let n = of_char c :: nat in
     if 65 \<le> n \<and> n \<le> 90 then Some (n - 65) else if 97 \<le> n \<and> n \<le> 122 then Some (n - 71)
     else if 48 \<le> n \<and> n \<le> 57 then Some (n + 4) else if n = 43 then Some 62 else if n = 47 then Some 63 else None)"

abbreviation byte :: "char \<Rightarrow> nat" where
  "byte c \<equiv> of_char c"

fun b64encode :: "string \<Rightarrow> string" where
  "b64encode [] = []"
| "b64encode [a] = [b64_char (byte a div 4), b64_char (byte a mod 4 * 16), CHR ''='', CHR ''='']"
| "b64encode [a, b] = [b64_char (byte a div 4), b64_char (byte a mod 4 * 16 + byte b div 16),
     b64_char (byte b mod 16 * 4), CHR ''='']"
| "b64encode (a # b # c # rest) =
     [b64_char (byte a div 4), b64_char (byte a mod 4 * 16 + byte b div 16),
      b64_char (byte b mod 16 * 4 + byte c div 64), b64_char (byte c mod 64)] @ b64encode rest"

text \<open>
  The decoder scans the text with the position in the current quad, the bits left over from the
  previous character and the number of padding characters seen since the last data character.
\<close>

fun b64_scan :: "string \<Rightarrow> nat \<Rightarrow> nat \<Rightarrow> nat \<Rightarrow> string result" where
  "b64_scan [] quad_pos leftchar pads =
     (if quad_pos = 0 then Inr [] else Inl (ValueError ''Incorrect padding''))"
| "b64_scan (ch # rest) quad_pos leftchar pads =
     (if ch = CHR ''='' then
        (if 2 \<le> quad_pos \<and> 4 \<le> quad_pos + pads + 1 then Inr []
         else b64_scan rest quad_pos leftchar (if 2 \<le> quad_pos then pads + 1 else pads))
      else case b64_val ch of
        None \<Rightarrow> b64_scan rest quad_pos leftchar pads
      | Some v \<Rightarrow>
          if quad_pos = 0 then b64_scan rest 1 v 0
          else if quad_pos = 1 then
            res_bind (b64_scan rest 2 (v mod 16) 0) (\<lambda>out. Inr (char_of (leftchar * 4 + v div 16) # out))
          else if quad_pos = 2 then
            res_bind (b64_scan rest 3 (v mod 4) 0) (\<lambda>out. Inr (char_of (leftchar * 16 + v div 4) # out))
          else res_bind (b64_scan rest 0 0 0) (\<lambda>out. Inr (char_of (leftchar * 64 + v) # out)))"

definition b64decode :: "string \<Rightarrow> string result" where
  "b64decode s =
     (if list_all (\<lambda>c. byte c < 128) s then b64_scan s 0 0 0
      else Inl (ValueError ''string argument should contain only ASCII characters''))"

lemma b64_val_char [simp]: "n < 64 \<Longrightarrow> b64_val (b64_char n) = Some n"
  by (auto simp: b64_val_def b64_char_def Let_def of_char_of)

lemma b64_char_not_pad [simp]: "n < 64 \<Longrightarrow> b64_char n \<noteq> CHR ''=''"
proof
  assume "n < 64" "b64_char n = CHR ''=''"
  then have "b64_val (CHR ''='') = Some n" using b64_val_char [of n] by simp
  then show False by (simp add: b64_val_def)
qed

lemma byte_less [simp]: "byte c < 256"
  by simp

lemma b64_bounds [simp]:
  "byte a div 4 < 64" "byte a mod 4 * 16 < 64" "byte a mod 4 * 16 + byte b div 16 < 64"
  "byte b mod 16 * 4 < 64" "byte b mod 16 * 4 + byte c div 64 < 64" "byte c mod 64 < 64"
  using byte_less [of a] byte_less [of b] byte_less [of c] by linarith+

lemma b64_digits [simp]:
  "byte b div 16 div 16 = 0" "byte b div 16 mod 16 = byte b div 16"
  "byte c div 64 div 4 = 0" "byte c div 64 mod 4 = byte c div 64"
proof -
  have "byte b div 16 < 16" "byte c div 64 < 4"
    using byte_less [of b] byte_less [of c] by linarith+
  then show "byte b div 16 div 16 = 0" "byte b div 16 mod 16 = byte b div 16"
    "byte c div 64 div 4 = 0" "byte c div 64 mod 4 = byte c div 64" by simp_all
qed

lemma b64_char_ascii [simp]: "n < 64 \<Longrightarrow> byte (b64_char n) < 128"
  by (auto simp: b64_char_def of_char_of)

lemma b64encode_ascii: "list_all (\<lambda>c. byte c < 128) (b64encode s)"
  by (induction s rule: b64encode.induct) simp_all

lemma b64_scan_encode: "b64_scan (b64encode s) 0 0 0 = Inr s"
proof (induction s rule: b64encode.induct)
  case (4 a b c rest)
  have "byte a div 4 * 4 + byte a mod 4 = byte a" "byte b div 16 * 16 + byte b mod 16 = byte b"
    "byte c div 64 * 64 + byte c mod 64 = byte c" by simp_all
  moreover have "byte b mod 16 * 4 + byte c div 64 < 64" by (rule b64_bounds)
  ultimately show ?case using 4 by (simp add: b64_digits)
next
  case (2 a)
  then show ?case by simp
next
  case (3 a b)
  then show ?case by (simp add: b64_digits)
qed simp

lemma b64_roundtrip [simp]: "b64decode (b64encode s) = Inr s"
  by (simp add: b64decode_def b64encode_ascii b64_scan_encode)

lemma b64encode_alphabet: "c \<in> set (b64encode s) \<Longrightarrow> c \<noteq> CHR ''$''"
proof -
  have v: "CHR ''$'' \<noteq> b64_char n" if "n < 64" for n
  proof
    assume "CHR ''$'' = b64_char n"
    then have "b64_val (CHR ''$'') = Some n" using b64_val_char [OF that] by simp
    then show False by (simp add: b64_val_def)
  qed
  show "c \<in> set (b64encode s) \<Longrightarrow> c \<noteq> CHR ''$''"
    by (induction s rule: b64encode.induct) (auto simp: v)
qed

end
