(* ===== verification/Auth.thy ===== *)
theory Auth
  imports Conversions Base64
begin

text \<open>
  \<open>mdrj/auth.py\<close>: password hashes and the in-memory session store of the web interface.
  \<open>hashlib.scrypt\<close> is the argument \<open>kdf\<close> (password bytes, salt, the three cost parameters and the
  length of the key; it raises for bad parameters), \<open>os.urandom\<close> and
  \<open>secrets.token_urlsafe\<close> are the arguments \<open>salt\<close> and \<open>token\<close>, \<open>time.time()\<close> is \<open>now\<close>.
\<close>

section \<open>Roles\<close>

definition ROLES :: "string list" where
  "ROLES = [''viewer'', ''admin'']"

definition SESSION_TTL_SECONDS :: rat where
  "SESSION_TTL_SECONDS = 8 * 3600"

definition normalize_role :: "string option \<Rightarrow> string" where
  "normalize_role value =
     (let text = py_lower (py_strip (opt_str value)) in if text \<in> set ROLES then text else ''viewer'')"

section \<open>Passwords\<close>

type_synonym scrypt = "string \<Rightarrow> string \<Rightarrow> int \<Rightarrow> int \<Rightarrow> int \<Rightarrow> nat \<Rightarrow> string result"

definition utf8 :: "string \<Rightarrow> string" where
  "utf8 s = concat (map (\<lambda>c. if byte c < 128 then [c]
     else [char_of (192 + byte c div 64), char_of (128 + byte c mod 64)]) s)"

text \<open>\<open>text.split(sep, n)\<close>: at most \<open>n\<close> splits.\<close>

fun split_max :: "nat \<Rightarrow> char \<Rightarrow> string \<Rightarrow> string list" where
  "split_max 0 sep s = [s]"
| "split_max (Suc n) sep s =
     (case dropWhile (\<lambda>c. c \<noteq> sep) s of
        [] \<Rightarrow> [s]
      | c # rest \<Rightarrow> takeWhile (\<lambda>c. c \<noteq> sep) s # split_max n sep rest)"

definition hash_password :: "scrypt \<Rightarrow> string \<Rightarrow> string \<Rightarrow> string result" where
  "hash_password kdf salt password =
     (if password = [] then Inl (ValueError ''password must not be empty'')
      else res_bind (kdf (utf8 password) salt 16384 8 1 32) (\<lambda>derived.
        Inr (''scrypt$'' @ nat_str 16384 @ ''$'' @ nat_str 8 @ ''$'' @ nat_str 1 @ ''$'' @
             b64encode salt @ ''$'' @ b64encode derived)))"

definition int_of_text :: "string \<Rightarrow> int result" where
  "int_of_text s = py_int (JStr s)"

definition verify_password :: "scrypt \<Rightarrow> string \<Rightarrow> string \<Rightarrow> bool result" where
  "verify_password kdf password stored =
     (if stored = [] \<or> \<not> starts_with stored ''scrypt$'' then Inr False
      else case split_max 5 (CHR ''$'') stored of
        [algo, n_str, r_str, p_str, salt_b64, derived_b64] \<Rightarrow>
          (case (b64decode salt_b64, b64decode derived_b64) of
             (Inr salt, Inr expected) \<Rightarrow>
               res_bind (int_of_text n_str) (\<lambda>n.
               res_bind (int_of_text r_str) (\<lambda>r.
               res_bind (int_of_text p_str) (\<lambda>p.
               res_bind (kdf (utf8 password) salt n r p (length expected)) (\<lambda>actual.
               Inr (actual = expected)))))
           | _ \<Rightarrow> Inr False)
      | _ \<Rightarrow> Inr False)"

section \<open>Sessions\<close>

record session_record =
  se_token :: string
  se_username :: string
  se_role :: string
  se_created_at :: timestamp
  se_expires_at :: timestamp

record session_store =
  ss_ttl_seconds :: rat
  ss_sessions :: "(string, session_record) dict"

definition session_store_init :: "rat \<Rightarrow> session_store" where
  "session_store_init ttl = \<lparr>ss_ttl_seconds = ttl, ss_sessions = []\<rparr>"

definition session_create :: "string \<Rightarrow> timestamp \<Rightarrow> string \<Rightarrow> string \<Rightarrow> session_store \<Rightarrow> session_record \<times> session_store" where
  "session_create token now username role s =
     (let record = \<lparr>se_token = token, se_username = username, se_role = normalize_role (Some role),
                    se_created_at = now, se_expires_at = now + ss_ttl_seconds s\<rparr>
      in (record, s\<lparr>ss_sessions := AList.update token record (ss_sessions s)\<rparr>))"

definition session_get :: "string \<Rightarrow> timestamp \<Rightarrow> session_store \<Rightarrow> session_record option \<times> session_store" where
  "session_get token now s =
     (case map_of (ss_sessions s) token of
        None \<Rightarrow> (None, s)
      | Some record \<Rightarrow>
          if se_expires_at record < now then (None, s\<lparr>ss_sessions := AList.delete token (ss_sessions s)\<rparr>)
          else (Some record, s))"

definition session_revoke :: "string \<Rightarrow> session_store \<Rightarrow> session_store" where
  "session_revoke token s = s\<lparr>ss_sessions := AList.delete token (ss_sessions s)\<rparr>"

definition remove_sessions :: "(session_record \<Rightarrow> bool) \<Rightarrow> session_store \<Rightarrow> nat \<times> session_store" where
  "remove_sessions P s =
     (let removed = map fst (filter (\<lambda>(t, r). P r) (ss_sessions s))
      in (length removed, s\<lparr>ss_sessions := fold AList.delete removed (ss_sessions s)\<rparr>))"

definition revoke_user :: "string \<Rightarrow> session_store \<Rightarrow> nat \<times> session_store" where
  "revoke_user username s = remove_sessions (\<lambda>r. se_username r = username) s"

definition prune_expired :: "timestamp \<Rightarrow> session_store \<Rightarrow> nat \<times> session_store" where
  "prune_expired now s = remove_sessions (\<lambda>r. se_expires_at r < now) s"

section \<open>A password verifies against its own hash only\<close>

lemma split_max_cons:
  "CHR ''$'' \<notin> set a \<Longrightarrow> split_max (Suc n) (CHR ''$'') (a @ CHR ''$'' # s) = a # split_max n (CHR ''$'') s"
  by (simp add: dropWhile_append takeWhile_append)

lemma nat_str_no_dollar: "CHR ''$'' \<notin> set (nat_str n)"
  using nat_str_digits [of n] by (auto simp: is_digit_def)

lemma split_hash:
  "split_max 5 (CHR ''$'') (''scrypt$'' @ nat_str n @ ''$'' @ nat_str r @ ''$'' @ nat_str p @ ''$'' @
     b64encode salt @ ''$'' @ b64encode derived) =
   [''scrypt'', nat_str n, nat_str r, nat_str p, b64encode salt, b64encode derived]"
proof -
  have "CHR ''$'' \<notin> set (b64encode salt)" using b64encode_alphabet by blast
  then show ?thesis
    using split_max_cons [of "''scrypt''"] split_max_cons [OF nat_str_no_dollar]
    by (simp add: split_max_cons numeral_eq_Suc del: split_max.simps(2))
qed

lemma verify_hashed:
  assumes "length derived = 32"
  shows "verify_password kdf p (''scrypt$'' @ nat_str 16384 @ ''$'' @ nat_str 8 @ ''$'' @ nat_str 1 @ ''$'' @
      b64encode salt @ ''$'' @ b64encode derived) = res_bind (kdf (utf8 p) salt 16384 8 1 32) (\<lambda>actual. Inr (actual = derived))"
  unfolding verify_password_def using split_hash [of 16384 8 1 salt derived] assms by (auto simp: int_of_text_def)

text \<open>
  A password verifies against the hash made of it, and another password verifies exactly
  when the key derivation maps it to the same key under the same salt; hashing the empty password
  is refused. The derivation returns keys of the length asked for.
\<close>

theorem password_roundtrip:
  assumes "hash_password kdf salt password = Inr stored"
    and kdf_length: "\<And>pw s n r p len key. kdf pw s n r p len = Inr key \<Longrightarrow> length key = len"
  shows "password \<noteq> [] \<and> verify_password kdf password stored = Inr True \<and>
    (verify_password kdf attempt stored = Inr True \<longleftrightarrow>
      kdf (utf8 attempt) salt 16384 8 1 32 = kdf (utf8 password) salt 16384 8 1 32)"
proof -
  from assms(1) obtain derived where pw: "password \<noteq> []" and d: "kdf (utf8 password) salt 16384 8 1 32 = Inr derived"
    and st: "stored = ''scrypt$'' @ nat_str 16384 @ ''$'' @ nat_str 8 @ ''$'' @ nat_str 1 @ ''$'' @
      b64encode salt @ ''$'' @ b64encode derived"
    by (auto simp: hash_password_def split: if_splits)
  have len: "length derived = 32" by (rule kdf_length [OF d])
  have "verify_password kdf p stored =
      res_bind (kdf (utf8 p) salt 16384 8 1 32) (\<lambda>actual. Inr (actual = derived))" for p
    unfolding st by (rule verify_hashed [OF len])
  with pw d show ?thesis by (cases "kdf (utf8 attempt) salt 16384 8 1 32") auto
qed

definition demo_kdf :: scrypt where
  "demo_kdf pw salt n r p len = Inr (take len (pw @ salt @ replicate len (CHR ''0'')))"

theorem password_roundtrip_witness:
  "\<exists>stored. hash_password demo_kdf ''salt'' ''secret'' = Inr stored \<and>
     verify_password demo_kdf ''secret'' stored = Inr True \<and> verify_password demo_kdf ''guess'' stored \<noteq> Inr True"
proof -
  have len: "demo_kdf pw s n r p len = Inr key \<Longrightarrow> length key = len" for pw s n r p len key
    by (auto simp: demo_kdf_def)
  obtain stored where st: "hash_password demo_kdf ''salt'' ''secret'' = Inr stored"
    by (simp add: hash_password_def demo_kdf_def)
  have "demo_kdf (utf8 ''guess'') ''salt'' 16384 8 1 32 \<noteq> demo_kdf (utf8 ''secret'') ''salt'' 16384 8 1 32"
    by (simp add: demo_kdf_def utf8_def)
  moreover have "''secret'' \<noteq> [] \<and> verify_password demo_kdf ''secret'' stored = Inr True \<and>
      (verify_password demo_kdf ''guess'' stored = Inr True \<longleftrightarrow>
        demo_kdf (utf8 ''guess'') ''salt'' 16384 8 1 32 = demo_kdf (utf8 ''secret'') ''salt'' 16384 8 1 32)"
    by (rule password_roundtrip [OF st]) (rule len)
  ultimately show ?thesis using st by blast
qed

section \<open>Sessions\<close>

definition sessions_ok :: "session_store \<Rightarrow> bool" where
  "sessions_ok s \<longleftrightarrow> dict_ok (ss_sessions s) \<and>
     (\<forall>t r. map_of (ss_sessions s) t = Some r \<longrightarrow> se_token r = t \<and>
        se_expires_at r = se_created_at r + ss_ttl_seconds s \<and> se_role r \<in> set ROLES)"

definition no_session_of :: "string \<Rightarrow> session_store \<Rightarrow> bool" where
  "no_session_of u s \<longleftrightarrow> (\<forall>t r. map_of (ss_sessions s) t = Some r \<longrightarrow> se_username r \<noteq> u)"

lemma normalize_role_in: "normalize_role v \<in> set ROLES"
  by (simp add: normalize_role_def Let_def ROLES_def)

lemma remove_sessions_map:
  assumes "dict_ok (ss_sessions s)"
  shows "map_of (ss_sessions (snd (remove_sessions P s))) t = Some r \<longleftrightarrow>
    map_of (ss_sessions s) t = Some r \<and> \<not> P r"
proof -
  have "t \<in> set (map fst (filter (\<lambda>(t, r). P r) (ss_sessions s))) \<longleftrightarrow> (\<exists>r. map_of (ss_sessions s) t = Some r \<and> P r)"
    using assms by (force simp: map_of_eq_Some_iff image_iff)
  then show ?thesis
    by (auto simp: remove_sessions_def Let_def pydict.lookup_fold_delete split: if_splits)
qed

lemma sessions_ok_shrink:
  assumes "sessions_ok s" "dict_ok m" "\<And>t r. map_of m t = Some r \<Longrightarrow> map_of (ss_sessions s) t = Some r"
  shows "sessions_ok (s\<lparr>ss_sessions := m\<rparr>)"
  using assms unfolding sessions_ok_def by (metis session_store.select_convs session_store.surjective session_store.update_convs(2))

lemma no_session_shrink:
  assumes "no_session_of u s" "\<And>t r. map_of m t = Some r \<Longrightarrow> map_of (ss_sessions s) t = Some r"
  shows "no_session_of u (s\<lparr>ss_sessions := m\<rparr>)"
  using assms unfolding no_session_of_def by (metis session_store.select_convs(2) session_store.surjective session_store.update_convs(2))

text \<open>Every call but \<open>create\<close> leaves a part of the sessions.\<close>

definition shrinks :: "session_store \<Rightarrow> session_store \<Rightarrow> bool" where
  "shrinks s s' \<longleftrightarrow> (\<exists>m. s' = s\<lparr>ss_sessions := m\<rparr> \<and> dict_ok m \<and>
     (\<forall>t r. map_of m t = Some r \<longrightarrow> map_of (ss_sessions s) t = Some r))"

lemma shrinks_ok: "shrinks s s' \<Longrightarrow> sessions_ok s \<Longrightarrow> sessions_ok s'"
  unfolding shrinks_def by (blast intro: sessions_ok_shrink)

lemma shrinks_no_session: "shrinks s s' \<Longrightarrow> no_session_of u s \<Longrightarrow> no_session_of u s'"
  unfolding shrinks_def by (blast intro: no_session_shrink)

lemma shrinks_remove: "dict_ok (ss_sessions s) \<Longrightarrow> shrinks s (snd (remove_sessions P s))"
  unfolding shrinks_def remove_sessions_def Let_def
  by (intro exI conjI, simp, rule dict_ok_fold_delete, assumption)
    (simp add: pydict.lookup_fold_delete split: if_splits)

lemma shrinks_delete:
  assumes "dict_ok (ss_sessions s)"
  shows "shrinks s (s\<lparr>ss_sessions := AList.delete t (ss_sessions s)\<rparr>)"
  unfolding shrinks_def
  by (intro exI conjI, simp, rule dict_ok_delete [OF assms]) (simp split: if_splits)

lemma shrinks_get: "dict_ok (ss_sessions s) \<Longrightarrow> shrinks s (snd (session_get t now s))"
  using shrinks_delete [of s t]
  by (auto simp: session_get_def shrinks_def split: option.splits intro!: exI [of _ "ss_sessions s"])

lemma create_ok: "sessions_ok s \<Longrightarrow> sessions_ok (snd (session_create token now u role s))"
  unfolding sessions_ok_def session_create_def Let_def snd_conv
  by (intro conjI dict_ok_update allI impI) (auto simp del: map_of_eq_Some_iff simp: normalize_role_in split: if_splits)

lemma create_no_session: "no_session_of u s \<Longrightarrow> v \<noteq> u \<Longrightarrow> no_session_of u (snd (session_create token now v role s))"
  by (simp add: no_session_of_def session_create_def Let_def)

text \<open>The calls on the store; \<open>allowed\<close> says for which users sessions may be opened.\<close>

inductive session_step :: "(string \<Rightarrow> bool) \<Rightarrow> session_store \<Rightarrow> session_store \<Rightarrow> bool" for allowed where
  "allowed u \<Longrightarrow> session_step allowed s (snd (session_create token now u role s))"
| "session_step allowed s (snd (session_get token now s))"
| "session_step allowed s (session_revoke token s)"
| "session_step allowed s (snd (revoke_user u s))"
| "session_step allowed s (snd (prune_expired now s))"

definition session_start :: "session_store \<Rightarrow> bool" where
  "session_start s \<longleftrightarrow> (\<exists>ttl. s = session_store_init ttl)"

interpretation sessions: invariant_system session_start "session_step allowed" sessions_ok for allowed
proof
  show "sessions_ok s" if "session_start s" for s
    using that by (auto simp: session_start_def session_store_init_def sessions_ok_def)
  show "sessions_ok s'" if ok: "sessions_ok s" and step: "session_step allowed s s'" for s s'
  proof -
    have "dict_ok (ss_sessions s)" using ok by (simp add: sessions_ok_def)
    with step ok show ?thesis
      by cases (auto intro: create_ok shrinks_ok shrinks_get shrinks_remove shrinks_delete
          simp: session_revoke_def revoke_user_def prune_expired_def)
  qed
qed

interpretation lockout: invariant_system "\<lambda>s. sessions_ok s \<and> no_session_of u s" "session_step (\<lambda>v. v \<noteq> u)"
    "\<lambda>s. sessions_ok s \<and> no_session_of u s" for u
proof
  fix s s'
  assume ok: "sessions_ok s \<and> no_session_of u s" and st: "session_step (\<lambda>v. v \<noteq> u) s s'"
  then have d: "dict_ok (ss_sessions s)" by (simp add: sessions_ok_def)
  with st ok have "no_session_of u s'"
    by cases (auto intro: create_no_session shrinks_no_session shrinks_get shrinks_remove shrinks_delete
        simp: session_revoke_def revoke_user_def prune_expired_def)
  with ok st sessions.step_inv show "sessions_ok s' \<and> no_session_of u s'" by blast
qed

text \<open>
  In every state the session store can reach, a token is accepted exactly when it is stored
  and its session has not expired, the session then belongs to that token, was created at most the
  time to live ago and has one of the two roles; an expired session is removed by the look-up and
  no other session is touched.
\<close>

theorem session_get_correct:
  assumes "reachable session_start (session_step allowed) s"
  shows "(fst (session_get token now s) = Some r \<longleftrightarrow>
      map_of (ss_sessions s) token = Some r \<and> now \<le> se_expires_at r) \<and>
    (fst (session_get token now s) = Some r \<longrightarrow>
      se_token r = token \<and> now \<le> se_created_at r + ss_ttl_seconds s \<and> se_role r \<in> {''viewer'', ''admin''}) \<and>
    map_of (ss_sessions (snd (session_get token now s))) other =
      (if other = token \<and> fst (session_get token now s) = None then None else map_of (ss_sessions s) other)"
proof -
  have "sessions_ok s" by (rule sessions.reachable_inv [OF assms])
  then show ?thesis
    unfolding sessions_ok_def session_get_def ROLES_def
    by (cases "map_of (ss_sessions s) token") (auto simp del: map_of_eq_Some_iff)
qed

definition demo_sessions :: session_store where
  "demo_sessions = snd (session_create ''tok'' 100 ''Alice'' ''admin'' (session_store_init SESSION_TTL_SECONDS))"

lemma demo_sessions_reachable: "reachable session_start (session_step (\<lambda>_. True)) demo_sessions"
proof -
  have "session_start (session_store_init SESSION_TTL_SECONDS)" by (auto simp: session_start_def)
  then show ?thesis unfolding demo_sessions_def by (blast intro: reachable.intros session_step.intros)
qed

theorem session_get_correct_witness:
  "\<exists>r. fst (session_get ''tok'' 28900 demo_sessions) = Some r \<and> se_role r \<in> {''viewer'', ''admin''}"
proof -
  have "\<exists>r. fst (session_get ''tok'' 28900 demo_sessions) = Some r"
    by (simp add: demo_sessions_def session_create_def session_get_def session_store_init_def
        SESSION_TTL_SECONDS_def Let_def)
  then show ?thesis using session_get_correct [OF demo_sessions_reachable, of "''tok''" 28900] by blast
qed

text \<open>
  Revoking a user's sessions locks the user out: whatever calls follow, as long as no new
  session is opened for that user, no token is accepted for the user again.
\<close>

theorem revoked_user_locked_out:
  assumes "reachable session_start (session_step (\<lambda>_. True)) s"
    and "(session_step (\<lambda>v. v \<noteq> u))\<^sup>*\<^sup>* (snd (revoke_user u s)) s'"
    and "fst (session_get token now s') = Some r"
  shows "se_username r \<noteq> u"
proof -
  have ok: "sessions_ok s" by (rule sessions.reachable_inv [OF assms(1)])
  then have d: "dict_ok (ss_sessions s)" by (simp add: sessions_ok_def)
  have "no_session_of u (snd (revoke_user u s))"
    using remove_sessions_map [OF d] by (simp add: no_session_of_def revoke_user_def)
  moreover have "sessions_ok (snd (revoke_user u s))"
    unfolding revoke_user_def by (rule shrinks_ok [OF shrinks_remove [OF d] ok])
  ultimately have "no_session_of u s'" using lockout.steps_inv [OF assms(2)] by blast
  with assms(3) show ?thesis
    by (auto simp: no_session_of_def session_get_def split: option.splits if_splits)
qed

theorem revoked_user_locked_out_witness:
  "\<exists>r. fst (session_get ''t2'' 200 (snd (session_create ''t2'' 150 ''bob'' ''viewer''
     (snd (revoke_user ''Alice'' demo_sessions))))) = Some r \<and> se_username r \<noteq> ''Alice''"
proof -
  let ?s = "snd (session_create ''t2'' 150 ''bob'' ''viewer'' (snd (revoke_user ''Alice'' demo_sessions)))"
  have "session_step (\<lambda>v. v \<noteq> ''Alice'') (snd (revoke_user ''Alice'' demo_sessions)) ?s"
    by (rule session_step.intros) simp
  then have st: "(session_step (\<lambda>v. v \<noteq> ''Alice''))\<^sup>*\<^sup>* (snd (revoke_user ''Alice'' demo_sessions)) ?s" by blast
  have "ss_ttl_seconds (snd (revoke_user ''Alice'' demo_sessions)) = SESSION_TTL_SECONDS"
    by (simp add: revoke_user_def remove_sessions_def demo_sessions_def session_create_def session_store_init_def Let_def)
  then obtain r where r: "fst (session_get ''t2'' 200 ?s) = Some r"
    by (simp add: session_create_def session_get_def Let_def SESSION_TTL_SECONDS_def)
  from revoked_user_locked_out [OF demo_sessions_reachable st r] r show ?thesis by blast
qed

end
