(* ===== verification/Node.thy ===== *)
theory Node
  imports Gossip Checkpoint Auth
begin

text \<open>
  The state of \<open>Node\<close> in \<open>mdrj/node.py\<close>, its registry of peers, its users and the
  consensus membership. The database, the gossip queue and the metrics engine, which the gossip
  engine shares with the node, are the field \<open>nd_shared\<close>. An operation is a function on the node
  that returns a value or an exception together with the node it leaves: what was changed before an
  exception stays changed, as in Python. The clock is the argument \<open>clock\<close>: \<open>clock i\<close> is the
  \<open>i\<close>-th reading the operation makes.
\<close>

section \<open>Operations with state and exceptions\<close>

type_synonym ('s, 'a) op = "'s \<Rightarrow> 'a result \<times> 's"

definition op_ret :: "'a \<Rightarrow> ('s, 'a) op" where
  "op_ret x = (\<lambda>s. (Inr x, s))"

definition op_bind :: "('s, 'a) op \<Rightarrow> ('a \<Rightarrow> ('s, 'b) op) \<Rightarrow> ('s, 'b) op" where
  "op_bind m f = (\<lambda>s. case m s of (Inl e, s') \<Rightarrow> (Inl e, s') | (Inr x, s') \<Rightarrow> f x s')"

definition op_lift :: "('s \<Rightarrow> 'a result) \<Rightarrow> ('s, 'a) op" where
  "op_lift f = (\<lambda>s. (f s, s))"

definition op_raise :: "py_error \<Rightarrow> ('s, 'a) op" where
  "op_raise e = (\<lambda>s. (Inl e, s))"

definition op_mod :: "('s \<Rightarrow> 's) \<Rightarrow> ('s, unit) op" where
  "op_mod f = (\<lambda>s. (Inr (), f s))"

definition op_get :: "('s \<Rightarrow> 'a) \<Rightarrow> ('s, 'a) op" where
  "op_get f = (\<lambda>s. (Inr (f s), s))"

text \<open>\<open>try: m except E: handler\<close>, for the exceptions the handler names.\<close>

definition op_catch :: "(py_error \<Rightarrow> bool) \<Rightarrow> ('s, 'a) op \<Rightarrow> ('s, 'a) op \<Rightarrow> ('s, 'a) op" where
  "op_catch caught m h = (\<lambda>s. case m s of (Inl e, s') \<Rightarrow> if caught e then h s' else (Inl e, s') | r \<Rightarrow> r)"

fun op_each :: "('x \<Rightarrow> ('s, 'a) op) \<Rightarrow> 'x list \<Rightarrow> ('s, 'a list) op" where
  "op_each f [] = op_ret []"
| "op_each f (x # xs) = op_bind (f x) (\<lambda>y. op_bind (op_each f xs) (\<lambda>ys. op_ret (y # ys)))"

named_theorems op_simps \<open>running an operation\<close>

lemma op_run [op_simps]:
  "op_ret x s = (Inr x, s)" "op_lift g s = (g s, s)" "op_raise e s = (Inl e, s)" "op_mod h s = (Inr (), h s)"
  "op_get k s = (Inr (k s), s)"
  by (simp_all add: op_ret_def op_lift_def op_raise_def op_mod_def op_get_def)

lemma op_bind_run [op_simps]:
  "op_bind m f s = (case fst (m s) of Inl e \<Rightarrow> (Inl e, snd (m s)) | Inr x \<Rightarrow> f x (snd (m s)))"
  by (simp add: op_bind_def split: prod.splits sum.splits)

section \<open>State\<close>

datatype NodeState = STARTED | ISOLATED | MERGING | RUN

record node_config =
  nc_node_id :: string
  nc_listen :: string
  nc_peers :: "string list"
  nc_profile :: node_profile
  nc_gossip :: gossip_engine
  nc_hmac_key :: string
  nc_host_id :: string
  nc_auto_approve_discovered :: bool
  nc_recompute_debounce_sec :: rat
  nc_fanout_quorum_ratio :: rat
  nc_fanout_max_retries :: int
  nc_retention_enabled :: bool
  nc_max_age_days :: rat
  nc_keep_class_a :: bool
  nc_archive_path :: string
  nc_notify_enabled :: bool
  nc_notify_classes :: "string list"

record node =
  nd_config :: node_config
  nd_state :: NodeState
  nd_shared :: gossip_state
  nd_gossip_on :: bool
  nd_loop_running :: bool
  nd_recompute_dirty :: bool
  nd_recompute_task :: bool
  nd_vector_clock :: vclock
  nd_peers :: "(string, peer_info) dict"
  nd_anchors :: "string list"
  nd_membership_snapshot :: "membership_snap option"
  nd_genesis_counter :: nat
  nd_clear_tokens :: "(string, timestamp) dict"
  nd_consensus_mismatch :: "(string, nat) dict"
  nd_events_by_class_kind :: "(string \<times> string, nat) dict"
  nd_counters :: "(string, nat) dict"
  nd_tamper_evidence :: bool
  nd_session_store :: session_store
  nd_viz :: "(nat, json list) dict"
  nd_scheduled_fanouts :: "string list"
  nd_scheduled_notifications :: "string list"
  nd_archive :: "string list"

abbreviation nd_db :: "node \<Rightarrow> db" where
  "nd_db n \<equiv> gs_db (nd_shared n)"

abbreviation nd_metrics :: "node \<Rightarrow> metrics_engine" where
  "nd_metrics n \<equiv> gs_metrics (nd_shared n)"

abbreviation my_id :: "node \<Rightarrow> string" where
  "my_id n \<equiv> nc_node_id (nd_config n)"

definition set_db :: "db \<Rightarrow> node \<Rightarrow> node" where
  "set_db d n = n\<lparr>nd_shared := (nd_shared n)\<lparr>gs_db := d\<rparr>\<rparr>"

definition on_metrics :: "(metrics_engine \<Rightarrow> metrics_engine) \<Rightarrow> node \<Rightarrow> node" where
  "on_metrics f n = n\<lparr>nd_shared := (nd_shared n)\<lparr>gs_metrics := f (nd_metrics n)\<rparr>\<rparr>"

definition gossip_add_pending :: "string \<Rightarrow> node \<Rightarrow> node" where
  "gossip_add_pending event_id n = n\<lparr>nd_shared := add_pending event_id (nd_shared n)\<rparr>"

definition bump :: "string \<Rightarrow> node \<Rightarrow> node" where
  "bump counter n = n\<lparr>nd_counters := AList.update counter (dict_get (nd_counters n) counter 0 + 1) (nd_counters n)\<rparr>"

definition self_registry_address :: "node \<Rightarrow> string" where
  "self_registry_address n = ''self:'' @ my_id n"

lemma node_frame [frame_simps, simp]:
  "nd_db (set_db d n) = d" "nd_db (on_metrics f n) = nd_db n" "nd_db (gossip_add_pending x n) = nd_db n"
  "nd_db (bump c n) = nd_db n" "nd_peers (set_db d n) = nd_peers n" "nd_peers (on_metrics f n) = nd_peers n"
  "nd_peers (gossip_add_pending x n) = nd_peers n" "nd_peers (bump c n) = nd_peers n"
  "nd_config (set_db d n) = nd_config n" "nd_config (on_metrics f n) = nd_config n"
  "nd_config (gossip_add_pending x n) = nd_config n" "nd_config (bump c n) = nd_config n"
  by (simp_all add: set_db_def on_metrics_def gossip_add_pending_def add_pending_def bump_def)

section \<open>Peers\<close>

definition node_list_peers :: "node \<Rightarrow> peer_info list" where
  "node_list_peers n = map snd (nd_peers n)"

definition node_quorum :: "node \<Rightarrow> int" where
  "node_quorum n = max 1 ((int (length (nd_peers n)) + 1) div 2 + 1)"

definition refresh_peer_health :: "node \<Rightarrow> node" where
  "refresh_peer_health n = on_metrics (update_peer_health (node_list_peers n) (node_quorum n)) n"

definition gossip_eligible :: "peer_info \<Rightarrow> bool" where
  "gossip_eligible p \<longleftrightarrow> pi_enabled p \<and> \<not> pi_is_self p \<and> pi_approval_status p = ''approved''"

definition reload_peers_from_storage :: "node \<Rightarrow> node" where
  "reload_peers_from_storage n =
     n\<lparr>nd_peers := dict_of (map (\<lambda>p. (pi_address p, p)) (filter gossip_eligible (list_peers (nd_db n))))\<rparr>"

definition current_role :: "node \<Rightarrow> string" where
  "current_role n =
     (case List.find pi_is_self (list_peers (nd_db n)) of
        Some p \<Rightarrow> normalize_node_role (Some (pi_role p))
      | None \<Rightarrow> normalize_node_role (Some (np_role (nc_profile (nd_config n)))))"

definition register_peer :: "pylib \<Rightarrow> (nat \<Rightarrow> timestamp) \<Rightarrow> string \<Rightarrow> string \<Rightarrow> string \<Rightarrow> string \<Rightarrow> string \<Rightarrow> string option \<Rightarrow>
    (node, unit) op" where
  "register_peer L clock address note source role node_id approval_status = (\<lambda>n.
     let approval = (case approval_status of Some a \<Rightarrow> a
           | None \<Rightarrow> if source \<in> {''mdns'', ''k8s''} then ''pending'' else ''approved'');
         d1 = snd (ensure_peer address node_id (Some (clock 0)) True True note source role approval (nd_db n));
         (found, d2) = update_peer address (Some True) (Some note) (Some (clock 1)) (Some True) (Some role)
           (Some node_id) (Some approval) d1;
         n1 = set_db d2 n
     in case found of
          None \<Rightarrow> (Inr (), n1)
        | Some peer \<Rightarrow>
            let peer' = peer\<lparr>pi_source := source\<rparr>;
                approved = (pi_approval_status peer = ''approved'');
                n2 = (if approved then n1\<lparr>nd_peers := AList.update address peer' (nd_peers n1)\<rparr> else n1);
                n3 = refresh_peer_health n2
            in if nd_gossip_on n3 \<and> approved
               then (case list_events L (nd_db n3) 256 None of
                       Inl e \<Rightarrow> (Inl e, n3)
                     | Inr events \<Rightarrow> (Inr (), fold (\<lambda>e. gossip_add_pending (ev_id e)) events n3))
               else (Inr (), n3))"

definition set_approval :: "string \<Rightarrow> string \<Rightarrow> node \<Rightarrow> peer_info option \<times> node" where
  "set_approval status address n =
     (let (peer, d) = update_peer address None None None None None None (Some status) (nd_db n)
      in (peer, refresh_peer_health (reload_peers_from_storage (set_db d n))))"

definition approve_peer :: "string \<Rightarrow> node \<Rightarrow> peer_info option \<times> node" where
  "approve_peer address n = set_approval ''approved'' address n"

definition reject_peer :: "string \<Rightarrow> node \<Rightarrow> peer_info option \<times> node" where
  "reject_peer address n = set_approval ''rejected'' address n"

definition on_discovered_peer :: "pylib \<Rightarrow> (nat \<Rightarrow> timestamp) \<Rightarrow> string \<Rightarrow> string \<Rightarrow> string \<Rightarrow> (node, unit) op" where
  "on_discovered_peer L clock address node_id source = (\<lambda>n.
     if address \<in> pi_address ` set (list_peers (nd_db n)) then (Inr (), n)
     else let initial_status = (if nc_auto_approve_discovered (nd_config n) then ''approved'' else ''pending'')
          in op_catch (\<lambda>_. True) (register_peer L clock address [] source ''node'' node_id (Some initial_status)) (op_ret ()) n)"

definition node_update_peer :: "timestamp \<Rightarrow> string \<Rightarrow> bool option \<Rightarrow> string option \<Rightarrow> string option \<Rightarrow> string option \<Rightarrow> string option \<Rightarrow>
    node \<Rightarrow> peer_info option \<times> node" where
  "node_update_peer now address enabled note role node_id approval_status n =
     (let (peer, d) =
        (if address = self_registry_address n
         then update_peer address (Some True) note (Some now) (Some True) role (Some (my_id n)) approval_status (nd_db n)
         else update_peer address enabled note None None role node_id approval_status (nd_db n))
      in (peer, refresh_peer_health (reload_peers_from_storage (set_db d n))))"

definition remove_peer :: "string \<Rightarrow> node \<Rightarrow> node" where
  "remove_peer address n =
     (if address = self_registry_address n then n
      else refresh_peer_health (reload_peers_from_storage (set_db (delete_peer address (nd_db n)) n)))"

text \<open>
  \<open>_hydrate_peer_node_ids\<close>: \<open>status address\<close> is the peer's answer to \<open>GET /status\<close>, the
  \<open>node_id\<close> field as stripped text, or none when the request fails.
\<close>

definition hydrate_peer_node_ids :: "(string \<Rightarrow> string option) \<Rightarrow> (string \<Rightarrow> timestamp) \<Rightarrow> node \<Rightarrow> node" where
  "hydrate_peer_node_ids status seen_at n =
     (let peers = filter (\<lambda>p. \<not> pi_is_self p \<and> pi_enabled p) (list_peers (nd_db n));
          d = fold (\<lambda>p d.
                if pi_node_id p \<noteq> [] then d
                else case status (pi_address p) of
                  None \<Rightarrow> d
                | Some remote \<Rightarrow> if remote = [] then d
                    else snd (update_peer (pi_address p) None None (Some (seen_at (pi_address p))) (Some True) None (Some remote) None d))
              peers (nd_db n)
      in reload_peers_from_storage (set_db d n))"

section \<open>Users\<close>

definition add_user :: "scrypt \<Rightarrow> string \<Rightarrow> timestamp \<Rightarrow> string \<Rightarrow> string \<Rightarrow> string \<Rightarrow> (node, string \<times> string) op" where
  "add_user kdf salt now username password role =
     (let normalized = py_lower (py_strip username); normalized_role = normalize_role (Some role)
      in if normalized = [] then op_raise (ValueError ''username required'')
         else op_bind (op_lift (\<lambda>_. hash_password kdf salt password)) (\<lambda>password_hash.
              op_bind (op_mod (\<lambda>n. set_db (upsert_user now normalized password_hash normalized_role (nd_db n)) n)) (\<lambda>_.
              op_ret (normalized, normalized_role))))"

definition remove_user :: "string \<Rightarrow> node \<Rightarrow> bool \<times> node" where
  "remove_user username n =
     (let normalized = py_lower (py_strip username);
          (removed, d) = delete_user normalized (nd_db n);
          n1 = set_db d n
      in (removed, if removed then n1\<lparr>nd_session_store := snd (revoke_user normalized (nd_session_store n1))\<rparr> else n1))"

definition authenticate :: "scrypt \<Rightarrow> string \<Rightarrow> string \<Rightarrow> node \<Rightarrow> (string \<times> user_row) option result" where
  "authenticate kdf username password n =
     (let name = py_lower (py_strip username)
      in case get_user (nd_db n) name of
           None \<Rightarrow> Inr None
         | Some record \<Rightarrow>
             res_bind (verify_password kdf password (us_password_hash record)) (\<lambda>ok.
               Inr (if ok then Some (name, record) else None)))"

section \<open>Start of the node\<close>

text \<open>\<open>self_note\<close> is the label of the node's own row in the registry.\<close>

definition node_init :: "node_config \<Rightarrow> db \<Rightarrow> string \<Rightarrow> (nat \<Rightarrow> timestamp) \<Rightarrow> node" where
  "node_init config d self_note clock =
     (let profile = nc_profile config;
          d1 = snd (ensure_peer (''self:'' @ nc_node_id config) (nc_node_id config) (Some (clock 0)) True True self_note
                 ''self'' (normalize_node_role (Some (np_role profile))) ''approved'' d);
          d2 = fold (\<lambda>(i, a) d. snd (ensure_peer a [] (Some (clock (Suc i))) True True [] ''config'' ''node'' ''approved'' d))
                 (enumerate 0 (nc_peers config)) d1;
          metrics = metrics_init (pz_period_sec (ge_prioritizer (nc_gossip config))) (np_memory_mb profile) (np_bw_kbps profile)
      in reload_peers_from_storage
           \<lparr>nd_config = config, nd_state = STARTED,
            nd_shared = \<lparr>gs_pending = [], gs_known_pending = {}, gs_db = d2, gs_metrics = metrics\<rparr>,
            nd_gossip_on = False, nd_loop_running = False, nd_recompute_dirty = False, nd_recompute_task = False,
            nd_vector_clock = [], nd_peers = [], nd_anchors = [], nd_membership_snapshot = None,
            nd_genesis_counter = 0, nd_clear_tokens = [], nd_consensus_mismatch = [], nd_events_by_class_kind = [],
            nd_counters = [], nd_tamper_evidence = False, nd_session_store = session_store_init SESSION_TTL_SECONDS,
            nd_viz = [], nd_scheduled_fanouts = [], nd_scheduled_notifications = [], nd_archive = []\<rparr>)"

section \<open>Consensus membership\<close>

definition registry_entry :: "peer_info \<Rightarrow> membership_entry" where
  "registry_entry p = \<lparr>me_node_id = py_strip (pi_node_id p), me_address = pi_address p, me_role = pi_role p,
     me_is_self = pi_is_self p\<rparr>"

fun collect_entries :: "peer_info list \<Rightarrow> string set \<Rightarrow> membership_entry list" where
  "collect_entries [] seen = []"
| "collect_entries (p # ps) seen =
     (if \<not> pi_enabled p \<and> \<not> pi_is_self p then collect_entries ps seen
      else let node_id = py_strip (pi_node_id p)
           in if node_id = [] \<or> node_id \<in> seen then collect_entries ps seen
              else registry_entry p # collect_entries ps (insert node_id seen))"

definition membership_entries_from_registry :: "node \<Rightarrow> membership_entry list" where
  "membership_entries_from_registry n =
     (let entries = collect_entries (list_peers (nd_db n)) {};
          entries' = (if my_id n \<in> me_node_id ` set entries then entries
            else entries @ [\<lparr>me_node_id = my_id n, me_address = self_registry_address n, me_role = current_role n,
                             me_is_self = True\<rparr>])
      in sort_key me_node_id entries')"

definition save_membership :: "membership_snap \<Rightarrow> node \<Rightarrow> node" where
  "save_membership snap n =
     (set_db (save_consensus_membership_snapshot snap (nd_db n)) n)\<lparr>nd_membership_snapshot := Some snap\<rparr>"

definition active_consensus_membership :: "pylib \<Rightarrow> node \<Rightarrow> membership_snap \<times> node" where
  "active_consensus_membership L n =
     (case first_some (nd_membership_snapshot n) (get_consensus_membership_snapshot (nd_db n)) of
        Some snap \<Rightarrow> (snap, n\<lparr>nd_membership_snapshot := Some snap\<rparr>)
      | None \<Rightarrow> let snap = membership_snapshot L 1 (membership_entries_from_registry n) in (snap, save_membership snap n))"

end
