(* ===== verification/NodePeers.thy ===== *)
theory NodePeers
  imports Node
begin

text \<open>
  Which peers a node talks to. Gossip, broadcasts and synchronisation all go to the active set
  \<open>_peers\<close>; the theory shows that this set only ever holds peers that are enabled and approved in the
  registry, through every operation the HTTP interface and the discovery callback can trigger.
\<close>

definition registry_allows :: "db \<Rightarrow> string \<Rightarrow> bool" where
  "registry_allows d a \<longleftrightarrow> (\<exists>r. map_of (t_peers d) a = Some r \<and> pw_enabled r \<and>
     normalize_approval_status (pw_approval_status r) = ''approved'')"

definition peer_gate :: "node \<Rightarrow> bool" where
  "peer_gate n \<longleftrightarrow> dict_ok (t_peers (nd_db n)) \<and> dict_ok (nd_peers n) \<and>
     (\<forall>a \<in> fst ` set (nd_peers n). registry_allows (nd_db n) a)"

lemma normalize_approval_const [simp]:
  "normalize_approval_status (Some ''approved'') = ''approved''" "normalize_approval_status (Some ''pending'') = ''pending''"
  "normalize_approval_status (Some ''rejected'') = ''rejected''"
  by (simp_all add: normalize_approval_status_def PEER_APPROVAL_STATUSES_def Let_def py_strip_def py_lower_def
      is_space_def lower_char_def)

section \<open>Reloading the active set\<close>

lemma row_peer_info_sel [simp]:
  "pi_address (row_peer_info a r) = a" "pi_enabled (row_peer_info a r) = pw_enabled r"
  "pi_approval_status (row_peer_info a r) = normalize_approval_status (pw_approval_status r)"
  by (simp_all add: row_peer_info_def Let_def)

lemma set_list_peers: "set (list_peers d) = (\<lambda>(a, r). row_peer_info a r) ` set (t_peers d)"
  by (simp add: list_peers_def)

lemma reload_gate:
  assumes "dict_ok (t_peers (nd_db n))"
  shows "peer_gate (reload_peers_from_storage n)"
proof -
  let ?kvs = "map (\<lambda>p. (pi_address p, p)) (filter gossip_eligible (list_peers (nd_db n)))"
  have "fst ` set (dict_of ?kvs) \<subseteq> fst ` set ?kvs"
  proof
    fix a assume "a \<in> fst ` set (dict_of ?kvs)"
    then have "map_of (dict_of ?kvs) a \<noteq> None" by (simp add: map_of_eq_None_iff)
    then show "a \<in> fst ` set ?kvs" by (simp add: map_of_dict_of map_of_eq_None_iff)
  qed
  moreover have "registry_allows (nd_db n) a" if "a \<in> fst ` set ?kvs" for a
    using that assms by (auto simp: registry_allows_def gossip_eligible_def set_list_peers)
  ultimately show ?thesis using assms unfolding peer_gate_def reload_peers_from_storage_def by auto
qed

section \<open>Every operation keeps the gate closed\<close>

lemma dict_ok_store_peer [simp]: "dict_ok (t_peers d) \<Longrightarrow> dict_ok (t_peers (store_peer p d))"
  by (simp add: store_peer_def)

lemma dict_ok_peer_ops [simp]:
  assumes "dict_ok (t_peers d)"
  shows "dict_ok (t_peers (snd (ensure_peer a nid ls h en nt src role ap d)))"
    "dict_ok (t_peers (snd (update_peer a oen ont ols oh orole onid oap d)))"
    "dict_ok (t_peers (delete_peer a d))" "dict_ok (t_peers (upsert_peer a t h d))"
  using assms
  by (simp_all add: ensure_peer_def update_peer_def delete_peer_def upsert_peer_def Let_def split: option.splits)

lemma peer_gate_health [simp]: "peer_gate (refresh_peer_health n) = peer_gate n"
  by (simp add: peer_gate_def refresh_peer_health_def)

lemma peer_gate_pending [simp]: "peer_gate (fold (\<lambda>e. gossip_add_pending (ev_id e)) es n) = peer_gate n"
  by (induction es arbitrary: n) (simp_all add: peer_gate_def)

lemma update_peer_row:
  "snd (update_peer a en nt ls h role nid ap d) = d' \<Longrightarrow> b \<noteq> a \<Longrightarrow> map_of (t_peers d') b = map_of (t_peers d) b"
  by (auto simp: update_peer_def store_peer_def Let_def split: option.splits)

lemma ensure_peer_row:
  "b \<noteq> a \<Longrightarrow> map_of (t_peers (snd (ensure_peer a nid ls h en nt src role ap d))) b = map_of (t_peers d) b"
  by (auto simp: ensure_peer_def store_peer_def Let_def split: option.splits)

lemma register_writes:
  fixes ap :: string
  defines "status \<equiv> normalize_approval_status (Some ap)"
  shows "\<exists>p. update_peer a (Some True) ont ols oh orole onid (Some ap) (snd (ensure_peer a nid ls h en nt src role ap' d)) =
      (Some p, store_peer p (snd (ensure_peer a nid ls h en nt src role ap' d))) \<and>
      pi_address p = a \<and> pi_enabled p \<and> pi_approval_status p = status"
proof -
  have "map_of (t_peers (snd (ensure_peer a nid ls h en nt src role ap' d))) a \<noteq> None"
    by (simp add: ensure_peer_def store_peer_def Let_def split: option.splits)
  then show ?thesis by (auto simp: update_peer_def Let_def status_def)
qed

lemma registry_allows_store:
  "pi_enabled p \<Longrightarrow> pi_approval_status p = ''approved'' \<Longrightarrow> registry_allows (store_peer p d) (pi_address p)"
  by (simp add: registry_allows_def store_peer_def)

lemma register_peer_gate:
  assumes gate: "peer_gate n"
    and fresh: "approval = ''approved'' \<or> map_of (t_peers (nd_db n)) address = None"
    and approval: "approval = (case approval_status of Some a \<Rightarrow> a
       | None \<Rightarrow> if source \<in> {''mdns'', ''k8s''} then ''pending'' else ''approved'')"
    and known: "approval \<in> {''approved'', ''pending''}"
  shows "peer_gate (snd (register_peer L clock address note_text source role node_id approval_status n)) \<and>
    (approval = ''pending'' \<longrightarrow>
      nd_peers (snd (register_peer L clock address note_text source role node_id approval_status n)) = nd_peers n)"
proof -
  define d1 where "d1 = snd (ensure_peer address node_id (Some (clock 0)) True True note_text source role approval (nd_db n))"
  obtain p where p: "update_peer address (Some True) (Some note_text) (Some (clock 1)) (Some True) (Some role)
      (Some node_id) (Some approval) d1 = (Some p, store_peer p d1)"
    "pi_address p = address" "pi_enabled p" "pi_approval_status p = normalize_approval_status (Some approval)"
    unfolding d1_def using register_writes by meson
  have status: "pi_approval_status p = approval" using p(4) known by auto
  have ok1: "dict_ok (t_peers d1)" using gate by (simp add: d1_def peer_gate_def)
  have rows: "map_of (t_peers (store_peer p d1)) b = map_of (t_peers (nd_db n)) b" if "b \<noteq> address" for b
    using that p(2) ensure_peer_row [OF that] by (simp add: d1_def store_peer_def)
  have keep: "registry_allows (store_peer p d1) b" if "b \<in> fst ` set (nd_peers n)" for b
  proof (cases "b = address")
    case True
    have "registry_allows (nd_db n) b" using gate that unfolding peer_gate_def by blast
    then have "approval = ''approved''" using fresh True by (auto simp: registry_allows_def)
    then show ?thesis using registry_allows_store [OF p(3)] status p(2) True by simp
  next
    case False
    then show ?thesis using gate that rows [OF False] unfolding peer_gate_def registry_allows_def by metis
  qed
  let ?n2 = "if approval = ''approved''
     then (set_db (store_peer p d1) n)\<lparr>nd_peers := AList.update address (p\<lparr>pi_source := source\<rparr>) (nd_peers n)\<rparr>
     else set_db (store_peer p d1) n"
  have gate2: "peer_gate ?n2"
  proof (cases "approval = ''approved''")
    case True
    then have "registry_allows (store_peer p d1) address" using registry_allows_store [OF p(3)] status p(2) by simp
    with keep have "\<forall>b \<in> {address} \<union> fst ` set (nd_peers n). registry_allows (store_peer p d1) b" by blast
    with True gate ok1 show ?thesis by (simp add: peer_gate_def dom_update)
  next
    case False
    with gate ok1 keep show ?thesis by (simp add: peer_gate_def)
  qed
  define n3 where "n3 = refresh_peer_health ?n2"
  have run: "snd (register_peer L clock address note_text source role node_id approval_status n) =
    (if nd_gossip_on n3 \<and> approval = ''approved''
     then (case list_events L (nd_db n3) 256 None of Inl e \<Rightarrow> n3
       | Inr es \<Rightarrow> fold (\<lambda>e. gossip_add_pending (ev_id e)) es n3) else n3)"
    unfolding register_peer_def Let_def approval [symmetric] d1_def [symmetric] p(1)
    using status by (simp add: n3_def split: sum.splits)
  have "peer_gate n3" using gate2 by (simp add: n3_def)
  moreover have "approval = ''pending'' \<Longrightarrow> nd_peers n3 = nd_peers n" by (simp add: n3_def refresh_peer_health_def)
  ultimately show ?thesis unfolding run by (auto split: sum.splits)
qed
lemma set_approval_gate: "peer_gate n \<Longrightarrow> peer_gate (snd (set_approval status address n))"
  by (simp add: set_approval_def reload_gate peer_gate_def [of n] split: prod.split)
    (metis dict_ok_peer_ops(2) node_frame(1) reload_gate snd_conv)

lemma node_update_peer_gate: "peer_gate n \<Longrightarrow> peer_gate (snd (node_update_peer now a en nt role nid ap n))"
  unfolding node_update_peer_def peer_gate_def [of n]
  by (auto simp: Let_def split: prod.split intro!: reload_gate) (metis dict_ok_peer_ops(2) snd_conv)+

lemma remove_peer_gate: "peer_gate n \<Longrightarrow> peer_gate (remove_peer a n)"
  by (auto simp: remove_peer_def peer_gate_def [of n] intro!: reload_gate)

lemma hydrate_gate: "peer_gate n \<Longrightarrow> peer_gate (hydrate_peer_node_ids status seen n)"
proof -
  assume "peer_gate n"
  then have ok: "dict_ok (t_peers (nd_db n))" by (simp add: peer_gate_def)
  have "dict_ok (t_peers (fold (\<lambda>p d.
                if pi_node_id p \<noteq> [] then d
                else case status (pi_address p) of
                  None \<Rightarrow> d
                | Some remote \<Rightarrow> if remote = [] then d
                    else snd (update_peer (pi_address p) None None (Some (seen (pi_address p))) (Some True) None (Some remote) None d))
              ps d))" if "dict_ok (t_peers d)" for ps d
    using that by (induction ps arbitrary: d) (simp_all split: option.split)
  with ok show ?thesis unfolding hydrate_peer_node_ids_def Let_def by (intro reload_gate) simp
qed

lemma upsert_peer_gate: "peer_gate n \<Longrightarrow> peer_gate (set_db (upsert_peer a t h (nd_db n)) n)"
proof -
  assume gate: "peer_gate n"
  have "registry_allows (upsert_peer a t h (nd_db n)) b" if "registry_allows (nd_db n) b" for b
    using that by (cases "map_of (t_peers (nd_db n)) a"; cases "b = a") (simp_all add: registry_allows_def upsert_peer_def)
  with gate show ?thesis by (simp add: peer_gate_def)
qed

lemma discovered_peer_gate:
  assumes "peer_gate n" "source \<in> {''mdns'', ''k8s''}"
  shows "peer_gate (snd (on_discovered_peer L clock address node_id source n)) \<and>
    (\<not> nc_auto_approve_discovered (nd_config n) \<longrightarrow>
      nd_peers (snd (on_discovered_peer L clock address node_id source n)) = nd_peers n)"
proof (cases "address \<in> pi_address ` set (list_peers (nd_db n))")
  case True
  then show ?thesis using assms(1) by (simp add: on_discovered_peer_def)
next
  case False
  then have "map_of (t_peers (nd_db n)) address = None"
    by (force simp: map_of_eq_None_iff set_list_peers image_iff)
  define st where "st = (if nc_auto_approve_discovered (nd_config n) then ''approved'' else ''pending'')"
  let ?m = "register_peer L clock address [] source ''node'' node_id (Some st)"
  have reg: "peer_gate (snd (?m n)) \<and> (st = ''pending'' \<longrightarrow> nd_peers (snd (?m n)) = nd_peers n)"
    using \<open>map_of (t_peers (nd_db n)) address = None\<close>
    by (intro register_peer_gate [OF assms(1)]) (auto simp: st_def)
  have "snd (op_catch (\<lambda>_. True) ?m (op_ret ()) n) = snd (?m n)"
    by (simp add: op_catch_def op_ret_def split: prod.split sum.split)
  then have "snd (on_discovered_peer L clock address node_id source n) = snd (?m n)"
    using False by (simp add: on_discovered_peer_def st_def)
  moreover have "\<not> nc_auto_approve_discovered (nd_config n) \<Longrightarrow> st = ''pending''" by (simp add: st_def)
  ultimately show ?thesis using reg by simp
qed

inductive peer_step :: "pylib \<Rightarrow> node \<Rightarrow> node \<Rightarrow> bool" for L where
  ps_register: "peer_step L n (snd (register_peer L clock a nt ''ui'' role nid None n))"
| ps_discover: "source \<in> {''mdns'', ''k8s''} \<Longrightarrow> peer_step L n (snd (on_discovered_peer L clock a nid source n))"
| ps_approve: "peer_step L n (snd (approve_peer a n))"
| ps_reject: "peer_step L n (snd (reject_peer a n))"
| ps_update: "peer_step L n (snd (node_update_peer now a en nt role nid None n))"
| ps_remove: "peer_step L n (remove_peer a n)"
| ps_hydrate: "peer_step L n (hydrate_peer_node_ids status seen n)"
| ps_contact: "peer_step L n (set_db (upsert_peer a t h (nd_db n)) n)"

definition node_start :: "node \<Rightarrow> bool" where
  "node_start n \<longleftrightarrow> (\<exists>config d self_note clock. dict_ok (t_peers d) \<and> n = node_init config d self_note clock)"

lemma fold_ensure_ok:
  "dict_ok (t_peers d) \<Longrightarrow> dict_ok (t_peers (fold (\<lambda>(i, a) d. snd (ensure_peer a [] (Some (clock (Suc i))) True True [] ''config'' ''node'' ''approved'' d)) ps d))"
  by (induction ps arbitrary: d) (auto split: prod.splits)

lemma node_init_gate: "dict_ok (t_peers d) \<Longrightarrow> peer_gate (node_init config d self_note clock)"
  unfolding node_init_def Let_def by (rule reload_gate) (simp add: fold_ensure_ok)

interpretation peer_gate: invariant_system node_start "peer_step L" peer_gate for L
proof
  show "peer_gate n" if "node_start n" for n
    using that by (auto simp: node_start_def node_init_gate)
  show "peer_gate n'" if "peer_gate n" "peer_step L n n'" for n n'
    using that(2,1)
  proof cases
    case (ps_register clock a nt role nid)
    then show ?thesis using register_peer_gate [OF that(1), of "''approved''"] by simp
  next
    case (ps_discover source clock a nid)
    then show ?thesis using discovered_peer_gate [OF that(1)] by blast
  qed (use that(1) in \<open>simp_all add: approve_peer_def reject_peer_def set_approval_gate node_update_peer_gate
      remove_peer_gate hydrate_gate upsert_peer_gate\<close>)
qed

text \<open>
  C23: the admission gate. From the start of a node, through any sequence of registrations,
  discoveries, approvals, rejections, updates and removals, every peer in the active set, to which
  the node gossips, is enabled and approved in the registry; without automatic approval, a
  discovered address leaves the active set as it was; and a rejected address is not in it.
\<close>

theorem gossip_only_to_approved:
  assumes "reachable node_start (peer_step L) n"
  shows "(\<forall>peer \<in> fst ` set (nd_peers n). \<exists>r. map_of (t_peers (nd_db n)) peer = Some r \<and> pw_enabled r \<and>
      normalize_approval_status (pw_approval_status r) = ''approved'') \<and>
    (source \<in> {''mdns'', ''k8s''} \<and> \<not> nc_auto_approve_discovered (nd_config n) \<longrightarrow>
      nd_peers (snd (on_discovered_peer L clock address node_id source n)) = nd_peers n) \<and>
    address \<notin> fst ` set (nd_peers (snd (reject_peer address n)))"
proof -
  have gate: "peer_gate n" by (rule peer_gate.reachable_inv [OF assms])
  have "peer_gate (snd (reject_peer address n))" using gate by (simp add: reject_peer_def set_approval_gate)
  moreover have "\<not> registry_allows (nd_db (snd (reject_peer address n))) address"
    by (auto simp: reject_peer_def set_approval_def registry_allows_def update_peer_def store_peer_def Let_def
        reload_peers_from_storage_def refresh_peer_health_def split: option.splits)
  ultimately have "address \<notin> fst ` set (nd_peers (snd (reject_peer address n)))"
    unfolding peer_gate_def by blast
  then show ?thesis using gate discovered_peer_gate [OF gate] unfolding peer_gate_def registry_allows_def by blast
qed

definition demo_config :: node_config where
  "demo_config = \<lparr>nc_node_id = ''n1'', nc_listen = ''0.0.0.0:8080'', nc_peers = [''n2:8080''],
     nc_profile = pz_profile (ge_prioritizer demo_gossip), nc_gossip = demo_gossip, nc_hmac_key = ''key'',
     nc_host_id = [], nc_auto_approve_discovered = False, nc_recompute_debounce_sec = 0,
     nc_fanout_quorum_ratio = 2 / 3, nc_fanout_max_retries = 2, nc_retention_enabled = True, nc_max_age_days = 1,
     nc_keep_class_a = True, nc_archive_path = [], nc_notify_enabled = False, nc_notify_classes = [''A'']\<rparr>"

definition demo_node :: node where
  "demo_node = node_init demo_config empty_db ''self'' (\<lambda>i. of_nat i)"

lemma demo_node_start: "node_start demo_node"
proof -
  have "dict_ok (t_peers empty_db)" by (simp add: empty_db_def)
  then show ?thesis unfolding node_start_def demo_node_def by blast
qed

theorem gossip_only_to_approved_witness:
  "map fst (nd_peers demo_node) = [''n2:8080''] \<and>
   ''n2:8080'' \<notin> fst ` set (nd_peers (snd (reject_peer ''n2:8080'' demo_node)))"
proof
  show "map fst (nd_peers demo_node) = [''n2:8080'']" by code_simp
  show "''n2:8080'' \<notin> fst ` set (nd_peers (snd (reject_peer ''n2:8080'' demo_node)))"
    using gossip_only_to_approved [of demo_lib demo_node] reach_init [of node_start demo_node, OF demo_node_start] by blast
qed

end
