(* ===== verification/NodeConsensus.thy ===== *)
theory NodeConsensus
  imports NodePeers Agreement
begin

text \<open>
  The consensus side of \<open>Node\<close>: recomputing the consensus state from the database
  (\<open>_recompute_consensus\<close>), the debouncing of recomputations, the reconfiguration of the
  membership, and the digest by which nodes compare their finalized prefixes.
  \<open>rl\<close> is the interpreter's recursion limit, \<open>plan\<close> the order in which the database returns the
  rows of a query without \<open>ORDER BY\<close>.
\<close>

section \<open>Recomputation\<close>

definition path_meta_of :: "pylib \<Rightarrow> db \<Rightarrow> event \<Rightarrow> hop list" where
  "path_meta_of L d e = (case get_envelope L d (ev_id e) of Inr (Some env) \<Rightarrow> env_path_meta env | _ \<Rightarrow> [])"

definition snapshot_membership :: "membership_snap \<Rightarrow> membership_entry list" where
  "snapshot_membership snap =
     map (\<lambda>m. m\<lparr>me_node_id := py_strip (me_node_id m), me_role := str_or (me_role m) ''node''\<rparr>)
       (filter (\<lambda>m. py_strip (me_node_id m) \<noteq> []) (ms_members snap))"

definition pick_events :: "event list \<Rightarrow> string list \<Rightarrow> event list" where
  "pick_events events order_ids = List.map_filter (map_of (dict_of (map (\<lambda>e. (ev_id e, e)) events))) order_ids"

fun is_KeyError :: "py_error \<Rightarrow> bool" where
  "is_KeyError (KeyError _) = True"
| "is_KeyError _ = False"

definition recompute_consensus :: "pylib \<Rightarrow> nat \<Rightarrow> (string list \<Rightarrow> string list) \<Rightarrow> (node, unit) op" where
  "recompute_consensus L rl plan = (\<lambda>n.
     case all_events L (nd_db n) of
       Inl e \<Rightarrow> (Inl e, n)
     | Inr events \<Rightarrow>
         if events = [] then (Inr (), n)
         else
           let path_meta = dict_of (map (\<lambda>e. (ev_id e, path_meta_of L (nd_db n) e)) events);
               (snapshot, n1) = active_consensus_membership L n
           in case db_toposort plan (nd_db n1) of
                Inl e \<Rightarrow> if is_KeyError e then (Inr (), n1) else (Inl e, n1)
              | Inr order_ids \<Rightarrow>
                  (case recompute L rl (my_id n1) (pick_events events order_ids) (snapshot_membership snapshot) path_meta of
                     Inl _ \<Rightarrow> (Inr (), n1)
                   | Inr states \<Rightarrow> (Inr (), set_db (replace_consensus_state states (nd_db n1)) n1)))"

section \<open>Debouncing\<close>

definition request_recompute :: "pylib \<Rightarrow> nat \<Rightarrow> (string list \<Rightarrow> string list) \<Rightarrow> (node, unit) op" where
  "request_recompute L rl plan = (\<lambda>n.
     if nc_recompute_debounce_sec (nd_config n) \<le> 0 then recompute_consensus L rl plan n
     else let n1 = n\<lparr>nd_recompute_dirty := True\<rparr>
          in if \<not> nd_loop_running n1 then
               op_bind (recompute_consensus L rl plan) (\<lambda>_. op_mod (\<lambda>n. n\<lparr>nd_recompute_dirty := False\<rparr>)) n1
             else (Inr (), n1\<lparr>nd_recompute_task := True\<rparr>))"

text \<open>The body of the task once its window has passed; the task is done afterwards.\<close>

definition debounced_recompute :: "pylib \<Rightarrow> nat \<Rightarrow> (string list \<Rightarrow> string list) \<Rightarrow> (node, unit) op" where
  "debounced_recompute L rl plan = (\<lambda>n.
     if \<not> nd_recompute_dirty n then (Inr (), n\<lparr>nd_recompute_task := False\<rparr>)
     else op_bind (op_catch (\<lambda>_. True) (recompute_consensus L rl plan) (op_ret ()))
            (\<lambda>_. op_mod (\<lambda>n. n\<lparr>nd_recompute_task := False\<rparr>)) (n\<lparr>nd_recompute_dirty := False\<rparr>))"

section \<open>Reconfiguration\<close>

definition reconfigure_consensus_membership :: "pylib \<Rightarrow> nat \<Rightarrow> (string list \<Rightarrow> string list) \<Rightarrow> (string \<Rightarrow> string option) \<Rightarrow>
    (string \<Rightarrow> timestamp) \<Rightarrow> (node, membership_snap) op" where
  "reconfigure_consensus_membership L rl plan status seen_at = (\<lambda>n.
     let n1 = hydrate_peer_node_ids status seen_at n;
         epoch = (case get_consensus_membership_snapshot (nd_db n1) of None \<Rightarrow> 0 | Some s \<Rightarrow> ms_epoch s) + 1;
         snapshot = membership_snapshot L epoch (membership_entries_from_registry n1)
     in op_bind (recompute_consensus L rl plan) (\<lambda>_. op_ret snapshot) (save_membership snapshot n1))"

definition ensure_consensus_membership_snapshot :: "pylib \<Rightarrow> nat \<Rightarrow> (string list \<Rightarrow> string list) \<Rightarrow> (string \<Rightarrow> string option) \<Rightarrow>
    (string \<Rightarrow> timestamp) \<Rightarrow> (node, unit) op" where
  "ensure_consensus_membership_snapshot L rl plan status seen_at = (\<lambda>n.
     case get_consensus_membership_snapshot (nd_db n) of
       Some snapshot \<Rightarrow> (Inr (), n\<lparr>nd_membership_snapshot := Some snapshot\<rparr>)
     | None \<Rightarrow> op_bind (reconfigure_consensus_membership L rl plan status seen_at) (\<lambda>_. op_ret ()) n)"

section \<open>The consensus digest\<close>

definition CONSENSUS_FINALITY_MARGIN :: int where
  "CONSENSUS_FINALITY_MARGIN = 2"

definition finalized_events :: "event list \<Rightarrow> event list" where
  "finalized_events ordered =
     (case List.map_filter ev_round_received ordered of
        [] \<Rightarrow> []
      | r # rs \<Rightarrow> let cutoff = fold max rs r - CONSENSUS_FINALITY_MARGIN
                in filter (\<lambda>e. case ev_round_received e of None \<Rightarrow> False | Some q \<Rightarrow> q \<le> cutoff) ordered)"

record consensus_digest =
  dg_node_id :: string
  dg_hash :: string
  dg_event_count :: nat
  dg_total_event_count :: nat
  dg_latest_event :: "string option"
  dg_latest_total_event :: "string option"
  dg_consensus_epoch :: int
  dg_membership_size :: nat
  dg_membership_snapshot_hash :: string
  dg_generated_at :: timestamp

definition last_id :: "event list \<Rightarrow> string option" where
  "last_id es = (if es = [] then None else Some (ev_id (last es)))"

definition consensus_snapshot_sync :: "pylib \<Rightarrow> timestamp \<Rightarrow> (node, consensus_digest) op" where
  "consensus_snapshot_sync L now = (\<lambda>n.
     case all_events L (nd_db n) of
       Inl e \<Rightarrow> (Inl e, n)
     | Inr events \<Rightarrow>
         let ordered = total_order events []; finalized = finalized_events ordered;
             (membership, n1) = active_consensus_membership L n
         in (Inr \<lparr>dg_node_id = my_id n, dg_hash = sha256_hex L (join ''::'' (map ev_id finalized)),
                  dg_event_count = length finalized, dg_total_event_count = length ordered,
                  dg_latest_event = last_id finalized, dg_latest_total_event = last_id ordered,
                  dg_consensus_epoch = ms_epoch membership, dg_membership_size = ms_size membership,
                  dg_membership_snapshot_hash = ms_hash membership, dg_generated_at = now\<rparr>, n1))"

text \<open>The part of \<open>_notify_consensus_status\<close> that changes the node: the run of mismatches of a peer.\<close>

definition count_mismatch :: "string \<Rightarrow> bool \<Rightarrow> node \<Rightarrow> node" where
  "count_mismatch peer_key mismatch n =
     n\<lparr>nd_consensus_mismatch := AList.update peer_key
        (if mismatch then dict_get (nd_consensus_mismatch n) peer_key 0 + 1 else 0) (nd_consensus_mismatch n)\<rparr>"

definition consensus_health :: "node \<Rightarrow> string" where
  "consensus_health n =
     (let mismatch_peers = map fst (filter (\<lambda>(p, c). 3 \<le> c) (nd_consensus_mismatch n));
          pending_peers = map fst (filter (\<lambda>(p, c). 0 < c \<and> c < 3) (nd_consensus_mismatch n))
      in if mismatch_peers \<noteq> [] then ''mismatch'' else if pending_peers \<noteq> [] then ''pending'' else ''ok'')"

section \<open>The event graph in the database\<close>

text \<open>
  Identifiers are unique, every row decodes, and the table of edges has an edge from each parent of
  a row.
\<close>

definition graph_ok :: "pylib \<Rightarrow> db \<Rightarrow> bool" where
  "graph_ok L d \<longleftrightarrow> distinct (map r_id (t_events d)) \<and>
     (\<forall>r \<in> set (t_events d). \<exists>e. event_from_record L r = Inr e \<and> (\<forall>p \<in> set (ev_parents e). (p, r_id r) \<in> set (t_edges d)))"

lemma decode_cong:
  assumes "event_from_record L r = Inr e" "r_cls r' = r_cls r" "r_vclock r' = r_vclock r" "r_parents r' = r_parents r"
    "r_payload r' = r_payload r"
  shows "\<exists>e'. event_from_record L r' = Inr e' \<and> ev_parents e' = ev_parents e"
  using assms by (auto simp: event_from_record_def)

definition keeps_columns :: "(stored_row \<Rightarrow> stored_row) \<Rightarrow> bool" where
  "keeps_columns f \<longleftrightarrow> (\<forall>r. r_id (f r) = r_id r \<and> r_cls (f r) = r_cls r \<and> r_vclock (f r) = r_vclock r \<and>
     r_parents (f r) = r_parents r \<and> r_payload (f r) = r_payload r)"

lemma graph_ok_update_rows:
  assumes "graph_ok L d" "keeps_columns f"
  shows "graph_ok L (update_rows x f d)"
proof -
  have "\<exists>e. event_from_record L (f r) = Inr e \<and> (\<forall>p \<in> set (ev_parents e). (p, r_id (f r)) \<in> set (t_edges d))"
    if "r \<in> set (t_events d)" for r
  proof -
    obtain e where e: "event_from_record L r = Inr e" "\<forall>p \<in> set (ev_parents e). (p, r_id r) \<in> set (t_edges d)"
      using assms(1) \<open>r \<in> set (t_events d)\<close> unfolding graph_ok_def by blast
    obtain e' where "event_from_record L (f r) = Inr e'" "ev_parents e' = ev_parents e"
      using decode_cong [OF e(1), of "f r"] assms(2) unfolding keeps_columns_def by metis
    with e(2) assms(2) show ?thesis unfolding keeps_columns_def by metis
  qed
  with assms show ?thesis
    by (auto simp: graph_ok_def update_rows_def keeps_columns_def comp_def if_distrib [of r_id] cong: if_cong)
qed

lemma graph_ok_cong:
  "t_events d' = t_events d \<Longrightarrow> t_edges d' = t_edges d \<Longrightarrow> graph_ok L d' = graph_ok L d"
  by (simp add: graph_ok_def)

lemma keeps_state_row: "keeps_columns (state_row s)" "keeps_columns (coalesce_row e ts)"
  by (simp_all add: keeps_columns_def state_row_def coalesce_row_def)

lemma graph_ok_replace: "graph_ok L d \<Longrightarrow> graph_ok L (replace_consensus_state states d)"
  unfolding replace_consensus_state_def
  by (induction states arbitrary: d) (simp_all add: graph_ok_update_rows keeps_state_row)

lemma set_insert_edges: "set (fold (\<lambda>p. insert_edge (p, c)) ps es) = set es \<union> (\<lambda>p. (p, c)) ` set ps"
  by (induction ps arbitrary: es) (auto simp: insert_edge_def)

lemma fresh_event_parents [simp]: "ev_parents (fresh_event e ts) = ev_parents e" "ev_id (fresh_event e ts) = ev_id e"
  by (simp_all add: fresh_event_def event_view_def)

lemma graph_ok_store:
  assumes "graph_ok L d" "codec_ok (floats L)" "event_ok (env_event env)"
  shows "graph_ok L (snd (store_envelope L now env ts d))"
proof (cases "has_event d (ev_id (env_event env))")
  case True
  have "graph_ok L (merge_path_meta (ev_id (env_event env)) (env_path_meta env) d)"
    using assms(1) graph_ok_cong by (simp add: merge_path_meta_def graph_ok_def)
  with True show ?thesis
    by (simp add: store_envelope_def Let_def graph_ok_update_rows keeps_state_row)
next
  case False
  let ?e = "env_event env"
  have new: "event_from_record L (new_row L ?e ts now) = Inr (fresh_event ?e ts)"
    by (rule event_from_new_row [OF assms(2,3)])
  have "r_id r \<noteq> ev_id ?e" if "r \<in> set (t_events d)" for r
    using False that unfolding has_event_def by (metis imageI)
  with assms(1) new show ?thesis
    unfolding store_new [OF False] graph_ok_def
    by (auto simp: merge_path_meta_def set_insert_edges) blast
qed

lemma graph_ok_prune:
  "graph_ok L d \<Longrightarrow> prune_under_checkpoint L r age keep now d = Inr (pruned, d') \<Longrightarrow> graph_ok L d'"
  by (auto simp: prune_under_checkpoint_def Let_def graph_ok_def prune_fold_events prune_fold_edges distinct_map_filter)

inductive graph_step :: "pylib \<Rightarrow> db \<Rightarrow> db \<Rightarrow> bool" for L where
  gr_store: "event_ok (env_event env) \<Longrightarrow> graph_step L d (snd (store_envelope L now env ts d))"
| gr_consensus: "graph_step L d (replace_consensus_state states d)"
| gr_prune: "prune_under_checkpoint L r age keep now d = Inr (pruned, d') \<Longrightarrow> graph_step L d d'"
| gr_clear: "graph_step L d (clear_events d)"
| gr_other: "t_events d' = t_events d \<Longrightarrow> t_edges d' = t_edges d \<Longrightarrow> graph_step L d d'"

lemma graph_ok_empty [simp]: "graph_ok L empty_db"
  by (simp add: graph_ok_def empty_db_def)

interpretation graph: invariant_system "\<lambda>d. d = empty_db \<and> codec_ok (floats L)" "graph_step L"
    "\<lambda>d. graph_ok L d \<and> codec_ok (floats L)" for L
proof
  show "graph_ok L d' \<and> codec_ok (floats L)" if "graph_ok L d \<and> codec_ok (floats L)" "graph_step L d d'" for d d'
    using that(2,1)
  proof cases
    case (gr_other)
    then show ?thesis using that(1) graph_ok_cong by blast
  next
    case gr_clear
    then show ?thesis using that(1) by (simp add: graph_ok_def clear_events_def)
  qed (auto simp: graph_ok_store graph_ok_replace intro: graph_ok_prune)
qed simp

section \<open>The order handed to the consensus\<close>

lemma topo_ok_of_parents_first:
  assumes "parents_first E (map ev_id (pre @ es))" "distinct (map ev_id (pre @ es))"
    and "\<forall>e \<in> set es. \<forall>p \<in> set (ev_parents e). p \<in> ev_id ` set (pre @ es) \<longrightarrow> (p, ev_id e) \<in> set E"
  shows "topo_ok es"
  using assms
proof (induction es arbitrary: pre)
  case Nil
  then show ?case by simp
next
  case (Cons e es)
  have "topo_ok es" by (rule Cons.IH [of "pre @ [e]"]) (use Cons.prems in auto)
  moreover have "p \<notin> ev_id ` set (e # es)" if p: "p \<in> set (ev_parents e)" for p
  proof
    assume in_list: "p \<in> ev_id ` set (e # es)"
    then have "p \<in> ev_id ` set (pre @ e # es)" by auto
    with Cons.prems(3) p have "(p, ev_id e) \<in> set E" by (meson list.set_intros(1))
    then have "p \<in> set (map ev_id pre)"
      using Cons.prems(1) [unfolded parents_first_def, rule_format, of "map ev_id pre" "ev_id e" "map ev_id es" p] by simp
    moreover have "set (map ev_id pre) \<inter> set (map ev_id (e # es)) = {}"
      using Cons.prems(2) by (simp only: map_append distinct_append)
    ultimately show False using in_list by (metis disjoint_iff set_map)
  qed
  ultimately show ?case using Cons.prems(2) by auto
qed

lemma pick_events_ids:
  assumes "distinct (map ev_id events)" "set order \<subseteq> ev_id ` set events"
  shows "map ev_id (pick_events events order) = order \<and> set (pick_events events order) \<subseteq> set events"
proof -
  have look: "map_of (dict_of (map (\<lambda>e. (ev_id e, e)) events)) x = Some e \<longleftrightarrow> e \<in> set events \<and> ev_id e = x" for x e
    using assms(1) by (auto simp: map_of_dict_of map_of_rev_distinct comp_def map_of_eq_Some_iff)
  show ?thesis using assms(2)
  proof (induction order)
    case Nil
    then show ?case by (simp add: pick_events_def List.map_filter_def)
  next
    case (Cons x order)
    then obtain e where "e \<in> set events" "ev_id e = x" by auto
    with look have "map_of (dict_of (map (\<lambda>e. (ev_id e, e)) events)) x = Some e" by blast
    with Cons \<open>e \<in> set events\<close> \<open>ev_id e = x\<close> show ?case
      by (simp add: pick_events_def List.map_filter_simps)
  qed
qed

lemma all_events_graph:
  assumes "graph_ok L d"
  obtains events where "all_events L d = Inr events" "mset (map ev_id events) = mset (map r_id (t_events d))"
    "\<forall>e \<in> set events. \<forall>p \<in> set (ev_parents e). (p, ev_id e) \<in> set (t_edges d)"
proof -
  define g where "g r = (case event_from_record L r of Inr e \<Rightarrow> e | Inl _ \<Rightarrow> undefined)" for r :: stored_row
  have g: "event_from_record L r = Inr (g r)" "ev_id (g r) = r_id r" "\<forall>p \<in> set (ev_parents (g r)). (p, ev_id (g r)) \<in> set (t_edges d)"
    if r: "r \<in> set (t_events d)" for r
  proof -
    obtain e where e: "event_from_record L r = Inr e" "\<forall>p \<in> set (ev_parents e). (p, r_id r) \<in> set (t_edges d)"
      using assms r unfolding graph_ok_def by blast
    with event_from_record_id [OF e(1)] show "event_from_record L r = Inr (g r)" "ev_id (g r) = r_id r"
      "\<forall>p \<in> set (ev_parents (g r)). (p, ev_id (g r)) \<in> set (t_edges d)" by (simp_all add: g_def)
  qed
  have rows: "set (by_created (t_events d)) = set (t_events d)" by (simp add: by_created_def)
  have "all_events L d = Inr (map g (by_created (t_events d)))"
    unfolding all_events_def by (rule res_map_all) (simp add: rows g(1))
  moreover have "map ev_id (map g (by_created (t_events d))) = map r_id (by_created (t_events d))"
    using g(2) rows by simp
  then have "mset (map ev_id (map g (by_created (t_events d)))) = mset (map r_id (t_events d))"
    by (simp only: mset_map by_created_def mset_sort_key)
  moreover have "\<forall>e \<in> set (map g (by_created (t_events d))). \<forall>p \<in> set (ev_parents e). (p, ev_id e) \<in> set (t_edges d)"
    using g(3) rows by simp
  ultimately show thesis by (rule that)
qed

lemma replace_events_cong:
  "t_events d' = t_events d \<Longrightarrow> t_events (replace_consensus_state ss d') = t_events (replace_consensus_state ss d)"
  unfolding replace_consensus_state_def by (induction ss arbitrary: d d') (simp_all add: update_rows_def)

lemma active_membership_frame:
  "t_events (nd_db (snd (active_consensus_membership L n))) = t_events (nd_db n)"
  "t_edges (nd_db (snd (active_consensus_membership L n))) = t_edges (nd_db n)"
  "nd_config (snd (active_consensus_membership L n)) = nd_config n"
  by (simp_all add: active_consensus_membership_def save_membership_def save_consensus_membership_snapshot_def Let_def
      split: option.split)

lemma ordered_events_ok:
  assumes "graph_ok L d" "all_events L d = Inr events" "toposort ids (t_edges d) = Inr order"
    and "set ids = r_id ` set (t_events d)" "acyclic (set (live_edges ids (t_edges d)))"
  shows "topo_ok (pick_events events order) \<and> map ev_id (pick_events events order) = order \<and> set order = set ids"
proof -
  obtain es where es: "all_events L d = Inr es" "mset (map ev_id es) = mset (map r_id (t_events d))"
    "\<forall>e \<in> set es. \<forall>p \<in> set (ev_parents e). (p, ev_id e) \<in> set (t_edges d)"
    by (rule all_events_graph [OF assms(1)])
  have "es = events" using es(1) assms(2) by simp
  note es = es [unfolded \<open>es = events\<close>]
  have dist: "distinct (map ev_id events)"
    using es(2) assms(1) unfolding graph_ok_def by (metis mset_eq_imp_distinct_iff)
  have ids: "ev_id ` set events = set ids" using arg_cong [OF es(2), of set_mset] assms(4) by simp
  have topo: "distinct order" "set order = set ids" "parents_first (live_edges ids (t_edges d)) order"
    using toposort_outcome [of ids "t_edges d"] assms(3,5) by auto
  have pick: "map ev_id (pick_events events order) = order" "set (pick_events events order) \<subseteq> set events"
    using pick_events_ids [OF dist, of order] topo(2) ids by auto
  have "topo_ok (pick_events events order)"
  proof (rule topo_ok_of_parents_first [where pre = "[]" and E = "live_edges ids (t_edges d)"])
    show "parents_first (live_edges ids (t_edges d)) (map ev_id ([] @ pick_events events order))"
      using topo(3) pick(1) by simp
    show "distinct (map ev_id ([] @ pick_events events order))" using topo(1) pick(1) by simp
    show "\<forall>e \<in> set (pick_events events order). \<forall>p \<in> set (ev_parents e).
        p \<in> ev_id ` set ([] @ pick_events events order) \<longrightarrow> (p, ev_id e) \<in> set (live_edges ids (t_edges d))"
    proof (intro ballI impI)
      fix e p assume e: "e \<in> set (pick_events events order)" and p: "p \<in> set (ev_parents e)"
        and known: "p \<in> ev_id ` set ([] @ pick_events events order)"
      have "e \<in> set events" using e pick(2) by blast
      then have "(p, ev_id e) \<in> set (t_edges d)" "ev_id e \<in> set ids" using es(3) p ids by blast+
      moreover have "p \<in> set ids" using known pick(1) topo(2) by (metis append_Nil set_map)
      ultimately show "(p, ev_id e) \<in> set (live_edges ids (t_edges d))" by (simp add: live_edges_def)
    qed
  qed
  with pick(1) topo(2) show ?thesis by simp
qed


lemma demo_db_graph: "reachable (\<lambda>d. d = empty_db \<and> codec_ok (floats demo_lib)) (graph_step demo_lib) demo_db"
proof -
  have "graph_step demo_lib empty_db demo_db"
    unfolding demo_db_def by (rule gr_store) (simp add: demo_envelope_def)
  moreover have "reachable (\<lambda>d. d = empty_db \<and> codec_ok (floats demo_lib)) (graph_step demo_lib) empty_db"
    by (rule reach_init) simp
  ultimately show ?thesis by (blast intro: reach_step)
qed

lemma demo_db_rows: "map r_id (t_events demo_db) = [ev_id demo_event]" "t_edges demo_db = [(''p'', ev_id demo_event), (''q'', ev_id demo_event)]"
  by (simp_all add: demo_db_def demo_envelope_def store_new has_event_def empty_db_def merge_path_meta_def insert_edge_def
      demo_event_def event_create_def)


text \<open>
  Nothing on the way in checks an event's identifier against its content, so two envelopes that name
  each other as parents are stored; from then on every recomputation fails, because the handler in
  \<open>_recompute_consensus\<close> catches \<open>KeyError\<close> while the sort raises \<open>ValueError\<close>.
\<close>

definition loop_event :: "string \<Rightarrow> string \<Rightarrow> event" where
  "loop_event x y = (plain_event x ''n2'' [y])\<lparr>ev_self_parent_id := Some y\<rparr>"

definition loop_db :: db where
  "loop_db = snd (store_envelope demo_lib 2 \<lparr>env_event = loop_event ''y'' ''x'', env_path_meta = []\<rparr> None
     (snd (store_envelope demo_lib 1 \<lparr>env_event = loop_event ''x'' ''y'', env_path_meta = []\<rparr> None empty_db)))"

lemma cycle_blocks_recompute:
  "fst (recompute_consensus demo_lib 1000 (\<lambda>ids. ids) (set_db loop_db demo_node)) = Inl (ValueError ''cycle detected in DAG'')"
proof -
  have ok: "event_ok (loop_event x y)" if "y \<noteq> []" for x y
    using that by (simp add: event_ok_def loop_event_def plain_event_def first_some_def nth_opt_def)
  have "graph_ok demo_lib loop_db"
    unfolding loop_db_def by (intro graph_ok_store) (simp_all add: ok)
  then obtain events where ev: "all_events demo_lib loop_db = Inr events"
    "mset (map ev_id events) = mset (map r_id (t_events loop_db))" by (rule all_events_graph)
  have rows: "map r_id (t_events loop_db) = [''x'', ''y'']" "t_edges loop_db = [(''y'', ''x''), (''x'', ''y'')]"
    by (simp_all add: loop_db_def store_new has_event_def empty_db_def merge_path_meta_def insert_edge_def loop_event_def)
  then have "events \<noteq> []" using ev(2) by auto
  moreover have "(''x'', ''x'') \<in> (set (live_edges [''x'', ''y''] [(''y'', ''x''), (''x'', ''y'')]))\<^sup>+"
    by (rule trancl_into_trancl [of _ "''y''"]) (auto simp: live_edges_def)
  then have "toposort [''x'', ''y''] [(''y'', ''x''), (''x'', ''y'')] = Inl (ValueError ''cycle detected in DAG'')"
    using toposort_outcome [of "[''x'', ''y'']" "[(''y'', ''x''), (''x'', ''y'')]"] unfolding acyclic_def by metis
  moreover obtain snap n1 where act: "active_consensus_membership demo_lib (set_db loop_db demo_node) = (snap, n1)" by fastforce
  moreover have "t_events (nd_db n1) = t_events loop_db" "t_edges (nd_db n1) = t_edges loop_db"
    using active_membership_frame [of demo_lib "set_db loop_db demo_node"] act by simp_all
  ultimately show ?thesis using rows by (simp add: recompute_consensus_def ev(1) db_toposort_def)
qed

end
