(* ===== verification/NodeEvents.thy ===== *)
theory NodeEvents
  imports NodeConsensus
begin

text \<open>
  How events enter a node: \<open>emit_event\<close> for its own events, \<open>ingest_envelopes\<close> for those of others,
  the genesis event, and the replication of class A events with a quorum of acknowledgements.
  What an operation reads from outside is the record \<open>node_env\<close>: the clock, the random choice of a
  parent, the recursion limit and the query plan, what the operating system reports for the metrics,
  the network during each attempt to replicate (\<open>en_world\<close>), how many requests of an attempt
  finish before its timeout (\<open>en_finished\<close>, none when all do) and whether the node is stopping when
  an attempt has failed. Background tasks the code schedules are recorded in the node: the fast
  fan-out in \<open>nd_scheduled_fanouts\<close>, notifications in \<open>nd_scheduled_notifications\<close>.
\<close>

record node_env =
  en_clock :: "nat \<Rightarrow> timestamp"
  en_elapsed :: rat
  en_choice :: "string list \<Rightarrow> string"
  en_rl :: nat
  en_plan :: "string list \<Rightarrow> string list"
  en_db_size :: int
  en_process :: "(int \<times> rat) option"
  en_world :: "nat \<Rightarrow> gossip_world"
  en_finished :: "nat \<Rightarrow> nat option"
  en_stopping :: "nat \<Rightarrow> bool"
  en_hostname :: string

section \<open>Visualizer queues\<close>

definition enqueue_viz :: "json list \<Rightarrow> json \<Rightarrow> json list" where
  "enqueue_viz queue payload = (if length queue < 256 then queue @ [payload] else tl queue @ [payload])"

definition broadcast_viz :: "json \<Rightarrow> node \<Rightarrow> node" where
  "broadcast_viz payload n = n\<lparr>nd_viz := map (\<lambda>(k, q). (k, enqueue_viz q payload)) (nd_viz n)\<rparr>"

definition subscribe_visualizer :: "nat \<Rightarrow> node \<Rightarrow> node" where
  "subscribe_visualizer k n = n\<lparr>nd_viz := AList.update k [] (nd_viz n)\<rparr>"

definition unsubscribe_visualizer :: "nat \<Rightarrow> node \<Rightarrow> node" where
  "unsubscribe_visualizer k n = n\<lparr>nd_viz := AList.delete k (nd_viz n)\<rparr>"

definition node_metrics_snapshot :: "node_env \<Rightarrow> node \<Rightarrow> (string, json) dict" where
  "node_metrics_snapshot E n =
     (let snap = metrics_snapshot (en_db_size E) (en_process E) (nd_db n) (nd_metrics n)
      in [(''A_est'', JFloat (ms_a_est snap)), (''T_gossip'', JFloat (ms_t_gossip snap)), (''K_r'', JFloat (ms_k_r snap)),
          (''C_mem'', JFloat (ms_c_mem snap)), (''C_net'', JFloat (ms_c_net snap)),
          (''event_count'', JInt (ms_event_count snap)), (''rss_bytes'', JInt (ms_rss_bytes snap)),
          (''cpu_percent'', JFloat (ms_cpu_percent snap)), (''db_size_bytes'', JInt (ms_db_size_bytes snap)),
          (''gossip_bytes_in_total'', JInt (ms_gossip_bytes_in_total snap)),
          (''gossip_bytes_out_total'', JInt (ms_gossip_bytes_out_total snap)),
          (''bytes_per_event'', JFloat (ms_bytes_per_event snap)),
          (''emit_to_consensus_latency_p50_ms'', JFloat (ms_latency_p50_ms snap)),
          (''emit_to_consensus_latency_p95_ms'', JFloat (ms_latency_p95_ms snap))])"

definition notify_viz :: "node_env \<Rightarrow> event \<Rightarrow> node \<Rightarrow> node" where
  "notify_viz E e n = broadcast_viz
     (JObj [(''type'', JStr ''event''), (''stored'', JBool True), (''event'', JObj (event_to_dict e)),
            (''metrics'', JObj (node_metrics_snapshot E n))]) n"

definition notify_viz_reset :: "(string, json) dict \<Rightarrow> node \<Rightarrow> node" where
  "notify_viz_reset metrics n = broadcast_viz (JObj [(''type'', JStr ''reset''), (''metrics'', JObj metrics)]) n"

section \<open>Storing an envelope\<close>

text \<open>
  The per-call cache of \<open>_reconstruction_ratio\<close> only avoids repeated look-ups of the same parent in an
  unchanged database.
\<close>

definition parent_exists :: "pylib \<Rightarrow> db \<Rightarrow> string \<Rightarrow> bool" where
  "parent_exists L d p = (case get_event L d p of Inr (Some _) \<Rightarrow> True | _ \<Rightarrow> False)"

definition reconstruction_ratio :: "pylib \<Rightarrow> db \<Rightarrow> rat result" where
  "reconstruction_ratio L d =
     res_bind (list_events L d 1000 None) (\<lambda>events.
       let parents = concat (map ev_parents events);
           total_edges = length parents;
           missing = length (filter (\<lambda>p. \<not> parent_exists L d p) parents)
       in Inr (if total_edges = 0 then 1 else max 0 (1 - of_nat missing / of_nat total_edges)))"

definition record_reconstruction :: "pylib \<Rightarrow> (node, unit) op" where
  "record_reconstruction L =
     op_bind (op_lift (\<lambda>n. reconstruction_ratio L (nd_db n))) (\<lambda>ratio. op_mod (on_metrics (record_merge_quality ratio)))"

definition schedule_fast_fanout :: "string \<Rightarrow> node \<Rightarrow> node" where
  "schedule_fast_fanout event_id n =
     (if nd_loop_running n then n\<lparr>nd_scheduled_fanouts := nd_scheduled_fanouts n @ [event_id]\<rparr> else n)"

definition store_in_node :: "pylib \<Rightarrow> timestamp \<Rightarrow> envelope \<Rightarrow> (node, bool) op" where
  "store_in_node L now envelope = (\<lambda>n.
     let (stored, d) = store_envelope L now envelope (ev_consensus_ts (env_event envelope)) (nd_db n)
     in (Inr stored, set_db d n))"

definition persist_envelope :: "pylib \<Rightarrow> node_env \<Rightarrow> nat \<Rightarrow> bool \<Rightarrow> bool \<Rightarrow> envelope \<Rightarrow> (node, bool) op" where
  "persist_envelope L E i do_recompute notify envelope =
     (let e = env_event envelope
      in op_bind (store_in_node L (en_clock E i) envelope) (\<lambda>stored.
         op_bind (if do_recompute then request_recompute L (en_rl E) (en_plan E) else op_ret ()) (\<lambda>_.
         op_bind (op_mod (\<lambda>n. n\<lparr>nd_vector_clock := vc_merge (nd_vector_clock n) (ev_vclock e)\<rparr>)) (\<lambda>_.
         if \<not> stored then op_ret stored
         else
           op_bind (op_mod (\<lambda>n. if nd_gossip_on n then gossip_add_pending (ev_id e) n else n)) (\<lambda>_.
           op_bind (if notify then
               op_bind (record_reconstruction L) (\<lambda>_.
               op_mod (\<lambda>n. notify_viz E e (schedule_fast_fanout (ev_id e) n)))
             else op_ret ()) (\<lambda>_.
           op_ret stored))))))"

definition ingest_envelopes :: "pylib \<Rightarrow> node_env \<Rightarrow> envelope list \<Rightarrow> (node, string list) op" where
  "ingest_envelopes L E envelopes =
     op_bind (op_each (\<lambda>(i, env). op_bind (persist_envelope L E i False False env) (\<lambda>stored.
         op_ret (if stored then [env_event env] else []))) (enumerate 0 envelopes)) (\<lambda>kept.
       let new_events = concat kept; new_ids = map ev_id new_events
       in op_bind (if new_ids \<noteq> [] then
             op_bind (request_recompute L (en_rl E) (en_plan E)) (\<lambda>_.
             op_bind (record_reconstruction L) (\<lambda>_.
             op_mod (notify_viz E (last new_events))))
           else op_ret ()) (\<lambda>_.
          op_bind (op_mod refresh_peer_health) (\<lambda>_. op_ret new_ids)))"

section \<open>Sending one envelope to all peers\<close>

definition send_one :: "pylib \<Rightarrow> gossip_world \<Rightarrow> envelope \<Rightarrow> peer_info \<Rightarrow> node \<Rightarrow> bool \<times> node" where
  "send_one L w envelope peer n =
     (let (ok, s) = send_to_peer L (nc_gossip (nd_config n)) w (pi_address peer) [envelope] (nd_shared n)
      in (ok, n\<lparr>nd_shared := s\<rparr>))"

fun send_all :: "pylib \<Rightarrow> gossip_world \<Rightarrow> envelope \<Rightarrow> peer_info list \<Rightarrow> node \<Rightarrow> nat \<times> node" where
  "send_all L w envelope [] n = (0, n)"
| "send_all L w envelope (peer # peers) n =
     (let (ok, n1) = send_one L w envelope peer n; (count, n2) = send_all L w envelope peers n1
      in (of_bool ok + count, n2))"

definition fanout_critical :: "pylib \<Rightarrow> gossip_world \<Rightarrow> string \<Rightarrow> (node, unit) op" where
  "fanout_critical L w event_id = (\<lambda>n.
     if \<not> nd_gossip_on n then (Inr (), n)
     else case get_envelope L (nd_db n) event_id of
       Inl e \<Rightarrow> (Inl e, n)
     | Inr None \<Rightarrow> (Inr (), n)
     | Inr (Some envelope) \<Rightarrow>
         let peers = node_list_peers n; (count, n1) = send_all L w envelope peers n
         in (Inr (), if peers \<noteq> [] \<and> count \<noteq> length peers then gossip_add_pending event_id n1 else n1))"

fun broadcast_loop :: "pylib \<Rightarrow> gossip_world \<Rightarrow> envelope \<Rightarrow> peer_info list \<Rightarrow> node \<Rightarrow> node" where
  "broadcast_loop L w envelope [] n = n"
| "broadcast_loop L w envelope (peer # peers) n =
     (let (ok, n1) = send_one L w envelope peer n
      in broadcast_loop L w envelope peers (if ok then n1 else gossip_add_pending (ev_id (env_event envelope)) n1))"

text \<open>Without a gossip engine the attribute access in the handler itself raises.\<close>

definition broadcast_event :: "pylib \<Rightarrow> gossip_world \<Rightarrow> string \<Rightarrow> (node, unit) op" where
  "broadcast_event L w event_id = (\<lambda>n.
     if node_list_peers n = [] then (Inr (), n)
     else case get_envelope L (nd_db n) event_id of
       Inl e \<Rightarrow> (Inl e, n)
     | Inr None \<Rightarrow> (Inr (), n)
     | Inr (Some envelope) \<Rightarrow>
         if \<not> nd_gossip_on n then (Inl TypeError, n)
         else (Inr (), broadcast_loop L w envelope (node_list_peers n) n))"

definition fanout_count_ack :: "pylib \<Rightarrow> gossip_world \<Rightarrow> nat option \<Rightarrow> envelope \<Rightarrow> node \<Rightarrow> nat \<times> node" where
  "fanout_count_ack L w finished envelope n =
     (if \<not> nd_gossip_on n then (0, n)
      else case finished of
        None \<Rightarrow> send_all L w envelope (node_list_peers n) n
      | Some k \<Rightarrow> (0, snd (send_all L w envelope (take k (node_list_peers n)) n)))"

fun ack_loop :: "pylib \<Rightarrow> node_env \<Rightarrow> envelope \<Rightarrow> int \<Rightarrow> nat list \<Rightarrow> node \<Rightarrow> bool \<times> node" where
  "ack_loop L E envelope required [] n = (False, n)"
| "ack_loop L E envelope required (attempt # attempts) n =
     (let (ok_count, n1) = fanout_count_ack L (en_world E attempt) (en_finished E attempt) envelope n
      in if required \<le> int ok_count then (True, n1)
         else if en_stopping E attempt then (False, n1)
         else ack_loop L E envelope required attempts n1)"

section \<open>Emission\<close>

definition sign_payload :: "pylib \<Rightarrow> node \<Rightarrow> (string, json) dict \<Rightarrow> string" where
  "sign_payload L n payload =
     (if nc_hmac_key (nd_config n) = [] then [] else hmac_signature L (nc_hmac_key (nd_config n)) (JObj payload))"

fun genesis_ids :: "event list \<Rightarrow> string list \<Rightarrow> string list" where
  "genesis_ids [] anchors = anchors"
| "genesis_ids (e # es) anchors =
     genesis_ids es (if is_genesis e \<and> ev_id e \<notin> set anchors then anchors @ [ev_id e] else anchors)"

definition anchor_ids :: "pylib \<Rightarrow> (node, string list) op" where
  "anchor_ids L = (\<lambda>n.
     if nd_anchors n \<noteq> [] then (Inr (nd_anchors n), n)
     else case list_events L (nd_db n) 20 None of
       Inl e \<Rightarrow> (Inl e, n)
     | Inr events \<Rightarrow>
         let found = genesis_ids events [];
             anchors = (if found = [] \<and> events \<noteq> [] then [ev_id (hd events)] else found)
         in (Inr anchors, n\<lparr>nd_anchors := anchors\<rparr>))"

fun add_anchors :: "string list \<Rightarrow> string list \<Rightarrow> string list" where
  "add_anchors parents [] = parents"
| "add_anchors parents (a # as) =
     (if 2 \<le> length parents then parents else add_anchors (if a \<notin> set parents then parents @ [a] else parents) as)"

definition parent_choice :: "node_env \<Rightarrow> string \<Rightarrow> event option \<Rightarrow> event list \<Rightarrow> string list \<Rightarrow> string list" where
  "parent_choice E me self_parent recent anchors =
     (let own = (case self_parent of None \<Rightarrow> [] | Some e \<Rightarrow> [ev_id e]);
          others = map ev_id (filter (\<lambda>e. ev_source e \<noteq> me \<and> ev_id e \<notin> set own) recent);
          parents = (if others = [] then own else own @ [en_choice E others])
      in take 2 (add_anchors parents anchors))"

definition choose_parents :: "pylib \<Rightarrow> node_env \<Rightarrow> (node, string list) op" where
  "choose_parents L E =
     op_bind (op_lift (\<lambda>n. latest_event_by_source L (nd_db n) (my_id n))) (\<lambda>self_parent.
     op_bind (op_lift (\<lambda>n. list_recent_events L (nd_db n) 256)) (\<lambda>recent.
     op_bind (op_get my_id) (\<lambda>me.
     op_bind (anchor_ids L) (\<lambda>anchors.
     op_ret (parent_choice E me self_parent recent anchors)))))"

fun merge_parent_clocks :: "pylib \<Rightarrow> db \<Rightarrow> string list \<Rightarrow> vclock \<Rightarrow> vclock result" where
  "merge_parent_clocks L d [] vc = Inr vc"
| "merge_parent_clocks L d (p # ps) vc =
     res_bind (get_event L d p) (\<lambda>e.
       merge_parent_clocks L d ps (case e of None \<Rightarrow> vc | Some pe \<Rightarrow> vc_merge vc (ev_vclock pe)))"

definition increment_event_counters :: "string \<Rightarrow> string \<Rightarrow> node \<Rightarrow> node" where
  "increment_event_counters cls kind n =
     (let kind' = (if kind = [] then ''_unspecified'' else kind);
          key = (cls, kind');
          n1 = n\<lparr>nd_events_by_class_kind := AList.update key (dict_get (nd_events_by_class_kind n) key 0 + 1)
                   (nd_events_by_class_kind n)\<rparr>
      in if kind' = ''host_boot'' then bump ''host_boot_count'' n1
         else if kind' = ''host_reboot'' then bump ''host_reboot_count'' n1 else n1)"

definition new_event :: "pylib \<Rightarrow> node_env \<Rightarrow> node \<Rightarrow> EventClass \<Rightarrow> (string, json) dict \<Rightarrow> string list \<Rightarrow> vclock \<Rightarrow> event" where
  "new_event L E n cls payload parents local_clock =
     event_create L cls (my_id n) (en_clock E 0) local_clock parents payload
       (if nc_hmac_key (nd_config n) = [] then None else Some (sign_payload L n payload))
       (Some (my_id n)) (nth_opt parents 0) (nth_opt parents 1)"

text \<open>
  The body of \<open>emit_event\<close>; \<open>ack\<close> is what it calls for an event of class A, and gives the
  durability. \<open>str(payload.get("event_kind", ""))\<close> is the text of the kind.
\<close>

record emission =
  em_event :: event
  em_stored :: bool
  em_durability :: "string option"

definition event_kind_text :: "pylib \<Rightarrow> (string, json) dict \<Rightarrow> string result" where
  "event_kind_text L payload = py_str L (dict_get payload ''event_kind'' (JStr []))"

definition emit_with :: "(string \<Rightarrow> (node, string) op) \<Rightarrow> pylib \<Rightarrow> node_env \<Rightarrow> EventClass \<Rightarrow> (string, json) dict \<Rightarrow>
    (node, emission) op" where
  "emit_with ack L E cls payload =
     op_bind (choose_parents L E) (\<lambda>parents.
     op_bind (op_lift (\<lambda>n. merge_parent_clocks L (nd_db n) parents (nd_vector_clock n))) (\<lambda>merged.
     op_bind (op_get (\<lambda>n. (vc_increment merged (my_id n), n))) (\<lambda>(local_clock, n0).
       let e = new_event L E n0 cls payload parents local_clock;
           envelope = \<lparr>env_event = e, env_path_meta = [\<lparr>hop_node = Some (my_id n0), hop_ts = Some (en_clock E 0)\<rparr>]\<rparr>
       in op_bind (persist_envelope L E 1 True True envelope) (\<lambda>stored.
          op_bind (op_mod (\<lambda>n. refresh_peer_health
            ((on_metrics (record_emit_to_consensus_latency (en_elapsed E)) n)
               \<lparr>nd_vector_clock := vc_merge local_clock (ev_vclock e)\<rparr>))) (\<lambda>_.
          op_bind (if stored then op_bind (op_lift (\<lambda>_. event_kind_text L payload))
                (\<lambda>kind. op_mod (increment_event_counters (cls_value cls) kind)) else op_ret ()) (\<lambda>_.
          op_bind (if stored \<and> cls = ClassA then op_bind (ack (ev_id e)) (\<lambda>d. op_ret (Some d))
                   else if stored \<and> cls = ClassB
                   then op_bind (broadcast_event L (en_world E 0) (ev_id e)) (\<lambda>_. op_ret None)
                   else op_ret None) (\<lambda>durability.
          op_bind (op_mod (\<lambda>n. if stored \<and> nc_notify_enabled (nd_config n) \<and> cls_value cls \<in> set (nc_notify_classes (nd_config n))
             then n\<lparr>nd_scheduled_notifications := nd_scheduled_notifications n @ [ev_id e]\<rparr> else n)) (\<lambda>_.
          op_ret \<lparr>em_event = e, em_stored = stored, em_durability = durability\<rparr>))))))))"

definition replication_failed_payload :: "node \<Rightarrow> string \<Rightarrow> int \<Rightarrow> nat \<Rightarrow> timestamp \<Rightarrow> (string, json) dict" where
  "replication_failed_payload n event_id required peers_total now =
     [(''event_kind'', JStr ''mdrj_event_replication_failed''), (''node_id'', JStr (my_id n)),
      (''host_id'', JStr (str_or (nc_host_id (nd_config n)) (my_id n))),
      (''original_event_id'', JStr event_id), (''required_quorum'', JInt required),
      (''peers_total'', JInt (int peers_total)), (''detected_at'', JFloat now)]"

text \<open>The secondary event is of class B, so it does not come back here; \<open>E2\<close> is its environment.\<close>

definition required_acks :: "node \<Rightarrow> int" where
  "required_acks n = max 1 \<lceil>nc_fanout_quorum_ratio (nd_config n) * of_nat (length (node_list_peers n))\<rceil>"

definition replication_failed :: "pylib \<Rightarrow> node_env \<Rightarrow> string \<Rightarrow> int \<Rightarrow> nat \<Rightarrow> (node, string) op" where
  "replication_failed L E2 event_id required peers_total =
     op_bind (op_mod (\<lambda>n. bump ''class_a_local_only_count'' (if nd_gossip_on n then gossip_add_pending event_id n else n))) (\<lambda>_.
     op_bind (op_get (\<lambda>n. replication_failed_payload n event_id required peers_total (en_clock E2 9))) (\<lambda>payload.
     op_bind (op_catch (\<lambda>_. True) (op_bind (emit_with (\<lambda>_. op_ret []) L E2 ClassB payload) (\<lambda>_. op_ret ())) (op_ret ())) (\<lambda>_.
     op_ret ''local_only'')))"

definition broadcast_with_quorum_ack :: "pylib \<Rightarrow> node_env \<Rightarrow> node_env \<Rightarrow> string \<Rightarrow> (node, string) op" where
  "broadcast_with_quorum_ack L E E2 event_id = (\<lambda>n.
     if nc_fanout_quorum_ratio (nd_config n) \<le> 0
     then op_bind (broadcast_event L (en_world E 0) event_id) (\<lambda>_. op_ret ''best_effort'') n
     else if node_list_peers n = [] then (Inr ''local_only'', n)
     else case get_envelope L (nd_db n) event_id of
       Inl e \<Rightarrow> (Inl e, n)
     | Inr None \<Rightarrow> (Inr ''local_only'', n)
     | Inr (Some envelope) \<Rightarrow>
         let required = required_acks n; max_retries = max 1 (nc_fanout_max_retries (nd_config n));
             (reached, n1) = ack_loop L E envelope required [0..<nat max_retries] n
         in if reached then (Inr ''durable'', bump ''class_a_durable_count'' n1)
            else replication_failed L E2 event_id required (length (node_list_peers n)) n1)"

definition emit_event :: "pylib \<Rightarrow> node_env \<Rightarrow> node_env \<Rightarrow> EventClass \<Rightarrow> (string, json) dict \<Rightarrow> (node, emission) op" where
  "emit_event L E E2 cls payload = emit_with (broadcast_with_quorum_ack L E E2) L E cls payload"

section \<open>Operations only add\<close>

text \<open>
  No operation of this theory forgets an event, takes one out of the gossip queue, or changes the
  configuration or the set of peers.
\<close>

definition node_le :: "node \<Rightarrow> node \<Rightarrow> bool" where
  "node_le n n' \<longleftrightarrow> nd_config n' = nd_config n \<and> nd_peers n' = nd_peers n \<and> nd_gossip_on n' = nd_gossip_on n \<and>
     r_id ` set (t_events (nd_db n)) \<subseteq> r_id ` set (t_events (nd_db n')) \<and>
     (gossip_ok (nd_shared n) \<longrightarrow> gossip_ok (nd_shared n') \<and> set (gs_pending (nd_shared n)) \<subseteq> set (gs_pending (nd_shared n')))"

definition advances :: "(node, 'a) op \<Rightarrow> bool" where
  "advances m \<longleftrightarrow> (\<forall>n. node_le n (snd (m n)))"

lemma advances_run: "advances m \<Longrightarrow> m n = (r, n') \<Longrightarrow> node_le n n'"
  unfolding advances_def by (metis snd_conv)

named_theorems advancing \<open>operations that only add to a node\<close>

lemma node_le_refl [simp]: "node_le n n"
  by (simp add: node_le_def)

lemma node_le_trans: "node_le a b \<Longrightarrow> node_le b c \<Longrightarrow> node_le a c"
  by (auto simp: node_le_def)

lemma advances_basic [advancing]:
  "advances (op_ret x)" "advances (op_lift f)" "advances (op_raise e)" "advances (op_get g)"
  by (simp_all add: advances_def op_simps)

lemma advances_mod [advancing]: "(\<And>n. node_le n (f n)) \<Longrightarrow> advances (op_mod f)"
  by (simp add: advances_def op_simps)

lemma advances_bind [advancing]: "advances m \<Longrightarrow> (\<And>x. advances (f x)) \<Longrightarrow> advances (op_bind m f)"
  unfolding advances_def op_bind_run by (auto split: sum.split intro: node_le_trans)

lemma advances_catch [advancing]: "advances m \<Longrightarrow> advances h \<Longrightarrow> advances (op_catch c m h)"
  unfolding advances_def op_catch_def
  by (auto split: sum.split prod.split intro: node_le_trans)

lemma advances_if [advancing]: "advances m \<Longrightarrow> advances m' \<Longrightarrow> advances (if b then m else m')"
  by simp

lemma node_le_frame:
  "r_id ` set (t_events (nd_db n)) \<subseteq> r_id ` set (t_events d) \<Longrightarrow> node_le n (set_db d n)"
  "node_le n (on_metrics f n)" "node_le n (bump c n)" "node_le n (gossip_add_pending x n)"
  "node_le n (refresh_peer_health n)" "node_le n (notify_viz E e n)" "node_le n (schedule_fast_fanout x n)"
  "node_le n (n\<lparr>nd_vector_clock := vc\<rparr>)" "node_le n (n\<lparr>nd_recompute_dirty := b\<rparr>)" "node_le n (n\<lparr>nd_recompute_task := b\<rparr>)"
  "node_le n (n\<lparr>nd_scheduled_notifications := xs\<rparr>)" "node_le n (n\<lparr>nd_anchors := ys\<rparr>)"
  by (auto simp: node_le_def set_db_def on_metrics_def bump_def gossip_add_pending_def refresh_peer_health_def
      notify_viz_def broadcast_viz_def schedule_fast_fanout_def gossip_ok_def add_pending_def)

lemma replace_ids: "map r_id (t_events (replace_consensus_state ss d)) = map r_id (t_events d)"
  unfolding replace_consensus_state_def
proof (induction ss arbitrary: d)
  case (Cons s ss)
  have "map r_id (t_events (update_rows (cs_event_id s) (state_row s) d)) = map r_id (t_events d)"
    by (rule map_id_update) (simp add: state_row_def)
  with Cons show ?case by simp
qed simp

lemma active_membership_le: "node_le n (snd (active_consensus_membership L n))"
  by (simp add: node_le_def active_consensus_membership_def save_membership_def set_db_def gossip_ok_def
      save_consensus_membership_snapshot_def Let_def split: option.split)

lemma advances_recompute [advancing]: "advances (recompute_consensus L rl plan)"
  unfolding advances_def
proof
  fix n
  obtain snap n1 where act: "active_consensus_membership L n = (snap, n1)" by fastforce
  then have le: "node_le n n1" using active_membership_le [of n L] by simp
  have "node_le n1 (set_db (replace_consensus_state ss (nd_db n1)) n1)" for ss
    using arg_cong [OF replace_ids, of set] by (intro node_le_frame(1)) simp
  with le node_le_trans show "node_le n (snd (recompute_consensus L rl plan n))"
    by (auto simp: recompute_consensus_def act split: sum.split)
qed

lemma advances_request [advancing]: "advances (request_recompute L rl plan)"
proof -
  have "advances (op_bind (recompute_consensus L rl plan) (\<lambda>_. op_mod (\<lambda>n. n\<lparr>nd_recompute_dirty := False\<rparr>)))"
    by (intro advancing node_le_frame)
  moreover have "node_le n (n\<lparr>nd_recompute_dirty := True, nd_recompute_task := True\<rparr>)" for n
    by (rule node_le_trans [OF node_le_frame(9) node_le_frame(10)])
  ultimately show ?thesis
    unfolding advances_def request_recompute_def Let_def
    using advances_recompute [of L rl plan] unfolding advances_def
    by (auto intro: node_le_trans [OF node_le_frame(9)])
qed

lemma store_ids:
  "r_id ` set (t_events (snd (store_envelope L now env ts d))) = insert (ev_id (env_event env)) (r_id ` set (t_events d))"
proof (cases "has_event d (ev_id (env_event env))")
  case True
  have "map r_id (t_events (update_rows (ev_id (env_event env)) (coalesce_row (env_event env) ts)
      (merge_path_meta (ev_id (env_event env)) (env_path_meta env) d))) = map r_id (t_events d)"
    using map_id_update [of "coalesce_row (env_event env) ts"] by (simp add: coalesce_row_def merge_path_meta_def)
  from arg_cong [OF this, of set] True show ?thesis
    by (auto simp: store_envelope_def Let_def merge_path_meta_def has_event_def)
next
  case False
  then show ?thesis by (simp add: store_new merge_path_meta_def)
qed

lemma advances_store [advancing]: "advances (store_in_node L now env)"
  unfolding advances_def store_in_node_def
  using store_ids [of L now env]
  by (auto simp: split_beta intro!: node_le_frame(1))

lemma advances_ratio [advancing]: "advances (record_reconstruction L)"
  unfolding record_reconstruction_def by (intro advancing node_le_frame)

lemma advances_persist [advancing]: "advances (persist_envelope L E i b c env)"
proof -
  have "node_le n (notify_viz E e (schedule_fast_fanout x n))" for n e x
    by (rule node_le_trans [OF node_le_frame(7) node_le_frame(6)])
  moreover have "node_le n (if nd_gossip_on n then gossip_add_pending x n else n)" for n x
    by (simp add: node_le_frame)
  ultimately show ?thesis
    unfolding persist_envelope_def Let_def by (intro advancing node_le_frame)
qed

lemma send_one_le: "node_le n (snd (send_one L w env peer n))"
proof -
  obtain ok s where run: "send_to_peer L (nc_gossip (nd_config n)) w (pi_address peer) [env] (nd_shared n) = (ok, s)"
    by fastforce
  have "t_events (gs_db s) = t_events (nd_db n)"
    using run by (auto simp: send_to_peer_def Let_def upsert_peer_def split: http_answer.splits if_splits)
  with run send_to_peer_frame [OF run] show ?thesis
    by (auto simp: send_one_def node_le_def gossip_ok_def)
qed

lemma send_all_le: "node_le n (snd (send_all L w env peers n))"
proof (induction peers arbitrary: n)
  case (Cons p ps)
  obtain ok n1 where one: "send_one L w env p n = (ok, n1)" by fastforce
  with send_one_le [of n L w env p] have "node_le n n1" by simp
  with Cons [of n1] one show ?case by (auto simp: Let_def split_beta intro: node_le_trans)
qed simp

lemma broadcast_loop_le: "node_le n (broadcast_loop L w env peers n)"
proof (induction peers arbitrary: n)
  case (Cons p ps)
  obtain ok n1 where one: "send_one L w env p n = (ok, n1)" by fastforce
  with send_one_le [of n L w env p] have "node_le n n1" by simp
  then have le: "node_le n (if ok then n1 else gossip_add_pending x n1)" for x
    using node_le_trans [OF _ node_le_frame(4)] by simp
  show ?case using node_le_trans [OF le Cons] one by simp
qed simp

lemma advances_broadcast [advancing]: "advances (broadcast_event L w x)"
  by (simp add: advances_def broadcast_event_def broadcast_loop_le split: sum.split option.split)

lemma fanout_le: "node_le n (snd (fanout_count_ack L w fin env n))"
  by (simp add: fanout_count_ack_def send_all_le split: option.split)

lemma ack_loop_le: "node_le n (snd (ack_loop L E env k attempts n))"
proof (induction attempts arbitrary: n)
  case (Cons a as)
  obtain c n1 where f: "fanout_count_ack L (en_world E a) (en_finished E a) env n = (c, n1)" by fastforce
  with fanout_le [of n L "en_world E a" "en_finished E a" env] have "node_le n n1" by simp
  with Cons [of n1] f show ?case by (auto intro: node_le_trans)
qed simp

lemma advances_anchors [advancing]: "advances (anchor_ids L)"
  by (simp add: advances_def anchor_ids_def Let_def node_le_frame split: sum.split)

lemma advances_parents [advancing]: "advances (choose_parents L E)"
  unfolding choose_parents_def by (intro advancing)

lemma counters_le: "node_le n (increment_event_counters c k n)"
  by (auto simp: increment_event_counters_def Let_def node_le_def bump_def)

lemma advances_emit_with:
  assumes "\<And>x. advances (ack x)"
  shows "advances (emit_with ack L E cls payload)"
proof -
  have upd: "node_le n (refresh_peer_health ((on_metrics f n)\<lparr>nd_vector_clock := vc\<rparr>))" for n f vc
    by (rule node_le_trans [OF node_le_frame(2) node_le_trans [OF node_le_frame(8) node_le_frame(5)]])
  have noti: "node_le n (if b n then n\<lparr>nd_scheduled_notifications := nd_scheduled_notifications n @ [x]\<rparr> else n)" for n b x
    by (simp add: node_le_frame)
  show ?thesis
    unfolding emit_with_def Let_def split_beta
    by (intro advancing assms upd noti counters_le)
qed

lemma advances_failed [advancing]: "advances (replication_failed L E2 x k m)"
proof -
  have "node_le n (bump c (if nd_gossip_on n then gossip_add_pending y n else n))" for n c y
    using node_le_trans [OF node_le_frame(4) node_le_frame(3)] by (simp add: node_le_frame)
  then show ?thesis unfolding replication_failed_def by (intro advancing advances_emit_with)
qed

lemma advances_quorum_ack [advancing]: "advances (broadcast_with_quorum_ack L E E2 x)"
  unfolding advances_def
proof
  fix n
  have "node_le n (snd (op_bind (broadcast_event L (en_world E 0) x) (\<lambda>_. op_ret ''best_effort'') n))"
    using advances_bind [OF advances_broadcast [of L "en_world E 0" x] advances_basic(1) [of "''best_effort''"]]
    by (simp add: advances_def)
  moreover have "node_le n (bump c (snd (ack_loop L E env k as n)))" for c env k as
    by (rule node_le_trans [OF ack_loop_le node_le_frame(3)])
  moreover have "node_le n (snd (replication_failed L E2 x k m (snd (ack_loop L E env k' as n))))" for k m env k' as
    using advances_failed [of L E2 x k m] ack_loop_le [of n L E env k' as] unfolding advances_def by (blast intro: node_le_trans)
  ultimately show "node_le n (snd (broadcast_with_quorum_ack L E E2 x n))"
    by (simp add: broadcast_with_quorum_ack_def Let_def split_beta split: sum.split option.split)
qed

lemma advances_emit [advancing]: "advances (emit_event L E E2 cls payload)"
  unfolding emit_event_def by (intro advances_emit_with advancing)

section \<open>Durability of class A events\<close>

definition acked :: "pylib \<Rightarrow> node \<Rightarrow> gossip_world \<Rightarrow> envelope \<Rightarrow> peer_info \<Rightarrow> bool" where
  "acked L n w env p \<longleftrightarrow> post_batch L (nc_gossip (nd_config n)) w (pi_address p) [env] = HttpAnswer 200 True"

lemma send_one_acked:
  "fst (send_one L w env p n) = acked L n w env p"
  by (auto simp: send_one_def send_to_peer_def acked_def Let_def split: http_answer.splits if_splits)

lemma acked_le: "node_le n n' \<Longrightarrow> acked L n' w env p = acked L n w env p"
  by (simp add: acked_def node_le_def)

lemma send_all_count: "fst (send_all L w env peers n) = length (filter (acked L n w env) peers)"
proof (induction peers arbitrary: n)
  case (Cons p ps)
  obtain ok n1 where one: "send_one L w env p n = (ok, n1)" by fastforce
  have ok: "ok = acked L n w env p" using send_one_acked [of L w env p n] one by simp
  have "acked L n1 w env = acked L n w env"
    using acked_le [of n n1] send_one_le [of n L w env p] one by (auto simp: fun_eq_iff)
  with Cons [of n1] one ok show ?case by (simp add: Let_def split_beta)
qed simp

lemma ack_loop_reached:
  "ack_loop L E env k attempts n = (True, n') \<Longrightarrow> 1 \<le> k \<Longrightarrow>
   \<exists>a. k \<le> int (length (filter (acked L n (en_world E a) env) (node_list_peers n)))"
proof (induction attempts arbitrary: n)
  case (Cons a as)
  obtain c n1 where f: "fanout_count_ack L (en_world E a) (en_finished E a) env n = (c, n1)" by fastforce
  show ?case
  proof (cases "k \<le> int c")
    case True
    with Cons.prems(2) f have "c = length (filter (acked L n (en_world E a) env) (node_list_peers n))"
      using send_all_count [of L "en_world E a" env "node_list_peers n" n]
      by (auto simp: fanout_count_ack_def split: if_splits option.splits)
    with True show ?thesis by blast
  next
    case False
    with Cons.prems f have "ack_loop L E env k as n1 = (True, n')" by (auto split: if_splits)
    moreover have "node_le n n1" using fanout_le [of n L "en_world E a" "en_finished E a" env] f by simp
    ultimately show ?thesis using Cons.IH [of n1] Cons.prems(2) acked_le [of n n1]
      by (auto simp: node_list_peers_def node_le_def fun_eq_iff)
  qed
qed simp

text \<open>
  C16: what the durability of a class A event means. It is reported \<open>durable\<close> only when, in one
  attempt, peers numbering at least the configured fraction of the node's peers answered 200 to the
  event; when it is reported \<open>local_only\<close> although there are peers, the event is in the gossip queue
  afterwards, so that gossip goes on trying; and no other answer is possible while the quorum is
  configured.
\<close>

theorem class_a_durability:
  assumes ratio: "0 < nc_fanout_quorum_ratio (nd_config n)" and peers: "node_list_peers n \<noteq> []"
    and stored: "get_envelope L (nd_db n) x = Inr (Some env)"
    and gossip: "nd_gossip_on n" "gossip_ok (nd_shared n)"
    and run: "broadcast_with_quorum_ack L E E2 x n = (outcome, n')"
  shows "outcome = Inr ''durable'' \<and>
      (\<exists>attempt. nc_fanout_quorum_ratio (nd_config n) * of_nat (length (node_list_peers n)) \<le>
        of_nat (length (filter (acked L n (en_world E attempt) env) (node_list_peers n)))) \<or>
    outcome = Inr ''local_only'' \<and> x \<in> set (gs_pending (nd_shared n'))"
proof -
  obtain reached n1 where loop: "ack_loop L E env (required_acks n) [0..<nat (max 1 (nc_fanout_max_retries (nd_config n)))] n = (reached, n1)"
    by fastforce
  have n': "broadcast_with_quorum_ack L E E2 x n = (if reached then (Inr ''durable'', bump ''class_a_durable_count'' n1)
      else replication_failed L E2 x (required_acks n) (length (node_list_peers n)) n1)"
    using ratio peers stored loop by (simp add: broadcast_with_quorum_ack_def)
  have le: "node_le n n1" using ack_loop_le [of n L E env "required_acks n"] loop by (metis snd_conv)
  show ?thesis
  proof (cases reached)
    case True
    have "1 \<le> required_acks n" by (simp add: required_acks_def)
    from ack_loop_reached [OF loop [unfolded True [THEN eqTrueI]] this] obtain a
      where a: "required_acks n \<le> int (length (filter (acked L n (en_world E a) env) (node_list_peers n)))" by blast
    let ?k = "length (filter (acked L n (en_world E a) env) (node_list_peers n))"
    have "\<lceil>nc_fanout_quorum_ratio (nd_config n) * of_nat (length (node_list_peers n))\<rceil> \<le> int ?k"
      using a by (simp add: required_acks_def)
    then have "nc_fanout_quorum_ratio (nd_config n) * of_nat (length (node_list_peers n)) \<le> of_int (int ?k)"
      by (simp only: ceiling_le_iff)
    then show ?thesis using True run n' by auto
  next
    case False
    define n2 where "n2 = bump ''class_a_local_only_count'' (gossip_add_pending x n1)"
    have on: "nd_gossip_on n1" "gossip_ok (nd_shared n1)" using le gossip by (auto simp: node_le_def)
    then have n2: "x \<in> set (gs_pending (nd_shared n2))" "gossip_ok (nd_shared n2)"
      by (auto simp: n2_def bump_def gossip_add_pending_def add_pending_ok add_pending_set)
    define m where "m = op_bind (op_get (\<lambda>n. replication_failed_payload n x (required_acks n1) (length (node_list_peers n1)) (en_clock E2 9))) (\<lambda>payload.
       op_bind (op_catch (\<lambda>_. True) (op_bind (emit_with (\<lambda>_. op_ret []) L E2 ClassB payload) (\<lambda>_. op_ret ())) (op_ret ())) (\<lambda>_.
       op_ret ''local_only''))"
    have "advances m" unfolding m_def by (intro advancing advances_emit_with)
    then have "node_le n2 (snd (m n2))" by (simp add: advances_def)
    with n2 have "x \<in> set (gs_pending (nd_shared (snd (m n2))))" by (auto simp: node_le_def)
    moreover have "fst (m n2) = Inr ''local_only''"
      by (auto simp: m_def op_simps op_catch_def split: sum.split prod.split)
    moreover have "replication_failed L E2 x (required_acks n) (length (node_list_peers n)) n1 = m n2"
      using on(1) le by (simp add: replication_failed_def m_def n2_def op_simps required_acks_def node_list_peers_def node_le_def)
    ultimately show ?thesis using False run n' by auto
  qed
qed

definition demo_env :: node_env where
  "demo_env = \<lparr>en_clock = of_nat, en_elapsed = 0, en_choice = hd, en_rl = 1000, en_plan = (\<lambda>ids. ids), en_db_size = 0,
     en_process = None, en_world = (\<lambda>_. offline_world), en_finished = (\<lambda>_. None), en_stopping = (\<lambda>_. False),
     en_hostname = ''host''\<rparr>"

definition live_node :: node where
  "live_node = (set_db demo_db demo_node)\<lparr>nd_gossip_on := True\<rparr>"

theorem class_a_durability_witness:
  "fst (broadcast_with_quorum_ack demo_lib demo_env demo_env (ev_id demo_event) live_node) = Inr ''durable'' \<or>
   ev_id demo_event \<in> set (gs_pending (nd_shared (snd (broadcast_with_quorum_ack demo_lib demo_env demo_env (ev_id demo_event) live_node))))"
proof -
  have conf: "nd_config demo_node = demo_config" by (simp add: demo_node_def node_init_def Let_def reload_peers_from_storage_def refresh_peer_health_def)
  have "0 < nc_fanout_quorum_ratio (nd_config live_node)" by (simp add: live_node_def set_db_def conf demo_config_def)
  moreover have "node_list_peers demo_node \<noteq> []" by code_simp
  then have "node_list_peers live_node \<noteq> []" by (simp add: live_node_def set_db_def node_list_peers_def)
  moreover have "gossip_ok (nd_shared demo_node)" by code_simp
  then have "gossip_ok (nd_shared live_node)" by (simp add: live_node_def set_db_def gossip_ok_def)
  moreover have "nd_gossip_on live_node" "nd_db live_node = demo_db" by (simp_all add: live_node_def set_db_def)
  ultimately show ?thesis
    using class_a_durability [of live_node demo_lib "ev_id demo_event", OF _ _ _ _ _ prod.collapse [symmetric]] get_demo_envelope by auto
qed

section \<open>What an emission contains\<close>

lemma op_bind_Inr: "op_bind m f n = (Inr y, n') \<longleftrightarrow> (\<exists>x n1. m n = (Inr x, n1) \<and> f x n1 = (Inr y, n'))"
  by (auto simp: op_bind_def split: prod.splits sum.splits)

lemma op_run_Inr:
  "op_ret x n = (Inr y, n') \<longleftrightarrow> y = x \<and> n' = n" "op_lift g n = (Inr y, n') \<longleftrightarrow> g n = Inr y \<and> n' = n"
  "op_get k n = (Inr z, n') \<longleftrightarrow> z = k n \<and> n' = n" "op_mod h n = (Inr (), n') \<longleftrightarrow> n' = h n"
  by (auto simp: op_simps)

lemma anchor_ids_frame:
  "nd_db (snd (anchor_ids L n)) = nd_db n" "nd_vector_clock (snd (anchor_ids L n)) = nd_vector_clock n"
  "nd_config (snd (anchor_ids L n)) = nd_config n"
  by (simp_all add: anchor_ids_def Let_def split: sum.split)

lemma choose_parents_Inr:
  assumes "choose_parents L E n = (Inr parents, n1)"
  shows "nd_db n1 = nd_db n \<and> nd_vector_clock n1 = nd_vector_clock n \<and> nd_config n1 = nd_config n \<and>
    (\<exists>sp recent anchors. latest_event_by_source L (nd_db n) (my_id n) = Inr sp \<and>
      parents = parent_choice E (my_id n) sp recent anchors)"
proof -
  from assms obtain sp recent anchors where "latest_event_by_source L (nd_db n) (my_id n) = Inr sp"
    and a: "anchor_ids L n = (Inr anchors, n1)" and "parents = parent_choice E (my_id n) sp recent anchors"
    unfolding choose_parents_def op_bind_Inr op_run_Inr by blast
  with anchor_ids_frame [of L n] show ?thesis by auto
qed

lemma add_anchors_prefix: "\<exists>xs. add_anchors parents as = parents @ xs"
proof (induction as arbitrary: parents)
  case (Cons a as)
  obtain xs where "add_anchors (if a \<notin> set parents then parents @ [a] else parents) as =
      (if a \<notin> set parents then parents @ [a] else parents) @ xs" using Cons by blast
  then show ?case by auto
qed simp

lemma parent_choice_shape:
  "length (parent_choice E me sp recent anchors) \<le> 2"
  "sp = Some e \<Longrightarrow> parent_choice E me sp recent anchors \<noteq> [] \<and> hd (parent_choice E me sp recent anchors) = ev_id e"
proof -
  show "length (parent_choice E me sp recent anchors) \<le> 2" by (simp add: parent_choice_def Let_def)
  assume sp: "sp = Some e"
  define others where "others = map ev_id (filter (\<lambda>f. ev_source f \<noteq> me \<and> ev_id f \<notin> set [ev_id e]) recent)"
  obtain xs where "add_anchors (if others = [] then [ev_id e] else [ev_id e] @ [en_choice E others]) anchors =
      (if others = [] then [ev_id e] else [ev_id e] @ [en_choice E others]) @ xs" using add_anchors_prefix by blast
  then show "parent_choice E me sp recent anchors \<noteq> [] \<and> hd (parent_choice E me sp recent anchors) = ev_id e"
    unfolding parent_choice_def Let_def sp option.case others_def [symmetric] by (simp add: numeral_2_eq_2)
qed

lemma merge_parent_clocks_ge:
  assumes "merge_parent_clocks L d ps vc = Inr merged" "vc_nonneg vc"
    and "\<forall>p \<in> set ps. \<forall>e. get_event L d p = Inr (Some e) \<longrightarrow> dict_ok (ev_vclock e)"
  shows "(\<forall>k. vc_get vc k \<le> vc_get merged k) \<and>
    (\<forall>p \<in> set ps. \<forall>e. get_event L d p = Inr (Some e) \<longrightarrow> (\<forall>k. vc_get (ev_vclock e) k \<le> vc_get merged k))"
  using assms
proof (induction ps arbitrary: vc)
  case (Cons p ps)
  from Cons.prems(1) obtain oe where oe: "get_event L d p = Inr oe"
    and rest: "merge_parent_clocks L d ps (case oe of None \<Rightarrow> vc | Some pe \<Rightarrow> vc_merge vc (ev_vclock pe)) = Inr merged"
    by auto
  let ?vc = "case oe of None \<Rightarrow> vc | Some pe \<Rightarrow> vc_merge vc (ev_vclock pe)"
  have nn: "vc_nonneg ?vc" using Cons.prems(2) by (auto simp: vc_nonneg_merge split: option.split)
  have ge: "vc_get vc k \<le> vc_get ?vc k" "oe = Some e \<Longrightarrow> vc_get (ev_vclock e) k \<le> vc_get ?vc k" for k e
    using Cons.prems(2,3) oe by (auto simp: vc_get_merge_max split: option.split)
  have IH: "(\<forall>k. vc_get ?vc k \<le> vc_get merged k) \<and>
    (\<forall>p \<in> set ps. \<forall>e. get_event L d p = Inr (Some e) \<longrightarrow> (\<forall>k. vc_get (ev_vclock e) k \<le> vc_get merged k))"
    by (rule Cons.IH [OF rest nn]) (use Cons.prems(3) in auto)
  then have "vc_get vc k \<le> vc_get merged k" for k using ge(1) order_trans by blast
  moreover have "vc_get (ev_vclock e) k \<le> vc_get merged k" if "get_event L d p = Inr (Some e)" for e k
  proof -
    have "oe = Some e" using that oe by simp
    from ge(2) [OF this, of k] IH show ?thesis using order_trans by blast
  qed
  ultimately show ?case using IH by auto
qed auto

lemma happened_before_incr:
  "(\<And>k. vc_get c k \<le> vc_get merged k) \<Longrightarrow> happened_before c (vc_increment merged me)"
proof -
  assume le: "\<And>k. vc_get c k \<le> vc_get merged k"
  have "vc_get c k \<le> vc_get (vc_increment merged me) k" for k
    using le [of k] by (auto simp: vc_get_increment)
  moreover have "vc_get c me < vc_get (vc_increment merged me) me" using le [of me] by (simp add: vc_get_increment)
  ultimately show ?thesis unfolding happened_before_iff by blast
qed

lemma persist_result:
  assumes "persist_envelope L E i b c env n = (Inr stored, n')"
  shows "stored = (\<not> has_event (nd_db n) (ev_id (env_event env))) \<and> has_event (nd_db n') (ev_id (env_event env))"
proof -
  from assms obtain n1 f where st: "store_in_node L (en_clock E i) env n = (Inr stored, n1)"
    and f: "advances f" "f n1 = (Inr stored, n')"
  proof -
    from assms obtain st n1 where s: "store_in_node L (en_clock E i) env n = (Inr st, n1)"
      unfolding persist_envelope_def Let_def op_bind_Inr by blast
    let ?f = "\<lambda>st. op_bind (if b then request_recompute L (en_rl E) (en_plan E) else op_ret ()) (\<lambda>_.
         op_bind (op_mod (\<lambda>n. n\<lparr>nd_vector_clock := vc_merge (nd_vector_clock n) (ev_vclock (env_event env))\<rparr>)) (\<lambda>_.
         if \<not> st then op_ret st
         else
           op_bind (op_mod (\<lambda>n. if nd_gossip_on n then gossip_add_pending (ev_id (env_event env)) n else n)) (\<lambda>_.
           op_bind (if c then
               op_bind (record_reconstruction L) (\<lambda>_.
               op_mod (\<lambda>n. notify_viz E (env_event env) (schedule_fast_fanout (ev_id (env_event env)) n)))
             else op_ret ()) (\<lambda>_.
           op_ret st))))"
    have run: "?f st n1 = (Inr stored, n')"
      using assms s unfolding persist_envelope_def Let_def by (auto simp: op_bind_Inr)
    then have "stored = st" by (auto simp: op_bind_Inr op_run_Inr split: if_splits)
    moreover have "node_le n (notify_viz E e (schedule_fast_fanout x n))" for n e x
      by (rule node_le_trans [OF node_le_frame(7) node_le_frame(6)])
    then have "advances (?f st)"
      by (intro advancing node_le_frame) (simp add: node_le_frame)
    ultimately show thesis using that s run by blast
  qed
  have "stored = fst (store_envelope L (en_clock E i) env (ev_consensus_ts (env_event env)) (nd_db n))"
    "nd_db n1 = snd (store_envelope L (en_clock E i) env (ev_consensus_ts (env_event env)) (nd_db n))"
    using st by (auto simp: store_in_node_def split_beta)
  moreover have "fst (store_envelope L now env ts d) = (\<not> has_event d (ev_id (env_event env)))" for now ts d
    by (simp add: store_envelope_def Let_def)
  moreover have "node_le n1 n'" using f by (metis advances_def snd_conv)
  ultimately show ?thesis using store_ids by (auto simp: node_le_def has_event_def)
qed

text \<open>The steps of an emission after the envelope is stored.\<close>

definition emit_rest :: "(string \<Rightarrow> (node, string) op) \<Rightarrow> pylib \<Rightarrow> node_env \<Rightarrow> EventClass \<Rightarrow> (string, json) dict \<Rightarrow> vclock \<Rightarrow>
    event \<Rightarrow> bool \<Rightarrow> (node, emission) op" where
  "emit_rest ack L E cls payload local_clock e stored =
     op_bind (op_mod (\<lambda>n. refresh_peer_health
            ((on_metrics (record_emit_to_consensus_latency (en_elapsed E)) n)
               \<lparr>nd_vector_clock := vc_merge local_clock (ev_vclock e)\<rparr>))) (\<lambda>_.
          op_bind (if stored then op_bind (op_lift (\<lambda>_. event_kind_text L payload))
                (\<lambda>kind. op_mod (increment_event_counters (cls_value cls) kind)) else op_ret ()) (\<lambda>_.
          op_bind (if stored \<and> cls = ClassA then op_bind (ack (ev_id e)) (\<lambda>d. op_ret (Some d))
                   else if stored \<and> cls = ClassB
                   then op_bind (broadcast_event L (en_world E 0) (ev_id e)) (\<lambda>_. op_ret None)
                   else op_ret None) (\<lambda>durability.
          op_bind (op_mod (\<lambda>n. if stored \<and> nc_notify_enabled (nd_config n) \<and> cls_value cls \<in> set (nc_notify_classes (nd_config n))
             then n\<lparr>nd_scheduled_notifications := nd_scheduled_notifications n @ [ev_id e]\<rparr> else n)) (\<lambda>_.
          op_ret \<lparr>em_event = e, em_stored = stored, em_durability = durability\<rparr>))))"

lemma advances_rest:
  assumes "\<And>x. advances (ack x)"
  shows "advances (emit_rest ack L E cls payload vc e stored)"
proof -
  have upd: "node_le n (refresh_peer_health ((on_metrics f n)\<lparr>nd_vector_clock := vc\<rparr>))" for n f vc
    by (rule node_le_trans [OF node_le_frame(2) node_le_trans [OF node_le_frame(8) node_le_frame(5)]])
  have noti: "node_le n (if b n then n\<lparr>nd_scheduled_notifications := nd_scheduled_notifications n @ [x]\<rparr> else n)" for n b x
    by (simp add: node_le_frame)
  show ?thesis unfolding emit_rest_def by (intro advancing assms upd noti counters_le)
qed

lemma emit_rest_result:
  "emit_rest ack L E cls payload vc e stored n = (Inr em, n') \<Longrightarrow> em_event em = e \<and> em_stored em = stored"
  unfolding emit_rest_def op_bind_Inr op_run_Inr by auto

lemma emit_with_Inr:
  assumes "emit_with ack L E cls payload n = (Inr em, n')"
  obtains parents na merged stored nb where "choose_parents L E n = (Inr parents, na)"
    "merge_parent_clocks L (nd_db na) parents (nd_vector_clock na) = Inr merged"
    "persist_envelope L E 1 True True
       \<lparr>env_event = new_event L E na cls payload parents (vc_increment merged (my_id na)),
        env_path_meta = [\<lparr>hop_node = Some (my_id na), hop_ts = Some (en_clock E 0)\<rparr>]\<rparr> na = (Inr stored, nb)"
    "emit_rest ack L E cls payload (vc_increment merged (my_id na))
       (new_event L E na cls payload parents (vc_increment merged (my_id na))) stored nb = (Inr em, n')"
  using assms
  by (auto simp: emit_with_def Let_def emit_rest_def [symmetric] op_bind_Inr op_run_Inr)

lemma new_event_sel:
  "ev_id (new_event L E n cls payload parents vc) =
     compute_event_id L (event_header cls (my_id n) (en_clock E 0) vc parents) (JObj payload)"
  "ev_source (new_event L E n cls payload parents vc) = my_id n" "ev_cls (new_event L E n cls payload parents vc) = cls"
  "ev_payload (new_event L E n cls payload parents vc) = payload" "ev_parents (new_event L E n cls payload parents vc) = parents"
  "ev_vclock (new_event L E n cls payload parents vc) = vc" "ev_ts_local (new_event L E n cls payload parents vc) = en_clock E 0"
  "ev_self_parent_id (new_event L E n cls payload parents vc) = nth_opt parents 0"
  by (simp_all add: new_event_def event_create_def first_some_def split: option.split)

text \<open>
  C15: what an emission creates. The new event carries the identifier hashed from its own header and
  payload, names at most two parents, the first being the node's latest event, and its vector clock is
  causally after the node's clock and after the clock of every stored parent; afterwards the event is in
  the database, and the emission reports it as stored exactly when its identifier was new.
\<close>

theorem emit_event_correct:
  assumes run: "emit_event L E E2 cls payload n = (Inr em, n')"
    and nonneg: "vc_nonneg (nd_vector_clock n)"
    and clocks: "\<And>p pe. get_event L (nd_db n) p = Inr (Some pe) \<Longrightarrow> dict_ok (ev_vclock pe)"
  shows "ev_id (em_event em) = compute_event_id L (event_header cls (my_id n) (ev_ts_local (em_event em))
        (ev_vclock (em_event em)) (ev_parents (em_event em))) (JObj payload) \<and>
    ev_payload (em_event em) = payload \<and> length (ev_parents (em_event em)) \<le> 2 \<and>
    (\<forall>own. latest_event_by_source L (nd_db n) (my_id n) = Inr (Some own) \<longrightarrow>
      ev_self_parent_id (em_event em) = Some (ev_id own)) \<and>
    happened_before (nd_vector_clock n) (ev_vclock (em_event em)) \<and>
    (\<forall>p \<in> set (ev_parents (em_event em)). \<forall>pe. get_event L (nd_db n) p = Inr (Some pe) \<longrightarrow>
      happened_before (ev_vclock pe) (ev_vclock (em_event em))) \<and>
    has_event (nd_db n') (ev_id (em_event em)) \<and>
    (em_stored em \<longleftrightarrow> \<not> has_event (nd_db n) (ev_id (em_event em)))"
proof -
  obtain parents na merged stored nb where par: "choose_parents L E n = (Inr parents, na)"
    and mer: "merge_parent_clocks L (nd_db na) parents (nd_vector_clock na) = Inr merged"
    and per: "persist_envelope L E 1 True True
       \<lparr>env_event = new_event L E na cls payload parents (vc_increment merged (my_id na)),
        env_path_meta = [\<lparr>hop_node = Some (my_id na), hop_ts = Some (en_clock E 0)\<rparr>]\<rparr> na = (Inr stored, nb)"
    and rest: "emit_rest (broadcast_with_quorum_ack L E E2) L E cls payload (vc_increment merged (my_id na))
       (new_event L E na cls payload parents (vc_increment merged (my_id na))) stored nb = (Inr em, n')"
    by (rule emit_with_Inr [OF run [unfolded emit_event_def]])
  from choose_parents_Inr [OF par] obtain sp recent anchors where
    na: "nd_db na = nd_db n" "nd_vector_clock na = nd_vector_clock n" "nd_config na = nd_config n"
    and sp: "latest_event_by_source L (nd_db n) (my_id n) = Inr sp" "parents = parent_choice E (my_id n) sp recent anchors" by blast
  let ?e = "new_event L E na cls payload parents (vc_increment merged (my_id na))"
  have em: "em_event em = ?e" "em_stored em = stored" using emit_rest_result [OF rest] by simp_all
  have ge: "(\<forall>k. vc_get (nd_vector_clock n) k \<le> vc_get merged k) \<and>
    (\<forall>p \<in> set parents. \<forall>pe. get_event L (nd_db n) p = Inr (Some pe) \<longrightarrow> (\<forall>k. vc_get (ev_vclock pe) k \<le> vc_get merged k))"
    by (rule merge_parent_clocks_ge) (use mer na nonneg clocks in auto)
  have self: "ev_self_parent_id ?e = Some (ev_id own)" if "latest_event_by_source L (nd_db n) (my_id n) = Inr (Some own)" for own
  proof -
    from that sp(1) have "sp = Some own" by simp
    with parent_choice_shape(2) have "parents \<noteq> [] \<and> hd parents = ev_id own" unfolding sp(2) by blast
    then show ?thesis by (cases parents) (simp_all add: new_event_sel nth_opt_def)
  qed
  have "node_le nb n'" by (rule advances_run [OF advances_rest [OF advances_quorum_ack] rest])
  with persist_result [OF per] na(1) have "has_event (nd_db n') (ev_id ?e)" "stored \<longleftrightarrow> \<not> has_event (nd_db n) (ev_id ?e)"
    by (auto simp: node_le_def has_event_def)
  moreover have "happened_before (nd_vector_clock n) (vc_increment merged (my_id na))"
    using ge by (intro happened_before_incr) blast
  moreover have "happened_before (ev_vclock pe) (vc_increment merged (my_id na))"
    if "p \<in> set parents" "get_event L (nd_db n) p = Inr (Some pe)" for p pe
    using ge that by (intro happened_before_incr) blast
  moreover have "length parents \<le> 2" using sp(2) parent_choice_shape(1) by simp
  ultimately show ?thesis unfolding em using self na(3) by (simp add: new_event_sel)
qed

definition quiet_node :: node where
  "quiet_node = demo_node\<lparr>nd_loop_running := True, nd_config := (nd_config demo_node)\<lparr>nc_recompute_debounce_sec := 1\<rparr>\<rparr>"

lemma quiet_node_parts:
  "t_events (nd_db quiet_node) = []" "my_id quiet_node = ''n1''" "nd_vector_clock quiet_node = []"
  "nd_anchors quiet_node = []" "nd_gossip_on quiet_node = False" "nd_loop_running quiet_node"
  "nc_recompute_debounce_sec (nd_config quiet_node) = 1" "nc_notify_enabled (nd_config quiet_node) = False"
  by code_simp+

lemma quiet_parents: "choose_parents demo_lib demo_env quiet_node = (Inr [], quiet_node)"
proof -
  have "quiet_node\<lparr>nd_anchors := []\<rparr> = quiet_node" using quiet_node_parts(4) by simp
  then show ?thesis
    by (simp add: choose_parents_def op_simps quiet_node_parts latest_event_by_source_def list_recent_events_def
        by_created_def sql_limit_def head_opt_def anchor_ids_def list_events_def parent_choice_def)
qed

lemma quiet_emission: "\<exists>em n'. emit_event demo_lib demo_env demo_env ClassC [] quiet_node = (Inr em, n')"
proof -
  let ?vc = "vc_increment [] ''n1''"
  let ?e = "new_event demo_lib demo_env quiet_node ClassC [] [] ?vc"
  let ?env = "\<lparr>env_event = ?e, env_path_meta = [\<lparr>hop_node = Some ''n1'', hop_ts = Some (en_clock demo_env 0)\<rparr>]\<rparr>"
  have eok: "event_ok ?e" by (simp add: new_event_def event_create_def event_ok_def vc_increment_def quiet_node_parts str_or_def nth_opt_def first_some_def)
  have ev: "list_events demo_lib d 1000 None = Inr [fresh_event ?e ts]"
    if "t_events d = [new_row demo_lib ?e ts now]" for d ts now
    using event_from_new_row [OF demo_lib_ok(1) eok, of ts now] that
    by (simp add: list_events_def by_created_def sql_limit_def)
  have ev': "reconstruction_ratio demo_lib d = Inr 1"
    if "t_events d = [new_row demo_lib ?e ts now]" for d ts now
    using ev [OF that] by (simp add: reconstruction_ratio_def new_event_sel)
  have nh: "\<not> has_event (nd_db quiet_node) x" for x by (simp add: has_event_def quiet_node_parts)
  have "\<exists>n1. persist_envelope demo_lib demo_env 1 True True ?env quiet_node = (Inr True, n1) \<and> nd_gossip_on n1 = False \<and>
    nd_config n1 = nd_config quiet_node" 
    using nh [of "ev_id ?e"]
    by (simp add: persist_envelope_def store_in_node_def store_new quiet_node_parts op_simps request_recompute_def
      set_db_def record_reconstruction_def ev' Let_def schedule_fast_fanout_def notify_viz_def broadcast_viz_def on_metrics_def)
  then show ?thesis
    by (auto simp: emit_event_def emit_with_def op_simps Let_def quiet_parents quiet_node_parts event_kind_text_def dict_get_def)
qed

theorem emit_event_correct_witness:
  "\<exists>em n'. emit_event demo_lib demo_env demo_env ClassC [] quiet_node = (Inr em, n') \<and>
     has_event (nd_db n') (ev_id (em_event em)) \<and> em_stored em \<and> happened_before [] (ev_vclock (em_event em))"
proof -
  obtain em n' where run: "emit_event demo_lib demo_env demo_env ClassC [] quiet_node = (Inr em, n')"
    using quiet_emission by blast
  have empty: "\<not> has_event (nd_db quiet_node) x" "get_event demo_lib (nd_db quiet_node) x = Inr None" for x
    by (simp_all add: has_event_def get_event_def select_row_def quiet_node_parts)
  with emit_event_correct [OF run] run show ?thesis by (auto simp: quiet_node_parts vc_nonneg_def)
qed

section \<open>Ingestion\<close>

definition event_ids :: "node \<Rightarrow> string set" where
  "event_ids n = r_id ` set (t_events (nd_db n))"

definition same_ids :: "(node, 'a) op \<Rightarrow> bool" where
  "same_ids m \<longleftrightarrow> (\<forall>n. event_ids (snd (m n)) = event_ids n)"

lemma same_ids_basic:
  "same_ids (op_ret x)" "same_ids (op_lift f)" "(\<And>n. event_ids (g n) = event_ids n) \<Longrightarrow> same_ids (op_mod g)"
  by (simp_all add: same_ids_def op_simps)

lemma same_ids_bind: "same_ids m \<Longrightarrow> (\<And>x. same_ids (f x)) \<Longrightarrow> same_ids (op_bind m f)"
  unfolding same_ids_def op_bind_run by (auto split: sum.split)

lemma same_ids_recompute: "same_ids (recompute_consensus L rl plan)"
  unfolding same_ids_def
proof
  fix n
  obtain snap n1 where act: "active_consensus_membership L n = (snap, n1)" by fastforce
  have "event_ids n1 = event_ids n" using active_membership_frame(1) [of L n] act by (simp add: event_ids_def)
  moreover have "event_ids (set_db (replace_consensus_state ss (nd_db n1)) n1) = event_ids n1" for ss
    using arg_cong [OF replace_ids, of set] by (simp add: event_ids_def)
  ultimately show "event_ids (snd (recompute_consensus L rl plan n)) = event_ids n"
    by (auto simp: recompute_consensus_def act split: sum.split)
qed

lemma same_ids_request: "same_ids (request_recompute L rl plan)"
proof -
  have upd: "event_ids (n\<lparr>nd_recompute_dirty := b\<rparr>) = event_ids n" "event_ids (n\<lparr>nd_recompute_dirty := b, nd_recompute_task := c\<rparr>) = event_ids n"
    for n b c by (simp_all add: event_ids_def)
  have "same_ids (op_bind (recompute_consensus L rl plan) (\<lambda>_. op_mod (\<lambda>n. n\<lparr>nd_recompute_dirty := False\<rparr>)))"
    by (intro same_ids_bind same_ids_recompute same_ids_basic upd)
  with same_ids_recompute [of L rl plan] show ?thesis
    unfolding same_ids_def request_recompute_def Let_def by (auto simp: upd)
qed

fun unseen :: "string set \<Rightarrow> envelope list \<Rightarrow> event list" where
  "unseen S [] = []"
| "unseen S (env # envs) =
     (if ev_id (env_event env) \<in> S then unseen S envs
      else env_event env # unseen (insert (ev_id (env_event env)) S) envs)"

lemma persist_quiet:
  "\<exists>n'. persist_envelope L E i False False env n = (Inr (ev_id (env_event env) \<notin> event_ids n), n') \<and>
     event_ids n' = insert (ev_id (env_event env)) (event_ids n)"
proof -
  obtain st d where s: "store_envelope L (en_clock E i) env (ev_consensus_ts (env_event env)) (nd_db n) = (st, d)" by fastforce
  have "st = (ev_id (env_event env) \<notin> event_ids n)"
    using s by (auto simp: store_envelope_def Let_def has_event_def event_ids_def split: if_splits)
  moreover have "r_id ` set (t_events d) = insert (ev_id (env_event env)) (event_ids n)"
    using store_ids [of L "en_clock E i" env "ev_consensus_ts (env_event env)" "nd_db n"] s by (simp add: event_ids_def)
  ultimately show ?thesis
    using s by (auto simp: persist_envelope_def store_in_node_def op_simps Let_def event_ids_def)
qed

lemma ingest_loop:
  "\<exists>kept n'. op_each (\<lambda>(i, env). op_bind (persist_envelope L E i False False env) (\<lambda>stored.
         op_ret (if stored then [env_event env] else []))) (enumerate k envs) n = (Inr kept, n') \<and>
     concat kept = unseen (event_ids n) envs \<and>
     event_ids n' = event_ids n \<union> (\<lambda>env. ev_id (env_event env)) ` set envs"
proof (induction envs arbitrary: k n)
  case Nil
  then show ?case by (simp add: op_simps)
next
  case (Cons env envs)
  let ?x = "ev_id (env_event env)"
  obtain n1 where one: "persist_envelope L E k False False env n = (Inr (?x \<notin> event_ids n), n1)"
    "event_ids n1 = insert ?x (event_ids n)" using persist_quiet by blast
  obtain kept n' where rest: "op_each (\<lambda>(i, env). op_bind (persist_envelope L E i False False env) (\<lambda>stored.
         op_ret (if stored then [env_event env] else []))) (enumerate (Suc k) envs) n1 = (Inr kept, n')"
    "concat kept = unseen (event_ids n1) envs" "event_ids n' = event_ids n1 \<union> (\<lambda>env. ev_id (env_event env)) ` set envs"
    using Cons by blast
  show ?case using one rest by (auto simp: op_bind_Inr op_run_Inr insert_absorb intro!: exI)
qed

lemma ingest_envelopes_split:
  "\<exists>f. same_ids f \<and> (\<exists>n1. ingest_envelopes L E envs n = f n1 \<and>
    event_ids n1 = event_ids n \<union> (\<lambda>env. ev_id (env_event env)) ` set envs) \<and>
    (\<forall>n1. fst (f n1) = Inr (map ev_id (unseen (event_ids n) envs)) \<or> (\<exists>e. fst (f n1) = Inl e)) \<and>
    (unseen (event_ids n) envs = [] \<longrightarrow> (\<forall>n1. fst (f n1) = Inr []))"
proof -
  obtain kept n1 where loop: "op_each (\<lambda>(i, env). op_bind (persist_envelope L E i False False env) (\<lambda>stored.
       op_ret (if stored then [env_event env] else []))) (enumerate 0 envs) n = (Inr kept, n1)"
    "concat kept = unseen (event_ids n) envs" "event_ids n1 = event_ids n \<union> (\<lambda>env. ev_id (env_event env)) ` set envs"
    using ingest_loop by blast
  let ?new = "unseen (event_ids n) envs"
  let ?f = "op_bind (if map ev_id ?new \<noteq> [] then
           op_bind (request_recompute L (en_rl E) (en_plan E)) (\<lambda>_.
           op_bind (record_reconstruction L) (\<lambda>_. op_mod (notify_viz E (last ?new))))
         else op_ret ()) (\<lambda>_. op_bind (op_mod refresh_peer_health) (\<lambda>_. op_ret (map ev_id ?new)))"
  have upd: "event_ids (notify_viz E e n) = event_ids n" "event_ids (refresh_peer_health n) = event_ids n"
    "event_ids (on_metrics h n) = event_ids n" for e n h
    by (simp_all add: event_ids_def notify_viz_def broadcast_viz_def refresh_peer_health_def)
  have "same_ids (record_reconstruction L)"
    unfolding record_reconstruction_def by (intro same_ids_bind same_ids_basic upd)
  then have "same_ids ?f"
    by (cases "map ev_id ?new \<noteq> []") (auto intro!: same_ids_bind same_ids_basic same_ids_request simp: upd)
  moreover have "ingest_envelopes L E envs n = ?f n1"
    unfolding ingest_envelopes_def op_bind_run [of "op_each _ _"] loop(1)
    by (simp only: fst_conv snd_conv sum.case prod.case Let_def loop(2))
  moreover have "fst (?f m) = Inr (map ev_id ?new) \<or> (\<exists>e. fst (?f m) = Inl e)" for m
    by (auto simp: op_simps split: sum.split)
  moreover have "?new = [] \<longrightarrow> fst (?f m) = Inr []" for m by (simp add: op_simps)
  ultimately show ?thesis using loop(3) by blast
qed

lemma ingest_envelopes_ids:
  "event_ids (snd (ingest_envelopes L E envs n)) = event_ids n \<union> (\<lambda>env. ev_id (env_event env)) ` set envs"
  using ingest_envelopes_split [of L E envs n] unfolding same_ids_def by metis

lemma advances_each [advancing]: "(\<And>x. advances (f x)) \<Longrightarrow> advances (op_each f xs)"
  by (induction xs) (auto intro!: advancing)

lemma advances_ingest [advancing]: "advances (ingest_envelopes L E envs)"
  unfolding ingest_envelopes_def Let_def split_def by (intro advancing node_le_frame)

text \<open>
  C17: ingestion is complete and idempotent. Whether or not the recomputation at its end fails, all the
  envelopes are stored and nothing else; the answer, when there is one, lists the identifiers not seen
  before, once each and in order of arrival; and ingesting the same envelopes again reports nothing new.
\<close>

theorem ingest_envelopes_correct:
  fixes L E E' envs n
  defines "result \<equiv> ingest_envelopes L E envs n"
  shows "event_ids (snd result) = event_ids n \<union> (\<lambda>env. ev_id (env_event env)) ` set envs \<and>
    (fst result = Inr (map ev_id (unseen (event_ids n) envs)) \<or> (\<exists>e. fst result = Inl e)) \<and>
    fst (ingest_envelopes L E' envs (snd result)) = Inr []"
proof -
  have seen: "unseen S envs = []" if "(\<lambda>env. ev_id (env_event env)) ` set envs \<subseteq> S" for S
    using that by (induction envs) auto
  from ingest_envelopes_split [of L E envs n] have first: "event_ids (snd result) = event_ids n \<union> (\<lambda>env. ev_id (env_event env)) ` set envs"
    "fst result = Inr (map ev_id (unseen (event_ids n) envs)) \<or> (\<exists>e. fst result = Inl e)"
    unfolding result_def same_ids_def by metis+
  then have "unseen (event_ids (snd result)) envs = []" by (intro seen) blast
  with ingest_envelopes_split [of L E' envs "snd result"] first show ?thesis by metis
qed

end
