(* ===== verification/Catalog.thy ===== *)
theory Catalog
  imports NodeEvents
begin

text \<open>
  \<open>mdrj/event_catalog.py\<close>: the catalogue of event kinds, loaded from the first usable of a list of JSON
  files or else the table built into the module, and the collection policy, which says per kind whether
  its events enter the registry. The texts of the candidate files, none for a missing file, and the
  built-in table are arguments: the titles in the latter are Cyrillic. The two module variables are the record
  \<open>catalog\<close>. A \<open>KeyError\<close> carries the kind instead of the message around it.
\<close>

section \<open>The catalogue\<close>

record catalog_entry =
  ce_class :: EventClass
  ce_title :: string
  ce_payload :: "(string, json) dict"

type_synonym metadata = "(string, json) dict"

record catalog =
  ct_events :: "(string, catalog_entry) dict"
  ct_metadata :: "(string, metadata) dict"

text \<open>\<open>list(value or [])\<close>.\<close>

fun json_items :: "json \<Rightarrow> json list result" where
  "json_items (JList js) = Inr js"
| "json_items (JStr s) = Inr (map (\<lambda>c. JStr [c]) s)"
| "json_items (JObj kvs) = Inr (map (JStr \<circ> fst) kvs)"
| "json_items j = (if json_truthy j then Inl TypeError else Inr [])"

definition entry_metadata :: "pylib \<Rightarrow> EventClass \<Rightarrow> string \<Rightarrow> string \<Rightarrow> (string, json) dict \<Rightarrow> metadata result" where
  "entry_metadata L cls title category d =
     res_bind (py_str L (dict_get d ''rationale'' (JStr []))) (\<lambda>rationale.
     res_bind (json_items (dict_get d ''linked_threats'' (JList []))) (\<lambda>linked_threats.
     res_bind (py_str L (dict_get d ''added_by'' (JStr []))) (\<lambda>added_by.
     res_bind (json_items (dict_get d ''npa'' (JList []))) (\<lambda>npa.
     res_bind (py_str L (dict_get d ''source'' (JStr []))) (\<lambda>source.
     Inr [(''class'', JStr (cls_value cls)), (''title'', JStr title), (''category'', JStr category),
          (''rationale'', JStr rationale), (''linked_threats'', JList linked_threats), (''added_by'', JStr added_by),
          (''npa'', JList npa), (''source'', JStr source),
          (''registry_enabled'', JBool (json_truthy (dict_get d ''registry_enabled'' (JBool True))))])))))"

fun load_events :: "pylib \<Rightarrow> (string, json) dict \<Rightarrow> (string, catalog_entry) dict \<Rightarrow> (string, metadata) dict \<Rightarrow>
    ((string, catalog_entry) dict \<times> (string, metadata) dict) result" where
  "load_events L [] runtime meta = Inr (runtime, meta)"
| "load_events L ((kind, JObj d) # rest) runtime meta =
     res_bind (py_str L (dict_get d ''class'' (JStr []))) (\<lambda>class_text.
       case cls_from_str class_text of
         Inl _ \<Rightarrow> load_events L rest runtime meta
       | Inr cls \<Rightarrow>
           res_bind (py_str L (dict_get d ''title'' (JStr kind))) (\<lambda>title.
           res_bind (py_str L (dict_get d ''category'' (JStr ''other''))) (\<lambda>category.
           res_bind (entry_metadata L cls title category d) (\<lambda>m.
           load_events L rest
             (AList.update kind \<lparr>ce_class = cls, ce_title = title, ce_payload = [(''category'', JStr category)]\<rparr> runtime)
             (AList.update kind m meta)))))"
| "load_events L (_ # rest) runtime meta = load_events L rest runtime meta"

fun load_from_json :: "pylib \<Rightarrow> string option list \<Rightarrow> (string, metadata) dict \<Rightarrow>
    ((string, catalog_entry) dict option \<times> (string, metadata) dict) result" where
  "load_from_json L [] meta = Inr (None, meta)"
| "load_from_json L (None # files) meta = load_from_json L files meta"
| "load_from_json L (Some text # files) meta =
     (case json_loads (floats L) text of
        Some (JObj data) \<Rightarrow>
          (case jget data ''events'' of
             JObj events_section \<Rightarrow>
               res_bind (load_events L events_section [] meta) (\<lambda>(runtime, meta').
                 if runtime \<noteq> [] then Inr (Some runtime, meta') else load_from_json L files meta')
           | _ \<Rightarrow> load_from_json L files meta)
      | _ \<Rightarrow> load_from_json L files meta)"

definition catalog_init :: "pylib \<Rightarrow> string option list \<Rightarrow> (string, catalog_entry) dict \<Rightarrow> catalog result" where
  "catalog_init L files builtin =
     res_bind (load_from_json L files []) (\<lambda>(loaded, meta).
       Inr \<lparr>ct_events = (case loaded of Some runtime \<Rightarrow> runtime | None \<Rightarrow> builtin), ct_metadata = meta\<rparr>)"

section \<open>Queries\<close>

definition is_known_event_kind :: "catalog \<Rightarrow> string \<Rightarrow> bool" where
  "is_known_event_kind c kind \<longleftrightarrow> map_of (ct_events c) kind \<noteq> None"

definition event_class_for :: "catalog \<Rightarrow> string \<Rightarrow> EventClass result" where
  "event_class_for c kind = (case map_of (ct_events c) kind of None \<Rightarrow> Inl (KeyError kind) | Some e \<Rightarrow> Inr (ce_class e))"

definition catalog_title_for :: "catalog \<Rightarrow> string \<Rightarrow> string result" where
  "catalog_title_for c kind = (case map_of (ct_events c) kind of None \<Rightarrow> Inl (KeyError kind) | Some e \<Rightarrow> Inr (ce_title e))"

definition event_metadata :: "catalog \<Rightarrow> string \<Rightarrow> metadata option" where
  "event_metadata c kind = map_of (ct_metadata c) kind"

definition metadata_enabled :: "metadata \<Rightarrow> bool" where
  "metadata_enabled meta = json_truthy (dict_get meta ''registry_enabled'' (JBool True))"

definition registry_enabled_for :: "catalog \<Rightarrow> string \<Rightarrow> bool" where
  "registry_enabled_for c kind = (case map_of (ct_metadata c) kind of None \<Rightarrow> True | Some meta \<Rightarrow> metadata_enabled meta)"

definition set_registry_enabled :: "string \<Rightarrow> bool \<Rightarrow> catalog \<Rightarrow> bool \<times> catalog" where
  "set_registry_enabled kind enabled c =
     (case map_of (ct_metadata c) kind of
        None \<Rightarrow> (False, c)
      | Some meta \<Rightarrow> (True, c\<lparr>ct_metadata :=
          AList.update kind (AList.update ''registry_enabled'' (JBool enabled) meta) (ct_metadata c)\<rparr>))"

definition policy_items :: "catalog \<Rightarrow> (string \<times> bool) list" where
  "policy_items c = sort_key fst (map (\<lambda>(kind, meta). (kind, metadata_enabled meta)) (ct_metadata c))"

definition policy_entry :: "string \<times> bool \<Rightarrow> string" where
  "policy_entry = (\<lambda>(kind, enabled). kind @ ''='' @ (if enabled then ''1'' else ''0''))"

definition policy_text :: "catalog \<Rightarrow> string" where
  "policy_text c = join '';'' (map policy_entry (policy_items c))"

definition collection_policy_hash :: "pylib \<Rightarrow> catalog \<Rightarrow> string" where
  "collection_policy_hash L c = sha256_hex L (policy_text c)"

section \<open>The policy\<close>

lemma registry_enabled_set:
  "registry_enabled_for (snd (set_registry_enabled kind enabled c)) k =
     (if k = kind \<and> fst (set_registry_enabled kind enabled c) then enabled else registry_enabled_for c k)"
  by (auto simp: registry_enabled_for_def set_registry_enabled_def metadata_enabled_def dict_get_def split: option.split)

lemma set_registry_events [simp]: "ct_events (snd (set_registry_enabled kind enabled c)) = ct_events c"
  by (simp add: set_registry_enabled_def split: option.split)

text \<open>Loading fills both dictionaries with the same kinds, so the policy of every kind of a loaded catalogue
  can be set; the built-in catalogue has no policy.\<close>

lemma load_events_keys:
  "load_events L kvs runtime meta = Inr (runtime', meta') \<Longrightarrow> map fst runtime = map fst meta \<Longrightarrow>
   map fst runtime' = map fst meta'"
proof (induction L kvs runtime meta rule: load_events.induct)
  case (2 L kind d rest runtime meta)
  from "2.prems"(1) obtain class_text where ct: "py_str L (dict_get d ''class'' (JStr [])) = Inr class_text" by auto
  show ?case
  proof (cases "cls_from_str class_text")
    case (Inl e)
    then show ?thesis using "2.IH"(1) "2.prems" ct by simp
  next
    case (Inr cls)
    with "2.prems"(1) ct obtain title category m where
      "py_str L (dict_get d ''title'' (JStr kind)) = Inr title" "py_str L (dict_get d ''category'' (JStr ''other'')) = Inr category"
      "entry_metadata L cls title category d = Inr m"
      and rec: "load_events L rest (AList.update kind \<lparr>ce_class = cls, ce_title = title, ce_payload = [(''category'', JStr category)]\<rparr> runtime)
         (AList.update kind m meta) = Inr (runtime', meta')" by auto
    from "2.IH"(2) [OF Inr rec] "2.prems"(2) show ?thesis by (simp add: update_keys)
  qed
qed auto

lemma load_from_json_keys:
  "load_from_json L files [] = Inr (loaded, meta) \<Longrightarrow>
   (case loaded of None \<Rightarrow> meta = [] | Some runtime \<Rightarrow> map fst runtime = map fst meta)"
proof (induction files)
  case (Cons src files)
  show ?case
  proof (cases "\<exists>str data evs. src = Some str \<and> json_loads (floats L) str = Some (JObj data) \<and> jget data ''events'' = JObj evs")
    case True
    then obtain str data evs where f: "src = Some str" "json_loads (floats L) str = Some (JObj data)" "jget data ''events'' = JObj evs"
      by blast
    with Cons.prems obtain runtime meta' where l: "load_events L evs [] [] = Inr (runtime, meta')" by auto
    with load_events_keys have keys: "map fst runtime = map fst meta'" by fastforce
    show ?thesis using Cons f l keys by (auto split: if_splits option.split)
  next
    case False
    then have "load_from_json L (src # files) [] = load_from_json L files []"
      by (cases src) (auto split: option.split json.split)
    with Cons show ?thesis by simp
  qed
qed simp

lemma catalog_init_keys:
  assumes "catalog_init L files builtin = Inr c"
  shows "(ct_events c = builtin \<and> ct_metadata c = []) \<or> map fst (ct_events c) = map fst (ct_metadata c)"
proof -
  from assms obtain loaded meta where l: "load_from_json L files [] = Inr (loaded, meta)"
    and c: "c = \<lparr>ct_events = (case loaded of Some runtime \<Rightarrow> runtime | None \<Rightarrow> builtin), ct_metadata = meta\<rparr>"
    unfolding catalog_init_def by auto
  from load_from_json_keys [OF l] show ?thesis by (auto simp: c split: option.splits)
qed

text \<open>Texts of equal lengths are joined injectively, so the joined entries of two policies over the same kinds
  give back the policies.\<close>

lemma join_inj_lengths: "map length us = map length vs \<Longrightarrow> join sep us = join sep vs \<Longrightarrow> us = vs"
proof (induction us arbitrary: vs)
  case (Cons u us)
  note IH = Cons.IH and prems = Cons.prems(2)
  from Cons.prems obtain v vs' where vs: "vs = v # vs'" "length u = length v" "map length us = map length vs'" by auto
  show ?case
  proof (cases us)
    case Nil
    then show ?thesis using Cons.prems vs by simp
  next
    case (Cons u' us')
    with vs(3) obtain v' vs'' where vs': "vs' = v' # vs''" by auto
    have "u = v \<and> join sep us = join sep vs'" using prems vs(1,2) Cons vs' by simp
    then show ?thesis using IH [OF vs(3)] vs(1) by simp
  qed
qed simp

lemma policy_entry_eq: "policy_entry (k, b) = policy_entry (k, b') \<longleftrightarrow> b = b'"
  and policy_entry_length: "length (policy_entry (k, b)) = length k + 2"
  by (simp_all add: policy_entry_def)

lemma policy_entries_inj:
  assumes "map fst xs = map fst ys" "map policy_entry xs = map policy_entry ys"
  shows "xs = ys"
  using assms
proof (induction xs arbitrary: ys)
  case (Cons x xs)
  then obtain y ys' where ys: "ys = y # ys'" "fst x = fst y" "policy_entry x = policy_entry y" "xs = ys'" by auto
  with policy_entry_eq [of "fst y" "snd x" "snd y"] show ?case by (cases x; cases y) auto
qed simp

lemma policy_entries_length: "map fst xs = map fst ys \<Longrightarrow> map length (map policy_entry xs) = map length (map policy_entry ys)"
proof -
  have "map length (map policy_entry xs) = map (\<lambda>k. length k + 2) (map fst xs)" for xs
    using policy_entry_length by (induction xs) (auto simp: policy_entry_def)
  then show "map fst xs = map fst ys \<Longrightarrow> map length (map policy_entry xs) = map length (map policy_entry ys)" by metis
qed

lemma policy_hash_fingerprint:
  assumes "map fst (policy_items c) = map fst (policy_items c')" "collection_policy_hash L c = collection_policy_hash L c'"
  shows "policy_items c = policy_items c' \<or> sha_collision L (policy_text c) (policy_text c')"
proof -
  from assms(2) have "policy_text c = policy_text c' \<or> sha_collision L (policy_text c) (policy_text c')"
    unfolding collection_policy_hash_def by (rule sha256_hex_eqD)
  moreover have "policy_items c = policy_items c'" if "policy_text c = policy_text c'"
  proof -
    have "map policy_entry (policy_items c) = map policy_entry (policy_items c')"
      using join_inj_lengths [OF policy_entries_length [OF assms(1)]] that by (simp only: policy_text_def)
    then show ?thesis by (rule policy_entries_inj [OF assms(1)])
  qed
  ultimately show ?thesis by blast
qed

end
