(* ===== verification/Regex.thy ===== *)
theory Regex
  imports Conversions
begin

text \<open>
  The part of Python's \<open>re\<close> that the log parsers use: literals, character classes with greedy bounded
  repetition, sequences, alternatives, optional parts, named groups and word boundaries. Matching backtracks in
  the order of the language: a repetition tries the longest run first, an alternative its left side first. The
  matcher takes the rest of the match as a continuation; a match in progress is the previous character, the
  remaining text and the groups so far.
\<close>

datatype rx =
    Lit string
  | Rep "char \<Rightarrow> bool" nat "nat option"
  | Seq rx rx
  | Alt rx rx
  | Opt rx
  | Grp string rx
  | WordB

type_synonym groups = "(string, string) dict"

fun first_success :: "'a option list \<Rightarrow> 'a option" where
  "first_success [] = None"
| "first_success (Some x # rest) = Some x"
| "first_success (None # rest) = first_success rest"

text \<open>\<open>\w\<close>: letters, digits and other numerals of the first 256 code points, and the underscore.\<close>

definition is_word :: "char \<Rightarrow> bool" where
  "is_word c \<longleftrightarrow> (let n = of_char c :: nat in
     (48 \<le> n \<and> n \<le> 57) \<or> (65 \<le> n \<and> n \<le> 90) \<or> n = 95 \<or> (97 \<le> n \<and> n \<le> 122) \<or>
     n \<in> {170, 178, 179, 181, 185, 186, 188, 189, 190} \<or> (192 \<le> n \<and> n \<noteq> 215 \<and> n \<noteq> 247))"

definition last_char :: "char option \<Rightarrow> string \<Rightarrow> char option" where
  "last_char prev s = (if s = [] then prev else Some (last s))"

definition word_at :: "char option \<Rightarrow> bool" where
  "word_at c = (case c of None \<Rightarrow> False | Some x \<Rightarrow> is_word x)"

definition head_char :: "string \<Rightarrow> char option" where
  "head_char s = (case s of [] \<Rightarrow> None | c # _ \<Rightarrow> Some c)"

definition run_length :: "(char \<Rightarrow> bool) \<Rightarrow> nat option \<Rightarrow> string \<Rightarrow> nat" where
  "run_length P most s = (let n = length (takeWhile P s) in case most of None \<Rightarrow> n | Some m \<Rightarrow> min m n)"

primrec rx_run :: "rx \<Rightarrow> char option \<Rightarrow> string \<Rightarrow> groups \<Rightarrow> (char option \<Rightarrow> string \<Rightarrow> groups \<Rightarrow> 'r option) \<Rightarrow> 'r option" where
  "rx_run (Lit l) prev s g k = (if starts_with s l then k (last_char prev l) (drop (length l) s) g else None)"
| "rx_run (Rep P least most) prev s g k =
     first_success (map (\<lambda>i. k (last_char prev (take i s)) (drop i s) g) (rev [least..<Suc (run_length P most s)]))"
| "rx_run (Seq a b) prev s g k = rx_run a prev s g (\<lambda>prev' s' g'. rx_run b prev' s' g' k)"
| "rx_run (Alt a b) prev s g k = (case rx_run a prev s g k of Some r \<Rightarrow> Some r | None \<Rightarrow> rx_run b prev s g k)"
| "rx_run (Opt a) prev s g k = (case rx_run a prev s g k of Some r \<Rightarrow> Some r | None \<Rightarrow> k prev s g)"
| "rx_run (Grp name a) prev s g k =
     rx_run a prev s g (\<lambda>prev' s' g'. k prev' s' (AList.update name (take (length s - length s') s) g'))"
| "rx_run WordB prev s g k = (if word_at prev \<noteq> word_at (head_char s) then k prev s g else None)"

text \<open>\<open>pattern.match(text)\<close> and \<open>pattern.search(text)\<close>\<close>

definition rx_match :: "rx \<Rightarrow> string \<Rightarrow> groups option" where
  "rx_match r s = rx_run r None s [] (\<lambda>_ _ g. Some g)"

fun rx_search_from :: "rx \<Rightarrow> char option \<Rightarrow> string \<Rightarrow> groups option" where
  "rx_search_from r prev s =
     (case rx_run r prev s [] (\<lambda>_ _ g. Some g) of
        Some g \<Rightarrow> Some g
      | None \<Rightarrow> (case s of [] \<Rightarrow> None | c # cs \<Rightarrow> rx_search_from r (Some c) cs))"

declare rx_search_from.simps [simp del]

definition rx_search :: "rx \<Rightarrow> string \<Rightarrow> groups option" where
  "rx_search r s = rx_search_from r None s"

definition group :: "groups \<Rightarrow> string \<Rightarrow> string" where
  "group g name = dict_get g name []"

primrec seqs :: "rx list \<Rightarrow> rx" where
  "seqs [] = Lit []"
| "seqs (r # rs) = Seq r (seqs rs)"

text \<open>The classes and repetitions of the patterns.\<close>

definition digits :: rx where "digits = Rep is_digit 1 None"
definition spaces :: rx where "spaces = Rep is_space 1 None"
definition nonspaces :: rx where "nonspaces = Rep (\<lambda>c. \<not> is_space c) 1 None"

definition is_user_char :: "char \<Rightarrow> bool" where
  "is_user_char c \<longleftrightarrow> is_word c \<or> c \<in> set ''.@-''"

definition is_ip_char :: "char \<Rightarrow> bool" where
  "is_ip_char c \<longleftrightarrow> c \<in> set ''0123456789abcdefABCDEF:.''"

section \<open>A match is a match\<close>

text \<open>
  The text a pattern accepts, without regard to order or groups; every match the matcher hands to its
  continuation splits the text at an accepted prefix.
\<close>

fun accepts :: "rx \<Rightarrow> char option \<Rightarrow> string \<Rightarrow> string \<Rightarrow> bool" where
  "accepts (Lit l) prev u rest \<longleftrightarrow> u = l"
| "accepts (Rep P least most) prev u rest \<longleftrightarrow> list_all P u \<and> least \<le> length u \<and> (case most of None \<Rightarrow> True | Some m \<Rightarrow> length u \<le> m)"
| "accepts (Seq a b) prev u rest \<longleftrightarrow>
     (\<exists>i \<le> length u. accepts a prev (take i u) (drop i u @ rest) \<and> accepts b (last_char prev (take i u)) (drop i u) rest)"
| "accepts (Alt a b) prev u rest \<longleftrightarrow> accepts a prev u rest \<or> accepts b prev u rest"
| "accepts (Opt a) prev u rest \<longleftrightarrow> u = [] \<or> accepts a prev u rest"
| "accepts (Grp name a) prev u rest \<longleftrightarrow> accepts a prev u rest"
| "accepts WordB prev u rest \<longleftrightarrow> u = [] \<and> word_at prev \<noteq> word_at (head_char rest)"

lemma first_success_Some: "first_success xs = Some y \<Longrightarrow> Some y \<in> set xs"
  by (induction xs rule: first_success.induct) auto

lemma first_success_None: "first_success xs = None \<longleftrightarrow> set xs \<subseteq> {None}"
  by (induction xs rule: first_success.induct) auto

lemma last_char_append: "last_char (last_char prev u) v = last_char prev (u @ v)"
  by (simp add: last_char_def)

lemma take_run: "i \<le> run_length P most s \<Longrightarrow> list_all P (take i s) \<and> i \<le> length s \<and> (case most of None \<Rightarrow> True | Some m \<Rightarrow> i \<le> m)"
proof -
  assume i: "i \<le> run_length P most s"
  then have le: "i \<le> length (takeWhile P s)" by (auto simp: run_length_def Let_def split: option.splits)
  then have "take i s = take i (takeWhile P s)" by (metis min_def take_take takeWhile_eq_take)
  then have "list_all P (take i s)" by (auto simp: list_all_iff dest!: in_set_takeD set_takeWhileD)
  moreover have "i \<le> length s" using le length_takeWhile_le [of P s] by linarith
  ultimately show ?thesis using i by (auto simp: run_length_def Let_def split: option.splits)
qed

lemma rx_run_sound:
  "rx_run r prev s g k = Some x \<Longrightarrow>
   \<exists>u rest g'. s = u @ rest \<and> accepts r prev u rest \<and> k (last_char prev u) rest g' = Some x"
proof (induction r arbitrary: prev s g k)
  case (Lit l)
  then show ?case by (auto simp: starts_with_iff split: if_splits)
next
  case (Rep P least most)
  then obtain i where i: "least \<le> i" "i \<le> run_length P most s" "k (last_char prev (take i s)) (drop i s) g = Some x"
    by (auto dest!: first_success_Some)
  with take_run [OF i(2)] have "accepts (Rep P least most) prev (take i s) (drop i s)" by (auto split: option.splits)
  then show ?case using i(3) by (metis append_take_drop_id)
next
  case (Seq a b)
  from Seq.prems have "rx_run a prev s g (\<lambda>prev' s' g'. rx_run b prev' s' g' k) = Some x" by simp
  from Seq.IH(1) [OF this] obtain u rest g' where a: "s = u @ rest" "accepts a prev u rest"
    and b: "rx_run b (last_char prev u) rest g' k = Some x" by blast
  from Seq.IH(2) [OF b] obtain v rest' g'' where v: "rest = v @ rest'" "accepts b (last_char prev u) v rest'"
    "k (last_char (last_char prev u) v) rest' g'' = Some x" by blast
  have "accepts (Seq a b) prev (u @ v) rest'"
    using a(2) v(1,2) by (auto intro!: exI [of _ "length u"])
  then show ?case using a(1) v by (metis append.assoc last_char_append)
next
  case (Alt a b)
  then show ?case by (fastforce split: option.splits)
next
  case (Opt a)
  show ?case
  proof (cases "rx_run a prev s g k")
    case None
    with Opt.prems have "k (last_char prev []) s g = Some x" by (simp add: last_char_def)
    then show ?thesis by (metis accepts.simps(5) append_Nil)
  next
    case (Some y)
    with Opt.prems have "rx_run a prev s g k = Some x" by simp
    from Opt.IH [OF this] show ?thesis by auto
  qed
next
  case (Grp name a)
  from Grp.prems have "rx_run a prev s g (\<lambda>prev' s' g'. k prev' s' (AList.update name (take (length s - length s') s) g')) = Some x" by simp
  from Grp.IH [OF this] show ?case by auto
next
  case WordB
  then show ?case by (auto simp: last_char_def split: if_splits)
qed

section \<open>Greedy runs\<close>

text \<open>The rules by which a match of a concrete text is followed, part by part.\<close>

lemma rx_lit: "k (last_char prev l) rest g = Some x \<Longrightarrow> rx_run (Lit l) prev (l @ rest) g k = Some x"
proof -
  have "starts_with (l @ rest) l" by (simp add: starts_with_iff)
  then show "k (last_char prev l) rest g = Some x \<Longrightarrow> rx_run (Lit l) prev (l @ rest) g k = Some x" by simp
qed

lemma rx_rep:
  assumes "list_all P u" "least \<le> length u" "case most of None \<Rightarrow> True | Some m \<Rightarrow> length u \<le> m"
    and stop: "most = Some (length u) \<or> (case rest of [] \<Rightarrow> True | c # _ \<Rightarrow> \<not> P c)"
    and k: "k (last_char prev u) rest g = Some x"
  shows "rx_run (Rep P least most) prev (u @ rest) g k = Some x"
proof -
  have "run_length P most (u @ rest) = length u"
  proof (cases "most = Some (length u)")
    case True
    have "takeWhile P (u @ rest) = u @ takeWhile P rest" using assms(1) by (simp add: list_all_iff)
    with True show ?thesis by (simp add: run_length_def)
  next
    case False
    with stop have "takeWhile P rest = []" by (cases rest) auto
    then have "takeWhile P (u @ rest) = u" using assms(1) by (simp add: list_all_iff)
    with assms(3) show ?thesis by (auto simp: run_length_def split: option.splits)
  qed
  then have "rev [least..<Suc (run_length P most (u @ rest))] = length u # rev [least..<length u]"
    using assms(2) by simp
  with k show ?thesis by simp
qed

lemma rx_seq: "rx_run a prev s g (\<lambda>prev' s' g'. rx_run b prev' s' g' k) = Some x \<Longrightarrow> rx_run (Seq a b) prev s g k = Some x"
  by simp

lemma rx_grp:
  "rx_run a prev s g (\<lambda>prev' s' g'. k prev' s' (AList.update name (take (length s - length s') s) g')) = Some x \<Longrightarrow>
   rx_run (Grp name a) prev s g k = Some x"
  by simp

lemma rx_opt: "rx_run a prev s g k = Some x \<Longrightarrow> rx_run (Opt a) prev s g k = Some x"
  by simp

lemma rx_opt_skip: "rx_run a prev s g k = None \<Longrightarrow> k prev s g = Some x \<Longrightarrow> rx_run (Opt a) prev s g k = Some x"
  by simp

lemmas rx_steps = rx_lit rx_rep rx_seq rx_grp rx_opt

end
