(* ===== verification/Collectors.thy ===== *)
theory Collectors
  imports Node
begin

text \<open>
  \<open>mdrj/collectors\<close>: the status every collector keeps, and the collectors that poll the host: boot times,
  critical files, firewall rules and processes. A poll is an operation on the collector; what it reads
  from the system is its first argument. Readings of the clock are \<open>clock i\<close>. The Russian texts of the
  source are outside the characters of the model: \<open>txt\<close> maps a name to the text. Local time as ISO text
  is the argument \<open>iso\<close>.
\<close>

section \<open>Text\<close>

text \<open>\<open>text.split()\<close>.\<close>

fun words_acc :: "string \<Rightarrow> string \<Rightarrow> string list" where
  "words_acc acc [] = (if acc = [] then [] else [rev acc])"
| "words_acc acc (c # cs) =
     (if is_space c then (if acc = [] then words_acc [] cs else rev acc # words_acc [] cs) else words_acc (c # acc) cs)"

definition py_split :: "string \<Rightarrow> string list" where
  "py_split s = words_acc [] s"

text \<open>\<open>text.splitlines()\<close>.\<close>

definition is_line_end :: "char \<Rightarrow> bool" where
  "is_line_end c \<longleftrightarrow> (let n = of_char c :: nat in (10 \<le> n \<and> n \<le> 13) \<or> (28 \<le> n \<and> n \<le> 30) \<or> n = 133)"

fun lines_acc :: "string \<Rightarrow> string \<Rightarrow> string list" where
  "lines_acc acc [] = (if acc = [] then [] else [rev acc])"
| "lines_acc acc [c] = (if is_line_end c then [rev acc] else [rev (c # acc)])"
| "lines_acc acc (c # d # cs) =
     (if (of_char c :: nat) = 13 \<and> (of_char d :: nat) = 10 then rev acc # lines_acc [] cs
      else if is_line_end c then rev acc # lines_acc [] (d # cs)
      else lines_acc (c # acc) (d # cs))"

definition py_splitlines :: "string \<Rightarrow> string list" where
  "py_splitlines s = lines_acc [] s"

definition setdefault :: "'k \<Rightarrow> 'v \<Rightarrow> ('k, 'v) dict \<Rightarrow> ('k, 'v) dict" where
  "setdefault k v d = (if map_of d k = None then AList.update k v d else d)"

lemma map_of_setdefault [dict_simps, simp]:
  "map_of (setdefault k v d) k' = (if k' = k \<and> map_of d k = None then Some v else map_of d k')"
  by (auto simp: setdefault_def)

section \<open>Events and status\<close>

record collected_event =
  co_event_kind :: string
  co_payload :: "(string, json) dict"

definition to_payload :: "collected_event \<Rightarrow> (string, json) dict" where
  "to_payload e = setdefault ''event_kind'' (JStr (co_event_kind e)) (co_payload e)"

record collector_status =
  cst_name :: string
  cst_enabled :: bool
  cst_last_poll_at :: "timestamp option"
  cst_last_event_at :: "timestamp option"
  cst_last_error :: "string option"
  cst_emitted_count :: nat
  cst_dropped_count :: nat
  cst_last_drop_reason :: "string option"

definition status_to_dict :: "collector_status \<Rightarrow> (string, json) dict" where
  "status_to_dict s =
     [(''name'', JStr (cst_name s)), (''enabled'', JBool (cst_enabled s)),
      (''last_poll_at'', opt_json JFloat (cst_last_poll_at s)), (''last_event_at'', opt_json JFloat (cst_last_event_at s)),
      (''last_error'', opt_json JStr (cst_last_error s)), (''emitted_count'', JInt (int (cst_emitted_count s))),
      (''dropped_count'', JInt (int (cst_dropped_count s))), (''last_drop_reason'', opt_json JStr (cst_last_drop_reason s))]"

definition record_drop :: "string \<Rightarrow> collector_status \<Rightarrow> collector_status" where
  "record_drop reason s = s\<lparr>cst_dropped_count := cst_dropped_count s + 1, cst_last_drop_reason := Some reason\<rparr>"

record base_collector =
  bc_poll_interval_sec :: rat
  bc_node_id :: string
  bc_host_id :: string
  bc_status :: collector_status

definition base_init :: "string \<Rightarrow> rat \<Rightarrow> string \<Rightarrow> string \<Rightarrow> base_collector" where
  "base_init name poll_interval_sec node_id host_id =
     \<lparr>bc_poll_interval_sec = max (1 / 5) poll_interval_sec, bc_node_id = node_id, bc_host_id = str_or host_id node_id,
      bc_status = \<lparr>cst_name = name, cst_enabled = True, cst_last_poll_at = None, cst_last_event_at = None, cst_last_error = None,
        cst_emitted_count = 0, cst_dropped_count = 0, cst_last_drop_reason = None\<rparr>\<rparr>"

definition annotate :: "base_collector \<Rightarrow> collected_event \<Rightarrow> collected_event" where
  "annotate b e =
     (let p1 = (if bc_host_id b \<noteq> [] then setdefault ''host_id'' (JStr (bc_host_id b)) (co_payload e) else co_payload e)
      in e\<lparr>co_payload := (if bc_node_id b \<noteq> [] then setdefault ''node_id'' (JStr (bc_node_id b)) p1 else p1)\<rparr>)"

definition on_status :: "(collector_status \<Rightarrow> collector_status) \<Rightarrow> base_collector \<Rightarrow> base_collector" where
  "on_status f b = b\<lparr>bc_status := f (bc_status b)\<rparr>"

definition polled_at :: "timestamp \<Rightarrow> base_collector \<Rightarrow> base_collector" where
  "polled_at now = on_status (\<lambda>s. s\<lparr>cst_last_poll_at := Some now\<rparr>)"

definition set_error :: "string option \<Rightarrow> base_collector \<Rightarrow> base_collector" where
  "set_error e = on_status (\<lambda>s. s\<lparr>cst_last_error := e\<rparr>)"

text \<open>\<open>if events: last_event_at = time.time(); emitted_count += len(events)\<close>\<close>

definition count_emitted :: "timestamp \<Rightarrow> 'e list \<Rightarrow> base_collector \<Rightarrow> base_collector" where
  "count_emitted now events b =
     (if events = [] then b
      else on_status (\<lambda>s. s\<lparr>cst_last_event_at := Some now, cst_emitted_count := cst_emitted_count s + length events\<rparr>) b)"

abbreviation base_enabled :: "base_collector \<Rightarrow> bool" where
  "base_enabled b \<equiv> cst_enabled (bc_status b)"

abbreviation emitted :: "base_collector \<Rightarrow> nat" where
  "emitted b \<equiv> cst_emitted_count (bc_status b)"

lemma status_frame [simp]:
  "emitted (polled_at t b) = emitted b" "emitted (set_error e b) = emitted b"
  "emitted (count_emitted t es b) = emitted b + length es"
  "base_enabled (polled_at t b) = base_enabled b" "base_enabled (set_error e b) = base_enabled b"
  "base_enabled (count_emitted t es b) = base_enabled b"
  "cst_dropped_count (bc_status (polled_at t b)) = cst_dropped_count (bc_status b)"
  "cst_dropped_count (bc_status (set_error e b)) = cst_dropped_count (bc_status b)"
  "cst_dropped_count (bc_status (count_emitted t es b)) = cst_dropped_count (bc_status b)"
  "bc_node_id (polled_at t b) = bc_node_id b" "bc_node_id (set_error e b) = bc_node_id b" "bc_node_id (count_emitted t es b) = bc_node_id b"
  "bc_host_id (polled_at t b) = bc_host_id b" "bc_host_id (set_error e b) = bc_host_id b" "bc_host_id (count_emitted t es b) = bc_host_id b"
  by (simp_all add: polled_at_def set_error_def count_emitted_def on_status_def)

lemma annotate_kind [simp]: "co_event_kind (annotate b e) = co_event_kind e"
  by (simp add: annotate_def Let_def)

section \<open>Host boots\<close>

record host_config =
  hl_enabled :: bool
  hl_poll_interval_sec :: rat
  hl_proc_uptime_path :: string
  hl_boot_time_drift_threshold_sec :: rat

record host_collector =
  hc_base :: base_collector
  hc_config :: host_config
  hc_known_boot_time :: "rat option"
  hc_first_poll_done :: bool

definition on_host :: "(base_collector \<Rightarrow> base_collector) \<Rightarrow> host_collector \<Rightarrow> host_collector" where
  "on_host f c = c\<lparr>hc_base := f (hc_base c)\<rparr>"

definition disable_with :: "string option \<Rightarrow> base_collector \<Rightarrow> base_collector" where
  "disable_with e = on_status (\<lambda>s. s\<lparr>cst_enabled := False, cst_last_error := (case e of None \<Rightarrow> cst_last_error s | Some x \<Rightarrow> Some x)\<rparr>)"

definition host_init :: "host_config \<Rightarrow> string \<Rightarrow> string \<Rightarrow> bool \<Rightarrow> host_collector" where
  "host_init config node_id host_id path_exists =
     (let b = base_init ''host_lifecycle'' (hl_poll_interval_sec config) node_id (str_or host_id node_id)
      in \<lparr>hc_base = (if \<not> hl_enabled config then disable_with None b
             else if \<not> path_exists then disable_with (Some (hl_proc_uptime_path config @ '' not a regular file'')) b else b),
          hc_config = config, hc_known_boot_time = None, hc_first_poll_done = False\<rparr>)"

text \<open>What the poll reads: \<open>/proc/uptime\<close>, or the text of the \<open>OSError\<close>.\<close>

record host_world =
  hw_clock :: "nat \<Rightarrow> timestamp"
  hw_uptime :: "string + string"

definition read_boot_time :: "float_codec \<Rightarrow> host_world \<Rightarrow> host_collector \<Rightarrow> rat option \<times> host_collector" where
  "read_boot_time fc w c =
     (case hw_uptime w of
        Inl exc \<Rightarrow> (None, on_host (set_error (Some (''read /proc/uptime failed: '' @ exc))) c)
      | Inr text_read \<Rightarrow>
          (case py_split text_read of
             [] \<Rightarrow> (None, on_host (set_error (Some ''failed to parse /proc/uptime'')) c)
           | field # _ \<Rightarrow>
               (case py_float fc (JStr field) of
                  Inl _ \<Rightarrow> (None, on_host (set_error (Some ''failed to parse /proc/uptime'')) c)
                | Inr uptime \<Rightarrow> (Some (hw_clock w 1 - uptime), c))))"

definition boot_event :: "(string \<Rightarrow> string) \<Rightarrow> timestamp \<Rightarrow> rat \<Rightarrow> collected_event" where
  "boot_event txt now boot_time =
     \<lparr>co_event_kind = ''host_boot'',
      co_payload = [(''category'', JStr ''system_lifecycle''), (''boot_time'', JFloat boot_time),
        (''uptime_at_observation_sec'', JFloat (now - boot_time)), (''description'', JStr (txt ''host_boot''))]\<rparr>"

definition reboot_event :: "(string \<Rightarrow> string) \<Rightarrow> rat \<Rightarrow> rat \<Rightarrow> collected_event" where
  "reboot_event txt known current =
     \<lparr>co_event_kind = ''host_reboot'',
      co_payload = [(''category'', JStr ''system_lifecycle''), (''previous_boot_time'', JFloat known),
        (''new_boot_time'', JFloat current), (''drift_sec'', JFloat \<bar>current - known\<bar>),
        (''description'', JStr (txt ''host_reboot''))]\<rparr>"

definition host_poll :: "float_codec \<Rightarrow> (string \<Rightarrow> string) \<Rightarrow> host_world \<Rightarrow> (host_collector, collected_event list) op" where
  "host_poll fc txt w c =
     (let c1 = on_host (polled_at (hw_clock w 0)) c
      in if \<not> base_enabled (hc_base c1) then (Inr [], c1)
         else case read_boot_time fc w c1 of
           (None, c2) \<Rightarrow> (Inr [], c2)
         | (Some current, c2) \<Rightarrow>
             let c3 = on_host (set_error None) c2
             in if \<not> hc_first_poll_done c3 then
                  let events = [annotate (hc_base c3) (boot_event txt (hw_clock w 2) current)]
                  in (Inr events, on_host (count_emitted (hw_clock w 3) events)
                       (c3\<lparr>hc_known_boot_time := Some current, hc_first_poll_done := True\<rparr>))
                else case hc_known_boot_time c3 of
                  None \<Rightarrow> (Inr [], c3)
                | Some known \<Rightarrow>
                    if hl_boot_time_drift_threshold_sec (hc_config c3) < \<bar>current - known\<bar> then
                      let events = [annotate (hc_base c3) (reboot_event txt known current)]
                      in (Inr events, on_host (count_emitted (hw_clock w 3) events) (c3\<lparr>hc_known_boot_time := Some current\<rparr>))
                    else (Inr [], c3))"

section \<open>Critical files\<close>

text \<open>\<open>str(Path(p))\<close> on POSIX: repeated slashes, \<open>.\<close> components and a trailing slash go away.\<close>

fun split_on :: "char \<Rightarrow> string \<Rightarrow> string \<Rightarrow> string list" where
  "split_on sep acc [] = [rev acc]"
| "split_on sep acc (c # cs) = (if c = sep then rev acc # split_on sep [] cs else split_on sep (c # acc) cs)"

definition path_str :: "string \<Rightarrow> string" where
  "path_str p =
     (let slashes = length (takeWhile (\<lambda>c. c = CHR ''/'') p);
          root = (if slashes = 0 then [] else if slashes = 2 then ''//'' else ''/'');
          parts = filter (\<lambda>x. x \<noteq> [] \<and> x \<noteq> ''.'') (split_on (CHR ''/'') [] p)
      in if root = [] \<and> parts = [] then ''.'' else root @ join ''/'' parts)"

record file_snapshot =
  fw_mtime_ns :: int
  fw_size :: int
  fw_sha256 :: string

record audit_config =
  ac_enabled :: bool
  ac_watch_paths :: "string list"
  ac_poll_interval_sec :: rat
  ac_hash_max_bytes :: int

record audit_collector =
  au_base :: base_collector
  au_config :: audit_config
  au_snapshots :: "(string, file_snapshot) dict"
  au_first_poll :: bool

definition audit_init :: "audit_config \<Rightarrow> string \<Rightarrow> string \<Rightarrow> audit_collector" where
  "audit_init config node_id host_id =
     \<lparr>au_base = base_init ''linux_audit'' (ac_poll_interval_sec config) node_id (str_or host_id node_id),
      au_config = config, au_snapshots = [], au_first_poll = True\<rparr>"

text \<open>
  \<open>path.stat()\<close> and reading the file: missing, not permitted, another error, or its times with the content,
  none when it cannot be read. \<open>_hash_file\<close> feeds the content to the hash in chunks.
\<close>

datatype stat_result =
    StatMissing
  | StatDenied
  | StatFails py_error
  | StatOk int int "string option"

record audit_world =
  aw_clock :: "nat \<Rightarrow> timestamp"
  aw_stat :: "string \<Rightarrow> stat_result"
  aw_iso :: "rat \<Rightarrow> string"

definition on_audit :: "(base_collector \<Rightarrow> base_collector) \<Rightarrow> audit_collector \<Rightarrow> audit_collector" where
  "on_audit f c = c\<lparr>au_base := f (au_base c)\<rparr>"

lemma on_audit_base [simp]: "au_base (on_audit f c) = f (au_base c)" "au_config (on_audit f c) = au_config c"
  "au_snapshots (on_audit f c) = au_snapshots c" "au_first_poll (on_audit f c) = au_first_poll c"
  by (simp_all add: on_audit_def)

definition hash_file :: "pylib \<Rightarrow> string \<Rightarrow> string" where
  "hash_file L content = sha256_hex L (concat (chunked content 65536))"

definition file_hash :: "pylib \<Rightarrow> int \<Rightarrow> int \<Rightarrow> string option \<Rightarrow> string" where
  "file_hash L max_bytes st_size content =
     (if st_size \<le> max_bytes then case content of None \<Rightarrow> [] | Some text_read \<Rightarrow> hash_file L text_read else [])"

definition audit_snapshot :: "pylib \<Rightarrow> audit_world \<Rightarrow> string \<Rightarrow> (audit_collector, file_snapshot option) op" where
  "audit_snapshot L w path c =
     (case aw_stat w path of
        StatMissing \<Rightarrow> (Inr None, c)
      | StatDenied \<Rightarrow> (Inr None, on_audit (set_error (Some (''permission denied: '' @ path))) c)
      | StatFails e \<Rightarrow> (Inl e, c)
      | StatOk st_mtime_ns st_size content \<Rightarrow>
          (Inr (Some \<lparr>fw_mtime_ns = st_mtime_ns, fw_size = st_size,
             fw_sha256 = file_hash L (ac_hash_max_bytes (au_config c)) st_size content\<rparr>), c))"

definition modified_event :: "audit_world \<Rightarrow> string \<Rightarrow> file_snapshot \<Rightarrow> file_snapshot \<Rightarrow> collected_event" where
  "modified_event w path previous snapshot =
     \<lparr>co_event_kind = ''critical_file_modified'',
      co_payload = [(''category'', JStr ''integrity''), (''path'', JStr path),
        (''previous_sha256'', JStr (fw_sha256 previous)), (''current_sha256'', JStr (fw_sha256 snapshot)),
        (''size_bytes'', JInt (fw_size snapshot)),
        (''mtime_iso'', JStr (aw_iso w (of_int (fw_mtime_ns snapshot) / 1000000000)))]\<rparr>"

definition file_changed :: "file_snapshot \<Rightarrow> file_snapshot \<Rightarrow> bool" where
  "file_changed previous snapshot \<longleftrightarrow>
     fw_sha256 previous \<noteq> fw_sha256 snapshot \<or> fw_mtime_ns previous \<noteq> fw_mtime_ns snapshot"

definition audit_path :: "pylib \<Rightarrow> audit_world \<Rightarrow> string \<Rightarrow> (audit_collector, collected_event list) op" where
  "audit_path L w raw_path =
     (let path = path_str raw_path
      in op_bind (audit_snapshot L w path) (\<lambda>taken c. case taken of
           None \<Rightarrow> (Inr [], c\<lparr>au_snapshots := AList.delete path (au_snapshots c)\<rparr>)
         | Some snapshot \<Rightarrow>
             let previous = map_of (au_snapshots c) path;
                 c1 = c\<lparr>au_snapshots := AList.update path snapshot (au_snapshots c)\<rparr>
             in case previous of
                  None \<Rightarrow> (Inr [], c1)
                | Some old \<Rightarrow>
                    (Inr (if \<not> au_first_poll c \<and> file_changed old snapshot
                          then [annotate (au_base c1) (modified_event w path old snapshot)] else []), c1)))"

definition audit_poll :: "pylib \<Rightarrow> audit_world \<Rightarrow> (audit_collector, collected_event list) op" where
  "audit_poll L w =
     op_bind (op_mod (on_audit (polled_at (aw_clock w 0)))) (\<lambda>_.
     op_bind (op_get (\<lambda>c. (base_enabled (au_base c), ac_watch_paths (au_config c)))) (\<lambda>(enabled, paths).
     if \<not> enabled then op_ret []
     else op_bind (op_each (audit_path L w) paths) (\<lambda>found.
       let events = concat found
       in op_bind (op_mod (\<lambda>c. on_audit (count_emitted (aw_clock w 1) events)
            (on_audit (set_error None) (c\<lparr>au_first_poll := False\<rparr>)))) (\<lambda>_. op_ret events))))"

section \<open>Firewall rules\<close>

record firewall_config =
  fc_enabled :: bool
  fc_tool :: string
  fc_poll_interval_sec :: rat

record firewall_collector =
  fi_base :: base_collector
  fi_config :: firewall_config
  fi_last_digest :: "string option"
  fi_first_poll :: bool

definition firewall_cmd :: "firewall_config \<Rightarrow> string list" where
  "firewall_cmd config = (if fc_tool config = ''nft'' then [''nft'', ''-a'', ''list'', ''ruleset''] else [''iptables-save''])"

definition firewall_init :: "firewall_config \<Rightarrow> string \<Rightarrow> string \<Rightarrow> bool \<Rightarrow> firewall_collector" where
  "firewall_init config node_id host_id tool_found =
     (let b = base_init ''linux_firewall'' (fc_poll_interval_sec config) node_id (str_or host_id node_id)
      in \<lparr>fi_base = (if tool_found then b else disable_with (Some (hd (firewall_cmd config) @ '' not available'')) b),
          fi_config = config, fi_last_digest = None, fi_first_poll = True\<rparr>)"

text \<open>The command: not run, with the text of the error, or its exit code, output and error output.\<close>

datatype run_result = RunFails string | RunDone int string string

record firewall_world =
  rw_clock :: "nat \<Rightarrow> timestamp"
  rw_run :: "string list \<Rightarrow> run_result"

definition rules_event :: "firewall_config \<Rightarrow> string option \<Rightarrow> string \<Rightarrow> string \<Rightarrow> collected_event" where
  "rules_event config previous digest stdout =
     \<lparr>co_event_kind = ''iptables_rule_changed'',
      co_payload = [(''category'', JStr ''network''), (''tool'', JStr (fc_tool config)),
        (''previous_digest'', opt_json JStr previous), (''current_digest'', JStr digest),
        (''ruleset_bytes'', JInt (int (length stdout)))]\<rparr>"

definition firewall_poll :: "pylib \<Rightarrow> firewall_world \<Rightarrow> (firewall_collector, collected_event list) op" where
  "firewall_poll L w c =
     (let c1 = c\<lparr>fi_base := polled_at (rw_clock w 0) (fi_base c)\<rparr>
      in if \<not> base_enabled (fi_base c1) then (Inr [], c1)
         else case rw_run w (firewall_cmd (fi_config c1)) of
           RunFails exc \<Rightarrow> (Inr [], c1\<lparr>fi_base := set_error (Some exc) (fi_base c1)\<rparr>)
         | RunDone code stdout stderr \<Rightarrow>
             if code \<noteq> 0
             then (Inr [], c1\<lparr>fi_base := set_error (Some (hd (firewall_cmd (fi_config c1)) @ '' exit '' @ int_str code @ '': '' @
                     take 200 (py_strip stderr))) (fi_base c1)\<rparr>)
             else let digest = sha256_hex L stdout; previous = fi_last_digest c1;
                      c2 = c1\<lparr>fi_base := set_error None (fi_base c1), fi_last_digest := Some digest\<rparr>
                  in if fi_first_poll c2 then (Inr [], c2\<lparr>fi_first_poll := False\<rparr>)
                     else if previous = Some digest then (Inr [], c2)
                     else let events = [annotate (fi_base c2) (rules_event (fi_config c2) previous digest stdout)]
                          in (Inr events, c2\<lparr>fi_base := count_emitted (rw_clock w 1) events (fi_base c2)\<rparr>))"

section \<open>Processes\<close>

record proc_config =
  pc_enabled :: bool
  pc_blocklist :: "string list"
  pc_privileged_uids :: "int list"
  pc_poll_interval_sec :: rat
  pc_proc_root :: string

record proc_collector =
  pr_base :: base_collector
  pr_config :: proc_config
  pr_seen_pids :: "int list"
  pr_first_poll :: bool

definition proc_init :: "proc_config \<Rightarrow> string \<Rightarrow> string \<Rightarrow> bool \<Rightarrow> proc_collector" where
  "proc_init config node_id host_id root_is_dir =
     (let b = base_init ''linux_proc'' (pc_poll_interval_sec config) node_id (str_or host_id node_id)
      in \<lparr>pr_base = (if root_is_dir then b else disable_with (Some (pc_proc_root config @ '' not a directory'')) b),
          pr_config = config, pr_seen_pids = [], pr_first_poll = True\<rparr>)"

text \<open>
  The process table: the identifiers in the order of the directory, as far as it can be read, and the
  files of a process, none where reading fails.
\<close>

record proc_world =
  pw_clock :: "nat \<Rightarrow> timestamp"
  pw_pids :: "int list"
  pw_comm :: "int \<Rightarrow> string option"
  pw_exe :: "int \<Rightarrow> string option"
  pw_status :: "int \<Rightarrow> string option"

record proc_info =
  pf_comm :: string
  pf_exe :: string
  pf_uid :: "int option"

fun uid_of_lines :: "string list \<Rightarrow> int option result" where
  "uid_of_lines [] = Inr None"
| "uid_of_lines (line # rest) =
     (if starts_with line ''Uid:'' then
        (case py_split line of
           _ # field # _ \<Rightarrow> res_bind (py_int (JStr field)) (\<lambda>uid. Inr (Some uid))
         | _ \<Rightarrow> Inr None)
      else uid_of_lines rest)"

definition read_proc :: "proc_world \<Rightarrow> int \<Rightarrow> proc_info option result" where
  "read_proc w pid =
     (case pw_comm w pid of
        None \<Rightarrow> Inr None
      | Some comm \<Rightarrow>
          (case pw_status w pid of
             None \<Rightarrow> Inr None
           | Some status_text \<Rightarrow>
               res_bind (uid_of_lines (py_splitlines status_text)) (\<lambda>uid.
                 Inr (Some \<lparr>pf_comm = py_strip comm, pf_exe = opt_str (pw_exe w pid), pf_uid = uid\<rparr>))))"

text \<open>\<open>exe.rsplit("/", 1)[-1]\<close>\<close>

definition basename :: "string \<Rightarrow> string" where
  "basename p = rev (takeWhile (\<lambda>c. c \<noteq> CHR ''/'') (rev p))"

definition blocklist_lower :: "proc_config \<Rightarrow> string list" where
  "blocklist_lower config = map py_lower (filter (\<lambda>name. name \<noteq> []) (pc_blocklist config))"

definition process_payload :: "string \<Rightarrow> int \<Rightarrow> proc_info \<Rightarrow> (string, json) dict" where
  "process_payload category pid info =
     [(''category'', JStr category), (''pid'', JInt pid), (''exe'', JStr (pf_exe info)), (''comm'', JStr (pf_comm info)),
      (''uid'', opt_json JInt (pf_uid info))]"

definition process_events :: "proc_config \<Rightarrow> int \<Rightarrow> proc_info \<Rightarrow> collected_event list" where
  "process_events config pid info =
     (let exe_basename = py_lower (basename (pf_exe info)); comm = py_lower (pf_comm info); blocked = set (blocklist_lower config)
      in if (exe_basename \<noteq> [] \<and> exe_basename \<in> blocked) \<or> comm \<in> blocked then
           [\<lparr>co_event_kind = ''known_malicious_process'',
             co_payload = process_payload ''malware'' pid info @
               [(''matched'', JStr (if exe_basename \<in> blocked then exe_basename else comm))]\<rparr>]
         else if (case pf_uid info of None \<Rightarrow> False | Some uid \<Rightarrow> uid \<in> set (pc_privileged_uids config)) then
           [\<lparr>co_event_kind = ''privileged_process_started'', co_payload = process_payload ''process'' pid info\<rparr>]
         else [])"

definition proc_pid :: "proc_world \<Rightarrow> int \<Rightarrow> (proc_collector, collected_event list) op" where
  "proc_pid w pid c =
     (if pid \<in> set (pr_seen_pids c) then (Inr [], c)
      else case read_proc w pid of
        Inl e \<Rightarrow> (Inl e, c)
      | Inr None \<Rightarrow> (Inr [], c)
      | Inr (Some info) \<Rightarrow>
          (Inr (if pr_first_poll c then [] else map (annotate (pr_base c)) (process_events (pr_config c) pid info)), c))"

definition proc_poll :: "proc_world \<Rightarrow> (proc_collector, collected_event list) op" where
  "proc_poll w =
     op_bind (op_mod (\<lambda>c. c\<lparr>pr_base := polled_at (pw_clock w 0) (pr_base c)\<rparr>)) (\<lambda>_.
     op_bind (op_get (\<lambda>c. base_enabled (pr_base c))) (\<lambda>enabled.
     if \<not> enabled then op_ret []
     else op_bind (op_each (proc_pid w) (pw_pids w)) (\<lambda>found.
       let events = concat found
       in op_bind (op_mod (\<lambda>c. c\<lparr>pr_seen_pids := pw_pids w, pr_first_poll := False,
            pr_base := count_emitted (pw_clock w 1) events (set_error None (pr_base c))\<rparr>)) (\<lambda>_. op_ret events))))"

section \<open>What every collector promises\<close>

text \<open>
  The contract the node relies on: a poll counts the events it returns and only those, also when it
  raises; it does not touch the counter of dropped events or switch the collector on or off; the events
  carry one of the collector's kinds and the node and host they come from; a collector that is switched
  off returns nothing.
\<close>

definition from_node :: "base_collector \<Rightarrow> collected_event \<Rightarrow> bool" where
  "from_node b e \<longleftrightarrow>
     (bc_node_id b \<noteq> [] \<longrightarrow> map_of (co_payload e) ''node_id'' = Some (JStr (bc_node_id b))) \<and>
     (bc_host_id b \<noteq> [] \<longrightarrow> map_of (co_payload e) ''host_id'' = Some (JStr (bc_host_id b)))"

definition same_collector :: "base_collector \<Rightarrow> base_collector \<Rightarrow> bool" where
  "same_collector b b' \<longleftrightarrow> bc_node_id b' = bc_node_id b \<and> bc_host_id b' = bc_host_id b \<and> base_enabled b' = base_enabled b \<and>
     cst_dropped_count (bc_status b') = cst_dropped_count (bc_status b)"

locale collector =
  fixes poll :: "'w \<Rightarrow> ('c, collected_event list) op" and base :: "'c \<Rightarrow> base_collector" and kinds :: "string set"
  assumes poll_counts: "poll w c = (Inr events, c') \<Longrightarrow> emitted (base c') = emitted (base c) + length events"
    and poll_fails: "poll w c = (Inl e, c') \<Longrightarrow> emitted (base c') = emitted (base c)"
    and poll_same: "same_collector (base c) (base (snd (poll w c)))"
    and poll_kinds: "poll w c = (Inr events, c') \<Longrightarrow> ev \<in> set events \<Longrightarrow> co_event_kind ev \<in> kinds \<and> from_node (base c) ev"
    and poll_off: "\<not> base_enabled (base c) \<Longrightarrow> fst (poll w c) = Inr []"
begin

text \<open>A sequence of polls; an exception ends a poll without events, as the caller catches it.\<close>

fun polls :: "'w list \<Rightarrow> 'c \<Rightarrow> collected_event list \<times> 'c" where
  "polls [] c = ([], c)"
| "polls (w # ws) c =
     (case poll w c of
        (Inl e, c') \<Rightarrow> polls ws c'
      | (Inr events, c') \<Rightarrow> (let (later, c'') = polls ws c' in (events @ later, c'')))"

lemma same_trans: "same_collector b b' \<Longrightarrow> same_collector b' b'' \<Longrightarrow> same_collector b b''"
  by (simp add: same_collector_def)

lemma polls_same: "same_collector (base c) (base (snd (polls ws c)))"
proof (induction ws arbitrary: c)
  case (Cons w ws)
  obtain r c' where r: "poll w c = (r, c')" by fastforce
  then have "same_collector (base c) (base c')" using poll_same [where w = w and c = c] by simp
  with Cons [of c'] r show ?case by (cases r) (auto simp: split_beta intro: same_trans)
qed (simp add: same_collector_def)

lemma polls_counted: "emitted (base (snd (polls ws c))) = emitted (base c) + length (fst (polls ws c))"
proof (induction ws arbitrary: c)
  case (Cons w ws)
  obtain r c' where r: "poll w c = (r, c')" by fastforce
  with Cons [of c'] show ?case
    using poll_counts [of w c _ c'] poll_fails [of w c _ c'] by (cases r) (auto simp: split_beta)
qed simp

lemma polls_kinds: "ev \<in> set (fst (polls ws c)) \<Longrightarrow> co_event_kind ev \<in> kinds \<and> from_node (base c) ev"
proof (induction ws arbitrary: c)
  case (Cons w ws)
  obtain r c' where r: "poll w c = (r, c')" by fastforce
  then have same: "same_collector (base c) (base c')" using poll_same [where w = w and c = c] by simp
  from Cons.prems r consider "ev \<in> set (fst (polls ws c'))" | events where "r = Inr events" "ev \<in> set events"
    by (cases r) (auto simp: split_beta)
  then show ?case
  proof cases
    case 1
    from Cons.IH [OF this] same show ?thesis by (simp add: from_node_def same_collector_def)
  next
    case 2
    with r poll_kinds show ?thesis by blast
  qed
qed simp

lemma polls_off: "\<not> base_enabled (base c) \<Longrightarrow> fst (polls ws c) = []"
proof (induction ws arbitrary: c)
  case (Cons w ws)
  obtain r c' where r: "poll w c = (r, c')" by fastforce
  then have "same_collector (base c) (base c')" using poll_same [where w = w and c = c] by simp
  with Cons.prems have "fst (polls ws c') = []" by (intro Cons.IH) (simp add: same_collector_def)
  moreover have "r = Inr []" using poll_off [OF Cons.prems, of w] r by simp
  ultimately show ?case using r by (simp add: split_beta)
qed simp

end

lemma from_node_annotate:
  assumes "map_of (co_payload e) ''node_id'' = None" "map_of (co_payload e) ''host_id'' = None"
    "bc_node_id b' = bc_node_id b" "bc_host_id b' = bc_host_id b"
  shows "from_node b (annotate b' e)"
  using assms by (simp add: from_node_def annotate_def Let_def)

interpretation host: collector "host_poll fc tr" hc_base "{''host_boot'', ''host_reboot''}" for fc tr
proof
  fix w c events c' ev
  note defs = host_poll_def read_boot_time_def on_host_def Let_def
  show "same_collector (hc_base c) (hc_base (snd (host_poll fc tr w c)))"
    by (simp add: defs same_collector_def split: sum.split list.split option.split)
  show "emitted (hc_base c') = emitted (hc_base c) + length events" if "host_poll fc tr w c = (Inr events, c')"
    using that by (auto simp: defs split: sum.splits list.splits option.splits if_splits)
  show "emitted (hc_base c') = emitted (hc_base c)" if "host_poll fc tr w c = (Inl e, c')" for e
    using that by (auto simp: defs split: sum.splits list.splits option.splits if_splits)
  show "fst (host_poll fc tr w c) = Inr []" if "\<not> base_enabled (hc_base c)"
    using that by (simp add: defs)
  show "co_event_kind ev \<in> {''host_boot'', ''host_reboot''} \<and> from_node (hc_base c) ev"
    if "host_poll fc tr w c = (Inr events, c')" "ev \<in> set events"
    using that by (auto simp: defs boot_event_def reboot_event_def intro!: from_node_annotate
        split: sum.splits list.splits option.splits if_splits)
qed

interpretation firewall: collector "firewall_poll L" fi_base "{''iptables_rule_changed''}" for L
proof
  fix w c events c' ev
  note defs = firewall_poll_def Let_def
  show "same_collector (fi_base c) (fi_base (snd (firewall_poll L w c)))"
    by (simp add: defs same_collector_def split: run_result.split)
  show "emitted (fi_base c') = emitted (fi_base c) + length events" if "firewall_poll L w c = (Inr events, c')"
    using that by (auto simp: defs split: run_result.splits if_splits)
  show "emitted (fi_base c') = emitted (fi_base c)" if "firewall_poll L w c = (Inl e, c')" for e
    using that by (auto simp: defs split: run_result.splits if_splits)
  show "fst (firewall_poll L w c) = Inr []" if "\<not> base_enabled (fi_base c)"
    using that by (simp add: defs)
  show "co_event_kind ev \<in> {''iptables_rule_changed''} \<and> from_node (fi_base c) ev"
    if "firewall_poll L w c = (Inr events, c')" "ev \<in> set events"
    using that by (auto simp: defs rules_event_def intro!: from_node_annotate split: run_result.splits if_splits)
qed

lemma op_each_rel:
  assumes "\<And>c. R c c" "\<And>a b c. R a b \<Longrightarrow> R b c \<Longrightarrow> R a c" "\<And>x c. R c (snd (f x c))"
  shows "R c (snd (op_each f xs c))"
proof (induction xs arbitrary: c)
  case (Cons x xs)
  obtain r c1 where r: "f x c = (r, c1)" by fastforce
  have "R c c1" using assms(3) [of c x] r by simp
  with Cons [of c1] r assms(2) show ?case by (cases r) (auto simp: op_simps split: sum.split)
qed (simp add: op_simps assms(1))

lemma op_each_out:
  assumes "\<And>c. R c c" "\<And>a b c. R a b \<Longrightarrow> R b c \<Longrightarrow> R a c" "\<And>x c. R c (snd (f x c))"
    and "op_each f xs c = (Inr ys, c')" "y \<in> set ys"
  shows "\<exists>x c1 c2. R c c1 \<and> f x c1 = (Inr y, c2)"
  using assms(4,5)
proof (induction xs arbitrary: c ys)
  case (Cons x xs)
  obtain r c1 where r: "f x c = (r, c1)" by fastforce
  have le: "R c c1" using assms(3) [of c x] r by simp
  from Cons.prems(1) r obtain z zs where z: "r = Inr z" "op_each f xs c1 = (Inr zs, c')" "ys = z # zs"
    by (cases r) (auto simp: op_simps prod_eq_iff split: sum.splits)
  show ?case
  proof (cases "y = z")
    case True
    then show ?thesis using r z assms(1) by blast
  next
    case False
    with Cons.prems(2) z Cons.IH [OF z(2)] le assms(2) show ?thesis by (metis set_ConsD)
  qed
qed (simp add: op_simps)

definition audit_le :: "audit_collector \<Rightarrow> audit_collector \<Rightarrow> bool" where
  "audit_le c c' \<longleftrightarrow> same_collector (au_base c) (au_base c') \<and> emitted (au_base c') = emitted (au_base c)"

lemma audit_le_path: "audit_le c (snd (audit_path L w p c))"
  by (simp add: audit_le_def same_collector_def audit_path_def audit_snapshot_def Let_def op_simps on_audit_def
      split: stat_result.split option.split)

lemma audit_le_each: "audit_le c (snd (op_each (audit_path L w) ps c))"
  by (rule op_each_rel [where R = audit_le]) (auto simp: audit_le_path, auto simp: audit_le_def same_collector_def)

lemma audit_path_event:
  "audit_path L w p c = (Inr es, c') \<Longrightarrow> ev \<in> set es \<Longrightarrow>
   co_event_kind ev = ''critical_file_modified'' \<and> from_node (au_base c) ev"
  by (auto simp: audit_path_def audit_snapshot_def Let_def op_simps on_audit_def modified_event_def
      intro!: from_node_annotate split: stat_result.splits option.splits if_splits)

lemma audit_each_event:
  assumes "op_each (audit_path L w) ps c = (Inr found, c')" "ev \<in> set (concat found)"
  shows "co_event_kind ev = ''critical_file_modified'' \<and> from_node (au_base c) ev"
proof -
  from assms(2) obtain es where es: "es \<in> set found" "ev \<in> set es" by auto
  have "\<exists>x c1 c2. audit_le c c1 \<and> audit_path L w x c1 = (Inr es, c2)"
    by (rule op_each_out [where R = audit_le, OF _ _ audit_le_path assms(1) es(1)]) (auto simp: audit_le_def same_collector_def)
  then obtain x c1 c2 where "audit_le c c1" "audit_path L w x c1 = (Inr es, c2)" by blast
  with audit_path_event [OF this(2) es(2)] show ?thesis by (simp add: audit_le_def same_collector_def from_node_def)
qed

lemma audit_poll_run:
  "audit_poll L w c =
     (let c1 = on_audit (polled_at (aw_clock w 0)) c
      in if \<not> base_enabled (au_base c) then (Inr [], c1)
         else case op_each (audit_path L w) (ac_watch_paths (au_config c)) c1 of
           (Inl e, c2) \<Rightarrow> (Inl e, c2)
         | (Inr found, c2) \<Rightarrow> (Inr (concat found), on_audit (count_emitted (aw_clock w 1) (concat found))
             (on_audit (set_error None) (c2\<lparr>au_first_poll := False\<rparr>))))"
  by (simp add: audit_poll_def op_simps on_audit_def Let_def split: prod.split sum.split)

interpretation audit: collector "audit_poll L" au_base "{''critical_file_modified''}" for L
proof
  fix w :: audit_world and c :: audit_collector and events c' ev
  let ?c = "on_audit (polled_at (aw_clock w 0)) c"
  obtain r c2 where run: "op_each (audit_path L w) (ac_watch_paths (au_config c)) ?c = (r, c2)" by fastforce
  have le: "audit_le ?c c2" using audit_le_each [of ?c L w] run by (metis snd_conv)
  have base: "au_base ?c = polled_at (aw_clock w 0) (au_base c)" by simp
  note defs = audit_poll_run run Let_def
  show "same_collector (au_base c) (au_base (snd (audit_poll L w c)))"
    using le by (cases r) (auto simp: defs audit_le_def same_collector_def)
  show "emitted (au_base c') = emitted (au_base c) + length events" if "audit_poll L w c = (Inr events, c')"
    using that le by (cases r) (auto simp: defs audit_le_def split: if_splits)
  show "emitted (au_base c') = emitted (au_base c)" if "audit_poll L w c = (Inl e, c')" for e
    using that le by (cases r) (auto simp: defs audit_le_def split: if_splits)
  show "fst (audit_poll L w c) = Inr []" if "\<not> base_enabled (au_base c)"
    using that by (simp add: audit_poll_run)
  show "co_event_kind ev \<in> {''critical_file_modified''} \<and> from_node (au_base c) ev"
    if "audit_poll L w c = (Inr events, c')" "ev \<in> set events"
  proof -
    from that obtain found where "r = Inr found" "ev \<in> set (concat found)"
      by (cases r) (auto simp: defs split: if_splits)
    with audit_each_event [of L w _ ?c found c2 ev] run show ?thesis by (simp add: from_node_def base)
  qed
qed

lemma proc_pid_state: "snd (proc_pid w pid c) = c"
  by (simp add: proc_pid_def split: sum.split option.split)

lemma proc_each_state: "snd (op_each (proc_pid w) ps c) = c"
proof -
  have "(\<lambda>c c'. c' = c) c (snd (op_each (proc_pid w) ps c))"
    by (rule op_each_rel [where R = "\<lambda>c c'. c' = c"]) (auto simp: proc_pid_state)
  then show ?thesis by simp
qed

lemma proc_pid_event:
  "proc_pid w pid c = (Inr es, c') \<Longrightarrow> ev \<in> set es \<Longrightarrow>
   co_event_kind ev \<in> {''known_malicious_process'', ''privileged_process_started''} \<and> from_node (pr_base c) ev"
  by (auto simp: proc_pid_def process_events_def process_payload_def Let_def intro!: from_node_annotate
      split: sum.splits option.splits if_splits)

lemma proc_each_event:
  assumes "op_each (proc_pid w) ps c = (Inr found, c')" "ev \<in> set (concat found)"
  shows "co_event_kind ev \<in> {''known_malicious_process'', ''privileged_process_started''} \<and> from_node (pr_base c) ev"
proof -
  from assms(2) obtain es where es: "es \<in> set found" "ev \<in> set es" by auto
  have "\<exists>x c1 c2. (\<lambda>c c'. c' = c) c c1 \<and> proc_pid w x c1 = (Inr es, c2)"
    by (rule op_each_out [where R = "\<lambda>c c'. c' = c", OF _ _ _ assms(1) es(1)]) (auto simp: proc_pid_state)
  with proc_pid_event es(2) show ?thesis by blast
qed

lemma proc_poll_run:
  "proc_poll w c =
     (let c1 = c\<lparr>pr_base := polled_at (pw_clock w 0) (pr_base c)\<rparr>
      in if \<not> base_enabled (pr_base c) then (Inr [], c1)
         else case fst (op_each (proc_pid w) (pw_pids w) c1) of
           Inl e \<Rightarrow> (Inl e, c1)
         | Inr found \<Rightarrow> (Inr (concat found), c1\<lparr>pr_seen_pids := pw_pids w, pr_first_poll := False,
             pr_base := count_emitted (pw_clock w 1) (concat found) (set_error None (pr_base c1))\<rparr>))"
  by (simp add: proc_poll_def op_simps proc_each_state Let_def split: sum.split)

interpretation proc: collector proc_poll pr_base "{''known_malicious_process'', ''privileged_process_started''}"
proof
  fix w :: proc_world and c :: proc_collector and events c' ev
  let ?c = "c\<lparr>pr_base := polled_at (pw_clock w 0) (pr_base c)\<rparr>"
  obtain r where run: "fst (op_each (proc_pid w) (pw_pids w) ?c) = r" by blast
  note defs = proc_poll_run run Let_def
  show "same_collector (pr_base c) (pr_base (snd (proc_poll w c)))"
    by (cases r) (auto simp: defs same_collector_def)
  show "emitted (pr_base c') = emitted (pr_base c) + length events" if "proc_poll w c = (Inr events, c')"
    using that by (cases r) (auto simp: defs split: if_splits)
  show "emitted (pr_base c') = emitted (pr_base c)" if "proc_poll w c = (Inl e, c')" for e
    using that by (cases r) (auto simp: defs split: if_splits)
  show "fst (proc_poll w c) = Inr []" if "\<not> base_enabled (pr_base c)"
    using that by (simp add: proc_poll_run)
  show "co_event_kind ev \<in> {''known_malicious_process'', ''privileged_process_started''} \<and> from_node (pr_base c) ev"
    if "proc_poll w c = (Inr events, c')" "ev \<in> set events"
  proof -
    from that obtain found where "r = Inr found" "ev \<in> set (concat found)"
      by (cases r) (auto simp: defs split: if_splits)
    with proc_each_event [of w "pw_pids w" ?c found ?c ev] run proc_each_state [of w "pw_pids w" ?c] show ?thesis
      by (simp add: from_node_def prod_eq_iff)
  qed
qed

section \<open>Changes of critical files are reported\<close>

definition snapshot_at :: "pylib \<Rightarrow> audit_config \<Rightarrow> audit_world \<Rightarrow> string \<Rightarrow> file_snapshot option" where
  "snapshot_at L config w path =
     (case aw_stat w path of
        StatOk mtime bytes content \<Rightarrow> Some \<lparr>fw_mtime_ns = mtime, fw_size = bytes, fw_sha256 = file_hash L (ac_hash_max_bytes config) bytes content\<rparr>
      | _ \<Rightarrow> None)"

text \<open>The report on one path, from its snapshots at two polls.\<close>

definition report :: "base_collector \<Rightarrow> audit_world \<Rightarrow> string \<Rightarrow> file_snapshot option \<Rightarrow> file_snapshot option \<Rightarrow> collected_event list" where
  "report b w path before now =
     (case (before, now) of
        (Some old, Some new) \<Rightarrow> if file_changed old new then [annotate b (modified_event w path old new)] else []
      | _ \<Rightarrow> [])"

lemma annotate_cong: "bc_node_id b' = bc_node_id b \<Longrightarrow> bc_host_id b' = bc_host_id b \<Longrightarrow> annotate b' e = annotate b e"
  by (simp add: annotate_def Let_def)

lemma report_cong: "bc_node_id b' = bc_node_id b \<Longrightarrow> bc_host_id b' = bc_host_id b \<Longrightarrow> report b' w = report b w"
  using annotate_cong [of b' b] by (simp add: report_def fun_eq_iff split: option.split)

lemma audit_path_spec:
  assumes "\<And>e. aw_stat w (path_str p) \<noteq> StatFails e"
  shows "\<exists>c'. audit_path L w p c =
      (Inr (if au_first_poll c then []
            else report (au_base c) w (path_str p) (map_of (au_snapshots c) (path_str p)) (snapshot_at L (au_config c) w (path_str p))), c') \<and>
    map_of (au_snapshots c') = (map_of (au_snapshots c))(path_str p := snapshot_at L (au_config c) w (path_str p)) \<and>
    au_config c' = au_config c \<and> au_first_poll c' = au_first_poll c \<and>
    bc_node_id (au_base c') = bc_node_id (au_base c) \<and> bc_host_id (au_base c') = bc_host_id (au_base c)"
  using assms
  by (cases "aw_stat w (path_str p)"; cases "map_of (au_snapshots c) (path_str p)")
    (auto simp: audit_path_def audit_snapshot_def Let_def op_simps snapshot_at_def report_def fun_eq_iff intro: annotate_cong)

lemma audit_each_spec:
  assumes "distinct (map path_str ps)" "\<And>p e. p \<in> set ps \<Longrightarrow> aw_stat w (path_str p) \<noteq> StatFails e"
  shows "\<exists>c'. op_each (audit_path L w) ps c =
      (Inr (map (\<lambda>p. if au_first_poll c then []
        else report (au_base c) w (path_str p) (map_of (au_snapshots c) (path_str p)) (snapshot_at L (au_config c) w (path_str p))) ps), c') \<and>
    (\<forall>path. map_of (au_snapshots c') path =
      (if path \<in> path_str ` set ps then snapshot_at L (au_config c) w path else map_of (au_snapshots c) path)) \<and>
    au_config c' = au_config c \<and> bc_node_id (au_base c') = bc_node_id (au_base c) \<and> bc_host_id (au_base c') = bc_host_id (au_base c)"
  using assms
proof (induction ps arbitrary: c)
  case Nil
  then show ?case by (simp add: op_simps)
next
  case (Cons p ps)
  have "\<And>e. aw_stat w (path_str p) \<noteq> StatFails e" using Cons.prems(2) by simp
  from audit_path_spec [where w = w and c = c and L = L, OF this] obtain c1 where one: "audit_path L w p c =
      (Inr (if au_first_poll c then []
            else report (au_base c) w (path_str p) (map_of (au_snapshots c) (path_str p)) (snapshot_at L (au_config c) w (path_str p))), c1)"
    "map_of (au_snapshots c1) = (map_of (au_snapshots c))(path_str p := snapshot_at L (au_config c) w (path_str p))"
    "au_config c1 = au_config c" "au_first_poll c1 = au_first_poll c"
    "bc_node_id (au_base c1) = bc_node_id (au_base c)" "bc_host_id (au_base c1) = bc_host_id (au_base c)" by blast
  have same: "report (au_base c1) w = report (au_base c) w"
    using one(5,6) by (rule report_cong)
  from Cons.IH [of c1] Cons.prems obtain c' where rest: "op_each (audit_path L w) ps c1 =
      (Inr (map (\<lambda>p. if au_first_poll c1 then []
        else report (au_base c1) w (path_str p) (map_of (au_snapshots c1) (path_str p)) (snapshot_at L (au_config c1) w (path_str p))) ps), c')"
    "\<forall>path. map_of (au_snapshots c') path =
      (if path \<in> path_str ` set ps then snapshot_at L (au_config c1) w path else map_of (au_snapshots c1) path)"
    "au_config c' = au_config c1" "bc_node_id (au_base c') = bc_node_id (au_base c1)" "bc_host_id (au_base c') = bc_host_id (au_base c1)"
    by auto
  have fresh: "path_str q \<noteq> path_str p" if "q \<in> set ps" for q using Cons.prems(1) that by (metis distinct.simps(2) imageI list.simps(9) list.set_map)
  have "map (\<lambda>p. if au_first_poll c1 then []
      else report (au_base c1) w (path_str p) (map_of (au_snapshots c1) (path_str p)) (snapshot_at L (au_config c1) w (path_str p))) ps =
    map (\<lambda>p. if au_first_poll c then []
      else report (au_base c) w (path_str p) (map_of (au_snapshots c) (path_str p)) (snapshot_at L (au_config c) w (path_str p))) ps"
    by (rule map_cong) (use fresh in \<open>auto simp: one same\<close>)
  with one rest show ?case by (auto simp: op_simps)
qed

lemma audit_poll_spec:
  assumes "base_enabled (au_base c)" "distinct (map path_str (ac_watch_paths (au_config c)))"
    "\<And>p e. p \<in> set (ac_watch_paths (au_config c)) \<Longrightarrow> aw_stat w (path_str p) \<noteq> StatFails e"
  obtains c' where "audit_poll L w c = (Inr (if au_first_poll c then [] else concat (map (\<lambda>p.
      report (au_base c) w (path_str p) (map_of (au_snapshots c) (path_str p)) (snapshot_at L (au_config c) w (path_str p)))
        (ac_watch_paths (au_config c)))), c')"
    "\<And>p. p \<in> set (ac_watch_paths (au_config c)) \<Longrightarrow> map_of (au_snapshots c') (path_str p) = snapshot_at L (au_config c) w (path_str p)"
    "au_config c' = au_config c" "\<not> au_first_poll c'" "base_enabled (au_base c')"
    "bc_node_id (au_base c') = bc_node_id (au_base c)" "bc_host_id (au_base c') = bc_host_id (au_base c)"
proof -
  let ?c = "on_audit (polled_at (aw_clock w 0)) c"
  from audit_each_spec [OF assms(2,3), of L ?c] obtain c2 where each: "op_each (audit_path L w) (ac_watch_paths (au_config c)) ?c =
      (Inr (map (\<lambda>p. if au_first_poll ?c then []
        else report (au_base ?c) w (path_str p) (map_of (au_snapshots ?c) (path_str p)) (snapshot_at L (au_config ?c) w (path_str p)))
          (ac_watch_paths (au_config c))), c2)"
    "\<forall>path. map_of (au_snapshots c2) path =
      (if path \<in> path_str ` set (ac_watch_paths (au_config c)) then snapshot_at L (au_config ?c) w path else map_of (au_snapshots ?c) path)"
    "au_config c2 = au_config ?c" "bc_node_id (au_base c2) = bc_node_id (au_base ?c)" "bc_host_id (au_base c2) = bc_host_id (au_base ?c)" by blast
  have rep: "report (polled_at t (au_base c)) w = report (au_base c) w" for t
    by (rule report_cong) simp_all
  have en: "base_enabled (au_base c2)"
    using audit_le_each [of ?c L w "ac_watch_paths (au_config c)"] assms(1) each(1) by (simp add: audit_le_def same_collector_def)
  have run: "\<exists>es :: collected_event list. audit_poll L w c = (Inr (if au_first_poll c then [] else concat (map (\<lambda>p.
      report (au_base c) w (path_str p) (map_of (au_snapshots c) (path_str p)) (snapshot_at L (au_config c) w (path_str p)))
        (ac_watch_paths (au_config c)))), on_audit (count_emitted (aw_clock w 1) es) (on_audit (set_error None) (c2\<lparr>au_first_poll := False\<rparr>)))"
    using assms(1) each(1) by (auto simp: audit_poll_run Let_def rep intro!: exI)
  then show thesis
    using that each en by fastforce
qed

text \<open>
  C37: what the watch on critical files sees. Whatever happened before, a poll reports for the watched
  files, in their order, exactly those that were readable both at this poll and at the one before it and
  whose content hash or modification time changed in between, with both hashes; a file that was absent at
  the previous poll is never reported, whatever it now contains.
\<close>

theorem critical_file_detection:
  assumes "base_enabled (au_base c)" "distinct (map path_str (ac_watch_paths (au_config c)))"
    and stat1: "\<And>p e. p \<in> set (ac_watch_paths (au_config c)) \<Longrightarrow> aw_stat w1 (path_str p) \<noteq> StatFails e"
    and stat2: "\<And>p e. p \<in> set (ac_watch_paths (au_config c)) \<Longrightarrow> aw_stat w2 (path_str p) \<noteq> StatFails e"
  shows "fst (audit_poll L w2 (snd (audit_poll L w1 c))) =
    Inr (concat (map (\<lambda>p. report (au_base c) w2 (path_str p) (snapshot_at L (au_config c) w1 (path_str p)) (snapshot_at L (au_config c) w2 (path_str p)))
      (ac_watch_paths (au_config c))))"
proof -
  obtain es c1 where first: "audit_poll L w1 c = (Inr es, c1)"
    and snap: "\<And>p. p \<in> set (ac_watch_paths (au_config c)) \<Longrightarrow> map_of (au_snapshots c1) (path_str p) = snapshot_at L (au_config c) w1 (path_str p)"
    and c1: "au_config c1 = au_config c" "\<not> au_first_poll c1" "base_enabled (au_base c1)"
      "bc_node_id (au_base c1) = bc_node_id (au_base c)" "bc_host_id (au_base c1) = bc_host_id (au_base c)"
    by (rule audit_poll_spec [OF assms(1,2) stat1, where L = L]) auto
  have same: "report (au_base c1) w2 = report (au_base c) w2"
    using c1(4,5) by (rule report_cong)
  obtain c2 where second: "audit_poll L w2 c1 = (Inr (concat (map (\<lambda>p.
      report (au_base c1) w2 (path_str p) (map_of (au_snapshots c1) (path_str p)) (snapshot_at L (au_config c1) w2 (path_str p)))
        (ac_watch_paths (au_config c1)))), c2)"
    by (rule audit_poll_spec [of c1 w2, where L = L]) (use assms(2) stat2 c1 in auto)
  have "map (\<lambda>p. report (au_base c1) w2 (path_str p) (map_of (au_snapshots c1) (path_str p)) (snapshot_at L (au_config c1) w2 (path_str p)))
      (ac_watch_paths (au_config c1)) =
    map (\<lambda>p. report (au_base c) w2 (path_str p) (snapshot_at L (au_config c) w1 (path_str p)) (snapshot_at L (au_config c) w2 (path_str p)))
      (ac_watch_paths (au_config c))"
    unfolding c1(1) by (rule map_cong) (auto simp: snap same)
  with first second show ?thesis by simp
qed

definition passwd_world :: "stat_result \<Rightarrow> audit_world" where
  "passwd_world r = \<lparr>aw_clock = of_nat, aw_stat = (\<lambda>p. if p = ''/etc/passwd'' then r else StatMissing), aw_iso = (\<lambda>_. [])\<rparr>"

definition passwd_watch :: audit_collector where
  "passwd_watch = audit_init \<lparr>ac_enabled = True, ac_watch_paths = [''/etc//passwd''], ac_poll_interval_sec = 5, ac_hash_max_bytes = 100\<rparr> ''n1'' ''h1''"

theorem critical_file_detection_witness:
  "\<exists>ev. fst (audit_poll demo_lib (passwd_world (StatOk 2 4 (Some ''evil'')))
       (snd (audit_poll demo_lib (passwd_world (StatOk 1 4 (Some ''good''))) passwd_watch))) = Inr [ev] \<and>
     co_event_kind ev = ''critical_file_modified''"
proof -
  have p: "path_str ''/etc//passwd'' = ''/etc/passwd''" by code_simp
  have c: "ac_watch_paths (au_config passwd_watch) = [''/etc//passwd'']" "base_enabled (au_base passwd_watch)"
    "ac_hash_max_bytes (au_config passwd_watch) = 100"
    by (simp_all add: passwd_watch_def audit_init_def base_init_def)
  have changed: "snapshot_at demo_lib (au_config passwd_watch) (passwd_world (StatOk m 4 (Some s))) ''/etc/passwd'' =
      Some \<lparr>fw_mtime_ns = m, fw_size = 4, fw_sha256 = file_hash demo_lib 100 4 (Some s)\<rparr>" for m s
    by (simp add: snapshot_at_def passwd_world_def c)
  have st: "aw_stat (passwd_world r) q = (if q = ''/etc/passwd'' then r else StatMissing)" for r q
    by (simp add: passwd_world_def)
  from critical_file_detection [of passwd_watch "passwd_world (StatOk 1 4 (Some ''good''))" "passwd_world (StatOk 2 4 (Some ''evil''))" demo_lib]
  show ?thesis by (simp add: c p changed st report_def file_changed_def modified_event_def)
qed

end
