(* ===== verification/LinuxIngest.thy ===== *)
theory LinuxIngest
  imports Regex Collectors
begin

text \<open>
  \<open>mdrj/linux_ingest.py\<close> and \<open>mdrj/collectors/linux_auth.py\<close>: following the authentication log and turning its
  lines into events: administrative logins, bursts of failed logins per address, and privilege escalation.
  Arguments stand for the calendar (\<open>datetime_lib\<close>), the log file as it is found (inode, size, content), the
  user and group databases, and the Russian texts. Positions in the file count characters, which are bytes
  as long as the log is ASCII; reading translates \<open>\r\<close> and \<open>\r\n\<close> into line ends as Python's text mode does.
\<close>

section \<open>Patterns\<close>

definition sshd_prefix :: "rx list" where
  "sshd_prefix = [Lit ''sshd'', Opt (Lit ''-session''), Opt (seqs [Lit ''['', digits, Lit '']'']), Lit '':'', spaces]"

definition accepted_tail :: "rx list" where
  "accepted_tail = [Lit ''Accepted'', spaces, Grp ''method'' nonspaces, spaces, Lit ''for'', spaces,
     Grp ''user'' (Rep is_user_char 1 None), spaces, Lit ''from'', spaces, Grp ''source_ip'' (Rep is_ip_char 1 None), spaces,
     Lit ''port'', spaces, Grp ''port'' digits]"

definition is_upper :: "char \<Rightarrow> bool" where
  "is_upper c \<longleftrightarrow> (let n = of_char c :: nat in 65 \<le> n \<and> n \<le> 90)"

definition is_lower :: "char \<Rightarrow> bool" where
  "is_lower c \<longleftrightarrow> (let n = of_char c :: nat in 97 \<le> n \<and> n \<le> 122)"

abbreviation d2 :: rx where "d2 \<equiv> Rep is_digit 2 (Some 2)"

definition SYSLOG_SSH_ACCEPTED_RE :: rx where
  "SYSLOG_SSH_ACCEPTED_RE = seqs
     ([Grp ''month'' (Seq (Rep is_upper 1 (Some 1)) (Rep is_lower 2 (Some 2))), spaces,
       Grp ''day'' (Rep is_digit 1 (Some 2)), spaces, Grp ''clock'' (seqs [d2, Lit '':'', d2, Lit '':'', d2]), spaces,
       Grp ''host'' nonspaces, spaces] @ sshd_prefix @ accepted_tail)"

definition ISO_SSH_ACCEPTED_RE :: rx where
  "ISO_SSH_ACCEPTED_RE = seqs
     ([Grp ''occurred_at'' (seqs [Rep is_digit 4 (Some 4), Lit ''-'', d2, Lit ''-'', d2, Lit ''T'', nonspaces]), spaces,
       Grp ''host'' nonspaces, spaces] @ sshd_prefix @ accepted_tail)"

definition SSH_FAILED_RE :: rx where
  "SSH_FAILED_RE = seqs
     (sshd_prefix @ [Lit ''Failed'', spaces, Lit ''password'', spaces, Lit ''for'', spaces,
       Opt (Seq (Lit ''invalid user'') spaces), Grp ''user'' (Rep is_user_char 1 None), spaces, Lit ''from'', spaces,
       Grp ''source_ip'' (Rep is_ip_char 1 None), spaces, Lit ''port'', spaces, Grp ''port'' digits])"

definition SUDO_SESSION_RE :: rx where
  "SUDO_SESSION_RE = seqs
     [Lit ''sudo'', Opt (seqs [Lit ''['', digits, Lit '']'']), Lit '':'', spaces, Lit ''pam_unix(sudo:session):'', spaces,
      Lit ''session opened for user'', spaces, Grp ''target'' (Rep is_user_char 1 None),
      Opt (seqs [Lit ''(uid='', digits, Lit '')'']), spaces, Lit ''by'', spaces, Grp ''actor'' (Rep is_user_char 0 None)]"

definition SU_SESSION_RE :: rx where
  "SU_SESSION_RE = seqs
     [WordB, Lit ''su'', Opt (seqs [Lit ''['', digits, Lit '']'']), Lit '':'', spaces, Lit ''pam_unix(su'', Opt (Lit ''-l''),
      Lit '':session):'', spaces, Lit ''session opened for user'', spaces, Grp ''target'' (Rep is_user_char 1 None)]"

section \<open>State\<close>

record linux_ingest_config =
  li_enabled :: bool
  li_source_type :: string
  li_auth_log_path :: "string option"
  li_poll_interval_sec :: rat
  li_host_id :: "string option"
  li_admin_users :: "string list"
  li_privileged_groups :: "string list"
  li_state_path :: "string option"

record auth_ingestor =
  ai_config :: linux_ingest_config
  ai_node_id :: string
  ai_auth_log_path :: string
  ai_state_path :: "string option"
  ai_host_id :: string
  ai_state :: json
  ai_state_file :: "string option"
  ai_admin_users :: "string set"
  ai_privileged_groups :: "string set"
  ai_failed_window :: "(string, rat list) dict"
  ai_failed_burst_emitted_at :: "(string, rat) dict"

record datetime_lib =
  dt_utc_iso :: "rat \<Rightarrow> string"
  dt_local_iso :: "rat \<Rightarrow> string"
  dt_reformat :: "string \<Rightarrow> string result"
  dt_year :: "rat \<Rightarrow> int"
  dt_strptime :: "string \<Rightarrow> rat result"
  dt_replace_year :: "rat \<Rightarrow> int \<Rightarrow> rat result"

record ingest_world =
  iw_clock :: "nat \<Rightarrow> timestamp"
  iw_exists :: bool
  iw_inode :: int
  iw_size :: int
  iw_content :: string
  iw_user_gid :: "string \<Rightarrow> int option"
  iw_group :: "string \<Rightarrow> (string list \<times> int) option"

definition default_state :: json where
  "default_state = JObj [(''inode'', JInt 0), (''offset'', JInt 0)]"

definition load_state :: "pylib \<Rightarrow> string option \<Rightarrow> string option \<Rightarrow> json" where
  "load_state L state_path state_file =
     (case (state_path, state_file) of
        (Some _, Some content) \<Rightarrow> (case json_loads (floats L) content of None \<Rightarrow> default_state | Some j \<Rightarrow> j)
      | _ \<Rightarrow> default_state)"

definition opt_nonempty :: "string option \<Rightarrow> string option" where
  "opt_nonempty s = (case s of Some (c # cs) \<Rightarrow> s | _ \<Rightarrow> None)"

definition strip_all :: "string list \<Rightarrow> string set" where
  "strip_all names = py_strip ` {x \<in> set names. py_strip x \<noteq> []}"

definition ingestor_init :: "pylib \<Rightarrow> linux_ingest_config \<Rightarrow> string \<Rightarrow> string option \<Rightarrow> string option \<Rightarrow> auth_ingestor" where
  "ingestor_init L config node_id default_state_path state_file =
     (let state_path = first_some (opt_nonempty (li_state_path config)) (opt_nonempty default_state_path)
      in \<lparr>ai_config = config, ai_node_id = node_id, ai_auth_log_path = path_str (opt_str (li_auth_log_path config)),
          ai_state_path = state_path, ai_host_id = str_or (opt_str (li_host_id config)) node_id,
          ai_state = load_state L state_path state_file, ai_state_file = state_file,
          ai_admin_users = strip_all (li_admin_users config), ai_privileged_groups = strip_all (li_privileged_groups config),
          ai_failed_window = [], ai_failed_burst_emitted_at = []\<rparr>)"

definition failed_burst_threshold :: nat where "failed_burst_threshold = 5"
definition failed_burst_window_sec :: rat where "failed_burst_window_sec = 120"

section \<open>Privileges and times\<close>

definition principal_in_privileged_group :: "ingest_world \<Rightarrow> auth_ingestor \<Rightarrow> string \<Rightarrow> bool" where
  "principal_in_privileged_group w a who =
     (case iw_user_gid w who of
        None \<Rightarrow> False
      | Some pw_gid \<Rightarrow> \<exists>g \<in> ai_privileged_groups a.
          (case iw_group w g of None \<Rightarrow> False | Some (members, gid) \<Rightarrow> who \<in> set members \<or> gid = pw_gid))"

definition privilege_scope :: "ingest_world \<Rightarrow> auth_ingestor \<Rightarrow> string \<Rightarrow> string option" where
  "privilege_scope w a who =
     (if who = ''root'' then Some ''root''
      else if who \<in> ai_admin_users a then Some ''configured_admin_user''
      else if ai_privileged_groups a \<noteq> {} \<and> principal_in_privileged_group w a who then Some ''privileged_group''
      else None)"

definition parse_timestamp :: "datetime_lib \<Rightarrow> timestamp \<Rightarrow> groups \<Rightarrow> bool \<Rightarrow> string result" where
  "parse_timestamp D now g is_iso =
     (if is_iso then dt_reformat D (group g ''occurred_at'')
      else res_bind (dt_strptime D (int_str (dt_year D now) @ '' '' @ group g ''month'' @ '' '' @ group g ''day'' @ '' '' @ group g ''clock'')) (\<lambda>candidate.
           res_bind (if 86400 < candidate - now then dt_replace_year D candidate (dt_year D now - 1) else Inr candidate) (\<lambda>moment.
           Inr (dt_local_iso D moment))))"

section \<open>Lines\<close>

definition login_payload :: "(string \<Rightarrow> string) \<Rightarrow> datetime_lib \<Rightarrow> auth_ingestor \<Rightarrow> string \<Rightarrow> nat \<Rightarrow> timestamp \<Rightarrow> groups \<Rightarrow> string \<Rightarrow> string \<Rightarrow> int \<Rightarrow>
    (string, json) dict" where
  "login_payload txt D a line line_offset collected g privilege occurred_at ssh_port =
     (let who = group g ''user''; source_ip = group g ''source_ip''
      in [(''event_kind'', JStr ''admin_ssh_login_success''), (''class'', JStr ''A''), (''host_id'', JStr (ai_host_id a)),
          (''node_id'', JStr (ai_node_id a)), (''occurred_at'', JStr occurred_at), (''collected_at'', JStr (dt_utc_iso D collected @ ''Z'')),
          (''principal'', JStr who), (''source_ip'', JStr source_ip), (''target_service'', JStr ''sshd''), (''result'', JStr ''success''),
          (''privilege_scope'', JStr privilege), (''raw_ref'', JStr (ai_auth_log_path a @ '':'' @ nat_str line_offset)),
          (''title'', JStr (txt ''admin_ssh_title'' @ who)),
          (''description'', JStr (txt ''admin_ssh_of'' @ who @ txt ''admin_ssh_from'' @ source_ip @ ''.'')),
          (''category'', JStr ''authentication''),
          (''context'', JObj [(''source_type'', JStr (li_source_type (ai_config a))), (''ssh_auth_method'', JStr (group g ''method'')),
             (''ssh_port'', JInt ssh_port), (''raw_line'', JStr line)])])"

definition burst_payload :: "(string \<Rightarrow> string) \<Rightarrow> datetime_lib \<Rightarrow> auth_ingestor \<Rightarrow> string \<Rightarrow> nat \<Rightarrow> timestamp \<Rightarrow> string \<Rightarrow> nat \<Rightarrow> (string, json) dict" where
  "burst_payload txt D a line line_offset collected ip failures =
     [(''event_kind'', JStr ''failed_login_burst''), (''class'', JStr ''A''), (''host_id'', JStr (ai_host_id a)), (''node_id'', JStr (ai_node_id a)),
      (''collected_at'', JStr (dt_local_iso D collected @ ''Z'')), (''source_ip'', JStr ip), (''target_service'', JStr ''sshd''),
      (''result'', JStr ''failure''), (''failed_count'', JInt (int failures)), (''window_sec'', JFloat failed_burst_window_sec),
      (''raw_ref'', JStr (ai_auth_log_path a @ '':'' @ nat_str line_offset)), (''title'', JStr (txt ''burst_title'' @ ip)),
      (''description'', JStr (txt ''burst_recorded'' @ nat_str failed_burst_threshold @ txt ''burst_failed'' @ txt ''burst_from'' @ ip @ txt ''burst_within'' @
         int_str (rat_trunc failed_burst_window_sec) @ txt ''burst_end'')), (''category'', JStr ''authentication''),
      (''context'', JObj [(''source_type'', JStr (li_source_type (ai_config a))), (''raw_line'', JStr line)])]"

definition escalation_payload :: "(string \<Rightarrow> string) \<Rightarrow> datetime_lib \<Rightarrow> auth_ingestor \<Rightarrow> string \<Rightarrow> nat \<Rightarrow> timestamp \<Rightarrow> string \<Rightarrow> string \<Rightarrow> string \<Rightarrow>
    (string, json) dict" where
  "escalation_payload txt D a line line_offset collected mechanism target actor =
     [(''event_kind'', JStr ''privilege_escalation''), (''class'', JStr ''A''), (''host_id'', JStr (ai_host_id a)), (''node_id'', JStr (ai_node_id a)),
      (''collected_at'', JStr (dt_local_iso D collected @ ''Z'')), (''mechanism'', JStr mechanism), (''target_user'', JStr target),
      (''actor_user'', JStr actor), (''raw_ref'', JStr (ai_auth_log_path a @ '':'' @ nat_str line_offset)),
      (''title'', JStr (txt ''escalation_title'' @ mechanism @ txt ''escalation_to'' @ target)),
      (''description'', JStr (txt ''escalation_open'' @ mechanism @ txt ''escalation_for'' @ target @
         (if actor = [] then [] else txt ''escalation_by'' @ actor) @ ''.'')), (''category'', JStr ''authentication''),
      (''context'', JObj [(''source_type'', JStr (li_source_type (ai_config a))), (''raw_line'', JStr line)])]"

text \<open>The sliding window of one address: the number of failures to report, if any.\<close>

definition failed_login :: "string \<Rightarrow> timestamp \<Rightarrow> auth_ingestor \<Rightarrow> nat option \<times> auth_ingestor" where
  "failed_login ip now a =
     (let window = filter (\<lambda>t. now - failed_burst_window_sec \<le> t) (dict_get (ai_failed_window a) ip [] @ [now]);
          a1 = a\<lparr>ai_failed_window := AList.update ip window (ai_failed_window a)\<rparr>
      in if failed_burst_threshold \<le> length window then
           if now - dict_get (ai_failed_burst_emitted_at a) ip 0 < failed_burst_window_sec then (None, a1)
           else (Some (length window),
                 a1\<lparr>ai_failed_burst_emitted_at := AList.update ip now (ai_failed_burst_emitted_at a),
                    ai_failed_window := AList.update ip [] (ai_failed_window a1)\<rparr>)
         else (None, a1))"

definition escalation_of :: "string \<Rightarrow> (string \<times> string \<times> string) option" where
  "escalation_of line =
     (case rx_search SUDO_SESSION_RE line of
        Some g \<Rightarrow> Some (''sudo'', group g ''target'', group g ''actor'')
      | None \<Rightarrow> (case rx_search SU_SESSION_RE line of Some g \<Rightarrow> Some (''su'', group g ''target'', []) | None \<Rightarrow> None))"

definition parse_other :: "(string \<Rightarrow> string) \<Rightarrow> datetime_lib \<Rightarrow> string \<Rightarrow> nat \<Rightarrow> timestamp \<Rightarrow> (auth_ingestor, (string, json) dict option) op" where
  "parse_other txt D line line_offset collected a =
     (case rx_search SSH_FAILED_RE line of
        Some g \<Rightarrow>
          let ip = group g ''source_ip''; (burst, a1) = failed_login ip collected a
          in (Inr (map_option (burst_payload txt D a1 line line_offset collected ip) burst), a1)
      | None \<Rightarrow>
          (Inr (case escalation_of line of
             Some (mechanism, target, actor) \<Rightarrow>
               if target = ''root'' then Some (escalation_payload txt D a line line_offset collected mechanism target actor) else None
           | None \<Rightarrow> None), a))"

definition ssh_accepted :: "string \<Rightarrow> (groups \<times> bool) option" where
  "ssh_accepted line =
     (case rx_match ISO_SSH_ACCEPTED_RE line of
        Some g \<Rightarrow> Some (g, True)
      | None \<Rightarrow> (case rx_match SYSLOG_SSH_ACCEPTED_RE line of Some g \<Rightarrow> Some (g, False) | None \<Rightarrow> None))"

definition parse_line :: "(string \<Rightarrow> string) \<Rightarrow> datetime_lib \<Rightarrow> ingest_world \<Rightarrow> nat \<Rightarrow> string \<Rightarrow> (auth_ingestor, (string, json) dict option) op" where
  "parse_line txt D w line_offset line =
     (case ssh_accepted line of
        None \<Rightarrow> parse_other txt D line line_offset (iw_clock w 0)
      | Some (g, is_iso) \<Rightarrow> (\<lambda>a.
          case privilege_scope w a (group g ''user'') of
            None \<Rightarrow> (Inr None, a)
          | Some privilege \<Rightarrow>
              (res_bind (parse_timestamp D (iw_clock w 1) g is_iso) (\<lambda>occurred_at.
               res_bind (py_int (JStr (group g ''port''))) (\<lambda>ssh_port.
               Inr (Some (login_payload txt D a line line_offset (iw_clock w 0) g privilege occurred_at ssh_port)))), a)))"

section \<open>Polling\<close>

text \<open>\<open>readline\<close> in text mode: the line without its end, and how many characters it took.\<close>

fun next_line :: "string \<Rightarrow> string \<times> nat" where
  "next_line [] = ([], 0)"
| "next_line (c # cs) =
     (if (of_char c :: nat) = 10 then ([], 1)
      else if (of_char c :: nat) = 13 then ([], case cs of d # _ \<Rightarrow> if (of_char d :: nat) = 10 then 2 else 1 | [] \<Rightarrow> 1)
      else let (l, n) = next_line cs in (c # l, Suc n))"

lemma next_line_progress: "s \<noteq> [] \<Longrightarrow> 0 < snd (next_line s)"
  by (cases s) (auto simp: split_beta split: list.split)

function read_lines :: "nat \<Rightarrow> string \<Rightarrow> (nat \<times> string) list" where
  "read_lines offset s =
     (if s = [] then [] else (offset, fst (next_line s)) # read_lines (offset + snd (next_line s)) (drop (snd (next_line s)) s))"
  by pat_completeness auto
termination by (relation "measure (\<lambda>(offset, s). length s)") (auto simp: next_line_progress)

declare read_lines.simps [simp del]

definition state_int :: "json \<Rightarrow> string \<Rightarrow> int result" where
  "state_int st key =
     res_bind (as_obj st) (\<lambda>d. let j = dict_get d key (JInt 0) in if json_truthy j then py_int j else Inr 0)"

definition save_state :: "pylib \<Rightarrow> auth_ingestor \<Rightarrow> auth_ingestor" where
  "save_state L a =
     (case ai_state_path a of None \<Rightarrow> a | Some _ \<Rightarrow> a\<lparr>ai_state_file := Some (dumps_default L (ai_state a))\<rparr>)"

definition start_offset :: "ingest_world \<Rightarrow> json \<Rightarrow> nat result" where
  "start_offset w st =
     res_bind (state_int st ''inode'') (\<lambda>state_inode.
     res_bind (state_int st ''offset'') (\<lambda>state_offset.
       let offset = (if state_inode \<noteq> iw_inode w \<or> iw_size w < state_offset then 0 else state_offset)
       in if offset < 0 then Inl (ValueError ''negative seek position'') else Inr (nat offset)))"

definition ingest_poll :: "pylib \<Rightarrow> (string \<Rightarrow> string) \<Rightarrow> datetime_lib \<Rightarrow> ingest_world \<Rightarrow> (auth_ingestor, (string, json) dict list) op" where
  "ingest_poll L txt D w =
     op_bind (op_lift (\<lambda>a. if iw_exists w then Inr () else Inl (FileNotFoundError (''auth log path does not exist: '' @ ai_auth_log_path a)))) (\<lambda>_.
     op_bind (op_lift (\<lambda>a. start_offset w (ai_state a))) (\<lambda>offset.
     op_bind (op_each (\<lambda>(line_offset, line). parse_line txt D w line_offset line) (read_lines offset (drop offset (iw_content w)))) (\<lambda>found.
     op_bind (op_mod (\<lambda>a. save_state L (a\<lparr>ai_state := JObj [(''inode'', JInt (iw_inode w)),
        (''offset'', JInt (int (max offset (length (iw_content w)))))]\<rparr>))) (\<lambda>_.
     op_ret (List.map_filter (\<lambda>p. p) found)))))"

text \<open>The collector around the ingestor.\<close>

record auth_collector =
  lc_base :: base_collector
  lc_ingestor :: auth_ingestor

definition auth_collector_init :: "pylib \<Rightarrow> linux_ingest_config \<Rightarrow> string \<Rightarrow> string option \<Rightarrow> string option \<Rightarrow> string option \<Rightarrow> auth_collector" where
  "auth_collector_init L config node_id default_state_path host_id state_file =
     \<lparr>lc_base = base_init ''linux_auth'' (li_poll_interval_sec config) node_id
        (str_or (opt_str host_id) (str_or (opt_str (li_host_id config)) node_id)),
      lc_ingestor = ingestor_init L config node_id default_state_path state_file\<rparr>"

definition record_event :: "pylib \<Rightarrow> base_collector \<Rightarrow> (string, json) dict \<Rightarrow> collected_event result" where
  "record_event L b record_read =
     (let j = jget record_read ''event_kind''
      in res_bind (if json_truthy j then py_str L j else Inr ''admin_ssh_login_success'') (\<lambda>kind.
         Inr (annotate b \<lparr>co_event_kind = kind, co_payload = record_read\<rparr>)))"

definition auth_poll :: "(py_error \<Rightarrow> string) \<Rightarrow> pylib \<Rightarrow> (string \<Rightarrow> string) \<Rightarrow> datetime_lib \<Rightarrow> (nat \<Rightarrow> timestamp) \<times> ingest_world \<Rightarrow>
    (auth_collector, collected_event list) op" where
  "auth_poll describe L txt D = (\<lambda>(clock, w) c.
     let b = polled_at (clock 0) (lc_base c); (raw, a) = ingest_poll L txt D w (lc_ingestor c)
     in case raw of
          Inl e \<Rightarrow> (Inr [], c\<lparr>lc_base := set_error (Some (describe e)) b, lc_ingestor := a\<rparr>)
        | Inr records \<Rightarrow>
            case res_map (record_event L b) records of
              Inl e \<Rightarrow> (Inl e, c\<lparr>lc_base := set_error None b, lc_ingestor := a\<rparr>)
            | Inr events \<Rightarrow> (Inr events, c\<lparr>lc_base := count_emitted (clock 1) events (set_error None b), lc_ingestor := a\<rparr>))"

section \<open>Logins are recognised\<close>

text \<open>A line as \<open>sshd\<close> writes it, with an ISO time stamp.\<close>

definition iso_stamp :: "string \<Rightarrow> string \<Rightarrow> string \<Rightarrow> string \<Rightarrow> string" where
  "iso_stamp y m d t = y @ ''-'' @ m @ ''-'' @ d @ ''T'' @ t"

definition login_line :: "string \<Rightarrow> string \<Rightarrow> nat \<Rightarrow> string \<Rightarrow> string \<Rightarrow> string \<Rightarrow> nat \<Rightarrow> string \<Rightarrow> string" where
  "login_line stamp host pid auth user ip port rest =
     stamp @ '' '' @ host @ '' '' @ ''sshd'' @ ''['' @ nat_str pid @ '']'' @ '':'' @ '' '' @ ''Accepted'' @ '' '' @ auth @ '' '' @ ''for'' @ '' '' @
     user @ '' '' @ ''from'' @ '' '' @ ip @ '' '' @ ''port'' @ '' '' @ nat_str port @ rest"

definition is_field :: "(char \<Rightarrow> bool) \<Rightarrow> string \<Rightarrow> bool" where
  "is_field P s \<longleftrightarrow> s \<noteq> [] \<and> list_all P s"

lemma rx_field:
  assumes "is_field P u" "case rest of [] \<Rightarrow> True | c # _ \<Rightarrow> \<not> P c" "k (last_char prev u) rest g = Some x"
  shows "rx_run (Rep P 1 None) prev (u @ rest) g k = Some x"
  by (rule rx_rep) (use assms in \<open>auto simp: is_field_def Suc_le_eq\<close>)

lemma rx_digits:
  assumes "list_all is_digit u" "length u = n" "k (last_char prev u) rest g = Some x"
  shows "rx_run (Rep is_digit n (Some n)) prev (u @ rest) g k = Some x"
  by (rule rx_rep) (use assms in auto)

lemma rx_nil: "k prev s g = Some x \<Longrightarrow> rx_run (seqs []) prev s g k = Some x"
  by (simp add: last_char_def)

lemma rx_cons: "rx_run r prev s g (\<lambda>prev' s' g'. rx_run (seqs rs) prev' s' g' k) = Some x \<Longrightarrow> rx_run (seqs (r # rs)) prev s g k = Some x"
  by simp

lemma rx_run_append: "rx_run (seqs (as @ bs)) prev s g k = rx_run (seqs as) prev s g (\<lambda>prev' s' g'. rx_run (seqs bs) prev' s' g' k)"
  by (induction as arbitrary: prev s g) (simp_all add: last_char_def)

lemma rx_append: "rx_run (seqs as) prev s g (\<lambda>prev' s' g'. rx_run (seqs bs) prev' s' g' k) = Some x \<Longrightarrow>
    rx_run (seqs (as @ bs)) prev s g k = Some x"
  by (simp add: rx_run_append)

lemma is_field_nat_str: "is_field is_digit (nat_str n)"
  using nat_str_digits [of n] by (simp add: is_field_def list_all_iff)

lemma space_field: "is_field is_space '' ''"
  by (simp add: is_field_def is_space_def)

lemma rx_sshd_prefix:
  assumes "case rest of [] \<Rightarrow> True | c # _ \<Rightarrow> \<not> is_space c" "k (Some (CHR '' '')) rest g = Some x"
  shows "rx_run (seqs sshd_prefix) prev (''sshd'' @ ''['' @ nat_str pid @ '']'' @ '':'' @ '' '' @ rest) g k = Some x"
proof -
  have skip: "rx_run (Lit ''-session'') p (''['' @ s) g k = None" for p s g and k :: "char option \<Rightarrow> string \<Rightarrow> groups \<Rightarrow> 'a option"
    by simp
  have pid: "rx_run (Opt (seqs [Lit ''['', digits, Lit '']''])) p (''['' @ nat_str pid @ '']'' @ s) g k = Some x"
    if "k (Some (CHR '']'')) s g = Some x" for p s g and k :: "char option \<Rightarrow> string \<Rightarrow> groups \<Rightarrow> 'a option"
    unfolding digits_def
    by (intro rx_opt rx_cons rx_nil rx_lit rx_field is_field_nat_str) (use that in \<open>simp_all add: is_digit_def last_char_def\<close>)
  show ?thesis
    unfolding sshd_prefix_def spaces_def
    by (intro rx_cons rx_nil rx_lit rx_opt_skip skip pid rx_field space_field) (use assms in \<open>simp_all add: last_char_def\<close>)
qed

lemma iso_login_match:
  assumes stamp: "list_all is_digit y" "length y = 4" "list_all is_digit m" "length m = 2" "list_all is_digit d" "length d = 2"
      "is_field (\<lambda>c. \<not> is_space c) t"
    and fields: "is_field (\<lambda>c. \<not> is_space c) host" "is_field (\<lambda>c. \<not> is_space c) auth" "is_field is_user_char user" "is_field is_ip_char ip"
    and rest: "case rest of [] \<Rightarrow> True | c # _ \<Rightarrow> \<not> is_digit c"
  shows "rx_match ISO_SSH_ACCEPTED_RE (login_line (iso_stamp y m d t) host pid auth user ip port rest) =
    Some [(''occurred_at'', iso_stamp y m d t), (''host'', host), (''method'', auth), (''user'', user), (''source_ip'', ip), (''port'', nat_str port)]"
proof -
  have chars: "\<not> is_user_char (CHR '' '')" "\<not> is_ip_char (CHR '' '')" "is_space (CHR '' '')"
    "\<not> is_space (CHR ''s'')" "\<not> is_space (CHR ''A'')" "\<not> is_space (CHR ''f'')" "\<not> is_space (CHR ''p'')" by code_simp+
  have user: "is_user_char c \<Longrightarrow> \<not> is_space c" "is_ip_char c \<Longrightarrow> \<not> is_space c" "is_digit c \<Longrightarrow> \<not> is_space c" for c
    by (auto simp: is_user_char_def is_ip_char_def is_word_def is_space_def is_digit_def Let_def)
  have start: "case u @ s of [] \<Rightarrow> True | c # _ \<Rightarrow> \<not> is_space c" if "is_field P u" "\<And>c. P c \<Longrightarrow> \<not> is_space c" for P u s
    using that by (cases u) (auto simp: is_field_def)
  note starts = start [OF fields(1)] start [OF fields(2)] start [OF fields(3) user(1)] start [OF fields(4) user(2)]
    start [OF is_field_nat_str user(3)]
  show ?thesis
    unfolding rx_match_def ISO_SSH_ACCEPTED_RE_def login_line_def iso_stamp_def accepted_tail_def
      digits_def spaces_def nonspaces_def append_assoc
    by (intro rx_append rx_cons rx_nil rx_grp rx_lit rx_sshd_prefix rx_field rx_digits)
      (use assms is_field_nat_str space_field in \<open>simp_all add: chars starts take_Cons'\<close>)
qed

text \<open>
  Administrative logins are recognised. For every line \<open>sshd\<close> writes on an accepted login, with an ISO time
  stamp, the parser reports the login of a privileged user with exactly the user, address, method and port
  of the line, and reports nothing for a user without privileges; the state of the ingestor does not change.
\<close>

theorem ssh_login_recognised:
  assumes stamp: "list_all is_digit y" "length y = 4" "list_all is_digit m" "length m = 2" "list_all is_digit d" "length d = 2"
      "is_field (\<lambda>c. \<not> is_space c) t"
    and fields: "is_field (\<lambda>c. \<not> is_space c) host" "is_field (\<lambda>c. \<not> is_space c) auth" "is_field is_user_char user" "is_field is_ip_char ip"
    and rest: "case rest of [] \<Rightarrow> True | c # _ \<Rightarrow> \<not> is_digit c"
    and time: "dt_reformat D (iso_stamp y m d t) = Inr occurred"
  shows "\<exists>found. parse_line tr D w off (login_line (iso_stamp y m d t) host pid auth user ip port rest) a = (Inr found, a) \<and>
    (found = None \<longleftrightarrow> privilege_scope w a user = None) \<and>
    (\<forall>p. found = Some p \<longrightarrow> jget p ''event_kind'' = JStr ''admin_ssh_login_success'' \<and> jget p ''principal'' = JStr user \<and>
      jget p ''source_ip'' = JStr ip \<and> jget p ''occurred_at'' = JStr occurred \<and>
      (\<exists>context. jget p ''context'' = JObj context \<and> jget context ''ssh_auth_method'' = JStr auth \<and> jget context ''ssh_port'' = JInt (int port)))"
proof -
  let ?g = "[(''occurred_at'', iso_stamp y m d t), (''host'', host), (''method'', auth), (''user'', user), (''source_ip'', ip), (''port'', nat_str port)]"
  have acc: "ssh_accepted (login_line (iso_stamp y m d t) host pid auth user ip port rest) = Some (?g, True)"
    using iso_login_match [OF stamp fields rest] by (simp add: ssh_accepted_def)
  have grp: "group ?g ''user'' = user" "group ?g ''source_ip'' = ip" "group ?g ''method'' = auth" "group ?g ''port'' = nat_str port"
    "group ?g ''occurred_at'' = iso_stamp y m d t" by (simp_all add: group_def dict_get_def)
  show ?thesis
    by (cases "privilege_scope w a user")
      (simp_all add: parse_line_def acc grp parse_timestamp_def time login_payload_def jget_def dict_get_def Let_def)
qed

definition plain_calendar :: datetime_lib where
  "plain_calendar = \<lparr>dt_utc_iso = (\<lambda>_. []), dt_local_iso = (\<lambda>_. []), dt_reformat = Inr, dt_year = (\<lambda>_. 2024),
     dt_strptime = (\<lambda>_. Inr 0), dt_replace_year = (\<lambda>t _. Inr t)\<rparr>"

definition demo_ingestor :: auth_ingestor where
  "demo_ingestor = ingestor_init demo_lib \<lparr>li_enabled = True, li_source_type = ''auth_log_file'', li_auth_log_path = Some ''/var/log/auth.log'',
     li_poll_interval_sec = 2, li_host_id = None, li_admin_users = [''alice''], li_privileged_groups = [], li_state_path = None\<rparr> ''n1'' None None"

definition log_world :: "string \<Rightarrow> ingest_world" where
  "log_world content = \<lparr>iw_clock = (\<lambda>i. 1000 + of_nat i), iw_exists = True, iw_inode = 7, iw_size = int (length content), iw_content = content,
     iw_user_gid = (\<lambda>_. None), iw_group = (\<lambda>_. None)\<rparr>"

theorem ssh_login_recognised_witness:
  "\<exists>p. fst (parse_line (\<lambda>_. []) plain_calendar (log_world []) 0
      (login_line (iso_stamp ''2024'' ''05'' ''01'' ''10:00:00'') ''srv'' 812 ''publickey'' ''alice'' ''10.0.0.7'' 50122 '' ssh2'') demo_ingestor) = Inr (Some p) \<and>
    jget p ''principal'' = JStr ''alice''"
proof -
  have scope: "privilege_scope (log_world []) demo_ingestor ''alice'' \<noteq> None" by code_simp
  have f: "is_field (\<lambda>c. \<not> is_space c) ''10:00:00''" "is_field (\<lambda>c. \<not> is_space c) ''srv''" "is_field (\<lambda>c. \<not> is_space c) ''publickey''"
    "is_field is_user_char ''alice''" "is_field is_ip_char ''10.0.0.7''" by code_simp+
  have d: "list_all is_digit ''2024''" "list_all is_digit ''05''" "list_all is_digit ''01''" "\<not> is_digit (CHR '' '')" by code_simp+
  have "dt_reformat plain_calendar (iso_stamp ''2024'' ''05'' ''01'' ''10:00:00'') = Inr (iso_stamp ''2024'' ''05'' ''01'' ''10:00:00'')"
    by (simp add: plain_calendar_def)
  then have "\<exists>found. parse_line (\<lambda>_. []) plain_calendar (log_world []) 0
      (login_line (iso_stamp ''2024'' ''05'' ''01'' ''10:00:00'') ''srv'' 812 ''publickey'' ''alice'' ''10.0.0.7'' 50122 '' ssh2'') demo_ingestor =
        (Inr found, demo_ingestor) \<and>
      (found = None \<longleftrightarrow> privilege_scope (log_world []) demo_ingestor ''alice'' = None) \<and>
      (\<forall>p. found = Some p \<longrightarrow> jget p ''event_kind'' = JStr ''admin_ssh_login_success'' \<and> jget p ''principal'' = JStr ''alice'' \<and>
        jget p ''source_ip'' = JStr ''10.0.0.7'' \<and> jget p ''occurred_at'' = JStr (iso_stamp ''2024'' ''05'' ''01'' ''10:00:00'') \<and>
        (\<exists>context. jget p ''context'' = JObj context \<and> jget context ''ssh_auth_method'' = JStr ''publickey'' \<and> jget context ''ssh_port'' = JInt (int 50122)))"
    by (intro ssh_login_recognised d(1,2,3) f) (simp_all add: d(4))
  with scope show ?thesis by force
qed

section \<open>Every line is read once\<close>

definition lines_read :: "ingest_world \<Rightarrow> auth_ingestor \<Rightarrow> (nat \<times> string) list" where
  "lines_read w a = (case start_offset w (ai_state a) of Inl _ \<Rightarrow> [] | Inr offset \<Rightarrow> read_lines offset (drop offset (iw_content w)))"

definition newline :: char where "newline = char_of (10 :: nat)"

lemma next_line_append:
  "s \<noteq> [] \<Longrightarrow> last s = newline \<Longrightarrow> next_line (s @ t) = next_line s \<and> snd (next_line s) \<le> length s \<and>
     (snd (next_line s) < length s \<longrightarrow> last (drop (snd (next_line s)) s) = newline)"
proof (induction s)
  case (Cons c cs)
  consider (lf) "(of_char c :: nat) = 10" | (cr) "(of_char c :: nat) = 13" | (other) "(of_char c :: nat) \<noteq> 10" "(of_char c :: nat) \<noteq> 13" by blast
  then show ?case
  proof cases
    case lf
    with Cons.prems show ?thesis by (cases cs) auto
  next
    case cr
    then have "cs \<noteq> []" using Cons.prems by (auto simp: newline_def)
    then obtain d ds where cs: "cs = d # ds" by (cases cs) auto
    with Cons.prems cr show ?thesis by (cases ds) auto
  next
    case other
    then have "cs \<noteq> []" using Cons.prems by (auto simp: newline_def)
    with Cons.IH Cons.prems other show ?thesis by (simp add: split_beta)
  qed
qed simp

lemma next_line_plain:
  "list_all (\<lambda>c. (of_char c :: nat) \<notin> {10, 13}) l \<Longrightarrow> next_line (l @ newline # rest) = (l, Suc (length l))"
  by (induction l) (auto simp: newline_def)

lemma last_drop_newline: "s = [] \<or> last s = newline \<Longrightarrow> drop n s = [] \<or> last (drop n s) = newline"
  by (metis drop_all last_drop not_le drop_Nil)

lemma read_lines_append:
  "s = [] \<or> last s = newline \<Longrightarrow> read_lines off (s @ t) = read_lines off s @ read_lines (off + length s) t"
proof (induction off s rule: read_lines.induct)
  case (1 off s)
  show ?case
  proof (cases "s = []")
    case False
    with "1.prems" have nl: "next_line (s @ t) = next_line s" "snd (next_line s) \<le> length s"
      "snd (next_line s) < length s \<longrightarrow> last (drop (snd (next_line s)) s) = newline" using next_line_append by blast+
    let ?n = "snd (next_line s)"
    have "read_lines (off + ?n) (drop ?n s @ t) = read_lines (off + ?n) (drop ?n s) @ read_lines (off + ?n + length (drop ?n s)) t"
      by (rule "1.IH" [OF False last_drop_newline]) (rule "1.prems")
    with False nl(1,2) show ?thesis by (simp add: read_lines.simps [of off])
  qed (simp add: read_lines.simps [of _ "[]"])
qed

lemma ingest_poll_state:
  assumes "ingest_poll L tr D w a = (Inr records, a')"
  shows "\<exists>offset. start_offset w (ai_state a) = Inr offset \<and>
    ai_state a' = JObj [(''inode'', JInt (iw_inode w)), (''offset'', JInt (int (max offset (length (iw_content w)))))]"
proof -
  from assms obtain offset where "start_offset w (ai_state a) = Inr offset"
    by (auto simp: ingest_poll_def op_simps split: if_splits sum.splits)
  with assms show ?thesis
    by (auto simp: ingest_poll_def op_simps save_state_def split: if_splits sum.splits option.splits)
qed



section \<open>A line that raises\<close>

definition ingest_le :: "auth_ingestor \<Rightarrow> auth_ingestor \<Rightarrow> bool" where
  "ingest_le a a' \<longleftrightarrow> ai_state a' = ai_state a \<and> ai_state_file a' = ai_state_file a \<and> ai_admin_users a' = ai_admin_users a \<and>
     ai_privileged_groups a' = ai_privileged_groups a"

lemma ingest_le_line: "ingest_le a (snd (parse_line tr D w off line a))"
  by (simp add: ingest_le_def parse_line_def parse_other_def failed_login_def Let_def split: option.split prod.split)

lemma ingest_le_lines: "ingest_le a (snd (op_each (\<lambda>(off, line). parse_line tr D w off line) ls a))"
  by (rule op_each_rel [where R = ingest_le]) (auto simp: ingest_le_line split_beta, auto simp: ingest_le_def)

lemma privilege_scope_le: "ingest_le a a' \<Longrightarrow> privilege_scope w a' = privilege_scope w a"
  by (simp add: fun_eq_iff ingest_le_def privilege_scope_def principal_in_privileged_group_def cong: option.case_cong)

lemma lines_raise:
  assumes "(off, line) \<in> set ls" "ssh_accepted line = Some (g, True)" "privilege_scope w a (group g ''user'') \<noteq> None"
    "dt_reformat D (group g ''occurred_at'') = Inl e"
  shows "\<exists>e'. fst (op_each (\<lambda>(off, line). parse_line tr D w off line) ls a) = Inl e'"
  using assms(1,3)
proof (induction ls arbitrary: a)
  case (Cons l ls)
  obtain r a1 where one: "(\<lambda>(off, line). parse_line tr D w off line) l a = (r, a1)" by fastforce
  have "ingest_le a a1" using ingest_le_line [of a tr D w "fst l" "snd l"] one by (simp add: split_beta)
  then have scope: "privilege_scope w a1 (group g ''user'') \<noteq> None" using Cons.prems(2) by (simp add: privilege_scope_le)
  show ?case
  proof (cases "l = (off, line)")
    case True
    with one assms(2,4) Cons.prems(2) have "r = Inl e" by (auto simp: parse_line_def parse_timestamp_def)
    with one show ?thesis by (simp add: op_simps)
  next
    case False
    with Cons.prems(1) have "(off, line) \<in> set ls" by simp
    from Cons.IH [OF this scope] one show ?thesis by (cases r) (auto simp: op_simps)
  qed
qed simp

text \<open>
  One accepted-login line of a privileged user whose date the calendar refuses stops the ingestion for good:
  the poll that meets it raises and keeps its old position in the log, and so does every later poll of the same
  log, however it grows; no event of the log is delivered any more.
\<close>

theorem bad_date_blocks_ingestion:
  assumes found: "iw_exists w" "(off, line) \<in> set (lines_read w a)" "ssh_accepted line = Some (g, True)"
      "privilege_scope w a (group g ''user'') \<noteq> None" "dt_reformat D (group g ''occurred_at'') = Inl e"
    and whole: "iw_content w = [] \<or> last (iw_content w) = newline" and start: "start_offset w (ai_state a) = Inr offset" "offset \<le> length (iw_content w)"
    and later: "iw_exists w'" "iw_content w' = iw_content w @ added" "start_offset w' (ai_state a) = Inr offset"
      "privilege_scope w' a (group g ''user'') \<noteq> None"
  shows "\<exists>e1 a1. ingest_poll L tr D w a = (Inl e1, a1) \<and> ai_state a1 = ai_state a \<and> (\<exists>e2. fst (ingest_poll L tr D w' a1) = Inl e2)"
proof -
  have fails: "\<exists>e1 a1. ingest_poll L tr D v b = (Inl e1, a1) \<and> ingest_le b a1"
    if b: "iw_exists v" "start_offset v (ai_state b) = Inr offset" "(off, line) \<in> set (read_lines offset (drop offset (iw_content v)))"
      "privilege_scope v b (group g ''user'') \<noteq> None" for v b
  proof -
    let ?run = "op_each (\<lambda>(off, line). parse_line tr D v off line) (read_lines offset (drop offset (iw_content v))) b"
    obtain e' where e': "fst ?run = Inl e'" using lines_raise [OF b(3) found(3) b(4) found(5)] by blast
    have "ingest_poll L tr D v b = (Inl e', snd ?run)" using b(1,2) e' by (simp add: ingest_poll_def op_simps)
    with ingest_le_lines show ?thesis by blast
  qed
  have here: "(off, line) \<in> set (read_lines offset (drop offset (iw_content w)))" using found(2) start(1) by (simp add: lines_read_def)
  then obtain e1 a1 where one: "ingest_poll L tr D w a = (Inl e1, a1)" "ingest_le a a1" using fails found(1,4) start(1) by blast
  have "read_lines offset (drop offset (iw_content w')) =
      read_lines offset (drop offset (iw_content w)) @ read_lines (offset + length (drop offset (iw_content w))) added"
    using read_lines_append [OF last_drop_newline [OF whole], of offset offset added] start(2) later(2) by simp
  with here have "(off, line) \<in> set (read_lines offset (drop offset (iw_content w')))" by simp
  with fails [of w' a1] later one(2) privilege_scope_le [OF one(2)] show ?thesis
    using one(1) by (fastforce simp: ingest_le_def)
qed

definition bad_line :: string where
  "bad_line = login_line (iso_stamp ''2024'' ''13'' ''45'' ''10:00:00'') ''srv'' 812 ''password'' ''root'' ''10.0.0.7'' 50122 []"

definition strict_calendar :: datetime_lib where
  "strict_calendar = plain_calendar\<lparr>dt_reformat := (\<lambda>_. Inl (ValueError ''month must be in 1..12''))\<rparr>"

theorem bad_date_blocks_ingestion_witness:
  "\<exists>e1 a1. ingest_poll demo_lib (\<lambda>_. []) strict_calendar (log_world (bad_line @ [newline])) demo_ingestor = (Inl e1, a1) \<and>
     (\<exists>e2. fst (ingest_poll demo_lib (\<lambda>_. []) strict_calendar (log_world (bad_line @ [newline] @ ''more'' @ [newline])) a1) = Inl e2)"
proof -
  let ?w = "log_world (bad_line @ [newline])" and ?w' = "log_world (bad_line @ [newline] @ ''more'' @ [newline])"
  let ?g = "[(''occurred_at'', iso_stamp ''2024'' ''13'' ''45'' ''10:00:00''), (''host'', ''srv''), (''method'', ''password''),
    (''user'', ''root''), (''source_ip'', ''10.0.0.7''), (''port'', nat_str 50122)]"
  have f: "is_field (\<lambda>c. \<not> is_space c) ''10:00:00''" "is_field (\<lambda>c. \<not> is_space c) ''srv''" "is_field (\<lambda>c. \<not> is_space c) ''password''"
    "is_field is_user_char ''root''" "is_field is_ip_char ''10.0.0.7''" by code_simp+
  have d: "list_all is_digit ''2024''" "list_all is_digit ''13''" "list_all is_digit ''45''" by code_simp+
  have acc: "ssh_accepted bad_line = Some (?g, True)"
    using iso_login_match [OF d(1) _ d(2) _ d(3) _ f, of "[]" 812 50122] by (simp add: ssh_accepted_def bad_line_def)
  have "ai_state demo_ingestor = default_state" by code_simp
  then have start: "start_offset (log_world c) (ai_state demo_ingestor) = Inr 0" for c
    by (simp add: start_offset_def state_int_def dict_get_def log_world_def default_state_def)
  have "list_all (\<lambda>c. (of_char c :: nat) \<notin> {10, 13}) (nat_str n)" for n using nat_str_digits [of n] by (auto simp: list_all_iff is_digit_def)
  then have "list_all (\<lambda>c. (of_char c :: nat) \<notin> {10, 13}) bad_line" by (simp add: bad_line_def login_line_def iso_stamp_def)
  from next_line_plain [OF this, of "[]"] have lines: "(0, bad_line) \<in> set (lines_read ?w demo_ingestor)"
    using start [of "bad_line @ [newline]"] by (simp add: lines_read_def read_lines.simps [of 0] log_world_def)
  have scope: "privilege_scope v a (group ?g ''user'') \<noteq> None" for v a by (simp add: group_def dict_get_def privilege_scope_def)
  have "\<exists>e1 a1. ingest_poll demo_lib (\<lambda>_. []) strict_calendar ?w demo_ingestor = (Inl e1, a1) \<and> ai_state a1 = ai_state demo_ingestor \<and>
      (\<exists>e2. fst (ingest_poll demo_lib (\<lambda>_. []) strict_calendar ?w' a1) = Inl e2)"
    by (rule bad_date_blocks_ingestion [OF _ lines acc scope _ _ start _ _ _ start scope, where added = "''more'' @ [newline]"])
      (simp_all add: log_world_def strict_calendar_def)
  then show ?thesis by blast
qed

end
