(* ===== verification/LoginBursts.thy ===== *)
theory LoginBursts
  imports LinuxIngest
begin

text \<open>
  What the sliding windows of \<open>LinuxAuthLogIngestor\<close> report for a sequence of failed logins, given as addresses with
  the times at which the lines are read.
\<close>

section \<open>Bursts of failed logins\<close>

definition burst_step :: "(string \<times> timestamp \<times> nat) list \<times> auth_ingestor \<Rightarrow> string \<times> timestamp \<Rightarrow> (string \<times> timestamp \<times> nat) list \<times> auth_ingestor" where
  "burst_step = (\<lambda>(bs, a) (ip, t). case failed_login ip t a of
     (None, a1) \<Rightarrow> (bs, a1) | (Some n, a1) \<Rightarrow> (bs @ [(ip, t, n)], a1))"

definition failures :: "(string \<times> timestamp) list \<Rightarrow> auth_ingestor \<Rightarrow> (string \<times> timestamp \<times> nat) list \<times> auth_ingestor" where
  "failures xs a = foldl burst_step ([], a) xs"

definition failure_times :: "string \<Rightarrow> (string \<times> timestamp) list \<Rightarrow> timestamp list" where
  "failure_times ip xs = map snd (filter (\<lambda>(j, _). j = ip) xs)"

abbreviation window_of :: "auth_ingestor \<Rightarrow> string \<Rightarrow> timestamp list" where
  "window_of a ip \<equiv> dict_get (ai_failed_window a) ip []"

abbreviation last_burst :: "auth_ingestor \<Rightarrow> string \<Rightarrow> timestamp" where
  "last_burst a ip \<equiv> dict_get (ai_failed_burst_emitted_at a) ip 0"

lemma failure_times_snoc: "failure_times ip (xs @ [(j, t)]) = failure_times ip xs @ (if j = ip then [t] else [])"
  by (simp add: failure_times_def)

lemma failed_login_spec:
  fixes ip t a
  defines "w \<equiv> filter (\<lambda>t'. t - 120 \<le> t') (window_of a ip @ [t])"
  defines "burst \<equiv> 5 \<le> length w \<and> 120 \<le> t - last_burst a ip"
  shows "fst (failed_login ip t a) = (if burst then Some (length w) else None)"
    and "window_of (snd (failed_login ip t a)) j = (if j = ip then if burst then [] else w else window_of a j)"
    and "last_burst (snd (failed_login ip t a)) j = (if j = ip \<and> burst then t else last_burst a j)"
  by (auto simp: failed_login_def Let_def dict_get_def w_def burst_def failed_burst_threshold_def failed_burst_window_sec_def)

text \<open>What holds after the failures \<open>xs\<close>, in order of time.\<close>

definition burst_inv :: "(string \<times> timestamp) list \<Rightarrow> (string \<times> timestamp \<times> nat) list \<times> auth_ingestor \<Rightarrow> bool" where
  "burst_inv xs = (\<lambda>(bs, a).
     (\<forall>ip. last_burst a ip = 0 \<or> (\<exists>n. (ip, last_burst a ip, n) \<in> set bs)) \<and>
     (\<forall>ip e n. (ip, e, n) \<in> set bs \<longrightarrow> e \<le> last_burst a ip) \<and>
     sorted_wrt (\<lambda>(i, e, _) (j, f, _). i = j \<longrightarrow> 120 \<le> f - e) bs \<and>
     (\<forall>ip e n. (ip, e, n) \<in> set bs \<longrightarrow> 5 \<le> n \<and> n \<le> length (filter (\<lambda>t. e - 120 \<le> t \<and> t \<le> e) (failure_times ip xs)) \<and> e \<in> set (failure_times ip xs)) \<and>
     (\<forall>ip c. length (filter ((\<le>) c) (window_of a ip)) \<le> length (filter ((\<le>) c) (failure_times ip xs))) \<and>
     (\<forall>ip c. (\<forall>x \<in> set xs. snd x - 120 \<le> c) \<longrightarrow>
        length (filter (\<lambda>t. c < t \<and> last_burst a ip < t) (failure_times ip xs)) \<le> length (filter ((<) c) (window_of a ip))))"

lemma filter_filter_le: "length (filter P (filter Q xs)) \<le> length (filter P xs)"
  by (induction xs) auto

lemma burst_inv_step:
  assumes inv: "burst_inv xs (bs, a)" and late: "\<forall>x \<in> set xs. snd x \<le> t"
  shows "burst_inv (xs @ [(ip, t)]) (burst_step (bs, a) (ip, t))"
proof -
  define w where "w = filter (\<lambda>t'. t - 120 \<le> t') (window_of a ip @ [t])"
  define burst where "burst = (5 \<le> length w \<and> 120 \<le> t - last_burst a ip)"
  obtain r a1 where step: "failed_login ip t a = (r, a1)" by fastforce
  have r: "r = (if burst then Some (length w) else None)"
    and win: "\<And>j. window_of a1 j = (if j = ip then if burst then [] else w else window_of a j)"
    and lst: "\<And>j. last_burst a1 j = (if j = ip \<and> burst then t else last_burst a j)"
    using failed_login_spec [where ip = ip and t = t and a = a] step by (simp_all add: w_def burst_def)
  have run: "burst_step (bs, a) (ip, t) = (bs @ (if burst then [(ip, t, length w)] else []), a1)"
    by (simp add: burst_step_def step r)
  have I: "\<And>ip. last_burst a ip = 0 \<or> (\<exists>n. (ip, last_burst a ip, n) \<in> set bs)"
    "\<And>ip e n. (ip, e, n) \<in> set bs \<Longrightarrow> e \<le> last_burst a ip"
    "sorted_wrt (\<lambda>(i, e, _) (j, f, _). i = j \<longrightarrow> 120 \<le> f - e) bs"
    "\<And>ip e n. (ip, e, n) \<in> set bs \<Longrightarrow> 5 \<le> n \<and> n \<le> length (filter (\<lambda>t. e - 120 \<le> t \<and> t \<le> e) (failure_times ip xs)) \<and> e \<in> set (failure_times ip xs)"
    "\<And>ip c. length (filter ((\<le>) c) (window_of a ip)) \<le> length (filter ((\<le>) c) (failure_times ip xs))"
    "\<And>ip c. (\<forall>x \<in> set xs. snd x - 120 \<le> c) \<Longrightarrow>
        length (filter (\<lambda>t. c < t \<and> last_burst a ip < t) (failure_times ip xs)) \<le> length (filter ((<) c) (window_of a ip))"
    using inv unfolding burst_inv_def split_conv by blast+
  have "filter (\<lambda>t'. t - 120 \<le> t' \<and> t' \<le> t) (failure_times ip xs) = filter (\<lambda>t'. t - 120 \<le> t') (failure_times ip xs)"
    using late by (intro filter_cong) (auto simp: failure_times_def)
  then have wlen: "length w \<le> length (filter (\<lambda>t'. t - 120 \<le> t' \<and> t' \<le> t) (failure_times ip xs @ [t]))"
    using I(5) [of "t - 120" ip] by (simp add: w_def)
  have "sorted_wrt (\<lambda>(i, e, _) (j, f, _). i = j \<longrightarrow> 120 \<le> f - e) (bs @ (if burst then [(ip, t, length w)] else []))"
    using I(2,3) by (fastforce simp: sorted_wrt_append burst_def)
  moreover have "5 \<le> n \<and> n \<le> length (filter (\<lambda>t. e - 120 \<le> t \<and> t \<le> e) (failure_times j (xs @ [(ip, t)]))) \<and> e \<in> set (failure_times j (xs @ [(ip, t)]))"
    if "(j, e, n) \<in> set (bs @ (if burst then [(ip, t, length w)] else []))" for j e n
    using that I(4) [of j e n] wlen by (auto simp: failure_times_snoc burst_def split: if_splits)
  moreover have "length (filter ((\<le>) c) (window_of a1 j)) \<le> length (filter ((\<le>) c) (failure_times j (xs @ [(ip, t)])))" for j c
  proof -
    have "length (filter ((\<le>) c) w) \<le> length (filter ((\<le>) c) (window_of a ip @ [t]))"
      unfolding w_def by (rule filter_filter_le)
    with I(5) [of c j] I(5) [of c ip] show ?thesis by (auto simp: win failure_times_snoc)
  qed
  moreover have "length (filter (\<lambda>t'. c < t' \<and> last_burst a1 j < t') (failure_times j (xs @ [(ip, t)]))) \<le> length (filter ((<) c) (window_of a1 j))"
    if c: "\<forall>x \<in> set (xs @ [(ip, t)]). snd x - 120 \<le> c" for j c
  proof (cases "j = ip")
    case False
    with I(6) [of c j] c show ?thesis by (simp add: win lst failure_times_snoc)
  next
    case True
    show ?thesis
    proof (cases burst)
      case True
      have "filter (\<lambda>t'. c < t' \<and> t < t') (failure_times ip xs) = []"
        using late by (auto simp: filter_empty_conv failure_times_def)
      then show ?thesis using True \<open>j = ip\<close> by (simp add: win lst failure_times_snoc)
    next
      case False
      have "filter ((<) c) w = filter ((<) c) (window_of a ip @ [t])"
        unfolding w_def filter_filter using c by (intro filter_cong) auto
      with I(6) [of c ip] c False \<open>j = ip\<close> show ?thesis by (auto simp: win lst failure_times_snoc)
    qed
  qed
  moreover have "last_burst a1 j = 0 \<or> (\<exists>n. (j, last_burst a1 j, n) \<in> set (bs @ (if burst then [(ip, t, length w)] else [])))" for j
    using I(1) [of j] by (auto simp: lst)
  moreover have "e \<le> last_burst a1 j" if "(j, e, n) \<in> set (bs @ (if burst then [(ip, t, length w)] else []))" for j e n
    using that I(2) [of j e n] by (auto simp: lst burst_def split: if_splits)
  ultimately show ?thesis unfolding run burst_inv_def split_conv by blast
qed

lemma failures_snoc: "failures (xs @ [x]) a = burst_step (failures xs a) x"
  by (simp add: failures_def)

lemma failures_inv:
  assumes "ai_failed_window a = []" "ai_failed_burst_emitted_at a = []" "sorted_wrt (\<lambda>x y. snd x \<le> snd y) xs"
  shows "burst_inv xs (failures xs a)"
  using assms(3)
proof (induction xs rule: rev_induct)
  case Nil
  then show ?case by (simp add: burst_inv_def failures_def failure_times_def dict_get_def assms)
next
  case (snoc x xs)
  obtain bs b where run: "failures xs a = (bs, b)" by fastforce
  obtain ip t where x: "x = (ip, t)" by fastforce
  from snoc have "burst_inv xs (bs, b)" "\<forall>y \<in> set xs. snd y \<le> t" by (auto simp: sorted_wrt_append x run)
  from burst_inv_step [OF this, of ip] show ?case by (simp add: failures_snoc run x)
qed

lemma failures_mono: "set (fst (failures xs a)) \<subseteq> set (fst (failures (xs @ ys) a))"
proof (induction ys rule: rev_induct)
  case (snoc y ys)
  have "set (fst p) \<subseteq> set (fst (burst_step p y))" for p
    by (auto simp: burst_step_def split: prod.splits option.splits)
  then show ?case using snoc failures_snoc [of "xs @ ys" y a] by fastforce
qed simp

lemma burst_reported:
  assumes inv: "burst_inv ys (failures ys a)" and late: "\<forall>x \<in> set ys. snd x \<le> t" and t: "120 \<le> t"
    and many: "5 \<le> length (filter (\<lambda>t'. t - 120 < t') (failure_times ip (ys @ [(ip, t)])))"
  shows "\<exists>e n. (ip, e, n) \<in> set (fst (failures (ys @ [(ip, t)]) a)) \<and> t - 120 < e \<and> e \<le> t"
proof -
  obtain bs b where run: "failures ys a = (bs, b)" by fastforce
  define w where "w = filter (\<lambda>t'. t - 120 \<le> t') (window_of b ip @ [t])"
  have I: "last_burst b ip = 0 \<or> (\<exists>n. (ip, last_burst b ip, n) \<in> set bs)"
    "(\<forall>x \<in> set ys. snd x - 120 \<le> t - 120) \<Longrightarrow>
        length (filter (\<lambda>t'. t - 120 < t' \<and> last_burst b ip < t') (failure_times ip ys)) \<le> length (filter ((<) (t - 120)) (window_of b ip))"
    "\<And>e n. (ip, e, n) \<in> set bs \<Longrightarrow> 5 \<le> n \<and> n \<le> length (filter (\<lambda>t. e - 120 \<le> t \<and> t \<le> e) (failure_times ip ys)) \<and> e \<in> set (failure_times ip ys)"
    using inv unfolding burst_inv_def run split_conv by blast+
  show ?thesis
  proof (cases "t - last_burst b ip < 120")
    case True
    with t I(1) obtain n where n: "(ip, last_burst b ip, n) \<in> set bs" by auto
    with I(3) have "last_burst b ip \<in> set (failure_times ip ys)" by blast
    then have "last_burst b ip \<le> t" using late by (auto simp: failure_times_def)
    with n True failures_mono [of ys a "[(ip, t)]"] show ?thesis by (auto simp: run intro!: exI)
  next
    case False
    have "length (filter (\<lambda>t'. t - 120 < t') (failure_times ip ys)) =
        length (filter (\<lambda>t'. t - 120 < t' \<and> last_burst b ip < t') (failure_times ip ys))"
      using False by (intro arg_cong [where f = length] filter_cong) auto
    also have "\<dots> \<le> length (filter ((<) (t - 120)) (window_of b ip))" using I(2) late by simp
    also have "\<dots> \<le> length (filter (\<lambda>t'. t - 120 \<le> t') (window_of b ip))"
      using filter_filter_le [of "\<lambda>t'. t - 120 \<le> t'" "(<) (t - 120)" "window_of b ip"] by (auto simp: less_imp_le conj_absorb cong: conj_cong)
    finally have "5 \<le> length w" using many by (simp add: w_def failure_times_snoc)
    with False failed_login_spec(1) [of ip t b] have "fst (failed_login ip t b) = Some (length w)" by (simp add: w_def)
    then have "(ip, t, length w) \<in> set (fst (failures (ys @ [(ip, t)]) a))"
      by (auto simp: failures_snoc run burst_step_def split: prod.split option.split)
    then show ?thesis by (intro exI conjI) auto
  qed
qed

text \<open>
  C38: bursts of failed logins are reported, and not repeated. For any sequence of failed logins in order of time,
  every burst reported for an address rests on at least five failures of that address in the two minutes before
  it, two bursts of one address lie at least two minutes apart, and whenever an address has failed five times
  within two minutes, a burst has been reported for it within those two minutes.
\<close>

theorem failed_login_bursts:
  assumes fresh: "ai_failed_window a = []" "ai_failed_burst_emitted_at a = []"
    and order: "sorted_wrt (\<lambda>x y. snd x \<le> snd y) xs" and epoch: "\<forall>x \<in> set xs. 120 \<le> snd x"
  shows "(\<forall>ip e n. (ip, e, n) \<in> set (fst (failures xs a)) \<longrightarrow> 5 \<le> n \<and> n \<le> length (filter (\<lambda>t. e - 120 \<le> t \<and> t \<le> e) (failure_times ip xs))) \<and>
    sorted_wrt (\<lambda>(i, e, _) (j, f, _). i = j \<longrightarrow> 120 \<le> f - e) (fst (failures xs a)) \<and>
    (\<forall>ys ip t zs. xs = ys @ (ip, t) # zs \<longrightarrow> 5 \<le> length (filter (\<lambda>t'. t - 120 < t') (failure_times ip (ys @ [(ip, t)]))) \<longrightarrow>
      (\<exists>e n. (ip, e, n) \<in> set (fst (failures xs a)) \<and> t - 120 < e \<and> e \<le> t))"
proof -
  obtain bs b where run: "failures xs a = (bs, b)" by fastforce
  have inv: "burst_inv xs (bs, b)" using failures_inv [OF fresh order] run by simp
  have "\<exists>e n. (ip, e, n) \<in> set bs \<and> t - 120 < e \<and> e \<le> t"
    if xs: "xs = ys @ (ip, t) # zs" and many: "5 \<le> length (filter (\<lambda>t'. t - 120 < t') (failure_times ip (ys @ [(ip, t)])))" for ys ip t zs
  proof -
    have "sorted_wrt (\<lambda>x y. snd x \<le> snd y) ys" "\<forall>x \<in> set ys. snd x \<le> t" using order by (auto simp: xs sorted_wrt_append)
    with burst_reported [OF failures_inv [OF fresh] _ _ many] epoch xs obtain e n
      where "(ip, e, n) \<in> set (fst (failures (ys @ [(ip, t)]) a))" "t - 120 < e" "e \<le> t" by auto
    with failures_mono [of "ys @ [(ip, t)]" a zs] xs run show ?thesis by auto
  qed
  with inv show ?thesis unfolding run burst_inv_def split_conv fst_conv by blast
qed

theorem failed_login_bursts_witness:
  "\<exists>e n. (''10.0.0.7'', e, n) \<in> set (fst (failures (map (\<lambda>i. (''10.0.0.7'', 1000 + of_nat i)) [0..<5]) demo_ingestor)) \<and> 884 < e \<and> e \<le> 1004"
proof -
  let ?xs = "map (\<lambda>i. (''10.0.0.7'', 1000 + of_nat i :: rat)) [0..<5]"
  have xs: "?xs = map (\<lambda>i. (''10.0.0.7'', 1000 + of_nat i :: rat)) [0..<4] @ (''10.0.0.7'', 1004) # []" by (simp add: upt_rec)
  have five: "5 \<le> length (filter (\<lambda>t'. 1004 - 120 < t') (failure_times ''10.0.0.7''
      (map (\<lambda>i. (''10.0.0.7'', 1000 + of_nat i :: rat)) [0..<4] @ [(''10.0.0.7'', 1004)])))"
    by (simp add: failure_times_def upt_rec)
  have "ai_failed_window demo_ingestor = []" "ai_failed_burst_emitted_at demo_ingestor = []"
    by (simp_all add: demo_ingestor_def ingestor_init_def Let_def)
  moreover have "sorted_wrt (\<lambda>x y. snd x \<le> snd y) ?xs" "\<forall>x \<in> set ?xs. 120 \<le> snd x" by (auto simp: upt_rec)
  ultimately show ?thesis using failed_login_bursts [of demo_ingestor ?xs] xs five by fastforce
qed

end
