(* ===== verification/Journald.thy ===== *)
theory Journald
  imports Regex Collectors
begin

text \<open>
  \<open>mdrj/collectors/linux_journald.py\<close>: failed logins and bursts of them from the journal. The run of
  \<open>journalctl\<close> and the clock are arguments; \<open>jw_now i\<close> is the time read while the \<open>i\<close>-th line is handled.
\<close>

section \<open>State\<close>

definition FAILED_SSH_RE :: rx where
  "FAILED_SSH_RE = seqs
     [Lit ''Failed '', Alt (Lit ''password'') (Lit ''publickey''), Lit '' for '', Opt (Lit ''invalid user ''),
      Grp ''user'' nonspaces, Lit '' from '', Grp ''ip'' nonspaces]"

record journald_config =
  jc_enabled :: bool
  jc_units :: "string list"
  jc_burst_window_sec :: int
  jc_burst_threshold :: int
  jc_poll_interval_sec :: rat

record journald_collector =
  jo_base :: base_collector
  jo_config :: journald_config
  jo_journalctl :: string
  jo_failure_window :: "rat list"
  jo_last_cursor :: "json option"
  jo_last_burst_emit_at :: rat

definition journald_init :: "journald_config \<Rightarrow> string \<Rightarrow> string \<Rightarrow> string option \<Rightarrow> string option \<Rightarrow> bool \<Rightarrow> journald_collector" where
  "journald_init config node_id host_id journalctl_path which_journalctl available =
     (let b = base_init ''linux_journald'' (jc_poll_interval_sec config) node_id (str_or host_id node_id)
      in \<lparr>jo_base = (if available then b else disable_with (Some ''journalctl not available'') b), jo_config = config,
          jo_journalctl = str_or (opt_str journalctl_path) (str_or (opt_str which_journalctl) ''/usr/bin/journalctl''),
          jo_failure_window = [], jo_last_cursor = None, jo_last_burst_emit_at = 0\<rparr>)"

record journal_world =
  jw_clock :: "nat \<Rightarrow> timestamp"
  jw_now :: "nat \<Rightarrow> timestamp"
  jw_run :: "string list \<Rightarrow> run_result"
  jw_iso :: "rat \<Rightarrow> string"

section \<open>Reading the journal\<close>

definition journal_args :: "journald_collector \<Rightarrow> string list result" where
  "journal_args c =
     res_bind (case jo_last_cursor c of
         Some cursor \<Rightarrow> res_bind (as_str cursor) (\<lambda>text_read. Inr [''--after-cursor'', text_read])
       | None \<Rightarrow> Inr [''--since'', ''-'' @ int_str (rat_trunc (bc_poll_interval_sec (jo_base c) * 3)) @ ''s'']) (\<lambda>from_where.
     Inr ([jo_journalctl c, ''--output=json'', ''--no-pager'', ''-n'', ''200''] @ from_where @
       concat (map (\<lambda>unit_name. [''-u'', unit_name]) (jc_units (jo_config c)))))"

definition fetch_journal :: "journal_world \<Rightarrow> journald_collector \<Rightarrow> string + string list" where
  "fetch_journal w c =
     (case journal_args c of
        Inl _ \<Rightarrow> Inl ''TypeError''
      | Inr args \<Rightarrow>
          (case jw_run w args of
             RunFails exc \<Rightarrow> Inl exc
           | RunDone code stdout stderr \<Rightarrow>
               if code \<noteq> 0 then Inl (''RuntimeError: journalctl exit '' @ int_str code @ '': '' @ take 200 (py_strip stderr))
               else Inr (py_splitlines stdout)))"

definition journal_realtime_ts :: "timestamp \<Rightarrow> (string, json) dict \<Rightarrow> timestamp" where
  "journal_realtime_ts now record_read =
     (case jget record_read ''__REALTIME_TIMESTAMP'' of
        JNull \<Rightarrow> now
      | raw \<Rightarrow> (case py_int raw of Inl _ \<Rightarrow> now | Inr i \<Rightarrow> of_int i / 1000000))"

section \<open>Failures and bursts\<close>

definition failure_event :: "journal_world \<Rightarrow> groups \<Rightarrow> timestamp \<Rightarrow> string \<Rightarrow> collected_event" where
  "failure_event w g ts message =
     \<lparr>co_event_kind = ''admin_login_failure'',
      co_payload = [(''principal'', JStr (group g ''user'')), (''source_ip'', JStr (group g ''ip'')), (''target_service'', JStr ''sshd''),
        (''result'', JStr ''failure''), (''occurred_at'', JStr (jw_iso w ts)), (''category'', JStr ''authentication''), (''raw_line'', JStr message)]\<rparr>"

text \<open>\<open>deque(maxlen=2048).append\<close>\<close>

definition deque_append :: "rat \<Rightarrow> rat list \<Rightarrow> rat list" where
  "deque_append t window = (if length window < 2048 then window @ [t] else tl window @ [t])"

definition journal_burst_event :: "journal_world \<Rightarrow> journald_config \<Rightarrow> rat list \<Rightarrow> timestamp \<Rightarrow> collected_event" where
  "journal_burst_event w config window ts =
     \<lparr>co_event_kind = ''failed_login_burst'',
      co_payload = [(''category'', JStr ''authentication''), (''count'', JInt (int (length window))), (''window_sec'', JInt (jc_burst_window_sec config)),
        (''first_failure_at'', JStr (jw_iso w (hd window))), (''last_failure_at'', JStr (jw_iso w ts))]\<rparr>"

text \<open>With a threshold of zero or less and an empty window, \<open>self._failure_window[0]\<close> raises.\<close>

definition maybe_emit_burst :: "journal_world \<Rightarrow> timestamp \<Rightarrow> timestamp \<Rightarrow> (journald_collector, collected_event list) op" where
  "maybe_emit_burst w now ts c =
     (let cutoff = ts - of_int (jc_burst_window_sec (jo_config c));
          window = dropWhile (\<lambda>t. t < cutoff) (jo_failure_window c);
          c1 = c\<lparr>jo_failure_window := window\<rparr>
      in if int (length window) < jc_burst_threshold (jo_config c) then (Inr [], c1)
         else if now - jo_last_burst_emit_at c < of_int (jc_burst_window_sec (jo_config c)) then (Inr [], c1)
         else let c2 = c1\<lparr>jo_last_burst_emit_at := now\<rparr>
              in if window = [] then (Inl IndexError, c2) else (Inr [journal_burst_event w (jo_config c) window ts], c2))"

definition extract_events :: "journal_world \<Rightarrow> nat \<Rightarrow> string \<Rightarrow> (string, json) dict \<Rightarrow> (journald_collector, collected_event list) op" where
  "extract_events w i message record_read =
     (case rx_search FAILED_SSH_RE message of
        None \<Rightarrow> op_ret []
      | Some g \<Rightarrow>
          let ts = journal_realtime_ts (jw_now w i) record_read
          in op_bind (op_mod (\<lambda>c. c\<lparr>jo_failure_window := deque_append ts (jo_failure_window c)\<rparr>)) (\<lambda>_.
             op_bind (maybe_emit_burst w (jw_now w i) ts) (\<lambda>burst. op_ret (failure_event w g ts message # burst))))"

definition journal_line :: "pylib \<Rightarrow> journal_world \<Rightarrow> nat \<times> string \<Rightarrow> (journald_collector, collected_event list) op" where
  "journal_line L w = (\<lambda>(i, raw_line).
     case json_loads (floats L) (py_strip raw_line) of
       None \<Rightarrow> op_ret []
     | Some j \<Rightarrow>
         op_bind (op_lift (\<lambda>_. as_obj j)) (\<lambda>record_read.
         op_bind (op_mod (\<lambda>c. let cursor = jget record_read ''__CURSOR'' in if json_truthy cursor then c\<lparr>jo_last_cursor := Some cursor\<rparr> else c)) (\<lambda>_.
         op_bind (op_lift (\<lambda>_. str_or_empty L (jget record_read ''MESSAGE''))) (\<lambda>message.
         extract_events w i message record_read))))"

definition journald_poll :: "pylib \<Rightarrow> journal_world \<Rightarrow> (journald_collector, collected_event list) op" where
  "journald_poll L w c =
     (let c1 = c\<lparr>jo_base := polled_at (jw_clock w 0) (jo_base c)\<rparr>
      in if \<not> base_enabled (jo_base c1) then (Inr [], c1)
         else case fetch_journal w c1 of
           Inl exc \<Rightarrow> (Inr [], c1\<lparr>jo_base := set_error (Some exc) (jo_base c1)\<rparr>)
         | Inr raw_lines \<Rightarrow>
             let c2 = c1\<lparr>jo_base := set_error None (jo_base c1)\<rparr>
             in case op_each (journal_line L w) (enumerate 0 raw_lines) c2 of
                  (Inl e, c3) \<Rightarrow> (Inl e, c3)
                | (Inr found, c3) \<Rightarrow>
                    let events = map (annotate (jo_base c3)) (concat found)
                    in (Inr events, c3\<lparr>jo_base := count_emitted (jw_clock w 1) events (jo_base c3)\<rparr>))"

section \<open>The contract\<close>

definition journal_le :: "journald_collector \<Rightarrow> journald_collector \<Rightarrow> bool" where
  "journal_le c c' \<longleftrightarrow> jo_base c' = jo_base c"

definition journal_kinds :: "string set" where
  "journal_kinds = {''admin_login_failure'', ''failed_login_burst''}"

definition plain_failure :: "collected_event \<Rightarrow> bool" where
  "plain_failure e \<longleftrightarrow> co_event_kind e \<in> journal_kinds \<and> map_of (co_payload e) ''node_id'' = None \<and> map_of (co_payload e) ''host_id'' = None"

lemma burst_base: "jo_base (snd (maybe_emit_burst w now ts c)) = jo_base c"
  by (simp add: maybe_emit_burst_def Let_def)

lemma journal_le_line: "journal_le c (snd (journal_line L w x c))"
proof -
  have "jo_base (snd (extract_events w i m r c)) = jo_base c" for i m r c
    by (auto simp: extract_events_def op_simps burst_base Let_def split: option.split sum.split)
  then show ?thesis
    by (auto simp: journal_le_def journal_line_def op_simps Let_def split: prod.split option.split sum.split)
qed

lemma burst_plain: "maybe_emit_burst w now ts c = (Inr es, c') \<Longrightarrow> e \<in> set es \<Longrightarrow> plain_failure e"
  by (auto simp: maybe_emit_burst_def Let_def plain_failure_def journal_kinds_def journal_burst_event_def split: if_splits)

lemma extract_plain: "extract_events w i m r c = (Inr es, c') \<Longrightarrow> e \<in> set es \<Longrightarrow> plain_failure e"
proof -
  assume run: "extract_events w i m r c = (Inr es, c')" and e: "e \<in> set es"
  show "plain_failure e"
  proof (cases "rx_search FAILED_SSH_RE m")
    case None
    then show ?thesis using run e by (simp add: extract_events_def op_simps)
  next
    case (Some g)
    let ?ts = "journal_realtime_ts (jw_now w i) r"
    obtain b c1 where b: "maybe_emit_burst w (jw_now w i) ?ts (c\<lparr>jo_failure_window := deque_append ?ts (jo_failure_window c)\<rparr>) = (b, c1)" by fastforce
    from run Some b obtain bs where bs: "b = Inr bs" "es = failure_event w g ?ts m # bs"
      by (cases b) (auto simp: extract_events_def op_simps Let_def)
    have "plain_failure (failure_event w g ?ts m)" by (simp add: plain_failure_def failure_event_def journal_kinds_def)
    with bs e burst_plain [OF b [unfolded bs(1)]] show ?thesis by auto
  qed
qed

lemma line_plain:
  assumes "journal_line L w x c = (Inr es, c')" "e \<in> set es"
  shows "plain_failure e"
proof -
  obtain i raw where x: "x = (i, raw)" by fastforce
  show ?thesis
  proof (cases "json_loads (floats L) (py_strip raw)")
    case None
    then show ?thesis using assms by (simp add: journal_line_def x op_simps)
  next
    case (Some j)
    with assms(1) obtain r m c1 where "extract_events w i m r c1 = (Inr es, c')"
      by (auto simp: journal_line_def x op_simps Let_def split: sum.splits if_splits)
    with extract_plain assms(2) show ?thesis by blast
  qed
qed

interpretation journald: collector "journald_poll L" jo_base journal_kinds for L
proof
  fix w :: journal_world and c :: journald_collector and events c' ev
  let ?c1 = "c\<lparr>jo_base := polled_at (jw_clock w 0) (jo_base c)\<rparr>"
  let ?c2 = "c\<lparr>jo_base := set_error None (polled_at (jw_clock w 0) (jo_base c))\<rparr>"
  have frame: "jo_base (snd (op_each (journal_line L w) ls ?c2)) = jo_base ?c2" for ls
  proof -
    have "journal_le ?c2 (snd (op_each (journal_line L w) ls ?c2))"
      by (rule op_each_rel [where R = journal_le]) (auto simp: journal_le_line, auto simp: journal_le_def)
    then show ?thesis by (simp add: journal_le_def)
  qed
  have split: "journald_poll L w c = (if \<not> base_enabled (jo_base c) then (Inr [], ?c1)
      else case fetch_journal w ?c1 of
        Inl exc \<Rightarrow> (Inr [], c\<lparr>jo_base := set_error (Some exc) (jo_base ?c1)\<rparr>)
      | Inr ls \<Rightarrow> (case fst (op_each (journal_line L w) (enumerate 0 ls) ?c2) of
          Inl e \<Rightarrow> (Inl e, snd (op_each (journal_line L w) (enumerate 0 ls) ?c2))
        | Inr found \<Rightarrow> (Inr (map (annotate (jo_base ?c2)) (concat found)),
            (snd (op_each (journal_line L w) (enumerate 0 ls) ?c2))
              \<lparr>jo_base := count_emitted (jw_clock w 1) (map (annotate (jo_base ?c2)) (concat found)) (jo_base ?c2)\<rparr>)))"
    using frame by (simp add: journald_poll_def Let_def case_prod_beta split: sum.split)
  show "same_collector (jo_base c) (jo_base (snd (journald_poll L w c)))"
    using frame by (auto simp: split same_collector_def split: sum.split)
  show "emitted (jo_base c') = emitted (jo_base c) + length events" if "journald_poll L w c = (Inr events, c')"
    using that by (auto simp: split split: sum.splits if_splits)
  show "emitted (jo_base c') = emitted (jo_base c)" if "journald_poll L w c = (Inl e, c')" for e
    using that frame by (auto simp: split split: sum.splits if_splits)
  show "fst (journald_poll L w c) = Inr []" if "\<not> base_enabled (jo_base c)"
    using that by (simp add: split)
  show "co_event_kind ev \<in> journal_kinds \<and> from_node (jo_base c) ev"
    if run: "journald_poll L w c = (Inr events, c')" and ev: "ev \<in> set events"
  proof -
    from run ev obtain ls found where "fst (op_each (journal_line L w) (enumerate 0 ls) ?c2) = Inr found"
      and e: "ev \<in> set (map (annotate (jo_base ?c2)) (concat found))" by (auto simp: split split: sum.splits if_splits)
    then have each: "op_each (journal_line L w) (enumerate 0 ls) ?c2 = (Inr found, snd (op_each (journal_line L w) (enumerate 0 ls) ?c2))"
      by (metis prod.collapse)
    from e obtain es e0 where es: "es \<in> set found" "e0 \<in> set es" "ev = annotate (jo_base ?c2) e0" by auto
    have "\<exists>x c1 c2. journal_le ?c2 c1 \<and> journal_line L w x c1 = (Inr es, c2)"
      by (rule op_each_out [where R = journal_le, OF _ _ journal_le_line each es(1)]) (auto simp: journal_le_def)
    with line_plain es(2) have "plain_failure e0" by blast
    then show ?thesis unfolding es(3) by (auto simp: plain_failure_def intro!: from_node_annotate)
  qed
qed

end
