(* ===== verification/Notifier.thy ===== *)
theory Notifier
  imports Node
begin

text \<open>
  \<open>mdrj/notifier.py\<close> and \<open>mdrj/agent_relay.py\<close>: notifications about events by e-mail and Telegram, and the relay that
  posts events to a central collector instead of keeping them. The mail server, the HTTP service and the time are
  arguments: what they answer to a message or request.
\<close>

section \<open>Notifications\<close>

record notification =
  no_event_id :: string
  no_event_kind :: string
  no_cls :: string
  no_creator :: string
  no_payload :: "(string, json) dict"
  no_ts :: timestamp

definition notification_title :: "notification \<Rightarrow> string" where
  "notification_title n = ''['' @ no_cls n @ ''] '' @ no_event_kind n"

definition lf :: string where "lf = [char_of (10 :: nat)]"

text \<open>\<open>json.dumps(value, ensure_ascii=False, indent=2)\<close>, inside \<open>d\<close> columns.\<close>

fun json_indent :: "float_codec \<Rightarrow> nat \<Rightarrow> json \<Rightarrow> string" where
  "json_indent fc d (JList []) = ''[]''"
| "json_indent fc d (JList (x # xs)) =
     ''['' @ lf @ join ('','' @ lf) (map (\<lambda>y. replicate (d + 2) (CHR '' '') @ json_indent fc (d + 2) y) (x # xs)) @
     lf @ replicate d (CHR '' '') @ '']''"
| "json_indent fc d (JObj []) = ''{}''"
| "json_indent fc d (JObj (kv # kvs)) =
     ''{'' @ lf @ join ('','' @ lf) (map (\<lambda>(k, v). replicate (d + 2) (CHR '' '') @ json_str False k @ '': '' @ json_indent fc (d + 2) v) (kv # kvs)) @
     lf @ replicate d (CHR '' '') @ ''}''"
| "json_indent fc d j = json_dumps fc False False '', '' '': '' j"

definition notification_text :: "float_codec \<Rightarrow> notification \<Rightarrow> string" where
  "notification_text fc n = join lf
     [''MDRJ-DAG notification'', ''Event:        '' @ no_event_kind n, ''Class:        '' @ no_cls n, ''Creator:      '' @ no_creator n,
      ''Event ID:     '' @ no_event_id n, ''Timestamp:    '' @ repr_float fc (no_ts n), [], ''Payload:'', json_indent fc 0 (JObj (no_payload n))]"

section \<open>Channels\<close>

record email_config =
  em_enabled :: bool
  em_smtp_host :: string
  em_smtp_port :: int
  em_smtp_user :: "string option"
  em_smtp_password :: "string option"
  em_use_tls :: bool
  em_from_addr :: string
  em_to_addrs :: "string list"

record telegram_config =
  tg_enabled :: bool
  tg_bot_token :: string
  tg_chat_ids :: "string list"
  tg_timeout_sec :: rat

record notifier_config =
  nf_enabled :: bool
  nf_trigger_classes :: "string list"
  nf_email :: email_config
  nf_telegram :: telegram_config

record mail =
  ml_server :: "string \<times> int"
  ml_tls :: bool
  ml_login :: "(string \<times> string) option"
  ml_subject :: string
  ml_from :: string
  ml_to :: string
  ml_content :: string

text \<open>
  The world of a dispatch: the text of the exception of sending a mail, if any, and the answer to a post, the text of an
  exception or a status with a body.
\<close>

record notify_world =
  nw_smtp :: "mail \<Rightarrow> string option"
  nw_post :: "string \<Rightarrow> json \<Rightarrow> string + nat \<times> string"

datatype channel = EmailChannel email_config "string option" | TelegramChannel telegram_config "string option"

fun channel_name :: "channel \<Rightarrow> string" where
  "channel_name (EmailChannel _ _) = ''email''"
| "channel_name (TelegramChannel _ _) = ''telegram''"

fun channel_error :: "channel \<Rightarrow> string option" where
  "channel_error (EmailChannel _ e) = e"
| "channel_error (TelegramChannel _ e) = e"

definition email_message :: "float_codec \<Rightarrow> email_config \<Rightarrow> notification \<Rightarrow> mail" where
  "email_message fc config n =
     \<lparr>ml_server = (em_smtp_host config, em_smtp_port config), ml_tls = em_use_tls config,
      ml_login = (if opt_str (em_smtp_user config) \<noteq> [] \<and> opt_str (em_smtp_password config) \<noteq> []
        then Some (opt_str (em_smtp_user config), opt_str (em_smtp_password config)) else None),
      ml_subject = notification_title n, ml_from = em_from_addr config, ml_to = join '', '' (em_to_addrs config),
      ml_content = notification_text fc n\<rparr>"

definition email_send :: "float_codec \<Rightarrow> notify_world \<Rightarrow> notification \<Rightarrow> email_config \<Rightarrow> string option \<Rightarrow> bool \<times> string option" where
  "email_send fc w n config last_error =
     (if \<not> em_enabled config then (False, last_error)
      else if em_smtp_host config = [] \<or> em_from_addr config = [] \<or> em_to_addrs config = []
      then (False, Some ''email channel not fully configured'')
      else case nw_smtp w (email_message fc config n) of
        Some exc \<Rightarrow> (False, Some exc)
      | None \<Rightarrow> (True, None))"

fun telegram_posts :: "notify_world \<Rightarrow> string \<Rightarrow> string \<Rightarrow> string list \<Rightarrow> bool \<times> string option" where
  "telegram_posts w url message [] = (True, None)"
| "telegram_posts w url message (chat_id # chat_ids) =
     (case nw_post w url (JObj [(''chat_id'', JStr chat_id), (''text'', JStr message), (''parse_mode'', JStr ''Markdown'')]) of
        Inl exc \<Rightarrow> (False, Some exc)
      | Inr (status, body) \<Rightarrow>
          if status \<noteq> 200 then (False, Some (''telegram http '' @ nat_str status @ '': '' @ take 200 body))
          else telegram_posts w url message chat_ids)"

definition telegram_send :: "float_codec \<Rightarrow> notify_world \<Rightarrow> notification \<Rightarrow> telegram_config \<Rightarrow> string option \<Rightarrow> bool \<times> string option" where
  "telegram_send fc w n config last_error =
     (if \<not> tg_enabled config then (False, last_error)
      else if tg_bot_token config = [] \<or> tg_chat_ids config = [] then (False, Some ''telegram channel not fully configured'')
      else telegram_posts w (''https://api.telegram.org/bot'' @ tg_bot_token config @ ''/sendMessage'')
        (''*'' @ notification_title n @ ''*'' @ lf @ ''```'' @ lf @ notification_text fc n @ lf @ ''```'') (tg_chat_ids config))"

fun channel_send :: "float_codec \<Rightarrow> notify_world \<Rightarrow> notification \<Rightarrow> channel \<Rightarrow> bool \<times> channel" where
  "channel_send fc w n (EmailChannel config e) = map_prod id (EmailChannel config) (email_send fc w n config e)"
| "channel_send fc w n (TelegramChannel config e) = map_prod id (TelegramChannel config) (telegram_send fc w n config e)"

section \<open>The engine\<close>

record notifier =
  nt_config :: notifier_config
  nt_channels :: "channel list"
  nt_sent_count :: nat
  nt_failed_count :: nat

definition notifier_init :: "notifier_config \<Rightarrow> notifier" where
  "notifier_init config =
     \<lparr>nt_config = config,
      nt_channels = (if em_enabled (nf_email config) then [EmailChannel (nf_email config) None] else []) @
        (if tg_enabled (nf_telegram config) then [TelegramChannel (nf_telegram config) None] else []),
      nt_sent_count = 0, nt_failed_count = 0\<rparr>"

definition notifier_status :: "notifier \<Rightarrow> json" where
  "notifier_status nt = JObj
     [(''enabled'', JBool (nf_enabled (nt_config nt))), (''trigger_classes'', strs_json (nf_trigger_classes (nt_config nt))),
      (''channels'', JList (map (\<lambda>ch. JObj [(''name'', JStr (channel_name ch)), (''last_error'', opt_json JStr (channel_error ch))]) (nt_channels nt))),
      (''sent_count'', JInt (int (nt_sent_count nt))), (''failed_count'', JInt (int (nt_failed_count nt)))]"

definition should_trigger :: "notifier \<Rightarrow> string \<Rightarrow> bool" where
  "should_trigger nt cls \<longleftrightarrow> nf_enabled (nt_config nt) \<and> cls \<in> set (nf_trigger_classes (nt_config nt))"

fun dispatch_loop :: "float_codec \<Rightarrow> notify_world \<Rightarrow> notification \<Rightarrow> channel list \<Rightarrow> (string, bool) dict \<Rightarrow> nat \<Rightarrow> nat \<Rightarrow>
    (string, bool) dict \<times> channel list \<times> nat \<times> nat" where
  "dispatch_loop fc w n [] results sent failed = (results, [], sent, failed)"
| "dispatch_loop fc w n (ch # chs) results sent failed =
     (let (ok, ch') = channel_send fc w n ch;
          (results', chs', sent', failed') = dispatch_loop fc w n chs (AList.update (channel_name ch) ok results)
            (sent + of_bool ok) (failed + of_bool (\<not> ok))
      in (results', ch' # chs', sent', failed'))"

definition dispatch :: "float_codec \<Rightarrow> notify_world \<Rightarrow> notification \<Rightarrow> notifier \<Rightarrow> (string, bool) dict \<times> notifier" where
  "dispatch fc w n nt =
     (if \<not> nf_enabled (nt_config nt) then ([], nt)
      else if no_cls n \<notin> set (nf_trigger_classes (nt_config nt)) then ([], nt)
      else let (results, chs, sent, failed) = dispatch_loop fc w n (nt_channels nt) [] (nt_sent_count nt) (nt_failed_count nt)
           in (results, nt\<lparr>nt_channels := chs, nt_sent_count := sent, nt_failed_count := failed\<rparr>))"

section \<open>The relay\<close>

record relay_config =
  rc_enabled :: bool
  rc_relay_url :: string
  rc_timeout_sec :: rat
  rc_max_retries :: int
  rc_retry_backoff_sec :: rat

record relay_client =
  rl_config :: relay_config
  rl_hmac_key :: "string option"
  rl_sent_count :: nat
  rl_failed_count :: nat
  rl_last_error :: "string option"
  rl_last_sent_at :: "timestamp option"

definition relay_init :: "relay_config \<Rightarrow> string option \<Rightarrow> relay_client" where
  "relay_init config hmac_key =
     \<lparr>rl_config = config, rl_hmac_key = hmac_key, rl_sent_count = 0, rl_failed_count = 0, rl_last_error = None, rl_last_sent_at = None\<rparr>"

text \<open>The answer of the collector to the \<open>i\<close>-th request and the time after it.\<close>

record relay_world =
  yw_post :: "nat \<Rightarrow> string \<Rightarrow> (string, string) dict \<Rightarrow> string + nat \<times> string"
  yw_time :: timestamp

definition relay_request :: "pylib \<Rightarrow> string option \<Rightarrow> string \<Rightarrow> (string, json) dict \<Rightarrow> string \<times> (string, string) dict" where
  "relay_request L hmac_key event_kind payload =
     (let body = dumps_default L (JObj [(''event_kind'', JStr event_kind), (''payload'', JObj payload)]);
          headers = [(''Content-Type'', ''application/json'')]
      in (body, if opt_str hmac_key \<noteq> [] then AList.update ''X-MDRJ-Sig'' (hmac_request_signature L (opt_str hmac_key) body) headers else headers))"

fun relay_attempts :: "relay_world \<Rightarrow> string \<Rightarrow> (string, string) dict \<Rightarrow> nat list \<Rightarrow> relay_client \<Rightarrow> bool \<times> nat \<times> relay_client" where
  "relay_attempts w body headers [] r = (False, 0, r)"
| "relay_attempts w body headers (i # attempts) r =
     (let (ok, err) = (case yw_post w i body headers of
            Inl exc \<Rightarrow> (False, Some exc)
          | Inr (status, answer) \<Rightarrow>
              if 200 \<le> status \<and> status < 300 then (True, None)
              else (False, Some (''http '' @ nat_str status @ '': '' @ take 200 answer)));
          r1 = r\<lparr>rl_last_error := err\<rparr>
      in if ok then (True, 1, r1\<lparr>rl_sent_count := rl_sent_count r + 1, rl_last_sent_at := Some (yw_time w)\<rparr>)
         else let (done, n, r2) = relay_attempts w body headers attempts r1 in (done, Suc n, r2))"

text \<open>The second value is the number of requests made.\<close>

definition relay_send :: "pylib \<Rightarrow> relay_world \<Rightarrow> string \<Rightarrow> (string, json) dict \<Rightarrow> relay_client \<Rightarrow> bool \<times> nat \<times> relay_client" where
  "relay_send L w event_kind payload r =
     (if \<not> rc_enabled (rl_config r) then (False, 0, r)
      else if rc_relay_url (rl_config r) = [] then (False, 0, r\<lparr>rl_last_error := Some ''agent_relay.relay_url not set''\<rparr>)
      else let (body, headers) = relay_request L (rl_hmac_key r) event_kind payload;
               (ok, n, r1) = relay_attempts w body headers [1..<Suc (nat (rc_max_retries (rl_config r)))] r
           in if ok then (True, n, r1) else (False, n, r1\<lparr>rl_failed_count := rl_failed_count r1 + 1\<rparr>))"

definition relay_status :: "relay_client \<Rightarrow> json" where
  "relay_status r = JObj
     [(''enabled'', JBool (rc_enabled (rl_config r))), (''relay_url'', JStr (rc_relay_url (rl_config r))),
      (''sent_count'', JInt (int (rl_sent_count r))), (''failed_count'', JInt (int (rl_failed_count r))),
      (''last_error'', opt_json JStr (rl_last_error r)), (''last_sent_at'', opt_json JFloat (rl_last_sent_at r))]"

section \<open>Channels are independent\<close>

lemma dispatch_loop_spec:
  "dispatch_loop fc w n chs results sent failed =
     (fold (\<lambda>ch. AList.update (channel_name ch) (fst (channel_send fc w n ch))) chs results, map (snd \<circ> channel_send fc w n) chs,
      sent + length (filter (fst \<circ> channel_send fc w n) chs), failed + length (filter (Not \<circ> fst \<circ> channel_send fc w n) chs))"
  by (induction chs arbitrary: results sent failed) (simp_all add: Let_def split_beta)

lemma fold_update_lookup:
  "distinct (map f xs) \<Longrightarrow> x \<in> set xs \<Longrightarrow> map_of (fold (\<lambda>x. AList.update (f x) (g x)) xs d) (f x) = Some (g x)"
proof (induction xs arbitrary: d)
  case (Cons y ys)
  have other: "map_of (fold (\<lambda>x. AList.update (f x) (g x)) zs d) k = map_of d k" if "k \<notin> f ` set zs" for zs d k
    using that by (induction zs arbitrary: d) auto
  show ?case
  proof (cases "x = y")
    case True
    with Cons.prems(1) show ?thesis by (simp add: other)
  qed (use Cons in auto)
qed simp

text \<open>
  A notification goes out on every channel, and only when it should. When notifications are enabled and the class
  is one that triggers them, every channel is tried whatever happens on the others, the answer tells for each whether
  it delivered, and the two counters grow by the numbers of channels that did and did not; otherwise nothing
  is sent and nothing changes.
\<close>

theorem dispatch_correct:
  assumes "distinct (map channel_name (nt_channels nt))"
  shows "(\<not> should_trigger nt (no_cls n) \<longrightarrow> dispatch fc w n nt = ([], nt)) \<and>
    (should_trigger nt (no_cls n) \<longrightarrow>
      (\<forall>ch \<in> set (nt_channels nt). map_of (fst (dispatch fc w n nt)) (channel_name ch) = Some (fst (channel_send fc w n ch))) \<and>
      nt_channels (snd (dispatch fc w n nt)) = map (snd \<circ> channel_send fc w n) (nt_channels nt) \<and>
      nt_sent_count (snd (dispatch fc w n nt)) = nt_sent_count nt + length (filter (fst \<circ> channel_send fc w n) (nt_channels nt)) \<and>
      nt_sent_count (snd (dispatch fc w n nt)) + nt_failed_count (snd (dispatch fc w n nt)) =
        nt_sent_count nt + nt_failed_count nt + length (nt_channels nt))"
proof -
  have "length (filter (fst \<circ> channel_send fc w n) chs) + length (filter (Not \<circ> fst \<circ> channel_send fc w n) chs) = length chs" for chs
    using sum_length_filter_compl [of "fst \<circ> channel_send fc w n" chs] by (simp add: comp_def)
  then show ?thesis
    using fold_update_lookup [OF assms, of _ "\<lambda>ch. fst (channel_send fc w n ch)" "[]"]
    by (auto simp: dispatch_def should_trigger_def dispatch_loop_spec)
qed

definition demo_notifier :: notifier where
  "demo_notifier = notifier_init
     \<lparr>nf_enabled = True, nf_trigger_classes = [''A''],
      nf_email = \<lparr>em_enabled = True, em_smtp_host = [], em_smtp_port = 587, em_smtp_user = None, em_smtp_password = None, em_use_tls = True,
        em_from_addr = [], em_to_addrs = []\<rparr>,
      nf_telegram = \<lparr>tg_enabled = True, tg_bot_token = ''t'', tg_chat_ids = [''1''], tg_timeout_sec = 10\<rparr>\<rparr>"

theorem dispatch_correct_witness:
  "map_of (fst (dispatch ratio_codec \<lparr>nw_smtp = (\<lambda>_. None), nw_post = (\<lambda>_ _. Inr (200, []))\<rparr>
     \<lparr>no_event_id = ''e'', no_event_kind = ''k'', no_cls = ''A'', no_creator = ''n1'', no_payload = [], no_ts = 1\<rparr> demo_notifier)) ''telegram'' = Some True"
proof -
  let ?w = "\<lparr>nw_smtp = (\<lambda>_. None), nw_post = (\<lambda>_ _. Inr (200, []))\<rparr>"
  let ?n = "\<lparr>no_event_id = ''e'', no_event_kind = ''k'', no_cls = ''A'', no_creator = ''n1'', no_payload = [], no_ts = 1\<rparr>"
  let ?tg = "TelegramChannel \<lparr>tg_enabled = True, tg_bot_token = ''t'', tg_chat_ids = [''1''], tg_timeout_sec = 10\<rparr> None"
  have "distinct (map channel_name (nt_channels demo_notifier))" "should_trigger demo_notifier (no_cls ?n)" "?tg \<in> set (nt_channels demo_notifier)"
    by (simp_all add: demo_notifier_def notifier_init_def should_trigger_def)
  with dispatch_correct [of demo_notifier ?n ratio_codec ?w]
  have "map_of (fst (dispatch ratio_codec ?w ?n demo_notifier)) (channel_name ?tg) = Some (fst (channel_send ratio_codec ?w ?n ?tg))" by blast
  then show ?thesis by (simp add: telegram_send_def)
qed

section \<open>The relay tries a bounded number of times\<close>

definition relay_accepted :: "relay_world \<Rightarrow> string \<Rightarrow> (string, string) dict \<Rightarrow> nat \<Rightarrow> bool" where
  "relay_accepted w body headers i \<longleftrightarrow> (case yw_post w i body headers of Inl _ \<Rightarrow> False | Inr (status, _) \<Rightarrow> 200 \<le> status \<and> status < 300)"

lemma relay_attempts_spec:
  "relay_attempts w body headers is r = (ok, n, r') \<Longrightarrow>
   (ok \<longleftrightarrow> (\<exists>i \<in> set is. relay_accepted w body headers i)) \<and> n \<le> length is \<and> n = length (takeWhile (Not \<circ> relay_accepted w body headers) is) + of_bool ok \<and>
   rl_sent_count r' = rl_sent_count r + of_bool ok \<and> rl_failed_count r' = rl_failed_count r \<and> (ok \<longrightarrow> rl_last_error r' = None)"
proof (induction "is" arbitrary: r ok n r')
  case (Cons i "is")
  obtain ok1 err where one: "(case yw_post w i body headers of
            Inl exc \<Rightarrow> (False, Some exc)
          | Inr (status, answer) \<Rightarrow>
              if 200 \<le> status \<and> status < 300 then (True, None)
              else (False, Some (''http '' @ nat_str status @ '': '' @ take 200 answer))) = (ok1, err)" by fastforce
  then have acc: "ok1 = relay_accepted w body headers i" "ok1 \<Longrightarrow> err = None"
    by (auto simp: relay_accepted_def split: sum.splits prod.splits if_splits)
  obtain ok2 n2 r2 where rest: "relay_attempts w body headers is (r\<lparr>rl_last_error := err\<rparr>) = (ok2, n2, r2)" by (metis prod_cases3)
  show ?case
    using Cons.prems Cons.IH [OF rest] acc by (auto simp: one rest Let_def split: if_splits)
qed simp

text \<open>
  The relay delivers an event or gives up after the configured number of requests. With the relay configured, it
  succeeds exactly when one of the first \<open>max_retries\<close> requests is answered with a 2xx status, makes no request after
  that one and never more than \<open>max_retries\<close>, and counts the event once, as sent or as failed.
\<close>

theorem relay_send_bounded:
  assumes "rc_enabled (rl_config r)" "rc_relay_url (rl_config r) \<noteq> []"
    and "relay_send L w kind payload r = (ok, n, r')" "relay_request L (rl_hmac_key r) kind payload = (body, headers)"
  shows "(ok \<longleftrightarrow> (\<exists>i. 1 \<le> i \<and> int i \<le> rc_max_retries (rl_config r) \<and> relay_accepted w body headers i)) \<and>
    int n \<le> max 0 (rc_max_retries (rl_config r)) \<and>
    rl_sent_count r' = rl_sent_count r + of_bool ok \<and> rl_failed_count r' = rl_failed_count r + of_bool (\<not> ok)"
proof -
  define attempts where "attempts = [1..<Suc (nat (rc_max_retries (rl_config r)))]"
  obtain ok1 n1 r1 where run: "relay_attempts w body headers attempts r = (ok1, n1, r1)" by (metis prod_cases3)
  have res: "(ok, n, r') = (if ok1 then (True, n1, r1) else (False, n1, r1\<lparr>rl_failed_count := rl_failed_count r1 + 1\<rparr>))"
    using assms run by (simp add: relay_send_def attempts_def del: upt_Suc)
  have "(\<exists>i \<in> set attempts. relay_accepted w body headers i) \<longleftrightarrow> (\<exists>i. 1 \<le> i \<and> int i \<le> rc_max_retries (rl_config r) \<and> relay_accepted w body headers i)"
    unfolding attempts_def Bex_def set_upt atLeastLessThan_iff less_Suc_eq_le by (intro ex_cong1) linarith
  moreover have "int (length attempts) = max 0 (rc_max_retries (rl_config r))" by (simp add: attempts_def)
  ultimately show ?thesis using relay_attempts_spec [OF run] res by (cases ok1) auto
qed

definition demo_relay :: relay_client where
  "demo_relay = relay_init \<lparr>rc_enabled = True, rc_relay_url = ''http://central'', rc_timeout_sec = 5, rc_max_retries = 3, rc_retry_backoff_sec = 1\<rparr> None"

theorem relay_send_bounded_witness:
  "\<exists>n r'. relay_send demo_lib \<lparr>yw_post = (\<lambda>i _ _. if i = 2 then Inr (200, []) else Inl ''down''), yw_time = 7\<rparr> ''heartbeat'' [] demo_relay = (True, n, r') \<and>
     int n \<le> 3"
proof -
  let ?w = "\<lparr>yw_post = (\<lambda>i _ _. if i = 2 then Inr (200, []) else Inl ''down''), yw_time = 7\<rparr>"
  obtain ok n r' where run: "relay_send demo_lib ?w ''heartbeat'' [] demo_relay = (ok, n, r')" by (metis prod_cases3)
  obtain body headers where req: "relay_request demo_lib (rl_hmac_key demo_relay) ''heartbeat'' [] = (body, headers)" by fastforce
  have c: "rc_enabled (rl_config demo_relay)" "rc_relay_url (rl_config demo_relay) \<noteq> []" "rc_max_retries (rl_config demo_relay) = 3"
    by (simp_all add: demo_relay_def relay_init_def)
  have acc: "relay_accepted ?w body headers 2" by (simp add: relay_accepted_def)
  from relay_send_bounded [OF c(1,2) run req] acc c(3) run show ?thesis by auto
qed

end
