(* ===== verification/NodeCheckpoints.thy ===== *)
theory NodeCheckpoints
  imports NodeEvents
begin

text \<open>
  The node's part in checkpoints: proposing one, recording the signatures of proposals, confirming it
  when a quorum of the members has signed, verifying the local events against it, the alert on a
  mismatch, and the retention pass that prunes what a confirmed checkpoint covers.
  \<open>clock 0\<close> is the confirmation time and \<open>clock 1\<close> the creation time of the row. A checkpoint
  the code returns as a dict is its row; the empty dict of \<open>get_checkpoint(...) or {}\<close> is no row.
\<close>

section \<open>Proposals\<close>

definition events_up_to_round_received :: "pylib \<Rightarrow> int \<Rightarrow> node \<Rightarrow> event list result" where
  "events_up_to_round_received L target_round n =
     res_bind (all_events L (nd_db n)) (\<lambda>events. Inr (filter
       (\<lambda>e. case ev_round_received e of None \<Rightarrow> False | Some r \<Rightarrow> r \<le> target_round) events))"

definition membership_node_ids :: "pylib \<Rightarrow> (node, string list) op" where
  "membership_node_ids L = (\<lambda>n.
     let (snap, n1) = active_consensus_membership L n
     in (Inr (map (\<lambda>m. py_strip (me_node_id m)) (filter (\<lambda>m. me_node_id m \<noteq> []) (ms_members snap))), n1))"

definition membership_snapshot_hash :: "pylib \<Rightarrow> (node, string) op" where
  "membership_snapshot_hash L = (\<lambda>n. let (snap, n1) = active_consensus_membership L n in (Inr (ms_hash snap), n1))"

definition old_signatures :: "checkpoint_row option \<Rightarrow> (string, string) dict" where
  "old_signatures existing = (case existing of None \<Rightarrow> [] | Some c \<Rightarrow> ck_signatures c)"

definition was_confirmed :: "checkpoint_row option \<Rightarrow> bool" where
  "was_confirmed existing \<longleftrightarrow> (case existing of None \<Rightarrow> False | Some c \<Rightarrow> ck_status c = ''confirmed'')"

definition old_confirmed_at :: "checkpoint_row option \<Rightarrow> timestamp option" where
  "old_confirmed_at existing =
     (case existing of None \<Rightarrow> None
      | Some c \<Rightarrow> (case ck_confirmed_at c of None \<Rightarrow> None | Some t \<Rightarrow> if t = 0 then None else Some t))"

definition record_proposal_signature :: "pylib \<Rightarrow> (nat \<Rightarrow> timestamp) \<Rightarrow> checkpoint_proposal \<Rightarrow>
    (node, checkpoint_row option) op" where
  "record_proposal_signature L clock p = (\<lambda>n.
     let existing = get_checkpoint (nd_db n) (cp_round_received p)
     in if existing \<noteq> None \<and> ck_merkle_root (the existing) \<noteq> cp_merkle_root p then (Inr existing, n)
        else
          let signatures = AList.update (cp_proposer_node_id p) (cp_signature p) (old_signatures existing)
          in op_bind (membership_node_ids L) (\<lambda>members.
             let reached = is_quorum_reached signatures members;
                 status = (if reached \<or> was_confirmed existing then ''confirmed'' else ''pending'');
                 confirmed_at = (if reached then Some (clock 0) else old_confirmed_at existing)
             in op_bind (op_mod (if reached \<and> \<not> was_confirmed existing then bump ''checkpoint_confirmed_count'' else (\<lambda>n. n))) (\<lambda>_.
                op_bind (op_mod (\<lambda>n. set_db (upsert_checkpoint (clock 1) (cp_round_received p) (cp_merkle_root p)
                  (cp_members_snapshot_hash p) signatures status confirmed_at (nd_db n)) n)) (\<lambda>_.
                op_get (\<lambda>n. get_checkpoint (nd_db n) (cp_round_received p))))) n)"

definition make_proposal :: "pylib \<Rightarrow> int \<Rightarrow> event list \<Rightarrow> string \<Rightarrow> node \<Rightarrow> checkpoint_proposal" where
  "make_proposal L target_round events members_hash n =
     (let p = \<lparr>cp_round_received = target_round, cp_merkle_root = compute_merkle_root L events,
               cp_members_snapshot_hash = members_hash, cp_proposer_node_id = my_id n, cp_signature = []\<rparr>
      in p\<lparr>cp_signature := sign_proposal L p (nc_hmac_key (nd_config n))\<rparr>)"

definition propose_local_checkpoint :: "pylib \<Rightarrow> (nat \<Rightarrow> timestamp) \<Rightarrow> int \<Rightarrow> (node, (string, json) dict) op" where
  "propose_local_checkpoint L clock target_round = (\<lambda>n.
     if target_round < 0 then (Inl (ValueError ''target_round must be non-negative''), n)
     else if nc_hmac_key (nd_config n) = []
     then (Inl (ValueError ''security.hmac_key must be set to propose checkpoints''), n)
     else op_bind (op_lift (events_up_to_round_received L target_round)) (\<lambda>events.
       if events = [] then op_raise (ValueError (''no events with round_received <= '' @ int_str target_round))
       else op_bind (membership_snapshot_hash L) (\<lambda>members_hash.
            op_bind (op_get (make_proposal L target_round events members_hash)) (\<lambda>p.
            op_bind (record_proposal_signature L clock p) (\<lambda>_.
            op_ret (proposal_to_dict p))))) n)"

definition ingest_checkpoint_proposal :: "pylib \<Rightarrow> (nat \<Rightarrow> timestamp) \<Rightarrow> (string, json) dict \<Rightarrow>
    (node, checkpoint_row option) op" where
  "ingest_checkpoint_proposal L clock payload =
     op_bind (op_lift (\<lambda>_. proposal_from_dict L payload)) (\<lambda>p.
     op_bind (op_get (\<lambda>n. nc_hmac_key (nd_config n))) (\<lambda>hmac_key.
       if hmac_key \<noteq> [] \<and> cp_signature p \<noteq> [] \<and> \<not> verify_proposal_signature L p (cp_signature p) hmac_key
       then op_raise (ValueError ''invalid checkpoint signature'')
       else record_proposal_signature L clock p))"

definition node_list_checkpoints :: "node \<Rightarrow> string option \<Rightarrow> int \<Rightarrow> (int \<times> checkpoint_row) list" where
  "node_list_checkpoints n status limit = list_checkpoints (nd_db n) status limit"

text \<open>The requests a broadcast makes; the client session exists exactly while gossip is on.\<close>

definition broadcast_checkpoint_proposal :: "pylib \<Rightarrow> node \<Rightarrow> (string, json) dict \<Rightarrow> (string \<times> string) list" where
  "broadcast_checkpoint_proposal L n proposal =
     (if node_list_peers n = [] \<or> \<not> nd_gossip_on n then []
      else map (\<lambda>peer. (''http://'' @ pi_address peer @ ''/checkpoint/propose'', dumps_default L (JObj proposal)))
        (node_list_peers n))"

definition propose_one_checkpoint :: "pylib \<Rightarrow> (nat \<Rightarrow> timestamp) \<Rightarrow> int \<Rightarrow>
    (node, (string, json) dict option \<times> (string \<times> string) list) op" where
  "propose_one_checkpoint L clock margin = (\<lambda>n.
     if nc_hmac_key (nd_config n) = [] then (Inr (None, []), n)
     else op_bind (op_lift (\<lambda>n. all_events L (nd_db n))) (\<lambda>events.
       let rounds = List.map_filter ev_round_received events;
           target_round = Max (set rounds) - margin
       in if rounds = [] then op_ret (None, [])
          else if target_round < 0 then op_ret (None, [])
          else op_bind (op_catch (\<lambda>_. True) (op_bind (propose_local_checkpoint L clock target_round) (\<lambda>p. op_ret (Some p)))
                 (op_ret None)) (\<lambda>proposal.
               op_get (\<lambda>n. (proposal, case proposal of None \<Rightarrow> [] | Some p \<Rightarrow> broadcast_checkpoint_proposal L n p)))) n)"

section \<open>Verification\<close>

definition checkpoint_report :: "pylib \<Rightarrow> int \<Rightarrow> checkpoint_row \<Rightarrow> event list \<Rightarrow> verification_report" where
  "checkpoint_report L rnd checkpoint events =
     (let local_merkle = (if events \<noteq> [] then compute_merkle_root L events else []);
          matches = (local_merkle \<noteq> [] \<and> local_merkle = ck_merkle_root checkpoint)
      in \<lparr>vr_matches_merkle = matches, vr_local_merkle_root = local_merkle,
          vr_confirmed_merkle_root = ck_merkle_root checkpoint, vr_checkpoint_round = rnd,
          vr_has_tamper_evidence = (\<not> matches \<and> ck_status checkpoint = ''confirmed''),
          vr_notes = (if ck_status checkpoint \<noteq> ''confirmed'' then [''checkpoint is not yet confirmed''] else []) @
            (if events = [] then [''no local events at or before target round''] else [])\<rparr>)"

definition verify_checkpoint :: "pylib \<Rightarrow> int \<Rightarrow> (node, verification_report) op" where
  "verify_checkpoint L rnd = (\<lambda>n.
     case get_checkpoint (nd_db n) rnd of
       None \<Rightarrow> (Inl (KeyError (''no checkpoint at round_received='' @ int_str rnd)), n)
     | Some checkpoint \<Rightarrow>
         op_bind (op_lift (events_up_to_round_received L rnd)) (\<lambda>events.
           let report = checkpoint_report L rnd checkpoint events
           in op_bind (op_mod (\<lambda>n. n\<lparr>nd_tamper_evidence := vr_has_tamper_evidence report\<rparr>)) (\<lambda>_. op_ret report)) n)"

fun alert_recent :: "timestamp \<Rightarrow> int \<Rightarrow> event list \<Rightarrow> bool result" where
  "alert_recent cutoff rnd [] = Inr False"
| "alert_recent cutoff rnd (e # es) =
     (if dict_get (ev_payload e) ''event_kind'' JNull \<noteq> JStr ''mdrj_tamper_detected'' then alert_recent cutoff rnd es
      else res_bind (py_int (dict_get (ev_payload e) ''round_received'' (JInt (- 1)))) (\<lambda>r.
        if r \<noteq> rnd then alert_recent cutoff rnd es
        else if cutoff \<le> ev_ts_local e then Inr True
        else alert_recent cutoff rnd es))"

definition tamper_alert_recently_emitted :: "pylib \<Rightarrow> timestamp \<Rightarrow> int \<Rightarrow> node \<Rightarrow> bool result" where
  "tamper_alert_recently_emitted L now rnd n =
     res_bind (all_events L (nd_db n)) (alert_recent (now - 3600) rnd)"

definition tamper_payload :: "node \<Rightarrow> int \<Rightarrow> verification_report \<Rightarrow> timestamp \<Rightarrow> (string, json) dict" where
  "tamper_payload n rnd report now =
     [(''event_kind'', JStr ''mdrj_tamper_detected''), (''node_id'', JStr (my_id n)),
      (''host_id'', JStr (str_or (nc_host_id (nd_config n)) (my_id n))), (''round_received'', JInt rnd),
      (''local_merkle_root'', JStr (vr_local_merkle_root report)),
      (''confirmed_merkle_root'', JStr (vr_confirmed_merkle_root report)), (''detected_at'', JFloat now)]"

definition verify_once_and_alert :: "pylib \<Rightarrow> node_env \<Rightarrow> node_env \<Rightarrow> (node, verification_report option) op" where
  "verify_once_and_alert L E E2 = (\<lambda>n.
     case latest_confirmed_checkpoint (nd_db n) of
       None \<Rightarrow> (Inr None, n)
     | Some (rnd, _) \<Rightarrow>
         op_bind (op_catch is_KeyError (op_bind (verify_checkpoint L rnd) (\<lambda>r. op_ret (Some r))) (op_ret None))
           (\<lambda>outcome. case outcome of
              None \<Rightarrow> op_ret None
            | Some report \<Rightarrow>
                if \<not> vr_has_tamper_evidence report then op_ret (Some report)
                else op_bind (op_lift (tamper_alert_recently_emitted L (en_clock E 8) rnd)) (\<lambda>recent.
                  if recent then op_ret (Some report)
                  else op_bind (op_get (\<lambda>n. tamper_payload n rnd report (en_clock E 9))) (\<lambda>payload.
                       op_bind (emit_event L E E2 ClassA payload) (\<lambda>_.
                       op_bind (op_mod (bump ''tamper_alerts_count'')) (\<lambda>_. op_ret (Some report)))))) n)"

section \<open>Retention\<close>

definition pruned_dict :: "pruned_event \<Rightarrow> (string, json) dict" where
  "pruned_dict p =
     [(''id'', JStr (pr_id p)), (''cls'', JStr (pr_cls p)), (''source'', JStr (pr_source p)),
      (''creator'', opt_json JStr (pr_creator p)), (''ts_local'', JFloat (pr_ts_local p)), (''vclock'', pr_vclock p),
      (''parents'', pr_parents p), (''self_parent_id'', opt_json JStr (pr_self_parent_id p)),
      (''other_parent_id'', opt_json JStr (pr_other_parent_id p)), (''payload'', pr_payload p),
      (''sig'', opt_json JStr (pr_sig p)), (''consensus_ts'', opt_json JFloat (pr_consensus_ts p)),
      (''lamport_ts'', opt_json JInt (pr_lamport_ts p)), (''round'', opt_json JInt (pr_round p)),
      (''round_received'', opt_json JInt (pr_round_received p)), (''payload_hash'', JStr (pr_payload_hash p))]"

definition archive_line :: "pylib \<Rightarrow> json \<Rightarrow> string" where
  "archive_line L j = json_dumps (floats L) False False '', '' '': '' j"

definition archive_header :: "int \<Rightarrow> checkpoint_row \<Rightarrow> timestamp \<Rightarrow> json" where
  "archive_header rnd checkpoint now =
     JObj [(''_archive_header'', JObj [(''checkpoint_round'', JInt rnd),
       (''merkle_root'', JStr (ck_merkle_root checkpoint)),
       (''members_snapshot_hash'', JStr (ck_members_snapshot_hash checkpoint)), (''exported_at'', JFloat now)])]"

text \<open>The lines of the archive file, without their line ends.\<close>

definition write_archive_chunk :: "pylib \<Rightarrow> timestamp \<Rightarrow> pruned_event list \<Rightarrow> int \<Rightarrow> checkpoint_row \<Rightarrow> node \<Rightarrow> node" where
  "write_archive_chunk L now records rnd checkpoint n =
     n\<lparr>nd_archive := nd_archive n @ archive_line L (archive_header rnd checkpoint now) #
         map (\<lambda>p. archive_line L (JObj (pruned_dict p))) records\<rparr>"

record retention_report =
  rt_status :: string
  rt_pruned :: nat
  rt_checkpoint_round :: "int option"

definition run_retention_once :: "pylib \<Rightarrow> (nat \<Rightarrow> timestamp) \<Rightarrow> (node, retention_report) op" where
  "run_retention_once L clock = (\<lambda>n.
     let cfg = nd_config n
     in if \<not> nc_retention_enabled cfg
        then (Inr \<lparr>rt_status = ''disabled'', rt_pruned = 0, rt_checkpoint_round = None\<rparr>, n)
        else case latest_confirmed_checkpoint (nd_db n) of
          None \<Rightarrow> (Inr \<lparr>rt_status = ''no_confirmed_checkpoint'', rt_pruned = 0, rt_checkpoint_round = None\<rparr>, n)
        | Some (rnd, checkpoint) \<Rightarrow>
            (case prune_under_checkpoint L rnd (max 0 (nc_max_age_days cfg * 86400)) (nc_keep_class_a cfg)
                    (clock 0) (nd_db n) of
               Inl e \<Rightarrow> (Inl e, n)
             | Inr (pruned, d) \<Rightarrow>
                 let n1 = set_db d n
                 in (Inr \<lparr>rt_status = ''ok'', rt_pruned = length pruned, rt_checkpoint_round = Some rnd\<rparr>,
                     if nc_archive_path cfg \<noteq> [] \<and> pruned \<noteq> []
                     then write_archive_chunk L (clock 1) pruned rnd checkpoint n1 else n1)))"

section \<open>The ledger of checkpoints\<close>

definition active_members :: "pylib \<Rightarrow> node \<Rightarrow> string list" where
  "active_members L n = map (\<lambda>m. py_strip (me_node_id m))
     (filter (\<lambda>m. me_node_id m \<noteq> []) (ms_members (fst (active_consensus_membership L n))))"

abbreviation ledger :: "node \<Rightarrow> (int, checkpoint_row) dict" where
  "ledger n \<equiv> t_checkpoints (nd_db n)"

abbreviation signed_by :: "checkpoint_row \<Rightarrow> string set" where
  "signed_by c \<equiv> fst ` set (ck_signatures c)"

abbreviation confirmed :: "checkpoint_row \<Rightarrow> bool" where
  "confirmed c \<equiv> ck_status c = ''confirmed''"

definition extends :: "checkpoint_row \<Rightarrow> checkpoint_row \<Rightarrow> bool" where
  "extends c c' \<longleftrightarrow> ck_merkle_root c' = ck_merkle_root c \<and> signed_by c \<subseteq> signed_by c' \<and> (confirmed c \<longrightarrow> confirmed c')"

definition ledger_le :: "pylib \<Rightarrow> node \<Rightarrow> node \<Rightarrow> bool" where
  "ledger_le L n n' \<longleftrightarrow> active_members L n' = active_members L n \<and>
     (\<forall>r c. map_of (ledger n) r = Some c \<longrightarrow> (\<exists>c'. map_of (ledger n') r = Some c' \<and> extends c c')) \<and>
     (\<forall>r c'. map_of (ledger n') r = Some c' \<and> confirmed c' \<longrightarrow>
        is_quorum_reached (ck_signatures c') (active_members L n) \<or>
        (\<exists>c. map_of (ledger n) r = Some c \<and> confirmed c \<and> extends c c'))"

lemma quorum_mono:
  assumes "is_quorum_reached sigs members" "fst ` set sigs \<subseteq> fst ` set sigs'"
  shows "is_quorum_reached sigs' members"
proof -
  have "signers sigs members \<subseteq> signers sigs' members" using assms(2) by (auto simp: signers_def)
  moreover have "finite (signers sigs' members)" by (simp add: signers_def)
  ultimately have "card (signers sigs members) \<le> card (signers sigs' members)" by (rule card_mono [rotated])
  then show ?thesis using assms(1) unfolding is_quorum_reached_card by linarith
qed

lemma extends_refl [simp]: "extends c c"
  by (simp add: extends_def)

lemma extends_trans: "extends a b \<Longrightarrow> extends b c \<Longrightarrow> extends a c"
  unfolding extends_def by auto

lemma ledger_le_same: "ledger n' = ledger n \<Longrightarrow> active_members L n' = active_members L n \<Longrightarrow> ledger_le L n n'"
  unfolding ledger_le_def by auto

lemma ledger_le_trans:
  assumes "ledger_le L a b" "ledger_le L b c"
  shows "ledger_le L a c"
  unfolding ledger_le_def
proof (intro conjI allI impI)
  show "active_members L c = active_members L a" using assms by (simp add: ledger_le_def)
  show "\<exists>x'. map_of (ledger c) r = Some x' \<and> extends x x'" if "map_of (ledger a) r = Some x" for r x
    using assms that unfolding ledger_le_def by (blast intro: extends_trans)
next
  fix r x' assume x: "map_of (ledger c) r = Some x' \<and> confirmed x'"
  then consider "is_quorum_reached (ck_signatures x') (active_members L b)"
    | y where "map_of (ledger b) r = Some y" "confirmed y" "extends y x'"
    using assms(2) unfolding ledger_le_def by blast
  then show "is_quorum_reached (ck_signatures x') (active_members L a) \<or>
      (\<exists>z. map_of (ledger a) r = Some z \<and> confirmed z \<and> extends z x')"
  proof cases
    case 1
    then show ?thesis using assms(1) by (simp add: ledger_le_def)
  next
    case (2 y)
    then have "is_quorum_reached (ck_signatures y) (active_members L a) \<or>
        (\<exists>z. map_of (ledger a) r = Some z \<and> confirmed z \<and> extends z y)"
      using assms(1) unfolding ledger_le_def by blast
    then show ?thesis using 2(3) by (auto intro: extends_trans quorum_mono simp: extends_def)
  qed
qed

lemma membership_ledger:
  assumes "active_consensus_membership L n = (snap, n1)"
  shows "ledger n1 = ledger n" "active_members L n1 = active_members L n"
    "nd_config n1 = nd_config n" "t_events (nd_db n1) = t_events (nd_db n)"
  using assms
  by (auto simp: active_consensus_membership_def active_members_def save_membership_def set_db_def first_some_def Let_def
      save_consensus_membership_snapshot_def split: option.splits prod.splits)

definition ledger_op :: "pylib \<Rightarrow> (node, 'a) op \<Rightarrow> bool" where
  "ledger_op L m \<longleftrightarrow> (\<forall>n. ledger_le L n (snd (m n)))"

named_theorems ledger_intros \<open>operations that only extend the ledger\<close>

lemma ledger_le_refl [simp, ledger_intros]: "ledger_le L n n"
  by (simp add: ledger_le_same)

lemma ledger_op_bind [ledger_intros]: "ledger_op L m \<Longrightarrow> (\<And>x. ledger_op L (f x)) \<Longrightarrow> ledger_op L (op_bind m f)"
  unfolding ledger_op_def op_bind_run by (auto split: sum.split intro: ledger_le_trans)

lemma ledger_op_basic [ledger_intros]:
  "ledger_op L (op_ret x)" "ledger_op L (op_lift f)" "ledger_op L (op_get g)" "ledger_op L (op_raise e)"
  "(\<And>n. ledger_le L n (h n)) \<Longrightarrow> ledger_op L (op_mod h)" "ledger_op L a \<Longrightarrow> ledger_op L b \<Longrightarrow> ledger_op L (if c then a else b)"
  by (simp_all add: ledger_op_def op_simps)

lemma ledger_op_catch [ledger_intros]: "ledger_op L m \<Longrightarrow> ledger_op L h \<Longrightarrow> ledger_op L (op_catch c m h)"
  unfolding ledger_op_def op_catch_def by (auto split: sum.split prod.split intro: ledger_le_trans)

lemma ledger_op_membership [ledger_intros]: "ledger_op L (membership_node_ids L)" "ledger_op L (membership_snapshot_hash L)"
  by (auto simp: ledger_op_def membership_node_ids_def membership_snapshot_hash_def split: prod.split
      intro!: ledger_le_same membership_ledger)

lemma upsert_ledger_le:
  fixes c :: checkpoint_row
  assumes new: "ledger n' = AList.update r c (ledger n)" "active_members L n' = active_members L n"
    and old: "\<And>b. map_of (ledger n) r = Some b \<Longrightarrow> extends b c"
    and conf: "confirmed c \<Longrightarrow> is_quorum_reached (ck_signatures c) (active_members L n) \<or>
      (\<exists>b. map_of (ledger n) r = Some b \<and> confirmed b)"
  shows "ledger_le L n n'"
  unfolding ledger_le_def
proof (intro conjI allI impI)
  show "active_members L n' = active_members L n" by (fact new(2))
  show "\<exists>c'. map_of (ledger n') s = Some c' \<and> extends b c'" if "map_of (ledger n) s = Some b" for s b
    using that old new(1) by (cases "s = r") auto
  show "is_quorum_reached (ck_signatures c') (active_members L n) \<or>
      (\<exists>b. map_of (ledger n) s = Some b \<and> confirmed b \<and> extends b c')"
    if "map_of (ledger n') s = Some c' \<and> confirmed c'" for s c'
    using that old conf new(1) by (cases "s = r") auto
qed

lemma bump_frame [simp]:
  "nd_shared (bump k n) = nd_shared n" "nd_config (bump k n) = nd_config n"
  "nd_membership_snapshot (bump k n) = nd_membership_snapshot n"
  by (simp_all add: bump_def)

lemma active_members_cong:
  "nd_membership_snapshot n' = nd_membership_snapshot n \<Longrightarrow> t_consensus_state (nd_db n') = t_consensus_state (nd_db n) \<Longrightarrow>
   t_peers (nd_db n') = t_peers (nd_db n) \<Longrightarrow> nd_config n' = nd_config n \<Longrightarrow> active_members L n' = active_members L n"
  by (simp add: active_members_def active_consensus_membership_def get_consensus_membership_snapshot_def
      membership_entries_from_registry_def list_peers_def current_role_def self_registry_address_def Let_def split: option.split)

lemma upsert_row:
  obtains c where "upsert_checkpoint now r root_hash members_hash sigs st when d = d\<lparr>t_checkpoints := AList.update r c (t_checkpoints d)\<rparr>"
    "ck_merkle_root c = root_hash" "ck_signatures c = sigs" "ck_status c = st"
  by (rule that [OF upsert_checkpoint_def]) simp_all

text \<open>What recording one signature does, when the proposal does not contradict a recorded digest.\<close>

lemma record_proposal_run:
  assumes agree: "\<And>c. map_of (ledger n) (cp_round_received p) = Some c \<Longrightarrow> ck_merkle_root c = cp_merkle_root p"
  defines "old \<equiv> map_of (ledger n) (cp_round_received p)"
  defines "sigs \<equiv> AList.update (cp_proposer_node_id p) (cp_signature p) (old_signatures old)"
  obtains c n' where "record_proposal_signature L clock p n = (Inr (Some c), n')"
    "ledger n' = AList.update (cp_round_received p) c (ledger n)" "active_members L n' = active_members L n"
    "ck_merkle_root c = cp_merkle_root p" "ck_signatures c = sigs"
    "confirmed c \<longleftrightarrow> is_quorum_reached sigs (active_members L n) \<or> was_confirmed old"
    "nd_config n' = nd_config n" "t_events (nd_db n') = t_events (nd_db n)"
proof -
  obtain snap n1 where act: "active_consensus_membership L n = (snap, n1)" by fastforce
  note frame = membership_ledger [OF act]
  have mem: "membership_node_ids L n = (Inr (active_members L n), n1)"
    by (simp add: membership_node_ids_def active_members_def act)
  let ?reached = "is_quorum_reached sigs (active_members L n)"
  define n2 where "n2 = (if ?reached \<and> \<not> was_confirmed old then bump ''checkpoint_confirmed_count'' n1 else n1)"
  let ?status = "if ?reached \<or> was_confirmed old then ''confirmed'' else ''pending''"
  let ?at = "if ?reached then Some (clock 0) else old_confirmed_at old"
  define d' where "d' = upsert_checkpoint (clock 1) (cp_round_received p) (cp_merkle_root p) (cp_members_snapshot_hash p) sigs ?status ?at (nd_db n2)"
  let ?n' = "set_db d' n2"
  have ok: "\<not> (old \<noteq> None \<and> ck_merkle_root (the old) \<noteq> cp_merkle_root p)" using agree by (cases old) (auto simp: old_def)
  have run: "record_proposal_signature L clock p n = (Inr (get_checkpoint (nd_db ?n') (cp_round_received p)), ?n')"
    using ok unfolding record_proposal_signature_def get_checkpoint_def old_def [symmetric] sigs_def [symmetric] Let_def
    by (auto simp: op_simps mem n2_def d'_def)
  have n2: "nd_db n2 = nd_db n1" "nd_config n2 = nd_config n1" "nd_membership_snapshot n2 = nd_membership_snapshot n1"
    by (simp_all add: n2_def)
  obtain c where c: "d' = (nd_db n1)\<lparr>t_checkpoints := AList.update (cp_round_received p) c (ledger n1)\<rparr>"
      "ck_merkle_root c = cp_merkle_root p" "ck_signatures c = sigs" "ck_status c = ?status"
    unfolding d'_def n2(1) by (rule upsert_row)
  have "active_members L ?n' = active_members L n1"
    by (rule active_members_cong) (simp_all add: set_db_def c(1) n2)
  moreover have "get_checkpoint (nd_db ?n') (cp_round_received p) = Some c"
    unfolding get_checkpoint_def by (simp add: set_db_def c(1))
  moreover have "ledger ?n' = AList.update (cp_round_received p) c (ledger n)" "nd_config ?n' = nd_config n"
    "t_events (nd_db ?n') = t_events (nd_db n)"
    by (simp_all add: set_db_def c(1) frame n2)
  ultimately show ?thesis
    using that [of c ?n'] run c(2-4) frame(2) by simp
qed

lemma ledger_op_record [ledger_intros]: "ledger_op L (record_proposal_signature L clock p)"
  unfolding ledger_op_def
proof
  fix n
  show "ledger_le L n (snd (record_proposal_signature L clock p n))"
  proof (cases "\<exists>c. map_of (ledger n) (cp_round_received p) = Some c \<and> ck_merkle_root c \<noteq> cp_merkle_root p")
    case True
    then show ?thesis by (auto simp: record_proposal_signature_def get_checkpoint_def Let_def)
  next
    case False
    then obtain c n' where run: "record_proposal_signature L clock p n = (Inr (Some c), n')"
      "ledger n' = AList.update (cp_round_received p) c (ledger n)" "active_members L n' = active_members L n"
      and c: "ck_merkle_root c = cp_merkle_root p"
      "ck_signatures c = AList.update (cp_proposer_node_id p) (cp_signature p) (old_signatures (map_of (ledger n) (cp_round_received p)))"
      "confirmed c \<longleftrightarrow> is_quorum_reached (ck_signatures c) (active_members L n) \<or> was_confirmed (map_of (ledger n) (cp_round_received p))"
      using record_proposal_run [of n p L clock] by metis
    have "extends b c" if "map_of (ledger n) (cp_round_received p) = Some b" for b
      using that False c by (auto simp: extends_def old_signatures_def was_confirmed_def dom_update)
    then have "ledger_le L n n'"
      using run(2,3) c(3) by (intro upsert_ledger_le) (auto simp: was_confirmed_def split: option.splits)
    then show ?thesis by (simp add: run(1))
  qed
qed

lemma ledger_op_checkpoints [ledger_intros]:
  "ledger_op L (propose_local_checkpoint L clock t)" "ledger_op L (ingest_checkpoint_proposal L clock payload)"
proof -
  show "ledger_op L (ingest_checkpoint_proposal L clock payload)"
    unfolding ingest_checkpoint_proposal_def by (intro ledger_intros)
  have "ledger_op L (op_bind (op_lift (events_up_to_round_received L t)) (\<lambda>events.
       if events = [] then op_raise (ValueError (''no events with round_received <= '' @ int_str t))
       else op_bind (membership_snapshot_hash L) (\<lambda>members_hash.
            op_bind (op_get (make_proposal L t events members_hash)) (\<lambda>p.
            op_bind (record_proposal_signature L clock p) (\<lambda>_.
            op_ret (proposal_to_dict p))))))"
    by (intro ledger_intros)
  then show "ledger_op L (propose_local_checkpoint L clock t)"
    unfolding propose_local_checkpoint_def ledger_op_def by simp
qed

lemma ledger_op_verify [ledger_intros]: "ledger_op L (verify_checkpoint L r)"
proof -
  have "ledger_le L n (n\<lparr>nd_tamper_evidence := b\<rparr>)" for n b
    by (rule ledger_le_same [OF _ active_members_cong]) simp_all
  then show ?thesis
    by (auto simp: ledger_op_def verify_checkpoint_def op_simps Let_def split: option.split sum.split)
qed

lemma retention_frame:
  "ledger (snd (run_retention_once L clock n)) = ledger n" "nd_config (snd (run_retention_once L clock n)) = nd_config n"
  "t_peers (nd_db (snd (run_retention_once L clock n))) = t_peers (nd_db n)"
  "t_consensus_state (nd_db (snd (run_retention_once L clock n))) = t_consensus_state (nd_db n)"
  "nd_membership_snapshot (snd (run_retention_once L clock n)) = nd_membership_snapshot n"
proof -
  have "t_consensus_state (fold (prune_row L now) rows d) = t_consensus_state d" for now rows d
    by (induction rows arbitrary: d) (simp_all add: prune_row_def delete_event_rows_def)
  then show "ledger (snd (run_retention_once L clock n)) = ledger n" "nd_config (snd (run_retention_once L clock n)) = nd_config n"
    "t_peers (nd_db (snd (run_retention_once L clock n))) = t_peers (nd_db n)"
    "t_consensus_state (nd_db (snd (run_retention_once L clock n))) = t_consensus_state (nd_db n)"
    "nd_membership_snapshot (snd (run_retention_once L clock n)) = nd_membership_snapshot n"
    by (auto simp: run_retention_once_def Let_def prune_under_checkpoint_def prune_fold_other write_archive_chunk_def
        set_db_def split: option.split sum.split)
qed

lemma ledger_op_retention [ledger_intros]: "ledger_op L (run_retention_once L clock)"
  unfolding ledger_op_def by (intro allI ledger_le_same active_members_cong retention_frame)

text \<open>
  Everything a node does to its ledger short of clearing it. The last rule stands for all other
  activity: it leaves the ledger and the membership alone.
\<close>

inductive ledger_step :: "pylib \<Rightarrow> node \<Rightarrow> node \<Rightarrow> bool" for L where
  ls_propose: "ledger_step L n (snd (propose_local_checkpoint L clock t n))"
| ls_ingest: "ledger_step L n (snd (ingest_checkpoint_proposal L clock payload n))"
| ls_verify: "ledger_step L n (snd (verify_checkpoint L r n))"
| ls_retention: "ledger_step L n (snd (run_retention_once L clock n))"
| ls_other: "ledger n' = ledger n \<Longrightarrow> active_members L n' = active_members L n \<Longrightarrow> ledger_step L n n'"

lemma ledger_step_le:
  assumes "ledger_step L n n'"
  shows "ledger_le L n n'"
  using assms
  by cases (use ledger_op_checkpoints ledger_op_verify ledger_op_retention in \<open>auto simp: ledger_op_def intro: ledger_le_same\<close>)

lemma ledger_steps_le: "(ledger_step L)\<^sup>*\<^sup>* n n' \<Longrightarrow> ledger_le L n n'"
  by (induction rule: rtranclp_induct) (auto intro: ledger_le_trans ledger_step_le)

interpretation quorum_ledger: invariant_system "\<lambda>n. ledger n = [] \<and> active_members L n = M" "ledger_step L"
    "\<lambda>n. active_members L n = M \<and> (\<forall>r c. map_of (ledger n) r = Some c \<longrightarrow> confirmed c \<longrightarrow> is_quorum_reached (ck_signatures c) M)"
  for L M
proof
  fix n n'
  assume inv: "active_members L n = M \<and> (\<forall>r c. map_of (ledger n) r = Some c \<longrightarrow> confirmed c \<longrightarrow> is_quorum_reached (ck_signatures c) M)"
    and step: "ledger_step L n n'"
  from ledger_step_le [OF step] have le: "active_members L n' = M"
    "\<And>r c'. map_of (ledger n') r = Some c' \<Longrightarrow> confirmed c' \<Longrightarrow> is_quorum_reached (ck_signatures c') M \<or>
       (\<exists>c. map_of (ledger n) r = Some c \<and> confirmed c \<and> extends c c')"
    using inv unfolding ledger_le_def by auto
  have "is_quorum_reached (ck_signatures c') M" if "map_of (ledger n') r = Some c'" "confirmed c'" for r c'
    using le(2) [OF that] inv by (auto simp: extends_def intro: quorum_mono)
  with le(1) show "active_members L n' = M \<and>
      (\<forall>r c. map_of (ledger n') r = Some c \<longrightarrow> confirmed c \<longrightarrow> is_quorum_reached (ck_signatures c) M)" by blast
qed simp



definition demo_proposal :: checkpoint_proposal where
  "demo_proposal = \<lparr>cp_round_received = 0, cp_merkle_root = ''root'', cp_members_snapshot_hash = ''m'',
     cp_proposer_node_id = ''n1'', cp_signature = []\<rparr>"

definition signed_node :: node where
  "signed_node = snd (ingest_checkpoint_proposal demo_lib of_nat (proposal_to_dict demo_proposal) demo_node)"

lemma signed_node_ledger:
  "case get_checkpoint (nd_db signed_node) 0 of None \<Rightarrow> False
   | Some c \<Rightarrow> ck_status c = ''confirmed'' \<and> ck_merkle_root c = ''root'' \<and> map fst (ck_signatures c) = [''n1'']"
  by code_simp

lemma demo_ledger: "ledger demo_node = []" "active_members demo_lib demo_node = [''n1'']"
  by code_simp+



section \<open>Verification\<close>

lemma events_up_to_cong: "t_events (nd_db n') = t_events (nd_db n) \<Longrightarrow>
    events_up_to_round_received L r n' = events_up_to_round_received L r n"
  by (simp add: events_up_to_round_received_def all_events_def)

text \<open>
  A node's own checkpoint verifies. When a proposal for a new round succeeds, verifying that round
  afterwards, with the events unchanged, finds the recorded digest and reports no tampering.
\<close>

theorem own_proposal_verifies:
  assumes run: "propose_local_checkpoint L clock r n = (Inr proposal, n')"
    and fresh: "get_checkpoint (nd_db n) r = None" and sha: "sha_len_ok L"
  shows "\<exists>report n''. verify_checkpoint L r n' = (Inr report, n'') \<and> vr_matches_merkle report \<and>
    \<not> vr_has_tamper_evidence report \<and> \<not> nd_tamper_evidence n''"
proof -
  obtain snap n1 where act: "active_consensus_membership L n = (snap, n1)" by fastforce
  note frame = membership_ledger [OF act]
  have hash: "membership_snapshot_hash L n = (Inr (ms_hash snap), n1)" by (simp add: membership_snapshot_hash_def act)
  obtain events where ev: "events_up_to_round_received L r n = Inr events" "events \<noteq> []"
    and step: "op_bind (op_get (make_proposal L r events (ms_hash snap))) (\<lambda>p.
      op_bind (record_proposal_signature L clock p) (\<lambda>_. op_ret (proposal_to_dict p))) n1 = (Inr proposal, n')"
  proof -
    have "\<exists>events. events_up_to_round_received L r n = Inr events \<and> events \<noteq> [] \<and>
      op_bind (membership_snapshot_hash L) (\<lambda>members_hash. op_bind (op_get (make_proposal L r events members_hash)) (\<lambda>p.
        op_bind (record_proposal_signature L clock p) (\<lambda>_. op_ret (proposal_to_dict p)))) n = (Inr proposal, n')"
      using run by (cases "events_up_to_round_received L r n")
        (auto simp: propose_local_checkpoint_def op_bind_run [of "op_lift _"] op_run split: if_splits)
    then show ?thesis using that unfolding op_bind_run [of "membership_snapshot_hash L"] hash by auto
  qed
  let ?p = "make_proposal L r events (ms_hash snap) n1"
  have p: "cp_round_received ?p = r" "cp_merkle_root ?p = compute_merkle_root L events"
    by (simp_all add: make_proposal_def Let_def)
  obtain c where c: "ledger n' = AList.update r c (ledger n1)" "ck_merkle_root c = compute_merkle_root L events"
      "t_events (nd_db n') = t_events (nd_db n1)"
  proof (rule record_proposal_run [of n1 ?p L clock])
    show "ck_merkle_root c = cp_merkle_root ?p" if "map_of (ledger n1) (cp_round_received ?p) = Some c" for c
      using that fresh by (simp add: p frame get_checkpoint_def)
    fix c m assume "record_proposal_signature L clock ?p n1 = (Inr (Some c), m)" "ledger m = AList.update (cp_round_received ?p) c (ledger n1)"
      "ck_merkle_root c = cp_merkle_root ?p" "t_events (nd_db m) = t_events (nd_db n1)"
    then show ?thesis using step that [of c] by (auto simp: op_bind_run op_run p)
  qed
  have "events_up_to_round_received L r n' = Inr events"
    using ev(1) events_up_to_cong [of n' n L r] c(3) frame(4) by simp
  moreover have "compute_merkle_root L events \<noteq> []"
    using sha by (simp add: compute_merkle_root_def sha256_hex_def sha_len_ok_def hexdigest_length flip: length_0_conv)
  ultimately show ?thesis
    using ev(2) c(1,2) by (simp add: verify_checkpoint_def get_checkpoint_def op_simps Let_def checkpoint_report_def)
qed

lemma event_from_covered_row:
  assumes "codec_ok (floats L)" "event_ok e"
  shows "event_from_record L ((new_row L e ts now)\<lparr>r_round_received := Some k\<rparr>) = Inr ((fresh_event e ts)\<lparr>ev_round_received := Some k\<rparr>)"
  using assms
  by (simp add: event_from_record_def new_row_def event_to_record_def event_ok_def load_canonical Let_def
      json_view_clock json_view_strs json_view_payload event_view_def fresh_event_def str_or_def
      del: json_view.simps wf_json.simps)

definition covered_node :: node where
  "covered_node = set_db (empty_db\<lparr>t_events := [(new_row pad_lib demo_event None 1)\<lparr>r_round_received := Some 0\<rparr>]\<rparr>) demo_node"

lemma covered_proposal: "\<exists>proposal n'. propose_local_checkpoint pad_lib of_nat 0 covered_node = (Inr proposal, n')"
proof -
  have "nc_hmac_key (nd_config demo_node) = ''key''" by code_simp
  then have key: "nc_hmac_key (nd_config covered_node) = ''key''" by (simp add: covered_node_def set_db_def)
  obtain snap n1 where act: "active_consensus_membership pad_lib covered_node = (snap, n1)" by fastforce
  have hash: "membership_snapshot_hash pad_lib covered_node = (Inr (ms_hash snap), n1)"
    by (simp add: membership_snapshot_hash_def act)
  have ev: "events_up_to_round_received pad_lib 0 covered_node = Inr [(fresh_event demo_event None)\<lparr>ev_round_received := Some 0\<rparr>]"
    by (simp add: events_up_to_round_received_def all_events_def by_created_def covered_node_def set_db_def
        event_from_covered_row pad_lib_ok)
  let ?p = "make_proposal pad_lib 0 [(fresh_event demo_event None)\<lparr>ev_round_received := Some 0\<rparr>] (ms_hash snap) n1"
  have "map_of (ledger n1) x = None" for x
    using membership_ledger(1) [OF act] by (simp add: covered_node_def set_db_def empty_db_def)
  then obtain c n' where "record_proposal_signature pad_lib of_nat ?p n1 = (Inr (Some c), n')"
    using record_proposal_run [of n1 ?p pad_lib of_nat] by (metis option.distinct(1))
  then show ?thesis
    by (simp add: propose_local_checkpoint_def op_bind_run op_run key ev hash)
qed

theorem own_proposal_verifies_witness:
  "\<exists>proposal n' report n''. propose_local_checkpoint pad_lib of_nat 0 covered_node = (Inr proposal, n') \<and>
     verify_checkpoint pad_lib 0 n' = (Inr report, n'') \<and> vr_matches_merkle report"
proof -
  obtain proposal n' where run: "propose_local_checkpoint pad_lib of_nat 0 covered_node = (Inr proposal, n')"
    using covered_proposal by blast
  have "get_checkpoint (nd_db covered_node) 0 = None"
    by (simp add: get_checkpoint_def covered_node_def set_db_def empty_db_def)
  from own_proposal_verifies [OF run this pad_lib_ok(1)] run show ?thesis by blast
qed


definition retired_node :: node where
  "retired_node = set_db (aged_db\<lparr>t_checkpoints := [(0, \<lparr>ck_merkle_root = ''root'', ck_members_snapshot_hash = ''m'',
       ck_signatures = [(''n1'', [])], ck_status = ''confirmed'', ck_confirmed_at = Some 3, ck_created_at = 2\<rparr>)]\<rparr>)
     (demo_node\<lparr>nd_config := demo_config\<lparr>nc_keep_class_a := False, nc_archive_path := ''archive''\<rparr>\<rparr>)"

abbreviation retired_row :: stored_row where
  "retired_row \<equiv> (new_row demo_lib demo_event None 1)\<lparr>r_round_received := Some 0\<rparr>"

lemma retired_parts:
  "nd_config retired_node = demo_config\<lparr>nc_keep_class_a := False, nc_archive_path := ''archive''\<rparr>" "t_events (nd_db retired_node) = [retired_row]"
  "map_of (ledger retired_node) 0 = Some (snd (hd (ledger retired_node)))"
  "latest_confirmed_checkpoint (nd_db retired_node) = Some (0, snd (hd (ledger retired_node)))"
  "ck_status (snd (hd (ledger retired_node))) = ''confirmed''"
  by (simp_all add: retired_node_def set_db_def aged_db_def latest_confirmed_checkpoint_def list_checkpoints_def sql_limit_def
      head_opt_def)

lemma retired_old:
  "prunable 0 (100000 - max 0 (nc_max_age_days (demo_config\<lparr>nc_keep_class_a := False, nc_archive_path := ''archive''\<rparr>) * 86400)) False retired_row"
  by (simp add: prunable_def new_row_def Let_def demo_config_def)

lemma retired_run: "\<exists>report n'. run_retention_once demo_lib (\<lambda>_. 100000) retired_node = (Inr report, n') \<and> rt_pruned report = 1"
proof -
  have "codec_ok (floats demo_lib)" "event_ok demo_event" by simp_all
  then have "\<exists>p. prune_record demo_lib retired_row = Inr p"
    by (simp add: prune_record_def loads_def new_row_def event_to_record_def Let_def canonical_def event_ok_def
        loads_canonical del: wf_json.simps)
  then show ?thesis
    using retired_old by (auto simp: run_retention_once_def retired_parts prune_under_checkpoint_def Let_def demo_config_def)
qed


end
