(* ===== verification/NodeLifecycle.thy ===== *)
theory NodeLifecycle
  imports NodeCheckpoints
begin

text \<open>
  The life of a node: its genesis event, start and stop with the events that mark them, clearing the
  graph, the heartbeat, and frontier synchronisation with a peer. Floating-point sums are exact here.
  The replies of peers are arguments: a frontier is a map from creators to identifiers, an ancestry
  the list under \<open>"events"\<close>; none stands for a failed request.
\<close>

section \<open>Genesis\<close>

fun split_char :: "char \<Rightarrow> string \<Rightarrow> string list" where
  "split_char c [] = [[]]"
| "split_char c (x # xs) =
     (if x = c then [] # split_char c xs
      else case split_char c xs of [] \<Rightarrow> [[x]] | w # ws \<Rightarrow> (x # w) # ws)"

definition index_of :: "'a \<Rightarrow> 'a list \<Rightarrow> nat" where
  "index_of x xs = length (takeWhile (\<lambda>y. y \<noteq> x) xs)"

definition all_known_nodes :: "node \<Rightarrow> string list" where
  "all_known_nodes n = sort (remdups (my_id n #
     filter (\<lambda>host. host \<noteq> []) (map (\<lambda>peer. hd (split_char (CHR '':'') peer)) (nc_peers (nd_config n)))))"

definition deterministic_genesis_ts :: "(node, timestamp) op" where
  "deterministic_genesis_ts = (\<lambda>n.
     let ordered = all_known_nodes n;
         index = (if my_id n \<in> set ordered then index_of (my_id n) ordered else 0)
     in (Inr (1700000000 + of_nat index / 1000 + of_nat (nd_genesis_counter n) / 10000),
         n\<lparr>nd_genesis_counter := nd_genesis_counter n + 1\<rparr>))"

definition self_identity :: "node_env \<Rightarrow> node \<Rightarrow> (string, json) dict result" where
  "self_identity E n =
     (case split_char (CHR '':'') (nc_listen (nd_config n)) of
        [listen_host, listen_port] \<Rightarrow>
          res_bind (py_int (JStr listen_port)) (\<lambda>port.
            Inr [(''subject_node_id'', JStr (my_id n)),
                 (''host_id'', JStr (str_or (nc_host_id (nd_config n)) (my_id n))),
                 (''runtime_hostname'', JStr (en_hostname E)), (''listen'', JStr (nc_listen (nd_config n))),
                 (''listen_host'', JStr listen_host), (''listen_port'', JInt port), (''identity_scope'', JStr ''self'')])
      | _ \<Rightarrow> Inl (ValueError ''not enough values to unpack''))"

text \<open>\<open>str.isdigit\<close> also accepts the superscript digits, which \<open>int\<close> then refuses.\<close>

definition py_isdigit :: "string \<Rightarrow> bool" where
  "py_isdigit s \<longleftrightarrow> s \<noteq> [] \<and> list_all (\<lambda>c. is_digit c \<or> (of_char c :: nat) \<in> {178, 179, 185}) s"

definition peer_identity :: "string \<Rightarrow> (string, json) dict result" where
  "peer_identity peer =
     (let peer_host = takeWhile (\<lambda>c. c \<noteq> CHR '':'') peer; peer_port = drop (Suc (length peer_host)) peer
      in res_bind (if py_isdigit peer_port then res_bind (py_int (JStr peer_port)) (\<lambda>i. Inr (JInt i)) else Inr (JStr peer_port)) (\<lambda>port.
         Inr [(''subject_node_id'', JStr (str_or peer_host peer)), (''configured_peer_address'', JStr peer),
              (''configured_peer_host'', JStr (str_or peer_host peer)), (''configured_peer_port'', port),
              (''identity_scope'', JStr ''known_peer'')]))"

definition known_node_identities :: "node_env \<Rightarrow> node \<Rightarrow> (string, json) dict list result" where
  "known_node_identities E n =
     res_bind (self_identity E n) (\<lambda>own.
     res_bind (res_map peer_identity (nc_peers (nd_config n))) (\<lambda>others. Inr (own # others)))"

definition genesis_payload :: "node \<Rightarrow> nat \<Rightarrow> (string, json) dict \<Rightarrow> (string, json) dict" where
  "genesis_payload n index identity =
     [(''anchor'', JInt (int index)), (''node'', JStr (my_id n)), (''genesis'', JBool True),
      (''genesis_kind'', JStr ''node_identity'')] @ identity"

definition genesis_event :: "pylib \<Rightarrow> node \<Rightarrow> timestamp \<Rightarrow> (string, json) dict \<Rightarrow> event" where
  "genesis_event L n ts payload =
     (event_create L ClassC (my_id n) ts [] [] payload None (Some (my_id n)) None None)\<lparr>ev_consensus_ts := Some ts\<rparr>"

definition bootstrap_one :: "pylib \<Rightarrow> node_env \<Rightarrow> nat \<times> (string, json) dict \<Rightarrow> (node, string) op" where
  "bootstrap_one L E = (\<lambda>(index, identity).
     op_bind deterministic_genesis_ts (\<lambda>ts.
     op_bind (op_get (\<lambda>n. (my_id n, genesis_event L n ts (genesis_payload n index identity)))) (\<lambda>(me, event).
     let envelope = \<lparr>env_event = event, env_path_meta = [\<lparr>hop_node = Some me, hop_ts = Some (ev_ts_local event)\<rparr>]\<rparr>
     in op_bind (op_mod (\<lambda>n. set_db (snd (store_envelope L (en_clock E index) envelope (Some ts) (nd_db n))) n)) (\<lambda>_.
        op_bind (op_mod (\<lambda>n. if nd_gossip_on n then gossip_add_pending (ev_id event) n else n)) (\<lambda>_.
        op_bind (op_mod (notify_viz E event)) (\<lambda>_. op_ret (ev_id event)))))))"

definition fallback_identity :: "node \<Rightarrow> (string, json) dict" where
  "fallback_identity n = [(''subject_node_id'', JStr (my_id n)), (''listen'', JStr (nc_listen (nd_config n))),
     (''identity_scope'', JStr ''self'')]"

definition bootstrap_genesis :: "pylib \<Rightarrow> node_env \<Rightarrow> bool \<Rightarrow> (node, unit) op" where
  "bootstrap_genesis L E force = (\<lambda>n.
     if \<not> force \<and> 0 < event_count (nd_db n) then op_bind (anchor_ids L) (\<lambda>_. op_ret ()) n
     else op_bind (op_lift (known_node_identities E)) (\<lambda>identities.
       let own = filter (\<lambda>i. jget i ''identity_scope'' = JStr ''self'') identities;
           self_identities = (if own = [] then [fallback_identity n] else own)
       in op_bind (op_each (bootstrap_one L E) (enumerate 0 self_identities)) (\<lambda>anchors.
          op_mod (\<lambda>n. n\<lparr>nd_anchors := anchors\<rparr>))) n)"

section \<open>Clearing the graph\<close>

fun oldest :: "('k \<times> timestamp) list \<Rightarrow> 'k \<times> timestamp" where
  "oldest [x] = x"
| "oldest (x # y # ys) = (let z = oldest (y # ys) in if snd x \<le> snd z then x else z)"

definition mark_clear_token :: "timestamp \<Rightarrow> string \<Rightarrow> node \<Rightarrow> bool \<times> node" where
  "mark_clear_token now token n =
     (let kept = filter (\<lambda>(key, ts). \<not> ts < now - 300) (nd_clear_tokens n)
      in if token \<in> fst ` set kept then (False, n\<lparr>nd_clear_tokens := kept\<rparr>)
         else let added = AList.update token now kept
              in (True, n\<lparr>nd_clear_tokens := (if 128 < length added then AList.delete (fst (oldest added)) added else added)\<rparr>))"

definition clear_events_local :: "pylib \<Rightarrow> node_env \<Rightarrow> (node, (string, json) dict) op" where
  "clear_events_local L E =
     op_bind (op_mod (\<lambda>n. on_metrics metrics_reset
       ((set_db (clear_events (nd_db n)) n)\<lparr>nd_vector_clock := [], nd_anchors := []\<rparr>))) (\<lambda>_.
     op_bind (op_get (node_metrics_snapshot E)) (\<lambda>reset_metrics.
     op_bind (op_mod (notify_viz_reset reset_metrics)) (\<lambda>_.
     op_bind (bootstrap_genesis L E True) (\<lambda>_.
     op_bind (recompute_consensus L (en_rl E) (en_plan E)) (\<lambda>_.
     op_bind (op_lift (\<lambda>n. replace_incidents (\<lambda>_. None) (en_clock E 7) [] (nd_db n))) (\<lambda>d.
     op_bind (op_mod (\<lambda>n. refresh_peer_health (set_db d n))) (\<lambda>_.
     op_ret reset_metrics)))))))"

definition propagate_clear :: "pylib \<Rightarrow> string \<Rightarrow> node \<Rightarrow> (string \<times> string \<times> (string, string) dict) list" where
  "propagate_clear L token n =
     (if \<not> nd_gossip_on n then []
      else map (\<lambda>peer. (''http://'' @ pi_address peer @ ''/viz/clear'',
          signed_request_body L (JObj [(''token'', JStr token), (''propagate'', JBool True)]) (Some (nc_hmac_key (nd_config n)))))
        (node_list_peers n))"

definition node_clear_events :: "pylib \<Rightarrow> node_env \<Rightarrow> string \<Rightarrow> bool \<Rightarrow>
    (node, (string, json) dict \<times> (string \<times> string \<times> (string, string) dict) list) op" where
  "node_clear_events L E token propagate =
     (if token = [] then op_raise (ValueError ''clear token required'')
      else op_bind (\<lambda>n. let (marked, n1) = mark_clear_token (en_clock E 0) token n in (Inr marked, n1)) (\<lambda>marked.
        if \<not> marked then op_bind (op_get (node_metrics_snapshot E)) (\<lambda>m. op_ret (m, []))
        else op_bind (clear_events_local L E) (\<lambda>m.
             op_get (\<lambda>n. (m, if propagate then propagate_clear L token n else [])))))"

definition node_replace_incidents :: "(string \<Rightarrow> timestamp option) \<Rightarrow> timestamp \<Rightarrow> json list \<Rightarrow> (node, json list) op" where
  "node_replace_incidents from_iso now incidents =
     op_bind (op_lift (\<lambda>n. replace_incidents from_iso now incidents (nd_db n))) (\<lambda>d.
     op_bind (op_mod (set_db d)) (\<lambda>_. op_get (\<lambda>n. list_incidents (nd_db n))))"

section \<open>Service events\<close>

definition SERVICE_LIFECYCLE_KINDS :: "string list" where
  "SERVICE_LIFECYCLE_KINDS = [''mdrj_service_start'', ''mdrj_service_stop'', ''mdrj_service_killed'']"

definition is_lifecycle :: "string \<Rightarrow> event \<Rightarrow> bool" where
  "is_lifecycle me e \<longleftrightarrow> ev_creator e = me \<and> jget (ev_payload e) ''event_kind'' \<in> JStr ` set SERVICE_LIFECYCLE_KINDS"

definition last_own_service_event :: "pylib \<Rightarrow> node \<Rightarrow> event option result" where
  "last_own_service_event L n =
     res_bind (all_events L (nd_db n)) (\<lambda>events.
       let own = sort_key ev_ts_local (filter (is_lifecycle (my_id n)) events)
       in Inr (if own = [] then None else Some (last own)))"

definition host_of :: "node \<Rightarrow> string" where
  "host_of n = str_or (nc_host_id (nd_config n)) (my_id n)"

definition killed_payload :: "node \<Rightarrow> event \<Rightarrow> timestamp \<Rightarrow> (string, json) dict" where
  "killed_payload n last_event now =
     [(''event_kind'', JStr ''mdrj_service_killed''), (''node_id'', JStr (my_id n)), (''host_id'', JStr (host_of n)),
      (''previous_start_id'', JStr (ev_id last_event)), (''previous_start_ts'', JFloat (ev_ts_local last_event)),
      (''detected_at'', JFloat now)]"

definition service_payload :: "string \<Rightarrow> node \<Rightarrow> timestamp \<Rightarrow> (string, json) dict" where
  "service_payload kind n now =
     [(''event_kind'', JStr kind), (''node_id'', JStr (my_id n)), (''host_id'', JStr (host_of n)), (''ts'', JFloat now)]"

definition maybe_emit_service_killed :: "pylib \<Rightarrow> node_env \<Rightarrow> node_env \<Rightarrow> (node, unit) op" where
  "maybe_emit_service_killed L E E2 =
     op_bind (op_lift (last_own_service_event L)) (\<lambda>found. case found of
        None \<Rightarrow> op_ret ()
      | Some e \<Rightarrow>
          if jget (ev_payload e) ''event_kind'' = JStr ''mdrj_service_start'' then
            op_catch (\<lambda>_. True)
              (op_bind (op_get (\<lambda>n. killed_payload n e (en_clock E 9))) (\<lambda>payload.
               op_bind (emit_event L E E2 ClassA payload) (\<lambda>_. op_mod (bump ''service_killed_count''))))
              (op_ret ())
          else op_ret ())"

definition emit_service_start :: "pylib \<Rightarrow> node_env \<Rightarrow> node_env \<Rightarrow> (node, unit) op" where
  "emit_service_start L E E2 =
     op_catch (\<lambda>_. True)
       (op_bind (op_get (\<lambda>n. service_payload ''mdrj_service_start'' n (en_clock E 9))) (\<lambda>payload.
        op_bind (emit_event L E E2 ClassB payload) (\<lambda>_. op_mod (bump ''service_started_count''))))
       (op_ret ())"

definition emit_service_stop :: "pylib \<Rightarrow> node_env \<Rightarrow> node_env \<Rightarrow> (node, unit) op" where
  "emit_service_stop L E E2 =
     op_bind (op_get (\<lambda>n. service_payload ''mdrj_service_stop'' n (en_clock E 9))) (\<lambda>payload.
     op_bind (emit_event L E E2 ClassB payload) (\<lambda>_. op_mod (bump ''service_stopped_count'')))"

text \<open>One pass of the heartbeat loop.\<close>

definition heartbeat_once :: "pylib \<Rightarrow> node_env \<Rightarrow> node_env \<Rightarrow> rat \<Rightarrow> (node, unit) op" where
  "heartbeat_once L E E2 interval_sec =
     op_catch (\<lambda>_. True)
       (op_bind (op_get (\<lambda>n. [(''event_kind'', JStr ''heartbeat''), (''host_id'', JStr (host_of n)), (''node_id'', JStr (my_id n)),
           (''interval_sec'', JFloat (max (1 / 20) interval_sec)), (''purpose'', JStr ''liveness'')])) (\<lambda>payload.
        op_bind (emit_event L E E2 ClassC payload) (\<lambda>_. op_mod (bump ''heartbeat_emitted''))))
       (op_ret ())"

section \<open>Frontier synchronisation\<close>

fun frontier_scan :: "event list \<Rightarrow> (string, timestamp \<times> string) dict \<Rightarrow> (string, timestamp \<times> string) dict" where
  "frontier_scan [] latest = latest"
| "frontier_scan (e # es) latest =
     (let creator = str_or (ev_creator e) (ev_source e)
      in frontier_scan es
           (if creator = [] then latest
            else if (case map_of latest creator of None \<Rightarrow> True | Some (ts, _) \<Rightarrow> ts < ev_ts_local e)
            then AList.update creator (ev_ts_local e, ev_id e) latest else latest))"

definition local_frontier :: "pylib \<Rightarrow> node \<Rightarrow> (string, string) dict result" where
  "local_frontier L n =
     res_bind (all_events L (nd_db n)) (\<lambda>events.
       Inr (map (\<lambda>(creator, (_, x)). (creator, x)) (frontier_scan events [])))"

record sync_world =
  sw_choice :: "peer_info list \<Rightarrow> peer_info"
  sw_frontier :: "string \<Rightarrow> (string, string) dict option"
  sw_ancestry :: "string \<Rightarrow> string \<Rightarrow> json list option"
  sw_env :: "nat \<Rightarrow> node_env"

definition pull_ancestry :: "pylib \<Rightarrow> sync_world \<Rightarrow> string \<Rightarrow> string \<Rightarrow> envelope list" where
  "pull_ancestry L w address event_id =
     (case sw_ancestry w address event_id of
        None \<Rightarrow> []
      | Some items \<Rightarrow> List.map_filter (\<lambda>item. case envelope_from_dict L item of Inl _ \<Rightarrow> None | Inr env \<Rightarrow> Some env) items)"

fun missing_ids :: "pylib \<Rightarrow> db \<Rightarrow> string list \<Rightarrow> string list result" where
  "missing_ids L d [] = Inr []"
| "missing_ids L d (x # xs) =
     (if x = [] then missing_ids L d xs
      else res_bind (get_event L d x) (\<lambda>found.
           res_bind (missing_ids L d xs) (\<lambda>rest. Inr (if found = None then x # rest else rest))))"

definition offered_ids :: "(string, string) dict \<Rightarrow> (string, string) dict \<Rightarrow> string list" where
  "offered_ids local_frontier_dict peer_frontier =
     map snd (filter (\<lambda>(creator, x). x \<noteq> [] \<and> map_of peer_frontier creator \<noteq> Some x) local_frontier_dict)"

definition pull_one :: "pylib \<Rightarrow> sync_world \<Rightarrow> string \<Rightarrow> nat \<times> string \<Rightarrow> (node, nat) op" where
  "pull_one L w address = (\<lambda>(i, event_id).
     let envs = pull_ancestry L w address event_id
     in if envs = [] then op_ret 0 else op_bind (ingest_envelopes L (sw_env w i) envs) (\<lambda>_. op_ret (length envs)))"

definition frontier_sync_once :: "pylib \<Rightarrow> sync_world \<Rightarrow> (node, (string \<times> nat \<times> string list) option) op" where
  "frontier_sync_once L w = (\<lambda>n.
     if node_list_peers n = [] \<or> \<not> nd_gossip_on n then (Inr None, n)
     else let peer = sw_choice w (node_list_peers n)
          in case sw_frontier w (pi_address peer) of
               None \<Rightarrow> (Inr None, n)
             | Some peer_frontier \<Rightarrow>
                 op_bind (op_lift (local_frontier L)) (\<lambda>own.
                 op_bind (op_lift (\<lambda>n. missing_ids L (nd_db n) (map snd peer_frontier))) (\<lambda>missing.
                 op_bind (op_mod (fold gossip_add_pending (offered_ids own peer_frontier))) (\<lambda>_.
                 op_bind (op_each (pull_one L w (pi_address peer)) (enumerate 0 missing)) (\<lambda>counts.
                 op_bind (op_mod (\<lambda>n. n\<lparr>nd_counters := AList.update ''frontier_sync_pulls_count''
                     (dict_get (nd_counters n) ''frontier_sync_pulls_count'' 0 + sum_list counts) (nd_counters n)\<rparr>)) (\<lambda>_.
                 op_ret (Some (pi_address peer, sum_list counts, missing))))))) n)"

section \<open>Start and stop\<close>

definition prime_gossip :: "pylib \<Rightarrow> (node, unit) op" where
  "prime_gossip L = (\<lambda>n.
     if \<not> nd_gossip_on n then (Inr (), n)
     else op_bind (op_lift (\<lambda>n. list_events L (nd_db n) 1000 None)) (\<lambda>events.
       op_mod (fold (\<lambda>e. gossip_add_pending (ev_id e)) events)) n)"

fun push_loop :: "pylib \<Rightarrow> gossip_world \<Rightarrow> envelope list \<Rightarrow> peer_info list \<Rightarrow> node \<Rightarrow> node" where
  "push_loop L w envelopes [] n = n"
| "push_loop L w envelopes (peer # peers) n =
     push_loop L w envelopes peers
       (n\<lparr>nd_shared := snd (send_to_peer L (nc_gossip (nd_config n)) w (pi_address peer) envelopes (nd_shared n))\<rparr>)"

definition push_initial_events :: "pylib \<Rightarrow> gossip_world \<Rightarrow> (node, unit) op" where
  "push_initial_events L w = (\<lambda>n.
     if \<not> nd_gossip_on n \<or> node_list_peers n = [] then (Inr (), n)
     else op_bind (anchor_ids L) (\<lambda>anchors.
          op_bind (op_lift (\<lambda>n. res_map (get_envelope L (nd_db n)) anchors)) (\<lambda>found.
          let envelopes = List.map_filter (\<lambda>env. env) found
          in if envelopes = [] then op_ret () else op_mod (\<lambda>n. push_loop L w envelopes (node_list_peers n) n))) n)"

text \<open>
  \<open>start\<close> and \<open>stop\<close> without the background tasks and the HTTP server: \<open>Ei\<close> are the environments of
  the events emitted, \<open>status\<close> the peers' answers to \<open>GET /status\<close>.
\<close>

definition start_node :: "pylib \<Rightarrow> (nat \<Rightarrow> node_env) \<Rightarrow> (string \<Rightarrow> string option) \<Rightarrow> (string \<Rightarrow> timestamp) \<Rightarrow> (node, unit) op" where
  "start_node L Ei status seen_at =
     op_bind (op_mod (\<lambda>n. n\<lparr>nd_loop_running := True\<rparr>)) (\<lambda>_.
     op_bind (bootstrap_genesis L (Ei 0) False) (\<lambda>_.
     op_bind (op_mod (hydrate_peer_node_ids status seen_at)) (\<lambda>_.
     op_bind (ensure_consensus_membership_snapshot L (en_rl (Ei 0)) (en_plan (Ei 0)) status seen_at) (\<lambda>_.
     op_bind (op_mod (\<lambda>n. n\<lparr>nd_gossip_on := True\<rparr>)) (\<lambda>_.
     op_bind (prime_gossip L) (\<lambda>_.
     op_bind (push_initial_events L (en_world (Ei 0) 0)) (\<lambda>_.
     op_bind (op_lift (self_identity (Ei 0))) (\<lambda>_.
     op_bind (op_mod (\<lambda>n. refresh_peer_health (n\<lparr>nd_state := RUN\<rparr>))) (\<lambda>_.
     op_bind (maybe_emit_service_killed L (Ei 1) (Ei 2)) (\<lambda>_.
     emit_service_start L (Ei 3) (Ei 4)))))))))))"

definition stop_node :: "pylib \<Rightarrow> node_env \<Rightarrow> node_env \<Rightarrow> (node, unit) op" where
  "stop_node L E E2 =
     op_bind (op_catch (\<lambda>_. True) (emit_service_stop L E E2) (op_ret ())) (\<lambda>_.
     op_mod (\<lambda>n. n\<lparr>nd_recompute_task := False, nd_gossip_on := False, nd_state := STARTED, nd_loop_running := False\<rparr>))"

section \<open>A clear request runs once\<close>

lemma oldest_min:
  "xs \<noteq> [] \<Longrightarrow> oldest xs \<in> set xs \<and> (\<forall>x \<in> set xs. snd (oldest xs) \<le> snd x)"
  by (induction xs rule: oldest.induct) (auto simp: Let_def)

lemma oldest_snoc:
  "xs \<noteq> [] \<Longrightarrow> \<forall>x \<in> set xs. snd x \<le> snd y \<Longrightarrow> oldest (xs @ [y]) \<in> set xs"
proof (induction xs rule: oldest.induct)
  case (2 a b xs)
  have "oldest (b # xs @ [y]) \<in> set (b # xs)" using 2 by simp
  then show ?case by (auto simp: Let_def)
qed simp_all

text \<open>
  A request to clear the graph takes effect once. After a node has accepted a token it remembers it
  for five minutes, with at most 128 tokens in memory, and a request with that token in the meantime clears
  nothing and is passed on to nobody, so that a request sent from node to node dies out.
\<close>

theorem clear_takes_effect_once:
  assumes marked: "mark_clear_token t token n = (True, n1)"
    and past: "\<forall>(key, ts) \<in> set (nd_clear_tokens n). ts \<le> t" and small: "length (nd_clear_tokens n) \<le> 128"
    and later: "nd_clear_tokens m = nd_clear_tokens n1" "t \<le> en_clock E 0" "en_clock E 0 \<le> t + 300" and token: "token \<noteq> []"
  shows "length (nd_clear_tokens n1) \<le> 128 \<and>
    (\<exists>answer m'. node_clear_events L E token propagate m = (Inr (answer, []), m') \<and> nd_shared m' = nd_shared m)"
proof -
  define kept where "kept = filter (\<lambda>(key, ts). \<not> ts < t - 300) (nd_clear_tokens n)"
  have fresh: "token \<notin> fst ` set kept" and n1: "nd_clear_tokens n1 =
      (if 128 < length (kept @ [(token, t)]) then AList.delete (fst (oldest (kept @ [(token, t)]))) (kept @ [(token, t)])
       else kept @ [(token, t)])"
    using marked by (auto simp: mark_clear_token_def kept_def [symmetric] Let_def update_fresh split: if_splits)
  have len: "length kept \<le> 128" using small length_filter_le [of _ "nd_clear_tokens n"] unfolding kept_def by (rule le_trans [rotated])
  let ?o = "fst (oldest (kept @ [(token, t)]))"
  have old: "?o \<in> fst ` set kept" if "kept \<noteq> []"
  proof -
    have "\<forall>x \<in> set kept. snd x \<le> snd (token, t)" using past by (auto simp: kept_def)
    from imageI [OF oldest_snoc [OF that this]] show ?thesis .
  qed
  have "length (AList.delete ?o (kept @ [(token, t)])) \<le> 128" if "kept \<noteq> []"
  proof -
    from old [OF that] obtain v where "(?o, v) \<in> set kept" by auto
    then have "length (AList.delete ?o kept) < length kept" unfolding AList.delete_eq by (intro length_filter_less) auto
    moreover have "length (AList.delete ?o (kept @ [(token, t)])) \<le> Suc (length (AList.delete ?o kept))" by (simp add: AList.delete_eq)
    ultimately show ?thesis using len by linarith
  qed
  then have bound: "length (nd_clear_tokens n1) \<le> 128" using n1 len by (cases "kept = []") auto
  have "(token, t) \<in> set (nd_clear_tokens n1)"
  proof (cases "kept = []")
    case False
    with old fresh have "?o \<noteq> token" by metis
    then show ?thesis using n1 by (auto simp: AList.delete_eq)
  qed (simp add: n1)
  then have "token \<in> fst ` set (filter (\<lambda>(key, ts). \<not> ts < en_clock E 0 - 300) (nd_clear_tokens m))"
    using later by force
  then have "\<exists>m'. mark_clear_token (en_clock E 0) token m = (False, m') \<and> nd_shared m' = nd_shared m"
    by (simp add: mark_clear_token_def Let_def)
  then show ?thesis using bound token by (auto simp: node_clear_events_def op_simps)
qed

theorem clear_takes_effect_once_witness:
  "\<exists>answer m'. node_clear_events demo_lib demo_env ''tok'' True (snd (mark_clear_token 0 ''tok'' demo_node)) = (Inr (answer, []), m')"
proof -
  have empty: "nd_clear_tokens demo_node = []" by code_simp
  then have "mark_clear_token 0 ''tok'' demo_node = (True, snd (mark_clear_token 0 ''tok'' demo_node))"
    by (simp add: mark_clear_token_def Let_def)
  from clear_takes_effect_once [OF this, where m = "snd (mark_clear_token 0 ''tok'' demo_node)" and E = demo_env
      and L = demo_lib and propagate = True] empty
  show ?thesis by (auto simp: demo_env_def)
qed

section \<open>Anti-entropy\<close>

abbreviation author :: "event \<Rightarrow> string" where
  "author e \<equiv> str_or (ev_creator e) (ev_source e)"

definition scan_step :: "event \<Rightarrow> (string, timestamp \<times> string) dict \<Rightarrow> (string, timestamp \<times> string) dict" where
  "scan_step e latest =
     (if author e = [] then latest
      else if (case map_of latest (author e) of None \<Rightarrow> True | Some (ts, _) \<Rightarrow> ts < ev_ts_local e)
      then AList.update (author e) (ev_ts_local e, ev_id e) latest else latest)"

lemma frontier_scan_Cons: "frontier_scan (e # es) latest = frontier_scan es (scan_step e latest)"
  by (simp add: scan_step_def Let_def)

lemma scan_step_sound: "map_of (scan_step e latest) c = Some (ts, x) \<Longrightarrow>
    map_of latest c = Some (ts, x) \<or> c = author e \<and> ts = ev_ts_local e \<and> x = ev_id e"
  by (auto simp: scan_step_def split: if_splits)

lemma scan_step_mono:
  "map_of latest c = Some (ts, x) \<Longrightarrow> \<exists>ts' x'. map_of (scan_step e latest) c = Some (ts', x') \<and> ts \<le> ts'"
  by (cases "author e = c") (auto simp: scan_step_def)

lemma scan_step_covers: "author e \<noteq> [] \<Longrightarrow> \<exists>ts x. map_of (scan_step e latest) (author e) = Some (ts, x) \<and> ev_ts_local e \<le> ts"
  by (auto simp: scan_step_def split: option.split)

lemma frontier_scan_sound: "map_of (frontier_scan es latest) c = Some (ts, x) \<Longrightarrow>
    map_of latest c = Some (ts, x) \<or> (\<exists>e \<in> set es. c = author e \<and> ts = ev_ts_local e \<and> x = ev_id e)"
proof (induction es arbitrary: latest)
  case (Cons e es)
  from Cons.IH [OF Cons.prems [unfolded frontier_scan_Cons]] show ?case using scan_step_sound by fastforce
qed simp

lemma frontier_scan_mono:
  "map_of latest c = Some (ts, x) \<Longrightarrow> \<exists>ts' x'. map_of (frontier_scan es latest) c = Some (ts', x') \<and> ts \<le> ts'"
proof (induction es arbitrary: latest ts x)
  case (Cons e es)
  from scan_step_mono [OF Cons.prems] obtain t y where "map_of (scan_step e latest) c = Some (t, y)" "ts \<le> t" by blast
  with Cons.IH [OF this(1)] show ?case unfolding frontier_scan_Cons by (meson order_trans)
qed auto

lemma frontier_scan_covers:
  "e \<in> set es \<Longrightarrow> author e \<noteq> [] \<Longrightarrow> \<exists>ts x. map_of (frontier_scan es latest) (author e) = Some (ts, x) \<and> ev_ts_local e \<le> ts"
proof (induction es arbitrary: latest)
  case (Cons a es)
  show ?case
  proof (cases "e \<in> set es")
    case True
    from Cons.IH [OF this Cons.prems(2)] show ?thesis unfolding frontier_scan_Cons .
  next
    case False
    then have "e = a" using Cons.prems(1) by simp
    moreover obtain t y where "map_of (scan_step e latest) (author e) = Some (t, y)" "ev_ts_local e \<le> t"
      using scan_step_covers [OF Cons.prems(2)] by blast
    moreover obtain t' y' where "map_of (frontier_scan es (scan_step e latest)) (author e) = Some (t', y')" "t \<le> t'"
      using frontier_scan_mono [OF calculation(2)] by blast
    ultimately show ?thesis unfolding frontier_scan_Cons by force
  qed
qed simp

text \<open>The frontier names, for every author, an event of that author with the latest local time.\<close>

lemma local_frontier_latest:
  assumes "all_events L (nd_db n) = Inr es" "e \<in> set es" "author e \<noteq> []"
  obtains own e' where "local_frontier L n = Inr own" "e' \<in> set es" "author e' = author e" "ev_ts_local e \<le> ev_ts_local e'"
    "(author e, ev_id e') \<in> set own"
proof -
  from frontier_scan_covers [OF assms(2,3)] obtain ts x where
    m: "map_of (frontier_scan es []) (author e) = Some (ts, x)" "ev_ts_local e \<le> ts" by blast
  from frontier_scan_sound [OF m(1)] obtain e' where e': "e' \<in> set es" "author e = author e'" "ts = ev_ts_local e'" "x = ev_id e'"
    by auto
  have "local_frontier L n = Inr (map (\<lambda>(creator, (_, x)). (creator, x)) (frontier_scan es []))"
    by (simp add: local_frontier_def assms(1))
  moreover have "(author e, ev_id e') \<in> set (map (\<lambda>(creator, (_, x)). (creator, x)) (frontier_scan es []))"
    using map_of_SomeD [OF m(1)] e'(4) by force
  ultimately show thesis using that e' m(2) by metis
qed

lemma fold_pending:
  assumes "gossip_ok (nd_shared n)"
  shows "gossip_ok (nd_shared (fold gossip_add_pending xs n)) \<and>
    set (gs_pending (nd_shared (fold gossip_add_pending xs n))) = set (gs_pending (nd_shared n)) \<union> set xs"
  using assms
  by (induction xs arbitrary: n) (auto simp: gossip_add_pending_def add_pending_ok add_pending_set)

lemma advances_pull [advancing]: "advances (pull_one L w a x)"
  unfolding pull_one_def Let_def split_def by (intro advancing)

lemma pull_all_stored:
  assumes "op_each (pull_one L w a) xs n = (Inr counts, n')" "(i, x) \<in> set xs" "env \<in> set (pull_ancestry L w a x)"
  shows "ev_id (env_event env) \<in> event_ids n'"
  using assms
proof (induction xs arbitrary: n counts)
  case (Cons y ys)
  from Cons.prems(1) obtain k ks n1 where one: "pull_one L w a y n = (Inr k, n1)" and rest: "op_each (pull_one L w a) ys n1 = (Inr ks, n')"
    by (auto simp: op_bind_Inr op_run_Inr)
  show ?case
  proof (cases "(i, x) \<in> set ys")
    case True
    then show ?thesis using Cons.IH [OF rest] Cons.prems(3) by blast
  next
    case False
    then have "y = (i, x)" using Cons.prems(2) by simp
    then have "event_ids n1 = event_ids (snd (ingest_envelopes L (sw_env w i) (pull_ancestry L w a x) n))"
      using one Cons.prems(3) by (auto simp: pull_one_def op_bind_Inr op_run_Inr Let_def split: if_splits)
    then have "ev_id (env_event env) \<in> event_ids n1" using ingest_envelopes_ids Cons.prems(3) by auto
    moreover have "node_le n1 n'" by (rule advances_run [OF advances_each [OF advances_pull] rest])
    ultimately show ?thesis by (auto simp: node_le_def event_ids_def)
  qed
qed simp


definition silent_world :: sync_world where
  "silent_world = \<lparr>sw_choice = hd, sw_frontier = (\<lambda>_. Some []), sw_ancestry = (\<lambda>_ _. None), sw_env = (\<lambda>_. demo_env)\<rparr>"

lemma live_node_parts:
  "all_events demo_lib (nd_db live_node) = Inr [fresh_event demo_event None]" "nd_gossip_on live_node"
  "gossip_ok (nd_shared live_node)" "node_list_peers live_node \<noteq> []"
proof -
  show "all_events demo_lib (nd_db live_node) = Inr [fresh_event demo_event None]"
    by (simp add: live_node_def set_db_def all_events_def demo_db_def demo_envelope_def store_new has_event_def empty_db_def
        by_created_def event_from_new_row)
  have "gossip_ok (nd_shared demo_node)" "node_list_peers demo_node \<noteq> []" by code_simp+
  then show "gossip_ok (nd_shared live_node)" "node_list_peers live_node \<noteq> []"
    by (simp_all add: live_node_def set_db_def gossip_ok_def node_list_peers_def)
  show "nd_gossip_on live_node" by (simp add: live_node_def)
qed


end
