(* ===== verification/Discovery.thy ===== *)
theory Discovery
  imports NodeLifecycle
begin

text \<open>
  \<open>mdrj/discovery.py\<close>: one pass of the discovery loop, the back end that resolves a Kubernetes service, the queue of
  the mDNS back end, and the choice of the back end. What the resolver and Zeroconf report is an argument. The
  callback is the node's \<open>on_discovered_peer\<close>.
\<close>

record discovery_config =
  dc_mode :: string
  dc_poll_interval_sec :: rat
  dc_auto_approve_discovered :: bool
  dc_advertise_port :: "int option"
  dc_k8s_service :: "string option"
  dc_k8s_target_port :: int

record discovered_peer =
  dp_address :: string
  dp_node_id :: string

datatype discovery_kind = K8s string int | MDNS int "discovered_peer list"

record discovery =
  di_kind :: discovery_kind
  di_node_id :: string
  di_poll_interval_sec :: rat
  di_self_address :: string
  di_known :: "string set"

fun kind_name :: "discovery_kind \<Rightarrow> string" where
  "kind_name (K8s _ _) = ''k8s''"
| "kind_name (MDNS _ _) = ''mdns''"

definition discovery_init :: "discovery_kind \<Rightarrow> string \<Rightarrow> rat \<Rightarrow> string \<Rightarrow> discovery" where
  "discovery_init kind node_id poll_interval_sec self_address =
     \<lparr>di_kind = kind, di_node_id = node_id, di_poll_interval_sec = max 1 poll_interval_sec, di_self_address = self_address, di_known = {}\<rparr>"

section \<open>Back ends\<close>

text \<open>\<open>socket.getaddrinfo\<close>: none when the name does not resolve; an entry is the address, if it has one.\<close>

fun distinct_ips :: "string option list \<Rightarrow> string list \<Rightarrow> string list" where
  "distinct_ips [] seen = seen"
| "distinct_ips (info # infos) seen =
     (case info of
        None \<Rightarrow> distinct_ips infos seen
      | Some ip \<Rightarrow> if ip = [] \<or> ip \<in> set seen then distinct_ips infos seen else distinct_ips infos (seen @ [ip]))"

definition resolve_service :: "int \<Rightarrow> string option list option \<Rightarrow> discovered_peer list" where
  "resolve_service target_port infos =
     (case infos of
        None \<Rightarrow> []
      | Some found \<Rightarrow> map (\<lambda>ip. \<lparr>dp_address = ip @ '':'' @ int_str target_port, dp_node_id = []\<rparr>) (distinct_ips found []))"

text \<open>A service announced over Zeroconf: its addresses, its port and its \<open>node_id\<close> property.\<close>

definition on_zeroconf_add :: "string list \<Rightarrow> int option \<Rightarrow> string option \<Rightarrow> discovered_peer list" where
  "on_zeroconf_add addresses port raw_node_id =
     (if addresses = [] \<or> port = None \<or> port = Some 0 then []
      else map (\<lambda>addr. \<lparr>dp_address = addr @ '':'' @ int_str (the port), dp_node_id = opt_str raw_node_id\<rparr>) addresses)"

definition record_peer :: "discovered_peer \<Rightarrow> discovery \<Rightarrow> discovery" where
  "record_peer p d = (case di_kind d of K8s _ _ \<Rightarrow> d | MDNS port found \<Rightarrow> d\<lparr>di_kind := MDNS port (found @ [p])\<rparr>)"

definition discover_once :: "(string \<Rightarrow> string option list option) \<Rightarrow> discovery \<Rightarrow> discovered_peer list \<times> discovery" where
  "discover_once resolve d =
     (case di_kind d of
        K8s service target_port \<Rightarrow> (resolve_service target_port (resolve service), d)
      | MDNS port found \<Rightarrow> (found, d\<lparr>di_kind := MDNS port []\<rparr>))"

text \<open>\<open>int(listen.split(":")[1])\<close>, or the target port when that raises.\<close>

definition listen_port_or :: "discovery_config \<Rightarrow> string \<Rightarrow> int" where
  "listen_port_or config listen =
     (case split_char (CHR '':'') listen of
        _ # port # _ \<Rightarrow> (case py_int (JStr port) of Inr p \<Rightarrow> p | Inl _ \<Rightarrow> dc_k8s_target_port config)
      | _ \<Rightarrow> dc_k8s_target_port config)"

definition build_discovery :: "discovery_config \<Rightarrow> string \<Rightarrow> string \<Rightarrow> discovery option" where
  "build_discovery config node_id listen =
     (let mode = py_lower (py_strip (str_or (dc_mode config) ''disabled''))
      in if mode = ''disabled'' then None
         else if mode = ''k8s'' then
           (case dc_k8s_service config of
              Some (c # cs) \<Rightarrow> Some (discovery_init (K8s (c # cs) (dc_k8s_target_port config)) node_id (dc_poll_interval_sec config) listen)
            | _ \<Rightarrow> None)
         else if mode = ''mdns'' then
           let port = (case dc_advertise_port config of
                 Some p \<Rightarrow> if p \<noteq> 0 then p else listen_port_or config listen
               | None \<Rightarrow> listen_port_or config listen)
           in Some (discovery_init (MDNS port []) node_id (dc_poll_interval_sec config) listen)
         else None)"

section \<open>One pass\<close>

text \<open>The body of the loop after the back end has answered; \<open>clocks i\<close> is the clock during the \<open>i\<close>-th callback.\<close>

fun discovery_pass :: "pylib \<Rightarrow> (nat \<Rightarrow> nat \<Rightarrow> timestamp) \<Rightarrow> nat \<Rightarrow> discovered_peer list \<Rightarrow> discovery \<Rightarrow> node \<Rightarrow> discovery \<times> node" where
  "discovery_pass L clocks i [] d n = (d, n)"
| "discovery_pass L clocks i (p # ps) d n =
     (if dp_address p = [] \<or> dp_address p = di_self_address d then discovery_pass L clocks (Suc i) ps d n
      else let key = dp_address p @ ''|'' @ dp_node_id p
           in if key \<in> di_known d then discovery_pass L clocks (Suc i) ps d n
              else discovery_pass L clocks (Suc i) ps (d\<lparr>di_known := insert key (di_known d)\<rparr>)
                     (snd (on_discovered_peer L (clocks i) (dp_address p) (dp_node_id p) (kind_name (di_kind d)) n)))"

lemma kind_name_in: "kind_name k \<in> {''mdns'', ''k8s''}"
  by (cases k) auto

lemma register_config: "nd_config (snd (register_peer L clock a nt src role nid st n)) = nd_config n"
proof -
  have folded: "nd_config (fold (\<lambda>e. gossip_add_pending (ev_id e)) es m) = nd_config m" for es m
    by (induction es arbitrary: m) simp_all
  have health: "nd_config (refresh_peer_health m) = nd_config m" for m by (simp add: refresh_peer_health_def)
  show ?thesis
    unfolding register_peer_def Let_def
    by (simp only: split: prod.split option.split sum.split) (simp add: folded health)
qed

lemma discovered_config: "nd_config (snd (on_discovered_peer L clock a nid src n)) = nd_config n"
  by (auto simp: on_discovered_peer_def op_catch_def op_ret_def Let_def split: prod.split sum.split)
    (metis register_config snd_conv)+

lemma pass_steps: "(peer_step L)\<^sup>*\<^sup>* n (snd (discovery_pass L clocks i ps d n))"
proof (induction ps arbitrary: i d n)
  case (Cons p ps)
  have "peer_step L n (snd (on_discovered_peer L (clocks i) (dp_address p) (dp_node_id p) (kind_name (di_kind d)) n))"
    by (rule ps_discover [OF kind_name_in])
  then show ?case using Cons by (auto simp: Let_def intro: converse_rtranclp_into_rtranclp)
qed simp

lemma pass_peers:
  "peer_gate n \<Longrightarrow> \<not> nc_auto_approve_discovered (nd_config n) \<Longrightarrow> nd_peers (snd (discovery_pass L clocks i ps d n)) = nd_peers n"
proof (induction ps arbitrary: i d n)
  case (Cons p ps)
  note gate = discovered_peer_gate [OF Cons.prems(1) kind_name_in]
  show ?case using Cons.IH gate Cons.prems by (auto simp: Let_def discovered_config)
qed simp

text \<open>A pass only adds to what it knows; afterwards it knows every peer it was given.\<close>

lemma pass_known:
  "di_self_address (fst (discovery_pass L clocks i ps d n)) = di_self_address d \<and> di_known d \<subseteq> di_known (fst (discovery_pass L clocks i ps d n)) \<and>
   (\<forall>p \<in> set ps. dp_address p = [] \<or> dp_address p = di_self_address d \<or>
      dp_address p @ ''|'' @ dp_node_id p \<in> di_known (fst (discovery_pass L clocks i ps d n)))"
proof (induction ps arbitrary: i d n)
  case (Cons p ps)
  show ?case
    using Cons [of "Suc i" d n] Cons [of "Suc i" "d\<lparr>di_known := insert (dp_address p @ ''|'' @ dp_node_id p) (di_known d)\<rparr>"
      "snd (on_discovered_peer L (clocks i) (dp_address p) (dp_node_id p) (kind_name (di_kind d)) n)"]
    by (auto simp: Let_def)
qed simp

lemma pass_idle:
  "\<forall>p \<in> set ps. dp_address p = [] \<or> dp_address p = di_self_address d \<or> dp_address p @ ''|'' @ dp_node_id p \<in> di_known d \<Longrightarrow>
   discovery_pass L clocks i ps d n = (d, n)"
  by (induction ps arbitrary: i) (auto simp: Let_def)

text \<open>
  Discovery proposes, the operator admits. A pass of the discovery loop is a sequence of admission steps of the
  node, so that every guarantee about the set of active peers goes on holding; without automatic approval it leaves that
  set as it was, whatever the back end reports; and a peer that has been reported is not handed to the node again.
\<close>

theorem discovery_admission:
  assumes "reachable node_start (peer_step L) n"
  shows "reachable node_start (peer_step L) (snd (discovery_pass L clocks i ps d n)) \<and>
    (\<not> nc_auto_approve_discovered (nd_config n) \<longrightarrow> nd_peers (snd (discovery_pass L clocks i ps d n)) = nd_peers n) \<and>
    discovery_pass L clocks' j ps (fst (discovery_pass L clocks i ps d n)) (snd (discovery_pass L clocks i ps d n)) = discovery_pass L clocks i ps d n"
proof -
  have "reachable node_start (peer_step L) m" if "(peer_step L)\<^sup>*\<^sup>* n m" for m
    using that assms by (induction rule: rtranclp_induct) (auto intro: reachable.intros)
  moreover have "peer_gate n" by (rule peer_gate.reachable_inv [OF assms])
  ultimately show ?thesis
    using pass_steps pass_peers pass_known [of L clocks i ps d n] pass_idle by (auto intro!: pass_idle [THEN trans])
qed

definition demo_discovery :: discovery where
  "demo_discovery = discovery_init (K8s ''mdrj'' 8) ''n1'' 10 ''n1:8''"

definition demo_found :: "discovered_peer list" where
  "demo_found = fst (discover_once (\<lambda>_. Some [Some ''10.0.0.7'', None, Some ''10.0.0.7'', Some ''10.0.0.8'']) demo_discovery)"

theorem discovery_admission_witness:
  "map dp_address demo_found = [''10.0.0.7:8'', ''10.0.0.8:8''] \<and>
   nd_peers (snd (discovery_pass demo_lib (\<lambda>_ _. 0) 0 demo_found demo_discovery demo_node)) = nd_peers demo_node"
proof
  show "map dp_address demo_found = [''10.0.0.7:8'', ''10.0.0.8:8'']"
    by code_simp
  have "\<not> nc_auto_approve_discovered (nd_config demo_node)" by code_simp
  then show "nd_peers (snd (discovery_pass demo_lib (\<lambda>_ _. 0) 0 demo_found demo_discovery demo_node)) = nd_peers demo_node"
    using discovery_admission [of demo_lib demo_node "\<lambda>_ _. 0" 0 demo_found demo_discovery "\<lambda>_ _. 0" 0]
      reach_init [of node_start demo_node, OF demo_node_start] by blast
qed

end
