(* ===== verification/Config.thy ===== *)
theory Config
  imports LoginBursts Journald Notifier Discovery
begin

text \<open>
  \<open>mdrj/config.py\<close>: the configuration of a node, read from a YAML file after the environment variables in it are
  expanded. The YAML parser is an argument that turns text into a JSON value. The conversions \<open>int\<close>, \<open>float\<close>,
  \<open>bool\<close>, \<open>str\<close> and \<open>list\<close> are those of \<open>Conversions\<close>. A field that the loader copies without
  conversion must have its annotated type: another type counts as a \<open>TypeError\<close> of the load, where Python would keep the
  value and fail when it is used.
\<close>

section \<open>The configuration\<close>

record gossip_config =
  gc_period_sec :: rat
  gc_fan_out :: int

record prioritization_config =
  pz_threshold_B :: string
  pz_batch_bytes :: int

record collectors_config =
  cc_journald :: journald_config
  cc_audit :: audit_config
  cc_firewall :: firewall_config
  cc_proc :: proc_config
  cc_host_lifecycle :: host_config

record retention_config =
  rt_enabled :: bool
  rt_max_db_bytes :: int
  rt_max_age_days :: int
  rt_keep_class_a :: bool
  rt_archive_path :: "string option"
  rt_poll_interval_sec :: rat

record heartbeat_config =
  hb_enabled :: bool
  hb_interval_sec :: rat

record runtime_config =
  rn_recompute_debounce_sec :: rat
  rn_checkpoint_propose_interval_sec :: rat
  rn_checkpoint_propose_margin :: int
  rn_class_a_fanout_quorum_ratio :: rat
  rn_class_a_fanout_timeout_sec :: rat
  rn_class_a_fanout_max_retries :: int
  rn_frontier_sync_interval_sec :: rat
  rn_tamper_verify_interval_sec :: rat
  rn_hourly_status_interval_sec :: rat

record file_config =
  cf_node_id :: string
  cf_listen :: string
  cf_peers :: "string list"
  cf_profile :: node_profile
  cf_gossip :: gossip_config
  cf_prioritization :: prioritization_config
  cf_hmac_key :: "string option"
  cf_sqlite_path :: string
  cf_linux_ingest :: linux_ingest_config
  cf_collectors :: collectors_config
  cf_retention :: retention_config
  cf_discovery :: discovery_config
  cf_notifier :: notifier_config
  cf_agent_relay :: relay_config
  cf_heartbeat :: heartbeat_config
  cf_runtime :: runtime_config
  cf_ui_enabled :: bool

definition cf_host :: "file_config \<Rightarrow> string" where
  "cf_host c = hd (split_char (CHR '':'') (cf_listen c))"

definition cf_port :: "file_config \<Rightarrow> int result" where
  "cf_port c = (case split_char (CHR '':'') (cf_listen c) of _ # port # _ \<Rightarrow> py_int (JStr port) | _ \<Rightarrow> Inl IndexError)"

text \<open>The defaults of the dataclasses.\<close>

definition default_linux_ingest :: linux_ingest_config where
  "default_linux_ingest =
     \<lparr>li_enabled = False, li_source_type = ''auth_log_file'', li_auth_log_path = None, li_poll_interval_sec = 2, li_host_id = None,
      li_admin_users = [], li_privileged_groups = [], li_state_path = None\<rparr>"

definition DEFAULT_WATCH_PATHS :: "string list" where
  "DEFAULT_WATCH_PATHS = [''/etc/passwd'', ''/etc/shadow'', ''/etc/sudoers'', ''/etc/ssh/sshd_config'', ''/etc/hosts'', ''/etc/pam.d/sshd'']"

definition DEFAULT_MALWARE_BLOCKLIST :: "string list" where
  "DEFAULT_MALWARE_BLOCKLIST = [''xmrig'', ''minerd'', ''kdevtmpfsi'', ''kinsing'', ''tsunami'']"

definition default_journald :: journald_config where
  "default_journald =
     \<lparr>jc_enabled = False, jc_units = [''ssh.service'', ''sshd.service''], jc_burst_window_sec = 60, jc_burst_threshold = 10,
      jc_poll_interval_sec = 5\<rparr>"

definition default_audit :: audit_config where
  "default_audit =
     \<lparr>ac_enabled = False, ac_watch_paths = DEFAULT_WATCH_PATHS, ac_poll_interval_sec = 5, ac_hash_max_bytes = 1048576\<rparr>"

definition default_firewall :: firewall_config where
  "default_firewall = \<lparr>fc_enabled = False, fc_tool = ''iptables-save'', fc_poll_interval_sec = 10\<rparr>"

definition default_proc :: proc_config where
  "default_proc =
     \<lparr>pc_enabled = False, pc_blocklist = DEFAULT_MALWARE_BLOCKLIST, pc_privileged_uids = [0], pc_poll_interval_sec = 3, pc_proc_root = ''/proc''\<rparr>"

definition default_host :: host_config where
  "default_host =
     \<lparr>hl_enabled = False, hl_poll_interval_sec = 60, hl_proc_uptime_path = ''/proc/uptime'', hl_boot_time_drift_threshold_sec = 30\<rparr>"

definition default_collectors :: collectors_config where
  "default_collectors =
     \<lparr>cc_journald = default_journald, cc_audit = default_audit, cc_firewall = default_firewall, cc_proc = default_proc,
      cc_host_lifecycle = default_host\<rparr>"

definition default_retention :: retention_config where
  "default_retention =
     \<lparr>rt_enabled = False, rt_max_db_bytes = 100 * 1024 * 1024, rt_max_age_days = 30, rt_keep_class_a = True, rt_archive_path = None,
      rt_poll_interval_sec = 300\<rparr>"

definition default_discovery :: discovery_config where
  "default_discovery =
     \<lparr>dc_mode = ''disabled'', dc_poll_interval_sec = 10, dc_auto_approve_discovered = False, dc_advertise_port = None,
      dc_k8s_service = None, dc_k8s_target_port = 9001\<rparr>"

definition default_email :: email_config where
  "default_email =
     \<lparr>em_enabled = False, em_smtp_host = [], em_smtp_port = 587, em_smtp_user = None, em_smtp_password = None, em_use_tls = True,
      em_from_addr = [], em_to_addrs = []\<rparr>"

definition default_telegram :: telegram_config where
  "default_telegram = \<lparr>tg_enabled = False, tg_bot_token = [], tg_chat_ids = [], tg_timeout_sec = 10\<rparr>"

definition default_notifier :: notifier_config where
  "default_notifier =
     \<lparr>nf_enabled = False, nf_trigger_classes = [''A''], nf_email = default_email, nf_telegram = default_telegram\<rparr>"

definition default_relay :: relay_config where
  "default_relay =
     \<lparr>rc_enabled = False, rc_relay_url = [], rc_timeout_sec = 5, rc_max_retries = 3, rc_retry_backoff_sec = 1\<rparr>"

definition default_heartbeat :: heartbeat_config where
  "default_heartbeat = \<lparr>hb_enabled = False, hb_interval_sec = 300\<rparr>"

definition default_runtime :: runtime_config where
  "default_runtime =
     \<lparr>rn_recompute_debounce_sec = 0, rn_checkpoint_propose_interval_sec = 0, rn_checkpoint_propose_margin = 5,
      rn_class_a_fanout_quorum_ratio = 0, rn_class_a_fanout_timeout_sec = 10, rn_class_a_fanout_max_retries = 3,
      rn_frontier_sync_interval_sec = 0, rn_tamper_verify_interval_sec = 0, rn_hourly_status_interval_sec = 0\<rparr>"

section \<open>Environment variables\<close>

text \<open>\<open>\<dollar>{NAME}\<close>, \<open>\<dollar>{NAME:default}\<close> and \<open>\<dollar>{NAME:-default}\<close>\<close>

definition is_env_char :: "char \<Rightarrow> bool" where
  "is_env_char c \<longleftrightarrow> c \<in> set ''ABCDEFGHIJKLMNOPQRSTUVWXYZ0123456789_''"

definition ENV_PATTERN :: rx where
  "ENV_PATTERN = seqs
     [Lit ''${'', Grp ''name'' (Rep is_env_char 1 None),
      Opt (seqs [Lit '':'', Opt (Lit ''-''), Grp ''default'' (Rep (\<lambda>c. c \<noteq> CHR ''}'') 0 None)]), Lit ''}'']"

text \<open>The pattern has no word boundary, so the character before the match does not matter.\<close>

definition env_match :: "string \<Rightarrow> (string \<times> groups) option" where
  "env_match s = rx_run ENV_PATTERN None s [] (\<lambda>_ rest g. Some (rest, g))"

lemma env_match_shorter: "env_match s = Some (rest, g) \<Longrightarrow> length rest < length s"
proof -
  assume "env_match s = Some (rest, g)"
  from rx_run_sound [OF this [unfolded env_match_def]] obtain u where u: "s = u @ rest" "accepts ENV_PATTERN None u rest" by auto
  from u(2) obtain i where "i \<le> length u" "take i u = ''${''" by (auto simp: ENV_PATTERN_def)
  then have "u \<noteq> []" by auto
  with u(1) show ?thesis by simp
qed

definition env_value :: "(string \<Rightarrow> string option) \<Rightarrow> groups \<Rightarrow> string" where
  "env_value env g = (case env (group g ''name'') of Some v \<Rightarrow> v | None \<Rightarrow> group g ''default'')"

text \<open>\<open>ENV_PATTERN.sub(_replace, text)\<close>; the pattern matches no empty text.\<close>

function expand_env_vars :: "(string \<Rightarrow> string option) \<Rightarrow> string \<Rightarrow> string" where
  "expand_env_vars env s =
     (case env_match s of
        Some (rest, g) \<Rightarrow> env_value env g @ expand_env_vars env rest
      | None \<Rightarrow> (case s of [] \<Rightarrow> [] | c # cs \<Rightarrow> c # expand_env_vars env cs))"
  by pat_completeness auto
termination by (relation "measure (\<lambda>(_, s). length s)") (auto dest: env_match_shorter)

declare expand_env_vars.simps [simp del]

section \<open>The loader\<close>

text \<open>\<open>list(x)\<close>, and \<open>raw.get(key, fallback)\<close> followed by a conversion.\<close>

fun py_list :: "json \<Rightarrow> json list result" where
  "py_list (JList js) = Inr js"
| "py_list (JStr s) = Inr (map (\<lambda>c. JStr [c]) s)"
| "py_list (JObj kvs) = Inr (map (JStr \<circ> fst) kvs)"
| "py_list _ = Inl TypeError"

definition cfg_int :: "(string, json) dict \<Rightarrow> string \<Rightarrow> int \<Rightarrow> int result" where
  "cfg_int raw key fallback = py_int (dict_get raw key (JInt fallback))"

definition cfg_float :: "pylib \<Rightarrow> (string, json) dict \<Rightarrow> string \<Rightarrow> rat \<Rightarrow> rat result" where
  "cfg_float L raw key fallback = py_float (floats L) (dict_get raw key (JFloat fallback))"

definition cfg_bool :: "(string, json) dict \<Rightarrow> string \<Rightarrow> bool \<Rightarrow> bool" where
  "cfg_bool raw key fallback = json_truthy (dict_get raw key (JBool fallback))"

definition cfg_str :: "pylib \<Rightarrow> (string, json) dict \<Rightarrow> string \<Rightarrow> string \<Rightarrow> string result" where
  "cfg_str L raw key fallback = py_str L (dict_get raw key (JStr fallback))"

definition cfg_strs :: "(string, json) dict \<Rightarrow> string \<Rightarrow> string list \<Rightarrow> string list result" where
  "cfg_strs raw key fallback = res_bind (py_list (dict_get raw key (JList (map JStr fallback)))) (res_map as_str)"

lemmas cfg_defs = cfg_int_def cfg_float_def cfg_bool_def cfg_str_def cfg_strs_def

text \<open>\<open>raw.get(key, {}) or {}\<close>, then used as a dictionary\<close>

definition section_of :: "(string, json) dict \<Rightarrow> string \<Rightarrow> (string, json) dict result" where
  "section_of raw key = (let j = dict_get raw key (JObj []) in as_obj (if json_truthy j then j else JObj []))"

definition parse_peers :: "pylib \<Rightarrow> json \<Rightarrow> string list result" where
  "parse_peers L raw_peers =
     (case raw_peers of
        JList items \<Rightarrow> res_bind (res_map (py_str L) items) (\<lambda>texts. Inr (filter (\<lambda>t. t \<noteq> []) (map py_strip texts)))
      | JStr s \<Rightarrow> Inr (filter (\<lambda>t. t \<noteq> []) (map py_strip (split_char (CHR '','') s)))
      | _ \<Rightarrow> Inr [])"

definition parse_runtime :: "pylib \<Rightarrow> (string, json) dict \<Rightarrow> runtime_config result" where
  "parse_runtime L raw =
     res_bind (cfg_float L raw ''recompute_debounce_sec'' 0) (\<lambda>debounce.
     res_bind (cfg_float L raw ''checkpoint_propose_interval_sec'' 0) (\<lambda>propose.
     res_bind (cfg_int raw ''checkpoint_propose_margin'' 5) (\<lambda>margin.
     res_bind (cfg_float L raw ''class_a_fanout_quorum_ratio'' 0) (\<lambda>ratio.
     res_bind (cfg_float L raw ''class_a_fanout_timeout_sec'' 10) (\<lambda>timeout.
     res_bind (cfg_int raw ''class_a_fanout_max_retries'' 3) (\<lambda>retries.
     res_bind (cfg_float L raw ''frontier_sync_interval_sec'' 0) (\<lambda>frontier.
     res_bind (cfg_float L raw ''tamper_verify_interval_sec'' 0) (\<lambda>tamper.
     res_bind (cfg_float L raw ''hourly_status_interval_sec'' 0) (\<lambda>hourly.
     Inr \<lparr>rn_recompute_debounce_sec = debounce, rn_checkpoint_propose_interval_sec = propose, rn_checkpoint_propose_margin = margin,
       rn_class_a_fanout_quorum_ratio = ratio, rn_class_a_fanout_timeout_sec = timeout, rn_class_a_fanout_max_retries = retries,
       rn_frontier_sync_interval_sec = frontier, rn_tamper_verify_interval_sec = tamper, rn_hourly_status_interval_sec = hourly\<rparr>)))))))))"

definition parse_heartbeat :: "pylib \<Rightarrow> (string, json) dict \<Rightarrow> heartbeat_config result" where
  "parse_heartbeat L raw =
     res_bind (cfg_float L raw ''interval_sec'' 300) (\<lambda>interval.
     Inr \<lparr>hb_enabled = cfg_bool raw ''enabled'' False, hb_interval_sec = interval\<rparr>)"

definition parse_agent_relay :: "pylib \<Rightarrow> (string, json) dict \<Rightarrow> relay_config result" where
  "parse_agent_relay L raw =
     res_bind (cfg_str L raw ''relay_url'' []) (\<lambda>url.
     res_bind (cfg_float L raw ''timeout_sec'' 5) (\<lambda>timeout.
     res_bind (cfg_int raw ''max_retries'' 3) (\<lambda>retries.
     res_bind (cfg_float L raw ''retry_backoff_sec'' 1) (\<lambda>backoff.
     Inr \<lparr>rc_enabled = cfg_bool raw ''enabled'' False, rc_relay_url = url, rc_timeout_sec = timeout, rc_max_retries = retries,
       rc_retry_backoff_sec = backoff\<rparr>))))"

definition parse_email :: "pylib \<Rightarrow> (string, json) dict \<Rightarrow> email_config result" where
  "parse_email L raw =
     res_bind (cfg_str L raw ''smtp_host'' []) (\<lambda>host.
     res_bind (cfg_int raw ''smtp_port'' 587) (\<lambda>port.
     res_bind (as_opt_str (jget raw ''smtp_user'')) (\<lambda>user.
     res_bind (as_opt_str (jget raw ''smtp_password'')) (\<lambda>password.
     res_bind (cfg_str L raw ''from_addr'' []) (\<lambda>from_addr.
     res_bind (cfg_strs raw ''to_addrs'' []) (\<lambda>to_addrs.
     Inr \<lparr>em_enabled = cfg_bool raw ''enabled'' False, em_smtp_host = host, em_smtp_port = port, em_smtp_user = user,
       em_smtp_password = password, em_use_tls = cfg_bool raw ''use_tls'' True, em_from_addr = from_addr, em_to_addrs = to_addrs\<rparr>))))))"

definition parse_telegram :: "pylib \<Rightarrow> (string, json) dict \<Rightarrow> telegram_config result" where
  "parse_telegram L raw =
     res_bind (cfg_str L raw ''bot_token'' []) (\<lambda>token.
     res_bind (res_bind (py_list (dict_get raw ''chat_ids'' (JList []))) (res_map (py_str L))) (\<lambda>chats.
     res_bind (cfg_float L raw ''timeout_sec'' 10) (\<lambda>timeout.
     Inr \<lparr>tg_enabled = cfg_bool raw ''enabled'' False, tg_bot_token = token, tg_chat_ids = chats, tg_timeout_sec = timeout\<rparr>)))"

definition parse_notifier :: "pylib \<Rightarrow> (string, json) dict \<Rightarrow> notifier_config result" where
  "parse_notifier L raw =
     res_bind (cfg_strs raw ''trigger_classes'' [''A'']) (\<lambda>classes.
     res_bind (res_bind (section_of raw ''email'') (parse_email L)) (\<lambda>email.
     res_bind (res_bind (section_of raw ''telegram'') (parse_telegram L)) (\<lambda>telegram.
     Inr \<lparr>nf_enabled = cfg_bool raw ''enabled'' False, nf_trigger_classes = classes, nf_email = email, nf_telegram = telegram\<rparr>)))"

definition parse_discovery :: "pylib \<Rightarrow> (string, json) dict \<Rightarrow> discovery_config result" where
  "parse_discovery L raw =
     res_bind (cfg_str L raw ''mode'' ''disabled'') (\<lambda>mode.
     res_bind (cfg_float L raw ''poll_interval_sec'' 10) (\<lambda>interval.
     res_bind (if jget raw ''advertise_port'' = JNull then Inr None else res_bind (py_int (jget raw ''advertise_port'')) (Inr \<circ> Some)) (\<lambda>port.
     res_bind (as_opt_str (jget raw ''k8s_service'')) (\<lambda>service.
     res_bind (cfg_int raw ''k8s_target_port'' 9001) (\<lambda>target.
     Inr \<lparr>dc_mode = mode, dc_poll_interval_sec = interval, dc_auto_approve_discovered = cfg_bool raw ''auto_approve_discovered'' False,
       dc_advertise_port = port, dc_k8s_service = service, dc_k8s_target_port = target\<rparr>)))))"

definition parse_retention :: "pylib \<Rightarrow> (string, json) dict \<Rightarrow> retention_config result" where
  "parse_retention L raw =
     res_bind (cfg_int raw ''max_db_bytes'' (100 * 1024 * 1024)) (\<lambda>db_bytes.
     res_bind (cfg_int raw ''max_age_days'' 30) (\<lambda>days.
     res_bind (as_opt_str (jget raw ''archive_path'')) (\<lambda>archive.
     res_bind (cfg_float L raw ''poll_interval_sec'' 300) (\<lambda>interval.
     Inr \<lparr>rt_enabled = cfg_bool raw ''enabled'' False, rt_max_db_bytes = db_bytes, rt_max_age_days = days,
       rt_keep_class_a = cfg_bool raw ''keep_class_a'' True, rt_archive_path = archive, rt_poll_interval_sec = interval\<rparr>))))"

definition parse_linux_ingest :: "pylib \<Rightarrow> (string, json) dict \<Rightarrow> linux_ingest_config result" where
  "parse_linux_ingest L raw =
     res_bind (cfg_str L raw ''source_type'' ''auth_log_file'') (\<lambda>source_type.
     res_bind (as_opt_str (jget raw ''auth_log_path'')) (\<lambda>path.
     res_bind (cfg_float L raw ''poll_interval_sec'' 2) (\<lambda>interval.
     res_bind (as_opt_str (jget raw ''host_id'')) (\<lambda>host.
     res_bind (cfg_strs raw ''admin_users'' []) (\<lambda>admins.
     res_bind (cfg_strs raw ''privileged_groups'' []) (\<lambda>groups.
     res_bind (as_opt_str (jget raw ''state_path'')) (\<lambda>state.
     Inr \<lparr>li_enabled = cfg_bool raw ''enabled'' False, li_source_type = source_type, li_auth_log_path = path, li_poll_interval_sec = interval,
       li_host_id = host, li_admin_users = admins, li_privileged_groups = groups, li_state_path = state\<rparr>)))))))"

definition parse_journald :: "pylib \<Rightarrow> (string, json) dict \<Rightarrow> journald_config result" where
  "parse_journald L raw =
     res_bind (cfg_strs raw ''units'' [''ssh.service'', ''sshd.service'']) (\<lambda>units.
     res_bind (cfg_int raw ''burst_window_sec'' 60) (\<lambda>window.
     res_bind (cfg_int raw ''burst_threshold'' 10) (\<lambda>threshold.
     res_bind (cfg_float L raw ''poll_interval_sec'' 5) (\<lambda>interval.
     Inr \<lparr>jc_enabled = cfg_bool raw ''enabled'' False, jc_units = units, jc_burst_window_sec = window, jc_burst_threshold = threshold,
       jc_poll_interval_sec = interval\<rparr>))))"

definition parse_audit :: "pylib \<Rightarrow> (string, json) dict \<Rightarrow> audit_config result" where
  "parse_audit L raw =
     res_bind (cfg_strs raw ''watch_paths'' (ac_watch_paths default_audit)) (\<lambda>paths.
     res_bind (cfg_float L raw ''poll_interval_sec'' 5) (\<lambda>interval.
     res_bind (cfg_int raw ''hash_max_bytes'' 1048576) (\<lambda>hash_bytes.
     Inr \<lparr>ac_enabled = cfg_bool raw ''enabled'' False, ac_watch_paths = paths, ac_poll_interval_sec = interval, ac_hash_max_bytes = hash_bytes\<rparr>)))"

definition parse_firewall :: "pylib \<Rightarrow> (string, json) dict \<Rightarrow> firewall_config result" where
  "parse_firewall L raw =
     res_bind (cfg_str L raw ''tool'' ''iptables-save'') (\<lambda>tool.
     res_bind (cfg_float L raw ''poll_interval_sec'' 10) (\<lambda>interval.
     Inr \<lparr>fc_enabled = cfg_bool raw ''enabled'' False, fc_tool = tool, fc_poll_interval_sec = interval\<rparr>))"

definition parse_proc :: "pylib \<Rightarrow> (string, json) dict \<Rightarrow> proc_config result" where
  "parse_proc L raw =
     res_bind (cfg_strs raw ''blocklist'' (pc_blocklist default_proc)) (\<lambda>blocklist.
     res_bind (let j = dict_get raw ''privileged_uids'' (JList [JInt 0])
               in res_bind (if json_truthy j then py_list j else Inr []) (res_map py_int)) (\<lambda>uids.
     res_bind (cfg_float L raw ''poll_interval_sec'' 3) (\<lambda>interval.
     res_bind (cfg_str L raw ''proc_root'' ''/proc'') (\<lambda>root.
     Inr \<lparr>pc_enabled = cfg_bool raw ''enabled'' False, pc_blocklist = blocklist, pc_privileged_uids = uids, pc_poll_interval_sec = interval,
       pc_proc_root = root\<rparr>))))"

definition parse_host :: "pylib \<Rightarrow> (string, json) dict \<Rightarrow> host_config result" where
  "parse_host L raw =
     res_bind (cfg_float L raw ''poll_interval_sec'' 60) (\<lambda>interval.
     res_bind (cfg_str L raw ''proc_uptime_path'' ''/proc/uptime'') (\<lambda>path.
     res_bind (cfg_float L raw ''boot_time_drift_threshold_sec'' 30) (\<lambda>drift.
     Inr \<lparr>hl_enabled = cfg_bool raw ''enabled'' False, hl_poll_interval_sec = interval, hl_proc_uptime_path = path,
       hl_boot_time_drift_threshold_sec = drift\<rparr>)))"

definition parse_collectors :: "pylib \<Rightarrow> (string, json) dict \<Rightarrow> collectors_config result" where
  "parse_collectors L raw =
     res_bind (res_bind (section_of raw ''journald'') (parse_journald L)) (\<lambda>journald.
     res_bind (res_bind (section_of raw ''audit'') (parse_audit L)) (\<lambda>audit.
     res_bind (res_bind (section_of raw ''firewall'') (parse_firewall L)) (\<lambda>firewall.
     res_bind (res_bind (section_of raw ''proc'') (parse_proc L)) (\<lambda>proc.
     res_bind (res_bind (section_of raw ''host_lifecycle'') (parse_host L)) (\<lambda>host.
     Inr \<lparr>cc_journald = journald, cc_audit = audit, cc_firewall = firewall, cc_proc = proc, cc_host_lifecycle = host\<rparr>)))))"

definition parse_profile :: "pylib \<Rightarrow> (string, json) dict \<Rightarrow> node_profile result" where
  "parse_profile L raw =
     res_bind (res_bind (get_item raw ''role'') (str_or_empty L)) (\<lambda>role.
     res_bind (res_bind (get_item raw ''memory_mb'') py_int) (\<lambda>memory_mb.
     res_bind (res_bind (get_item raw ''bw_kbps'') py_int) (\<lambda>bw_kbps.
     res_bind (cfg_float L raw ''cpu_quota'' 1) (\<lambda>cpu_quota.
     res_bind (res_bind (get_item raw ''threat_level'') as_str) (\<lambda>threat_level.
     Inr \<lparr>np_memory_mb = memory_mb, np_bw_kbps = bw_kbps, np_cpu_quota = cpu_quota, np_role = normalize_node_role (Some role),
       np_threat_level = threat_level\<rparr>)))))"

definition load_raw :: "pylib \<Rightarrow> (string, json) dict \<Rightarrow> file_config result" where
  "load_raw L raw =
     res_bind (res_bind (res_bind (get_item raw ''profile'') as_obj) (parse_profile L)) (\<lambda>profile.
     res_bind (res_bind (get_item raw ''gossip'') as_obj) (\<lambda>gossip_raw.
     res_bind (cfg_float L gossip_raw ''period_sec'' 1) (\<lambda>period.
     res_bind (cfg_int gossip_raw ''fan_out'' 2) (\<lambda>fan_out.
     res_bind (res_bind (get_item raw ''prioritization'') as_obj) (\<lambda>prio_raw.
     res_bind (as_str (dict_get prio_raw ''level_threshold_B'' (JStr ''ELEV''))) (\<lambda>threshold.
     res_bind (cfg_int prio_raw ''max_batch_bytes'' 32768) (\<lambda>batch_bytes.
     res_bind (res_bind (as_obj (dict_get raw ''security'' (JObj []))) (\<lambda>security. as_opt_str (jget security ''hmac_key''))) (\<lambda>hmac_key.
     res_bind (res_bind (res_bind (get_item raw ''storage'') as_obj) (\<lambda>storage. res_bind (get_item storage ''sqlite_path'') as_str)) (\<lambda>sqlite_path.
     res_bind (res_bind (section_of raw ''linux_ingest'') (parse_linux_ingest L)) (\<lambda>linux_ingest.
     res_bind (res_bind (section_of raw ''collectors'') (parse_collectors L)) (\<lambda>collectors.
     res_bind (res_bind (section_of raw ''retention'') (parse_retention L)) (\<lambda>retention.
     res_bind (res_bind (section_of raw ''discovery'') (parse_discovery L)) (\<lambda>discovery_section.
     res_bind (res_bind (section_of raw ''notifier'') (parse_notifier L)) (\<lambda>notifier_section.
     res_bind (res_bind (section_of raw ''agent_relay'') (parse_agent_relay L)) (\<lambda>agent_relay.
     res_bind (res_bind (section_of raw ''heartbeat'') (parse_heartbeat L)) (\<lambda>heartbeat.
     res_bind (res_bind (section_of raw ''runtime'') (parse_runtime L)) (\<lambda>runtime.
     res_bind (section_of raw ''ui'') (\<lambda>ui_raw.
     res_bind (res_bind (get_item raw ''node_id'') as_str) (\<lambda>node_id.
     res_bind (res_bind (get_item raw ''listen'') as_str) (\<lambda>listen.
     res_bind (parse_peers L (dict_get raw ''peers'' (JList []))) (\<lambda>peers.
     Inr \<lparr>cf_node_id = node_id, cf_listen = listen, cf_peers = peers, cf_profile = profile,
       cf_gossip = \<lparr>gc_period_sec = period, gc_fan_out = fan_out\<rparr>,
       cf_prioritization = \<lparr>pz_threshold_B = threshold, pz_batch_bytes = batch_bytes\<rparr>,
       cf_hmac_key = hmac_key, cf_sqlite_path = sqlite_path, cf_linux_ingest = linux_ingest, cf_collectors = collectors,
       cf_retention = retention, cf_discovery = discovery_section, cf_notifier = notifier_section, cf_agent_relay = agent_relay,
       cf_heartbeat = heartbeat, cf_runtime = runtime, cf_ui_enabled = cfg_bool ui_raw ''enabled'' True\<rparr>)))))))))))))))))))))"

text \<open>The file, its YAML parser and the environment are arguments.\<close>

definition load_config :: "pylib \<Rightarrow> (string \<Rightarrow> json result) \<Rightarrow> (string \<Rightarrow> string option) \<Rightarrow> string \<Rightarrow> file_config result" where
  "load_config L yaml env content = res_bind (res_bind (yaml (expand_env_vars env content)) as_obj) (load_raw L)"

section \<open>Expansion\<close>

lemma env_match_other: "\<not> starts_with s ''${'' \<Longrightarrow> env_match s = None"
  by (simp add: env_match_def ENV_PATTERN_def)

lemma expand_plain: "CHR ''$'' \<notin> set pre \<Longrightarrow> expand_env_vars env (pre @ s) = pre @ expand_env_vars env s"
proof (induction pre)
  case (Cons c cs)
  then have "env_match (c # cs @ s) = None" by (intro env_match_other) (auto simp: starts_with_iff)
  with Cons show ?case by (simp add: expand_env_vars.simps [of env "c # cs @ s"])
qed simp

lemma expand_empty: "expand_env_vars env [] = []"
proof -
  have "env_match [] = None" by (intro env_match_other) (simp add: starts_with_iff)
  then show ?thesis by (simp add: expand_env_vars.simps [of env "[]"])
qed

lemma env_match_name:
  assumes "name \<noteq> []" "list_all is_env_char name"
  shows "env_match (''${'' @ name @ ''}'' @ post) = Some (post, [(''name'', name)])"
  unfolding env_match_def ENV_PATTERN_def seqs.simps
  by (rule rx_seq, rule rx_lit, rule rx_seq, rule rx_grp, rule rx_rep)
    (use assms in \<open>simp_all add: is_env_char_def starts_with_iff Suc_le_eq\<close>)

lemma env_match_default:
  assumes "name \<noteq> []" "list_all is_env_char name" "CHR ''}'' \<notin> set fallback"
  shows "env_match (''${'' @ name @ '':-'' @ fallback @ ''}'' @ post) = Some (post, [(''name'', name), (''default'', fallback)])"
proof -
  let ?k = "\<lambda>_ rest g. Some (rest, g)"
  have d: "list_all (\<lambda>c. c \<noteq> CHR ''}'') fallback" using assms(3) by (auto simp: list_all_iff)
  have tail: "rx_run (Seq (Opt (seqs [Lit '':'', Opt (Lit ''-''), Grp ''default'' (Rep (\<lambda>c. c \<noteq> CHR ''}'') 0 None)])) (Seq (Lit ''}'') (Lit [])))
      prev ('':'' @ ''-'' @ fallback @ ''}'' @ post) g ?k = Some (post, AList.update ''default'' fallback g)" for prev g
    unfolding seqs.simps
    by (rule rx_seq, rule rx_opt, rule rx_seq, rule rx_lit, rule rx_seq, rule rx_opt, rule rx_lit, rule rx_seq, rule rx_grp, rule rx_rep)
      (use d in \<open>simp_all add: starts_with_iff\<close>)
  show ?thesis
    unfolding env_match_def ENV_PATTERN_def seqs.simps(2) [of "Lit ''${''"] seqs.simps(2) [of "Grp ''name'' _"]
      seqs.simps(2) [of "Opt _" "[Lit ''}'']"] seqs.simps(2) [of "Lit ''}''" "[]"] seqs.simps(1)
    by (rule rx_seq, rule rx_lit, rule rx_seq, rule rx_grp, rule rx_rep)
      (use assms tail in \<open>simp_all add: is_env_char_def Suc_le_eq del: rx_run.simps\<close>)
qed

text \<open>
  Environment variables are expanded, and nothing else is touched. Text without a dollar sign is kept; a reference
  becomes the value of the variable, or without one its default text, or nothing; what follows the
  reference is expanded on its own, and the inserted text is not expanded again.
\<close>

theorem env_expansion:
  assumes "CHR ''$'' \<notin> set pre" "name \<noteq> []" "list_all is_env_char name" "CHR ''}'' \<notin> set fallback"
  shows "expand_env_vars env pre = pre \<and>
    expand_env_vars env (pre @ ''${'' @ name @ ''}'' @ post) = pre @ opt_str (env name) @ expand_env_vars env post \<and>
    expand_env_vars env (pre @ ''${'' @ name @ '':-'' @ fallback @ ''}'' @ post) =
      pre @ (case env name of Some v \<Rightarrow> v | None \<Rightarrow> fallback) @ expand_env_vars env post"
proof (intro conjI)
  show "expand_env_vars env pre = pre" using expand_plain [OF assms(1), of env "[]"] by (simp add: expand_empty)
  note m = env_match_name [OF assms(2,3), of post] env_match_default [OF assms(2-4), of post]
  note value_simps = env_value_def group_def dict_get_def
  show "expand_env_vars env (pre @ ''${'' @ name @ ''}'' @ post) = pre @ opt_str (env name) @ expand_env_vars env post"
    unfolding expand_plain [OF assms(1)] expand_env_vars.simps [of env "''${'' @ _"] m
    by (simp add: value_simps split: option.split)
  show "expand_env_vars env (pre @ ''${'' @ name @ '':-'' @ fallback @ ''}'' @ post) =
      pre @ (case env name of Some v \<Rightarrow> v | None \<Rightarrow> fallback) @ expand_env_vars env post"
    unfolding expand_plain [OF assms(1)] expand_env_vars.simps [of env "''${'' @ _"] m
    by (simp add: value_simps split: option.split)
qed

theorem env_expansion_witness:
  "expand_env_vars (\<lambda>_. None) (''key: '' @ ''${'' @ ''KEY'' @ '':-'' @ ''x'' @ ''}'' @ []) = ''key: x''"
  using env_expansion [of "''key: ''" "''KEY''" "''x''" "\<lambda>_. None" "[]"] expand_empty by (simp add: is_env_char_def)

section \<open>What a load gives\<close>

lemma section_absent: "map_of raw k = None \<Longrightarrow> section_of raw k = Inr []"
  by (simp add: section_of_def dict_get_def)

lemma section_null: "map_of raw k = Some JNull \<Longrightarrow> section_of raw k = Inr []"
  by (simp add: section_of_def dict_get_def)

lemma empty_sections:
  "parse_linux_ingest L [] = Inr default_linux_ingest" "parse_collectors L [] = Inr default_collectors"
  "parse_retention L [] = Inr default_retention" "parse_discovery L [] = Inr default_discovery"
  "parse_notifier L [] = Inr default_notifier" "parse_agent_relay L [] = Inr default_relay"
  "parse_heartbeat L [] = Inr default_heartbeat" "parse_runtime L [] = Inr default_runtime"
  by (simp_all add: cfg_defs dict_get_def jget_def section_absent
    parse_linux_ingest_def default_linux_ingest_def parse_collectors_def default_collectors_def
    parse_journald_def default_journald_def parse_audit_def default_audit_def parse_firewall_def default_firewall_def
    parse_proc_def default_proc_def parse_host_def default_host_def parse_retention_def default_retention_def
    parse_discovery_def default_discovery_def parse_notifier_def default_notifier_def parse_email_def default_email_def
    parse_telegram_def default_telegram_def parse_agent_relay_def default_relay_def parse_heartbeat_def default_heartbeat_def
    parse_runtime_def default_runtime_def del: res_bind_Inr)

lemma optional_section:
  assumes "map_of raw k \<in> {None, Some JNull}"
  shows "res_bind (section_of raw k) f = f []"
  using assms by (auto simp: section_absent section_null simp del: res_bind_Inr)

lemma parse_peers_texts: "parse_peers L j = Inr ps \<Longrightarrow> list_all (\<lambda>p. p \<noteq> [] \<and> py_strip p = p) ps"
  by (auto simp: parse_peers_def list_all_iff split: json.splits)

lemma get_item_Inr [simp]: "get_item d k = Inr v \<longleftrightarrow> map_of d k = Some v"
  by (simp add: get_item_def split: option.split)

lemma load_raw_required:
  assumes "load_raw L raw = Inr c"
  shows "{''profile'', ''gossip'', ''prioritization'', ''storage'', ''node_id'', ''listen''} \<subseteq> fst ` set raw \<and>
    map_of raw ''security'' \<noteq> Some JNull \<and> np_role (cf_profile c) \<in> set NODE_ROLES \<and>
    list_all (\<lambda>p. p \<noteq> [] \<and> py_strip p = p) (cf_peers c)"
proof -
  have key: "map_of raw k = Some v \<Longrightarrow> k \<in> fst ` set raw" for k v by (metis domI dom_map_of_conv_image_fst)
  show ?thesis using assms unfolding load_raw_def
    by (auto simp: parse_profile_def normalize_node_role_in dict_get_def dest!: parse_peers_texts dest: key)
qed

text \<open>
  C40: a configuration that loads is complete and well formed. The file has every required key, the role is one of the
  known roles, every peer address is non-empty and free of surrounding blanks, and an optional section that is missing or
  left empty gets the defaults declared with the dataclass, although the loader writes each default a second time.
  A file in which one of the required keys is missing is rejected; so is one with an empty security section, although
  the other optional sections may be empty.
\<close>

theorem config_load:
  assumes "load_config L yaml env content = Inr c"
  shows "\<exists>raw. yaml (expand_env_vars env content) = Inr (JObj raw) \<and>
    {''profile'', ''gossip'', ''prioritization'', ''storage'', ''node_id'', ''listen''} \<subseteq> fst ` set raw \<and>
    map_of raw ''security'' \<noteq> Some JNull \<and> np_role (cf_profile c) \<in> set NODE_ROLES \<and>
    list_all (\<lambda>p. p \<noteq> [] \<and> py_strip p = p) (cf_peers c) \<and>
    (map_of raw ''linux_ingest'' \<in> {None, Some JNull} \<longrightarrow> cf_linux_ingest c = default_linux_ingest) \<and>
    (map_of raw ''collectors'' \<in> {None, Some JNull} \<longrightarrow> cf_collectors c = default_collectors) \<and>
    (map_of raw ''retention'' \<in> {None, Some JNull} \<longrightarrow> cf_retention c = default_retention) \<and>
    (map_of raw ''discovery'' \<in> {None, Some JNull} \<longrightarrow> cf_discovery c = default_discovery) \<and>
    (map_of raw ''notifier'' \<in> {None, Some JNull} \<longrightarrow> cf_notifier c = default_notifier) \<and>
    (map_of raw ''agent_relay'' \<in> {None, Some JNull} \<longrightarrow> cf_agent_relay c = default_relay) \<and>
    (map_of raw ''heartbeat'' \<in> {None, Some JNull} \<longrightarrow> cf_heartbeat c = default_heartbeat) \<and>
    (map_of raw ''runtime'' \<in> {None, Some JNull} \<longrightarrow> cf_runtime c = default_runtime) \<and>
    (map_of raw ''ui'' \<in> {None, Some JNull} \<longrightarrow> cf_ui_enabled c)"
proof -
  obtain raw where y: "yaml (expand_env_vars env content) = Inr (JObj raw)" and c: "load_raw L raw = Inr c"
    using assms by (auto simp: load_config_def elim!: as_obj.elims)
  let ?absent = "\<lambda>k. map_of raw k \<in> {None, Some JNull}"
  obtain ui where parts: "res_bind (section_of raw ''linux_ingest'') (parse_linux_ingest L) = Inr (cf_linux_ingest c)"
    "res_bind (section_of raw ''collectors'') (parse_collectors L) = Inr (cf_collectors c)"
    "res_bind (section_of raw ''retention'') (parse_retention L) = Inr (cf_retention c)"
    "res_bind (section_of raw ''discovery'') (parse_discovery L) = Inr (cf_discovery c)"
    "res_bind (section_of raw ''notifier'') (parse_notifier L) = Inr (cf_notifier c)"
    "res_bind (section_of raw ''agent_relay'') (parse_agent_relay L) = Inr (cf_agent_relay c)"
    "res_bind (section_of raw ''heartbeat'') (parse_heartbeat L) = Inr (cf_heartbeat c)"
    "res_bind (section_of raw ''runtime'') (parse_runtime L) = Inr (cf_runtime c)"
    "section_of raw ''ui'' = Inr ui" "cf_ui_enabled c = cfg_bool ui ''enabled'' True"
    using c unfolding load_raw_def by auto
  have ui: "?absent ''ui'' \<Longrightarrow> cf_ui_enabled c"
    using parts(9,10) by (auto simp: section_absent section_null cfg_bool_def dict_get_def)
  have absent: "res_bind (section_of raw k) f = Inr x \<Longrightarrow> ?absent k \<longrightarrow> f [] = Inr x"
    for k x and f :: "(string, json) dict \<Rightarrow> 'b result"
    using optional_section [of raw k f] by auto
  note defaults = parts(1-8) [THEN absent, unfolded empty_sections sum.inject]
  show ?thesis using y load_raw_required [OF c] ui defaults by auto
qed

definition demo_raw :: "(string, json) dict" where
  "demo_raw =
     [(''node_id'', JStr ''n1''), (''listen'', JStr ''0.0.0.0:9''), (''peers'', JStr ''n2:9, ,n3:9''),
      (''profile'', JObj [(''role'', JStr ''Responder''), (''memory_mb'', JInt 64), (''bw_kbps'', JInt 8), (''threat_level'', JStr ''NORM'')]),
      (''gossip'', JObj []), (''prioritization'', JObj []), (''storage'', JObj [(''sqlite_path'', JStr ''n1.db'')]), (''runtime'', JNull)]"

definition demo_file :: file_config where
  "demo_file =
     \<lparr>cf_node_id = ''n1'', cf_listen = ''0.0.0.0:9'', cf_peers = [''n2:9'', ''n3:9''],
      cf_profile = \<lparr>np_memory_mb = 64, np_bw_kbps = 8, np_cpu_quota = 1, np_role = ''responder'', np_threat_level = ''NORM''\<rparr>,
      cf_gossip = \<lparr>gc_period_sec = 1, gc_fan_out = 2\<rparr>, cf_prioritization = \<lparr>pz_threshold_B = ''ELEV'', pz_batch_bytes = 32768\<rparr>,
      cf_hmac_key = None, cf_sqlite_path = ''n1.db'', cf_linux_ingest = default_linux_ingest, cf_collectors = default_collectors,
      cf_retention = default_retention, cf_discovery = default_discovery, cf_notifier = default_notifier, cf_agent_relay = default_relay,
      cf_heartbeat = default_heartbeat, cf_runtime = default_runtime, cf_ui_enabled = True\<rparr>"

lemma demo_load: "load_raw L demo_raw = Inr demo_file"
proof -
  have none: "section_of demo_raw k = Inr []" if "k \<in> {''linux_ingest'', ''collectors'', ''retention'', ''discovery'', ''notifier'',
      ''agent_relay'', ''heartbeat'', ''runtime'', ''ui''}" for k
    using that by (auto simp: demo_raw_def intro: section_absent section_null)
  have peers: "parse_peers L (JStr ''n2:9, ,n3:9'') = Inr [''n2:9'', ''n3:9'']"
    by (simp add: parse_peers_def py_strip_def is_space_def)
  have role: "normalize_node_role (Some ''Responder'') = ''responder''" by code_simp
  show ?thesis
    by (simp add: load_raw_def none [unfolded demo_raw_def] empty_sections peers role demo_file_def demo_raw_def get_item_def dict_get_def jget_def
      parse_profile_def str_or_empty_def cfg_defs del: res_bind_Inr)
qed

theorem config_load_witness:
  "load_config demo_lib (\<lambda>_. Inr (JObj demo_raw)) (\<lambda>_. None) [] = Inr demo_file \<and> cf_runtime demo_file = default_runtime"
proof -
  have loaded: "load_config demo_lib (\<lambda>_. Inr (JObj demo_raw)) (\<lambda>_. None) [] = Inr demo_file"
    by (simp add: load_config_def demo_load del: res_bind_Inr)
  have "map_of demo_raw ''runtime'' = Some JNull" by (simp add: demo_raw_def)
  with config_load [OF loaded] loaded show ?thesis by auto
qed

section \<open>Settings of the node\<close>

text \<open>The fields of the configuration that the node's own operations read.\<close>

definition gossip_settings :: "file_config \<Rightarrow> gossip_engine" where
  "gossip_settings c =
     \<lparr>ge_node_id = cf_node_id c,
      ge_prioritizer = \<lparr>pz_profile = cf_profile c, pz_period_sec = gc_period_sec (cf_gossip c),
        pz_level_threshold_B = pz_threshold_B (cf_prioritization c), pz_max_batch_bytes = pz_batch_bytes (cf_prioritization c)\<rparr>,
      ge_fan_out = gc_fan_out (cf_gossip c), ge_hmac_key = cf_hmac_key c\<rparr>"

definition node_settings :: "file_config \<Rightarrow> node_config" where
  "node_settings c =
     \<lparr>nc_node_id = cf_node_id c, nc_listen = cf_listen c, nc_peers = cf_peers c, nc_profile = cf_profile c,
      nc_gossip = gossip_settings c, nc_hmac_key = opt_str (cf_hmac_key c), nc_host_id = opt_str (li_host_id (cf_linux_ingest c)),
      nc_auto_approve_discovered = dc_auto_approve_discovered (cf_discovery c),
      nc_recompute_debounce_sec = rn_recompute_debounce_sec (cf_runtime c),
      nc_fanout_quorum_ratio = rn_class_a_fanout_quorum_ratio (cf_runtime c),
      nc_fanout_max_retries = rn_class_a_fanout_max_retries (cf_runtime c), nc_retention_enabled = rt_enabled (cf_retention c),
      nc_max_age_days = of_int (rt_max_age_days (cf_retention c)), nc_keep_class_a = rt_keep_class_a (cf_retention c),
      nc_archive_path = opt_str (rt_archive_path (cf_retention c)), nc_notify_enabled = nf_enabled (cf_notifier c),
      nc_notify_classes = nf_trigger_classes (cf_notifier c)\<rparr>"

end
