(* ===== verification/Supervision.thy ===== *)
theory Supervision
  imports Catalog Config
begin

text \<open>
  The parts of \<open>mdrj/node.py\<close> around the event graph: the collectors and what becomes of the events they collect, the
  ingestion of the authentication log, the collection policy, the hourly status report and the history of metrics. A
  supervised node is the node with its catalogue, its collectors, the relay client and the notifier. The endless
  loops are their passes: a pass catches every exception.
\<close>

section \<open>Collectors of a node\<close>

datatype any_collector =
    Journald journald_collector
  | Audit audit_collector
  | Firewall firewall_collector
  | Proc proc_collector
  | Host host_collector

text \<open>What the collectors read, one part for each kind.\<close>

record collect_world =
  cw_journal :: journal_world
  cw_audit :: audit_world
  cw_firewall :: firewall_world
  cw_proc :: proc_world
  cw_host :: host_world
  cw_texts :: "string \<Rightarrow> string"

fun any_base :: "any_collector \<Rightarrow> base_collector" where
  "any_base (Journald c) = jo_base c"
| "any_base (Audit c) = au_base c"
| "any_base (Firewall c) = fi_base c"
| "any_base (Proc c) = pr_base c"
| "any_base (Host c) = hc_base c"

fun on_any :: "(base_collector \<Rightarrow> base_collector) \<Rightarrow> any_collector \<Rightarrow> any_collector" where
  "on_any f (Journald c) = Journald (c\<lparr>jo_base := f (jo_base c)\<rparr>)"
| "on_any f (Audit c) = Audit (c\<lparr>au_base := f (au_base c)\<rparr>)"
| "on_any f (Firewall c) = Firewall (c\<lparr>fi_base := f (fi_base c)\<rparr>)"
| "on_any f (Proc c) = Proc (c\<lparr>pr_base := f (pr_base c)\<rparr>)"
| "on_any f (Host c) = Host (c\<lparr>hc_base := f (hc_base c)\<rparr>)"

fun any_poll :: "pylib \<Rightarrow> collect_world \<Rightarrow> any_collector \<Rightarrow> collected_event list result \<times> any_collector" where
  "any_poll L w (Journald c) = apsnd Journald (journald_poll L (cw_journal w) c)"
| "any_poll L w (Audit c) = apsnd Audit (audit_poll L (cw_audit w) c)"
| "any_poll L w (Firewall c) = apsnd Firewall (firewall_poll L (cw_firewall w) c)"
| "any_poll L w (Proc c) = apsnd Proc (proc_poll (cw_proc w) c)"
| "any_poll L w (Host c) = apsnd Host (host_poll (floats L) (cw_texts w) (cw_host w) c)"

definition COLLECTED_KINDS :: "string set" where
  "COLLECTED_KINDS = journal_kinds \<union> {''critical_file_modified'', ''iptables_rule_changed'', ''known_malicious_process'',
     ''privileged_process_started'', ''host_boot'', ''host_reboot''}"

lemma any_base_on [simp]: "any_base (on_any f c) = f (any_base c)"
  by (cases c) simp_all

text \<open>The union of the collectors keeps the contract of each.\<close>

interpretation any: collector "any_poll L" any_base COLLECTED_KINDS for L
proof
  fix w c events c' ev and e :: py_error
  show "any_poll L w c = (Inr events, c') \<Longrightarrow> emitted (any_base c') = emitted (any_base c) + length events"
    by (cases c) (auto simp: apsnd_def map_prod_def split: prod.splits
      dest: journald.poll_counts audit.poll_counts firewall.poll_counts proc.poll_counts host.poll_counts)
  show "any_poll L w c = (Inl e, c') \<Longrightarrow> emitted (any_base c') = emitted (any_base c)"
    by (cases c) (auto simp: apsnd_def map_prod_def split: prod.splits
      dest: journald.poll_fails audit.poll_fails firewall.poll_fails proc.poll_fails host.poll_fails)
  show "same_collector (any_base c) (any_base (snd (any_poll L w c)))"
    by (cases c) (simp_all add: journald.poll_same audit.poll_same firewall.poll_same proc.poll_same host.poll_same)
  show "any_poll L w c = (Inr events, c') \<Longrightarrow> ev \<in> set events \<Longrightarrow> co_event_kind ev \<in> COLLECTED_KINDS \<and> from_node (any_base c) ev"
    by (cases c) (auto simp: COLLECTED_KINDS_def apsnd_def map_prod_def split: prod.splits
      dest: journald.poll_kinds audit.poll_kinds firewall.poll_kinds proc.poll_kinds host.poll_kinds)
  show "\<not> base_enabled (any_base c) \<Longrightarrow> fst (any_poll L w c) = Inr []"
    by (cases c) (simp_all add: journald.poll_off audit.poll_off firewall.poll_off proc.poll_off host.poll_off)
qed

text \<open>What the constructors of the collectors find on the host.\<close>

record host_probe =
  hp_journalctl :: "string option"
  hp_journalctl_runs :: bool
  hp_firewall_tool :: bool
  hp_proc_dir :: bool
  hp_uptime_file :: bool

definition build_collectors :: "host_probe \<Rightarrow> file_config \<Rightarrow> any_collector list" where
  "build_collectors p c =
     (let cfg = cf_collectors c; node_id = cf_node_id c; host_id = str_or (opt_str (li_host_id (cf_linux_ingest c))) node_id
      in (if jc_enabled (cc_journald cfg)
          then [Journald (journald_init (cc_journald cfg) node_id host_id None (hp_journalctl p) (hp_journalctl_runs p))] else []) @
         (if ac_enabled (cc_audit cfg) then [Audit (audit_init (cc_audit cfg) node_id host_id)] else []) @
         (if fc_enabled (cc_firewall cfg) then [Firewall (firewall_init (cc_firewall cfg) node_id host_id (hp_firewall_tool p))] else []) @
         (if pc_enabled (cc_proc cfg) then [Proc (proc_init (cc_proc cfg) node_id host_id (hp_proc_dir p))] else []) @
         (if hl_enabled (cc_host_lifecycle cfg) then [Host (host_init (cc_host_lifecycle cfg) node_id host_id (hp_uptime_file p))] else []))"

section \<open>The supervised node\<close>

record ingest_status =
  is_enabled :: bool
  is_source_type :: string
  is_source_path :: "string option"
  is_host_id :: string
  is_last_poll_at :: "timestamp option"
  is_last_event_at :: "timestamp option"
  is_last_error :: "string option"
  is_emitted_count :: nat

record supervisor =
  su_node :: node
  su_config :: file_config
  su_catalog :: catalog
  su_collectors :: "any_collector list"
  su_relay :: relay_client
  su_notifier :: notifier
  su_ingestor :: "auth_ingestor option"
  su_ingest_status :: ingest_status
  su_process_start_ts :: timestamp
  su_window_start_ts :: timestamp
  su_emitted_at_window_start :: "(string, nat) dict"
  su_class_at_window_start :: "(string, nat) dict"
  su_hourly_emitted :: nat

definition on_node :: "(node, 'a) op \<Rightarrow> (supervisor, 'a) op" where
  "on_node m s = (let (r, n) = m (su_node s) in (r, s\<lparr>su_node := n\<rparr>))"

text \<open>A pass of a background loop: every exception is logged and forgotten.\<close>

definition guarded :: "('s, 'a) op \<Rightarrow> ('s, unit) op" where
  "guarded m = op_catch (\<lambda>_. True) (op_bind m (\<lambda>_. op_ret ())) (op_ret ())"

section \<open>What becomes of a collected event\<close>

text \<open>The environments of the successive emissions of a pass, and the answers to the relay.\<close>

record emit_world =
  ew_env :: "nat \<Rightarrow> node_env"
  ew_env2 :: "nat \<Rightarrow> node_env"
  ew_relay :: "nat \<Rightarrow> relay_world"

definition drop_by_policy :: "nat \<Rightarrow> supervisor \<Rightarrow> supervisor" where
  "drop_by_policy i s =
     s\<lparr>su_collectors := (su_collectors s)[i := on_any (on_status (record_drop ''policy_disabled'')) (su_collectors s ! i)]\<rparr>"

definition relay_event :: "pylib \<Rightarrow> relay_world \<Rightarrow> collected_event \<Rightarrow> (supervisor, bool) op" where
  "relay_event L w e s =
     (let (ok, _, r) = relay_send L w (co_event_kind e) (to_payload e) (su_relay s) in (Inr ok, s\<lparr>su_relay := r\<rparr>))"

text \<open>One event of a poll of collector \<open>i\<close>; the result is the emission, if the event went into the graph.\<close>

definition handle_collected :: "pylib \<Rightarrow> emit_world \<Rightarrow> nat \<Rightarrow> nat \<times> collected_event \<Rightarrow> (supervisor, emission option) op" where
  "handle_collected L W i = (\<lambda>(k, e).
     op_bind (op_get su_catalog) (\<lambda>cat.
       if \<not> is_known_event_kind cat (co_event_kind e) then op_ret None
       else if \<not> registry_enabled_for cat (co_event_kind e) then op_bind (op_mod (drop_by_policy i)) (\<lambda>_. op_ret None)
       else op_bind (op_lift (\<lambda>_. event_class_for cat (co_event_kind e))) (\<lambda>cls.
            op_bind (op_get (\<lambda>s. rc_enabled (cf_agent_relay (su_config s)))) (\<lambda>relayed.
              if relayed then op_bind (relay_event L (ew_relay W k) e) (\<lambda>_. op_ret None)
              else op_bind (on_node (emit_event L (ew_env W k) (ew_env2 W k) cls (to_payload e))) (\<lambda>em. op_ret (Some em))))))"

definition poll_collector :: "pylib \<Rightarrow> collect_world \<Rightarrow> nat \<Rightarrow> (supervisor, collected_event list) op" where
  "poll_collector L w i s =
     (let (r, c) = any_poll L w (su_collectors s ! i) in (r, s\<lparr>su_collectors := (su_collectors s)[i := c]\<rparr>))"

definition collect_once :: "pylib \<Rightarrow> collect_world \<Rightarrow> emit_world \<Rightarrow> nat \<Rightarrow> (supervisor, emission option list) op" where
  "collect_once L w W i =
     op_bind (poll_collector L w i) (\<lambda>events. op_each (handle_collected L W i) (enumerate 0 events))"

definition collector_pass :: "pylib \<Rightarrow> collect_world \<Rightarrow> emit_world \<Rightarrow> nat \<Rightarrow> (supervisor, unit) op" where
  "collector_pass L w W i = guarded (collect_once L w W i)"

definition list_collector_status :: "supervisor \<Rightarrow> json list" where
  "list_collector_status s = map (\<lambda>c. JObj (status_to_dict (bc_status (any_base c)))) (su_collectors s)"

section \<open>Ingestion of the authentication log\<close>

definition ingest_one :: "pylib \<Rightarrow> emit_world \<Rightarrow> (nat \<Rightarrow> timestamp) \<Rightarrow> nat \<times> (string, json) dict \<Rightarrow> (supervisor, emission) op" where
  "ingest_one L W clock = (\<lambda>(k, payload).
     op_bind (on_node (emit_event L (ew_env W k) (ew_env2 W k) ClassA payload)) (\<lambda>em.
     op_bind (op_mod (\<lambda>s. if em_stored em
       then s\<lparr>su_ingest_status := (su_ingest_status s)\<lparr>is_emitted_count := is_emitted_count (su_ingest_status s) + 1,
          is_last_event_at := Some (clock (Suc k))\<rparr>\<rparr> else s)) (\<lambda>_.
     op_ret em)))"

definition ingest_body :: "pylib \<Rightarrow> (string \<Rightarrow> string) \<Rightarrow> datetime_lib \<Rightarrow> ingest_world \<Rightarrow> emit_world \<Rightarrow> (nat \<Rightarrow> timestamp) \<Rightarrow>
    (supervisor, emission list) op" where
  "ingest_body L texts D w W clock = (\<lambda>s.
     case su_ingestor s of
       None \<Rightarrow> (Inr [], s)
     | Some a \<Rightarrow>
         let (r, a') = ingest_poll L texts D w a; s1 = s\<lparr>su_ingestor := Some a'\<rparr>
         in case r of
              Inl e \<Rightarrow> (Inl e, s1)
            | Inr payloads \<Rightarrow> op_each (ingest_one L W clock) (enumerate 0 payloads)
                (s1\<lparr>su_ingest_status := (su_ingest_status s1)\<lparr>is_last_error := None\<rparr>\<rparr>))"

text \<open>One pass of \<open>_linux_ingest_loop\<close>; \<open>exc_text\<close> is \<open>str(exc)\<close>.\<close>

definition ingest_pass :: "pylib \<Rightarrow> (py_error \<Rightarrow> string) \<Rightarrow> (string \<Rightarrow> string) \<Rightarrow> datetime_lib \<Rightarrow> ingest_world \<Rightarrow> emit_world \<Rightarrow>
    (nat \<Rightarrow> timestamp) \<Rightarrow> (supervisor, unit) op" where
  "ingest_pass L exc_text texts D w W clock s =
     (let s0 = s\<lparr>su_ingest_status := (su_ingest_status s)\<lparr>is_last_poll_at := Some (clock 0)\<rparr>\<rparr>
      in case ingest_body L texts D w W clock s0 of
           (Inl e, s1) \<Rightarrow> (Inr (), s1\<lparr>su_ingest_status := (su_ingest_status s1)\<lparr>is_last_error := Some (exc_text e)\<rparr>\<rparr>)
         | (Inr _, s1) \<Rightarrow> (Inr (), s1))"

definition ingest_status_dict :: "ingest_status \<Rightarrow> (string, json) dict" where
  "ingest_status_dict i =
     [(''enabled'', JBool (is_enabled i)), (''source_type'', JStr (is_source_type i)),
      (''source_path'', opt_json JStr (is_source_path i)), (''host_id'', JStr (is_host_id i)),
      (''last_poll_at'', opt_json JFloat (is_last_poll_at i)), (''last_event_at'', opt_json JFloat (is_last_event_at i)),
      (''last_error'', opt_json JStr (is_last_error i)), (''emitted_count'', JInt (int (is_emitted_count i)))]"

section \<open>The collection policy\<close>

definition POLICY_PROTECTED_KINDS :: "string list" where
  "POLICY_PROTECTED_KINDS =
     [''node_identity'', ''heartbeat'', ''node_hourly_status'', ''mdrj_service_start'', ''mdrj_service_stop'', ''mdrj_service_killed'',
      ''host_boot'', ''host_reboot'', ''mdrj_tamper_detected'', ''mdrj_event_replication_failed'', ''mdrj_collection_policy_changed'']"

definition policy_payload :: "pylib \<Rightarrow> node \<Rightarrow> catalog \<Rightarrow> string \<Rightarrow> bool \<Rightarrow> bool \<Rightarrow> timestamp \<Rightarrow> (string, json) dict" where
  "policy_payload L n cat kind previous enabled now =
     [(''event_kind'', JStr ''mdrj_collection_policy_changed''), (''node_id'', JStr (my_id n)), (''host_id'', JStr (host_of n)),
      (''changed_kind'', JStr kind), (''previous_enabled'', JBool previous), (''new_enabled'', JBool enabled),
      (''policy_hash'', JStr (collection_policy_hash L cat)), (''changed_at'', JFloat now)]"

definition set_collection_policy :: "pylib \<Rightarrow> node_env \<Rightarrow> node_env \<Rightarrow> string \<Rightarrow> bool \<Rightarrow> (supervisor, (string, json) dict) op" where
  "set_collection_policy L E E2 kind enabled = (\<lambda>s.
     if \<not> is_known_event_kind (su_catalog s) kind then (Inl (KeyError kind), s)
     else if kind \<in> set POLICY_PROTECTED_KINDS then (Inl (ValueError (kind @ '' is protected and cannot be disabled'')), s)
     else let previous = registry_enabled_for (su_catalog s) kind;
              (applied, cat) = set_registry_enabled kind enabled (su_catalog s);
              s1 = s\<lparr>su_catalog := cat\<rparr>
          in if \<not> applied then (Inl (KeyError kind), s1)
             else op_bind (on_node (emit_event L E E2 ClassA (policy_payload L (su_node s1) cat kind previous enabled (en_clock E 9)))) (\<lambda>_.
                  op_ret [(''kind'', JStr kind), (''previous_enabled'', JBool previous), (''new_enabled'', JBool enabled),
                    (''policy_hash'', JStr (collection_policy_hash L cat))]) s1)"

section \<open>Emission\<close>

lemma emit_event_stored:
  assumes "emit_event L E E2 cls payload n = (Inr em, n')"
  shows "ev_payload (em_event em) = payload \<and> ev_cls (em_event em) = cls \<and> ev_source (em_event em) = my_id n \<and>
    compute_event_id L (event_header cls (my_id n) (ev_ts_local (em_event em))
      (ev_vclock (em_event em)) (ev_parents (em_event em))) (JObj payload) = ev_id (em_event em) \<and>
    has_event (nd_db n') (ev_id (em_event em))"
proof -
  obtain parents na merged stored nb where par: "choose_parents L E n = (Inr parents, na)"
    and per: "persist_envelope L E 1 True True
       \<lparr>env_event = new_event L E na cls payload parents (vc_increment merged (my_id na)),
        env_path_meta = [\<lparr>hop_node = Some (my_id na), hop_ts = Some (en_clock E 0)\<rparr>]\<rparr> na = (Inr stored, nb)"
    and rest: "emit_rest (broadcast_with_quorum_ack L E E2) L E cls payload (vc_increment merged (my_id na))
       (new_event L E na cls payload parents (vc_increment merged (my_id na))) stored nb = (Inr em, n')"
    by (rule emit_with_Inr [OF assms [unfolded emit_event_def]])
  have "my_id na = my_id n" using choose_parents_Inr [OF par] by simp
  moreover have "node_le nb n'" by (rule advances_run [OF advances_rest [OF advances_quorum_ack] rest])
  ultimately show ?thesis
    using persist_result [OF per] emit_rest_result [OF rest] by (auto simp: new_event_sel node_le_def has_event_def)
qed

lemma has_event_le: "node_le n n' \<Longrightarrow> has_event (nd_db n) x \<Longrightarrow> has_event (nd_db n') x"
  by (auto simp: node_le_def has_event_def)

lemma on_node_Inr: "on_node m s = (Inr x, s') \<longleftrightarrow> (\<exists>n'. m (su_node s) = (Inr x, n') \<and> s' = s\<lparr>su_node := n'\<rparr>)"
  by (auto simp: on_node_def Let_def split: prod.splits)

lemma on_node_frame:
  "snd (on_node m s) = s\<lparr>su_node := snd (m (su_node s))\<rparr>"
  by (simp add: on_node_def split: prod.split)

section \<open>Policy changes leave evidence\<close>

text \<open>
  The collection policy cannot be changed silently. Whatever the outcome, only the policy of the named kind can change.
  A kind that is unknown or protected is refused and nothing changes, so the kinds on which the self-protection rests stay
  enabled. When the operation returns, the new policy of the kind is in force and the graph holds an event of class A,
  identified by the hash of its content, that names the kind, the old and the new setting and the hash of the new policy.
\<close>

theorem policy_change_evidenced:
  assumes run: "set_collection_policy L E E2 kind enabled s = (r, s')"
  shows "(\<forall>k. k \<noteq> kind \<longrightarrow> registry_enabled_for (su_catalog s') k = registry_enabled_for (su_catalog s) k) \<and>
    (\<not> is_known_event_kind (su_catalog s) kind \<or> kind \<in> set POLICY_PROTECTED_KINDS \<longrightarrow> isl r \<and> s' = s) \<and>
    (\<forall>answer. r = Inr answer \<longrightarrow> registry_enabled_for (su_catalog s') kind = enabled \<and>
      (\<exists>e :: event. ev_cls e = ClassA \<and> has_event (nd_db (su_node s')) (ev_id e) \<and>
        ev_payload e = policy_payload L (su_node s) (su_catalog s') kind (registry_enabled_for (su_catalog s) kind) enabled (en_clock E 9) \<and>
        ev_id e = compute_event_id L (event_header ClassA (ev_source e) (ev_ts_local e) (ev_vclock e) (ev_parents e)) (JObj (ev_payload e))))"
proof -
  obtain applied cat where set: "set_registry_enabled kind enabled (su_catalog s) = (applied, cat)" by fastforce
  have others: "k \<noteq> kind \<Longrightarrow> registry_enabled_for cat k = registry_enabled_for (su_catalog s) k" for k
    using registry_enabled_set [of kind enabled "su_catalog s" k] by (simp add: set)
  have own: "applied \<Longrightarrow> registry_enabled_for cat kind = enabled"
    using registry_enabled_set [of kind enabled "su_catalog s" kind] by (simp add: set)
  let ?p = "policy_payload L (su_node s) cat kind (registry_enabled_for (su_catalog s) kind) enabled (en_clock E 9)"
  consider (refused) "\<not> is_known_event_kind (su_catalog s) kind \<or> kind \<in> set POLICY_PROTECTED_KINDS" "isl r" "s' = s"
    | (absent) "\<not> applied" "isl r" "su_catalog s' = cat" "is_known_event_kind (su_catalog s) kind" "kind \<notin> set POLICY_PROTECTED_KINDS"
    | (applied) "applied" "su_catalog s' = cat" "is_known_event_kind (su_catalog s) kind" "kind \<notin> set POLICY_PROTECTED_KINDS"
        "isl r \<or> (\<exists>em. emit_event L E E2 ClassA ?p (su_node s) = (Inr em, su_node s'))"
    using run set
    by (auto simp: set_collection_policy_def op_simps on_node_frame on_node_def split_beta Let_def split: if_splits sum.splits)
      (auto simp: prod_eq_iff)
  then show ?thesis
  proof cases
    case applied
    have "isl r \<or> (\<exists>e :: event. ev_cls e = ClassA \<and> has_event (nd_db (su_node s')) (ev_id e) \<and> ev_payload e = ?p \<and>
        ev_id e = compute_event_id L (event_header ClassA (ev_source e) (ev_ts_local e) (ev_vclock e) (ev_parents e)) (JObj (ev_payload e)))"
    proof (cases "isl r")
      case False
      with applied(5) obtain em where "emit_event L E E2 ClassA ?p (su_node s) = (Inr em, su_node s')" by blast
      from emit_event_stored [OF this] show ?thesis by (intro disjI2 exI [of _ "em_event em"]) simp
    qed simp
    with applied(1-4) others own show ?thesis by (auto simp del: split_paired_Ex)
  next
    case absent
    then show ?thesis using others by (cases r) simp_all
  next
    case refused
    then show ?thesis by (cases r) simp_all
  qed
qed

section \<open>Collected events reach the graph\<close>

definition kept_by_policy :: "catalog \<Rightarrow> collected_event \<Rightarrow> bool" where
  "kept_by_policy cat e \<longleftrightarrow> is_known_event_kind cat (co_event_kind e) \<and> registry_enabled_for cat (co_event_kind e)"

definition dropped_by_policy :: "catalog \<Rightarrow> collected_event \<Rightarrow> bool" where
  "dropped_by_policy cat e \<longleftrightarrow> is_known_event_kind cat (co_event_kind e) \<and> \<not> registry_enabled_for cat (co_event_kind e)"

definition recorded :: "catalog \<Rightarrow> node \<Rightarrow> collected_event \<Rightarrow> emission option \<Rightarrow> bool" where
  "recorded cat n e x \<longleftrightarrow> (case x of None \<Rightarrow> \<not> kept_by_policy cat e | Some em \<Rightarrow> kept_by_policy cat e \<and>
     ev_payload (em_event em) = to_payload e \<and> event_class_for cat (co_event_kind e) = Inr (ev_cls (em_event em)) \<and>
     has_event (nd_db n) (ev_id (em_event em)))"

abbreviation dropped_of :: "supervisor \<Rightarrow> nat \<Rightarrow> nat" where
  "dropped_of s i \<equiv> cst_dropped_count (bc_status (any_base (su_collectors s ! i)))"

abbreviation emitted_of :: "supervisor \<Rightarrow> nat \<Rightarrow> nat" where
  "emitted_of s i \<equiv> emitted (any_base (su_collectors s ! i))"

lemma recorded_le: "node_le n n' \<Longrightarrow> recorded cat n e x \<Longrightarrow> recorded cat n' e x"
  by (auto simp: recorded_def has_event_le split: option.splits)

lemma drop_counts [simp]:
  "i < length (su_collectors s) \<Longrightarrow> dropped_of (drop_by_policy i s) i = Suc (dropped_of s i)"
  "i < length (su_collectors s) \<Longrightarrow> emitted_of (drop_by_policy i s) i = emitted_of s i"
  "su_node (drop_by_policy i s) = su_node s" "su_catalog (drop_by_policy i s) = su_catalog s"
  "su_config (drop_by_policy i s) = su_config s" "length (su_collectors (drop_by_policy i s)) = length (su_collectors s)"
  by (simp_all add: drop_by_policy_def on_status_def record_drop_def)

lemma handle_collected_Inr:
  assumes "handle_collected L W i (k, e) s = (Inr x, s')" "i < length (su_collectors s)" "\<not> rc_enabled (cf_agent_relay (su_config s))"
  shows "su_catalog s' = su_catalog s \<and> su_config s' = su_config s \<and> length (su_collectors s') = length (su_collectors s) \<and>
    node_le (su_node s) (su_node s') \<and> recorded (su_catalog s) (su_node s') e x \<and> emitted_of s' i = emitted_of s i \<and>
    dropped_of s' i = dropped_of s i + of_bool (dropped_by_policy (su_catalog s) e)"
proof (cases "kept_by_policy (su_catalog s) e")
  case True
  then obtain cls em n' where e: "event_class_for (su_catalog s) (co_event_kind e) = Inr cls" "x = Some em" "s' = s\<lparr>su_node := n'\<rparr>"
    "emit_event L (ew_env W k) (ew_env2 W k) cls (to_payload e) (su_node s) = (Inr em, n')"
    using assms by (auto simp: handle_collected_def kept_by_policy_def op_bind_Inr op_run_Inr on_node_Inr split: if_splits)
  from advances_run [OF advances_emit e(4)] emit_event_stored [OF e(4)] e(1-3) True show ?thesis
    by (simp add: recorded_def kept_by_policy_def dropped_by_policy_def)
next
  case False
  with assms show ?thesis
    by (auto simp: handle_collected_def kept_by_policy_def dropped_by_policy_def recorded_def op_bind_Inr op_run_Inr op_simps split: if_splits)
qed

lemma handle_all_Inr:
  assumes "op_each (handle_collected L W i) (enumerate k events) s = (Inr ems, s')" "i < length (su_collectors s)"
    "\<not> rc_enabled (cf_agent_relay (su_config s))"
  shows "list_all2 (recorded (su_catalog s) (su_node s')) events ems \<and> node_le (su_node s) (su_node s') \<and> emitted_of s' i = emitted_of s i \<and>
    dropped_of s' i = dropped_of s i + length (filter (dropped_by_policy (su_catalog s)) events)"
  using assms
proof (induction events arbitrary: k s ems)
  case Nil
  then show ?case by (simp add: op_simps)
next
  case (Cons e events)
  from Cons.prems(1) obtain x s1 xs where one: "handle_collected L W i (k, e) s = (Inr x, s1)"
    and rest: "op_each (handle_collected L W i) (enumerate (Suc k) events) s1 = (Inr xs, s')" and ems: "ems = x # xs"
    by (auto simp: op_bind_Inr op_run_Inr)
  note h = handle_collected_Inr [OF one Cons.prems(2,3)]
  with Cons.prems(2,3) have "i < length (su_collectors s1)" "\<not> rc_enabled (cf_agent_relay (su_config s1))" by simp_all
  from Cons.IH [OF rest this] h show ?case unfolding ems by (auto intro: recorded_le node_le_trans)
qed

text \<open>
  C31: what a collector reports is recorded or accounted for. When a pass of a collector's loop goes through without an
  exception on a node that does not relay its events, every event of the poll whose kind is known and enabled is in the
  graph, with the class the catalogue gives it and the collected payload, and nothing is emitted for the others; the collector's counter of events grows by the number of events
  polled and its counter of dropped events by the number of those whose kind the policy switches off.
\<close>

theorem collected_events_recorded:
  assumes run: "collect_once L w W i s = (Inr ems, s')"
    and i: "i < length (su_collectors s)" and local_graph: "\<not> rc_enabled (cf_agent_relay (su_config s))"
  shows "\<exists>events. fst (any_poll L w (su_collectors s ! i)) = Inr events \<and>
    list_all2 (recorded (su_catalog s) (su_node s')) events ems \<and>
    emitted_of s' i = emitted_of s i + length events \<and>
    dropped_of s' i = dropped_of s i + length (filter (dropped_by_policy (su_catalog s)) events)"
proof -
  from run obtain events c where poll: "any_poll L w (su_collectors s ! i) = (Inr events, c)"
    and rest: "op_each (handle_collected L W i) (enumerate 0 events) (s\<lparr>su_collectors := (su_collectors s)[i := c]\<rparr>) = (Inr ems, s')"
    by (auto simp: collect_once_def poll_collector_def op_bind_Inr Let_def split: prod.splits)
  have counts: "emitted (any_base c) = emitted_of s i + length events" by (rule any.poll_counts [OF poll])
  have same: "cst_dropped_count (bc_status (any_base c)) = dropped_of s i"
    using any.poll_same [of "su_collectors s ! i" L w] poll by (simp add: same_collector_def)
  show ?thesis using handle_all_Inr [OF rest] i local_graph poll counts same by simp
qed

section \<open>A node on its own\<close>

text \<open>What the emissions of a node without peers rest on: no events yet, gossip off, a debounced recomputation.\<close>

definition lonely :: "node \<Rightarrow> bool" where
  "lonely n \<longleftrightarrow> t_events (nd_db n) = [] \<and> my_id n = ''n1'' \<and> nd_vector_clock n = [] \<and> nd_anchors n = [] \<and> \<not> nd_gossip_on n \<and>
     nd_loop_running n \<and> nc_recompute_debounce_sec (nd_config n) = 1 \<and> \<not> nc_notify_enabled (nd_config n) \<and>
     nc_fanout_quorum_ratio (nd_config n) = 2 / 3 \<and> nd_peers n = []"

lemma lonely_parts:
  assumes "lonely n"
  shows "t_events (nd_db n) = []" "my_id n = ''n1''" "nd_vector_clock n = []" "nd_anchors n = []" "nd_gossip_on n = False"
    "nd_loop_running n" "nc_recompute_debounce_sec (nd_config n) = 1" "nc_notify_enabled (nd_config n) = False"
    "nc_fanout_quorum_ratio (nd_config n) = 2 / 3" "nd_peers n = []"
  using assms by (simp_all add: lonely_def)

definition lonely_node :: node where
  "lonely_node = quiet_node\<lparr>nd_peers := []\<rparr>"

lemma lonely_node [simp]: "lonely lonely_node"
proof -
  have "nc_fanout_quorum_ratio (nd_config lonely_node) = 2 / 3" by code_simp
  then show ?thesis by (simp add: lonely_def lonely_node_def quiet_node_parts)
qed

lemma lonely_emission:
  assumes n: "lonely n" and "wf_json (JObj payload)" "dict_get payload ''event_kind'' (JStr []) = JStr kind"
  shows "\<exists>em n'. emit_event demo_lib demo_env demo_env cls payload n = (Inr em, n')"
proof -
  note parts = lonely_parts [OF n]
  let ?vc = "vc_increment [] ''n1''"
  let ?e = "new_event demo_lib demo_env n cls payload [] ?vc"
  let ?env = "\<lparr>env_event = ?e, env_path_meta = [\<lparr>hop_node = Some ''n1'', hop_ts = Some (en_clock demo_env 0)\<rparr>]\<rparr>"
  have eok: "event_ok ?e"
    using assms(2) by (simp add: new_event_def event_create_def event_ok_def vc_increment_def parts str_or_def nth_opt_def first_some_def)
  have ev: "list_events demo_lib d 1000 None = Inr [fresh_event ?e ts]"
    if "t_events d = [new_row demo_lib ?e ts now]" for d ts now
    using event_from_new_row [OF demo_lib_ok(1) eok, of ts now] that
    by (simp add: list_events_def by_created_def sql_limit_def)
  have ev': "reconstruction_ratio demo_lib d = Inr 1"
    if "t_events d = [new_row demo_lib ?e ts now]" for d ts now
    using ev [OF that] by (simp add: reconstruction_ratio_def new_event_sel)
  have parents: "choose_parents demo_lib demo_env n = (Inr [], n)"
  proof -
    have "n\<lparr>nd_anchors := []\<rparr> = n" using parts(4) by simp
    then show ?thesis
      by (simp add: choose_parents_def op_simps parts latest_event_by_source_def list_recent_events_def
        by_created_def sql_limit_def head_opt_def anchor_ids_def list_events_def parent_choice_def)
  qed
  have nh: "\<not> has_event (nd_db n) x" for x by (simp add: has_event_def parts)
  have "\<exists>n1. persist_envelope demo_lib demo_env 1 True True ?env n = (Inr True, n1) \<and> nd_gossip_on n1 = False \<and>
    nd_config n1 = nd_config n \<and> nd_peers n1 = []"
    using nh [of "ev_id ?e"]
    by (simp add: persist_envelope_def store_in_node_def store_new parts op_simps request_recompute_def
      set_db_def record_reconstruction_def ev' Let_def schedule_fast_fanout_def notify_viz_def broadcast_viz_def on_metrics_def)
  then obtain n1 where n1: "persist_envelope demo_lib demo_env 1 True True ?env n = (Inr True, n1)"
    "nd_gossip_on n1 = False" "nd_config n1 = nd_config n" "nd_peers n1 = []" by blast
  have alone: "node_list_peers n = []" if "nd_peers n = []" for n using that by (simp add: node_list_peers_def)
  have "event_kind_text demo_lib payload = Inr kind" using assms(3) by (simp add: event_kind_text_def)
  with n1 show ?thesis
    by (cases cls) (simp_all add: emit_event_def emit_with_def op_simps Let_def parents parts alone broadcast_with_quorum_ack_def
      broadcast_event_def refresh_peer_health_def increment_event_counters_def bump_def)
qed

definition demo_catalog :: "bool \<Rightarrow> catalog" where
  "demo_catalog enabled =
     \<lparr>ct_events = [(''iptables_rule_changed'', \<lparr>ce_class = ClassA, ce_title = [], ce_payload = []\<rparr>)],
      ct_metadata = [(''iptables_rule_changed'', [(''registry_enabled'', JBool enabled)])]\<rparr>"

definition rule_watch :: firewall_collector where
  "rule_watch = (firewall_init (default_firewall\<lparr>fc_enabled := True\<rparr>) ''n1'' ''h1'' True)\<lparr>fi_first_poll := False, fi_last_digest := Some ''old''\<rparr>"

definition demo_supervisor :: "bool \<Rightarrow> supervisor" where
  "demo_supervisor enabled =
     \<lparr>su_node = lonely_node, su_config = demo_file, su_catalog = demo_catalog enabled, su_collectors = [Firewall rule_watch],
      su_relay = relay_init default_relay None, su_notifier = notifier_init default_notifier, su_ingestor = None,
      su_ingest_status = \<lparr>is_enabled = False, is_source_type = [], is_source_path = None, is_host_id = ''n1'', is_last_poll_at = None,
        is_last_event_at = None, is_last_error = None, is_emitted_count = 0\<rparr>,
      su_process_start_ts = 0, su_window_start_ts = 0, su_emitted_at_window_start = [], su_class_at_window_start = [], su_hourly_emitted = 0\<rparr>"

theorem policy_change_evidenced_witness:
  "\<exists>answer s'. set_collection_policy demo_lib demo_env demo_env ''iptables_rule_changed'' False (demo_supervisor True) = (Inr answer, s') \<and>
     \<not> registry_enabled_for (su_catalog s') ''iptables_rule_changed'' \<and>
     (\<exists>e :: event. ev_cls e = ClassA \<and> has_event (nd_db (su_node s')) (ev_id e))"
proof -
  let ?s = "demo_supervisor True" and ?k = "''iptables_rule_changed''"
  have ok: "wf_json (JObj (policy_payload demo_lib n cat k p b t))" for n cat k p b t
    by (simp add: policy_payload_def)
  have kind: "dict_get (policy_payload demo_lib n cat k p b t) ''event_kind'' (JStr []) = JStr ''mdrj_collection_policy_changed''" for n cat k p b t
    by (simp add: policy_payload_def dict_get_def)
  obtain em n' where run: "emit_event demo_lib demo_env demo_env ClassA
      (policy_payload demo_lib lonely_node (demo_catalog False) ?k True False (en_clock demo_env 9)) lonely_node = (Inr em, n')"
    using lonely_emission [OF lonely_node ok kind] by blast
  have sup: "su_catalog ?s = demo_catalog True" "su_node ?s = lonely_node" by (simp_all add: demo_supervisor_def)
  have facts: "is_known_event_kind (demo_catalog True) ?k" "registry_enabled_for (demo_catalog True) ?k" "?k \<notin> set POLICY_PROTECTED_KINDS"
    "set_registry_enabled ?k False (demo_catalog True) = (True, demo_catalog False)"
    by (simp_all add: demo_catalog_def is_known_event_kind_def registry_enabled_for_def metadata_enabled_def dict_get_def
      set_registry_enabled_def POLICY_PROTECTED_KINDS_def)
  have "\<exists>answer s'. set_collection_policy demo_lib demo_env demo_env ?k False ?s = (Inr answer, s')"
    by (simp add: set_collection_policy_def facts sup op_simps on_node_def run)
  then obtain answer s' where result: "set_collection_policy demo_lib demo_env demo_env ?k False ?s = (Inr answer, s')" by blast
  with policy_change_evidenced [OF result] show ?thesis by blast
qed

definition rule_world :: collect_world where
  "rule_world =
     \<lparr>cw_journal = \<lparr>jw_clock = of_nat, jw_now = of_nat, jw_run = (\<lambda>_. RunFails []), jw_iso = (\<lambda>_. [])\<rparr>, cw_audit = passwd_world StatMissing,
      cw_firewall = \<lparr>rw_clock = of_nat, rw_run = (\<lambda>_. RunDone 0 ''rules'' [])\<rparr>,
      cw_proc = \<lparr>pw_clock = of_nat, pw_pids = [], pw_comm = (\<lambda>_. None), pw_exe = (\<lambda>_. None), pw_status = (\<lambda>_. None)\<rparr>,
      cw_host = \<lparr>hw_clock = of_nat, hw_uptime = Inl []\<rparr>, cw_texts = (\<lambda>_. [])\<rparr>"

definition rule_emissions :: emit_world where
  "rule_emissions = \<lparr>ew_env = (\<lambda>_. demo_env), ew_env2 = (\<lambda>_. demo_env),
     ew_relay = (\<lambda>_. \<lparr>yw_post = (\<lambda>_ _ _. Inl []), yw_time = 0\<rparr>)\<rparr>"

lemma rule_polled:
  "\<exists>c e. any_poll demo_lib rule_world (Firewall rule_watch) = (Inr [e], Firewall c) \<and> co_event_kind e = ''iptables_rule_changed'' \<and>
     wf_json (JObj (to_payload e)) \<and> dict_get (to_payload e) ''event_kind'' (JStr []) = JStr ''iptables_rule_changed''"
proof -
  have "sha256_hex demo_lib ''rules'' \<noteq> ''old''" by code_simp
  then show ?thesis
    by (auto simp: firewall_poll_def rule_world_def rule_watch_def firewall_init_def default_firewall_def base_init_def Let_def polled_at_def
      on_status_def set_error_def count_emitted_def annotate_def rules_event_def to_payload_def setdefault_def str_or_def dict_get_def)
qed

theorem collected_events_recorded_witness:
  "\<exists>em s'. collect_once demo_lib rule_world rule_emissions 0 (demo_supervisor True) = (Inr [Some em], s') \<and> emitted_of s' 0 = 1 \<and>
     has_event (nd_db (su_node s')) (ev_id (em_event em))"
proof -
  let ?s = "demo_supervisor True"
  obtain c e where poll: "any_poll demo_lib rule_world (Firewall rule_watch) = (Inr [e], Firewall c)"
    and e: "co_event_kind e = ''iptables_rule_changed''" "wf_json (JObj (to_payload e))"
      "dict_get (to_payload e) ''event_kind'' (JStr []) = JStr ''iptables_rule_changed''"
    using rule_polled by blast
  obtain em n' where run: "emit_event demo_lib demo_env demo_env ClassA (to_payload e) lonely_node = (Inr em, n')"
    using lonely_emission [OF lonely_node e(2,3)] by blast
  have s: "su_collectors ?s = [Firewall rule_watch]" "su_catalog ?s = demo_catalog True" "su_node ?s = lonely_node"
    "\<not> rc_enabled (cf_agent_relay (su_config ?s))"
    by (simp_all add: demo_supervisor_def demo_file_def default_relay_def)
  have cat: "is_known_event_kind (demo_catalog True) (co_event_kind e)" "registry_enabled_for (demo_catalog True) (co_event_kind e)"
    "event_class_for (demo_catalog True) (co_event_kind e) = Inr ClassA"
    by (simp_all add: e(1) demo_catalog_def is_known_event_kind_def registry_enabled_for_def metadata_enabled_def dict_get_def event_class_for_def)
  obtain s' where res: "collect_once demo_lib rule_world rule_emissions 0 ?s = (Inr [Some em], s')"
    by (simp add: collect_once_def poll_collector_def s poll handle_collected_def op_simps cat rule_emissions_def on_node_def run del: any_poll.simps)
  moreover have "emitted_of ?s 0 = 0" by (simp add: s rule_watch_def firewall_init_def base_init_def)
  ultimately show ?thesis
    using collected_events_recorded [OF res] s poll by (auto simp: recorded_def simp del: any_poll.simps)
qed

end
