(* ===== verification/Reporting.thy ===== *)
theory Reporting
  imports Supervision
begin

text \<open>
  The reports of a supervised node (\<open>mdrj/node.py\<close>): the hourly status event with its windows, the history of metrics,
  notifications, the consensus monitor that compares digests with the peers, the demo simulation
  (\<open>mdrj/simulation.py\<close>), the list of background loops and the status document.
\<close>

section \<open>The health of the host\<close>

text \<open>The texts of the files under \<open>/proc\<close>, none when they cannot be read; the blocks of the root file system.\<close>

record host_files =
  hf_uptime :: "string option"
  hf_loadavg :: "string option"
  hf_meminfo :: "string option"
  hf_statvfs :: "(int \<times> int) option"

definition first_float :: "float_codec \<Rightarrow> string option \<Rightarrow> rat" where
  "first_float fc content =
     (case content of
        None \<Rightarrow> 0
      | Some t \<Rightarrow> (case py_split t of [] \<Rightarrow> 0 | field # _ \<Rightarrow> (case py_float fc (JStr field) of Inr x \<Rightarrow> x | Inl _ \<Rightarrow> 0)))"

definition meminfo_entry :: "string \<Rightarrow> (string \<times> string) result" where
  "meminfo_entry line =
     (let key = takeWhile (\<lambda>c. c \<noteq> CHR '':'') line
      in case py_split (py_strip (drop (Suc (length key)) line)) of
           [] \<Rightarrow> Inl IndexError
         | v # _ \<Rightarrow> Inr (key, v))"

text \<open>\<open>round1\<close> is \<open>round(x, 1)\<close>.\<close>

definition mem_used_pct :: "(rat \<Rightarrow> rat) \<Rightarrow> string option \<Rightarrow> rat" where
  "mem_used_pct round1 content =
     (case content of
        None \<Rightarrow> 0
      | Some t \<Rightarrow>
          (case res_bind (res_map meminfo_entry (filter (\<lambda>ln. CHR '':'' \<in> set ln) (py_splitlines t))) (\<lambda>entries.
                let lines = fold (\<lambda>(k, v). AList.update k v) entries []
                in res_bind (py_int (JStr (dict_get lines ''MemTotal'' ''1''))) (\<lambda>total.
                   res_bind (py_int (JStr (dict_get lines ''MemAvailable'' ''0''))) (\<lambda>available.
                   Inr (if 0 < total then round1 ((1 - of_int available / of_int total) * 100) else 0)))) of
             Inr x \<Rightarrow> x
           | Inl _ \<Rightarrow> 0))"

definition disk_used_pct :: "(rat \<Rightarrow> rat) \<Rightarrow> (int \<times> int) option \<Rightarrow> rat" where
  "disk_used_pct round1 st =
     (case st of
        None \<Rightarrow> 0
      | Some (f_blocks, f_bavail) \<Rightarrow> if 0 < f_blocks then round1 ((1 - of_int f_bavail / of_int f_blocks) * 100) else 0)"

definition collect_host_health :: "float_codec \<Rightarrow> (rat \<Rightarrow> rat) \<Rightarrow> host_files \<Rightarrow> rat \<times> rat \<times> rat \<times> rat" where
  "collect_host_health fc round1 h =
     (first_float fc (hf_uptime h), first_float fc (hf_loadavg h), mem_used_pct round1 (hf_meminfo h), disk_used_pct round1 (hf_statvfs h))"

section \<open>The hourly status\<close>

definition snapshot_events_by_class :: "node \<Rightarrow> (string, nat) dict" where
  "snapshot_events_by_class n =
     fold (\<lambda>((cls, kind), k) out. AList.update cls (dict_get out cls 0 + k) out) (nd_events_by_class_kind n)
       [(''A'', 0), (''B'', 0), (''C'', 0)]"

definition emitted_counts :: "any_collector list \<Rightarrow> (string, nat) dict" where
  "emitted_counts cs = fold (\<lambda>c. AList.update (cst_name (bc_status (any_base c))) (emitted (any_base c))) cs []"

definition start_hourly_status :: "timestamp \<Rightarrow> timestamp \<Rightarrow> supervisor \<Rightarrow> supervisor" where
  "start_hourly_status started opened s =
     s\<lparr>su_process_start_ts := started, su_window_start_ts := opened,
       su_emitted_at_window_start := emitted_counts (su_collectors s), su_class_at_window_start := snapshot_events_by_class (su_node s)\<rparr>"

definition collector_report :: "(string, nat) dict \<Rightarrow> any_collector \<Rightarrow> json" where
  "collector_report base c =
     (let s = bc_status (any_base c); prev = dict_get base (cst_name s) 0
      in JObj [(''name'', JStr (cst_name s)), (''enabled'', JBool (cst_enabled s)),
           (''emitted_in_window'', JInt (int (cst_emitted_count s - prev))), (''emitted_total'', JInt (int (cst_emitted_count s))),
           (''dropped_total'', JInt (int (cst_dropped_count s))), (''last_poll_at'', opt_json JFloat (cst_last_poll_at s)),
           (''last_event_at'', opt_json JFloat (cst_last_event_at s)), (''last_error'', opt_json JStr (cst_last_error s))])"

definition class_delta :: "supervisor \<Rightarrow> string \<Rightarrow> nat" where
  "class_delta s cls = dict_get (snapshot_events_by_class (su_node s)) cls 0 - dict_get (su_class_at_window_start s) cls 0"

definition latest_confirmed_summary :: "timestamp \<Rightarrow> db \<Rightarrow> int \<times> rat" where
  "latest_confirmed_summary now d =
     (case latest_confirmed_checkpoint d of
        None \<Rightarrow> (0, 0)
      | Some (rnd, row) \<Rightarrow>
          (rnd, max 0 (now - (case ck_confirmed_at row of Some t \<Rightarrow> if t \<noteq> 0 then t else ck_created_at row | None \<Rightarrow> ck_created_at row))))"

definition hourly_payload :: "pylib \<Rightarrow> (rat \<Rightarrow> rat) \<Rightarrow> host_files \<Rightarrow> timestamp \<Rightarrow> supervisor \<Rightarrow> (string, json) dict" where
  "hourly_payload L round1 h now s =
     (let (host_uptime, load_1m, mem_pct, disk_pct) = collect_host_health (floats L) round1 h;
          (cp_round, cp_age) = latest_confirmed_summary now (nd_db (su_node s))
      in [(''event_kind'', JStr ''node_hourly_status''), (''node_id'', JStr (my_id (su_node s))), (''host_id'', JStr (host_of (su_node s))),
          (''window_sec'', JFloat (now - su_window_start_ts s)), (''process_uptime_sec'', JFloat (now - su_process_start_ts s)),
          (''host_uptime_sec'', JFloat host_uptime),
          (''collectors'', JList (map (collector_report (su_emitted_at_window_start s)) (su_collectors s))),
          (''events_in_window'', JObj (map (\<lambda>cls. (cls, JInt (int (class_delta s cls)))) [''A'', ''B'', ''C''])),
          (''load_avg_1m'', JFloat load_1m), (''mem_used_pct'', JFloat mem_pct), (''disk_used_pct_root'', JFloat disk_pct),
          (''last_confirmed_checkpoint_round'', JInt cp_round), (''last_checkpoint_age_sec'', JFloat cp_age),
          (''tamper_evidence'', JBool (nd_tamper_evidence (su_node s))), (''peers_known'', JInt (int (length (node_list_peers (su_node s))))),
          (''collection_policy_hash'', JStr (collection_policy_hash L (su_catalog s)))])"

text \<open>A failed emission is caught inside and leaves the window where it was.\<close>

definition emit_hourly_status :: "pylib \<Rightarrow> node_env \<Rightarrow> node_env \<Rightarrow> (rat \<Rightarrow> rat) \<Rightarrow> host_files \<Rightarrow> timestamp \<Rightarrow> (supervisor, unit) op" where
  "emit_hourly_status L E E2 round1 h now = (\<lambda>s.
     case on_node (emit_event L E E2 ClassB (hourly_payload L round1 h now s)) s of
       (Inl e, s1) \<Rightarrow> (Inr (), s1)
     | (Inr em, s1) \<Rightarrow>
         (Inr (), s1\<lparr>su_hourly_emitted := su_hourly_emitted s1 + 1, su_window_start_ts := now,
            su_emitted_at_window_start := emitted_counts (su_collectors s1),
            su_class_at_window_start := snapshot_events_by_class (su_node s)\<rparr>))"

definition hourly_status_runtime :: "bool \<Rightarrow> supervisor \<Rightarrow> json" where
  "hourly_status_runtime running s =
     JObj [(''enabled'', JBool (0 < rn_hourly_status_interval_sec (cf_runtime (su_config s)))),
       (''interval_sec'', JFloat (rn_hourly_status_interval_sec (cf_runtime (su_config s)))),
       (''emitted_count'', JInt (int (su_hourly_emitted s))), (''running'', JBool running)]"

definition heartbeat_status :: "bool \<Rightarrow> supervisor \<Rightarrow> json" where
  "heartbeat_status running s =
     JObj [(''enabled'', JBool (hb_enabled (cf_heartbeat (su_config s)))), (''interval_sec'', JFloat (hb_interval_sec (cf_heartbeat (su_config s)))),
       (''emitted_count'', JInt (int (dict_get (nd_counters (su_node s)) ''heartbeat_emitted'' 0))), (''running'', JBool running)]"

section \<open>History of metrics and notifications\<close>

definition METRICS_HISTORY_KEEP_ROWS :: int where
  "METRICS_HISTORY_KEEP_ROWS = 5760"

definition metrics_history_pass :: "pylib \<Rightarrow> node_env \<Rightarrow> timestamp \<Rightarrow> node \<Rightarrow> node" where
  "metrics_history_pass L E now n =
     (let payload = canonical_json (floats L) (JObj (node_metrics_snapshot E n))
      in set_db (snd (prune_metrics_history METRICS_HISTORY_KEEP_ROWS (append_metrics_snapshot now payload (nd_db n)))) n)"

definition event_notification :: "pylib \<Rightarrow> timestamp \<Rightarrow> event \<Rightarrow> notification result" where
  "event_notification L now e =
     res_bind (py_str L (dict_get (ev_payload e) ''event_kind'' (JStr []))) (\<lambda>kind.
     Inr \<lparr>no_event_id = ev_id e, no_event_kind = str_or kind (cls_value (ev_cls e)), no_cls = cls_value (ev_cls e), no_creator = ev_creator e,
       no_payload = ev_payload e, no_ts = now\<rparr>)"

definition notify_event :: "pylib \<Rightarrow> notify_world \<Rightarrow> timestamp \<Rightarrow> event \<Rightarrow> supervisor \<Rightarrow> supervisor" where
  "notify_event L w now e s =
     (case event_notification L now e of
        Inl _ \<Rightarrow> s
      | Inr note \<Rightarrow> s\<lparr>su_notifier := snd (dispatch (floats L) w note (su_notifier s))\<rparr>)"

section \<open>The consensus monitor\<close>

text \<open>The digest as the interface sends it.\<close>

definition digest_dict :: "consensus_digest \<Rightarrow> (string, json) dict" where
  "digest_dict g =
     [(''node_id'', JStr (dg_node_id g)), (''hash'', JStr (dg_hash g)), (''event_count'', JInt (int (dg_event_count g))),
      (''total_event_count'', JInt (int (dg_total_event_count g))), (''latest_event'', opt_json JStr (dg_latest_event g)),
      (''latest_total_event'', opt_json JStr (dg_latest_total_event g)), (''finality_margin'', JInt CONSENSUS_FINALITY_MARGIN),
      (''consensus_epoch'', JInt (dg_consensus_epoch g)), (''consensus_membership_size'', JInt (int (dg_membership_size g))),
      (''membership_snapshot_hash'', JStr (dg_membership_snapshot_hash g)), (''generated_at'', JFloat (dg_generated_at g))]"

text \<open>The body of the answer of a peer, none for a failed request; \<open>clock\<close> is the time of the request to an address.\<close>

definition fetch_peer_consensus :: "pylib \<Rightarrow> (string \<Rightarrow> json option) \<Rightarrow> timestamp \<Rightarrow> string \<Rightarrow> node \<Rightarrow> (string, json) dict option \<times> node" where
  "fetch_peer_consensus L replies now address n =
     (if \<not> nd_gossip_on n then (None, n)
      else case replies address of
        Some (JObj payload) \<Rightarrow>
          (case str_or_empty L (jget payload ''node_id'') of
             Inl _ \<Rightarrow> (None, n)
           | Inr t \<Rightarrow> (Some payload,
               if py_strip t = [] then n
               else set_db (snd (update_peer address None None (Some now) (Some True) None (Some (py_strip t)) None (nd_db n))) n))
      | _ \<Rightarrow> (None, n))"

definition same_key :: "(string, json) dict \<Rightarrow> (string, json) dict \<Rightarrow> string \<Rightarrow> bool" where
  "same_key own peer k \<longleftrightarrow> jget peer k = jget own k"

definition snapshots_match :: "(string, json) dict \<Rightarrow> (string, json) dict \<Rightarrow> bool" where
  "snapshots_match own peer \<longleftrightarrow>
     same_key own peer ''hash'' \<and> same_key own peer ''event_count'' \<and> same_key own peer ''membership_snapshot_hash''"

definition consensus_mismatch_reasons :: "(string, json) dict \<Rightarrow> (string, json) dict \<Rightarrow> string list" where
  "consensus_mismatch_reasons own peer =
     (if same_key own peer ''event_count'' then [] else [''event_count'']) @
     (if same_key own peer ''hash'' then [] else [''hash'']) @
     (if same_key own peer ''membership_snapshot_hash'' then [] else [''membership'']) @
     (if \<not> same_key own peer ''consensus_epoch'' \<and> \<not> same_key own peer ''membership_snapshot_hash'' then [''epoch''] else [])"

definition picked :: "string list \<Rightarrow> (string, json) dict \<Rightarrow> (string, json) dict" where
  "picked keys d = map (\<lambda>k. (k, jget d k)) keys"

text \<open>The key of the counter: an address is not empty, so the other alternatives of the source do not arise for a peer.\<close>

definition peer_key :: "string \<Rightarrow> (string, json) dict option \<Rightarrow> string" where
  "peer_key address peer =
     str_or address (case peer of Some p \<Rightarrow> (case jget p ''node_id'' of JStr s \<Rightarrow> str_or s ''unknown'' | _ \<Rightarrow> ''unknown'') | None \<Rightarrow> ''unknown'')"

definition notify_consensus_status :: "timestamp \<Rightarrow> string \<Rightarrow> bool \<Rightarrow> (string, json) dict \<Rightarrow> (string, json) dict option \<Rightarrow>
    string option \<Rightarrow> string list \<Rightarrow> node \<Rightarrow> node" where
  "notify_consensus_status now address matched own peer error reasons n =
     (let key = peer_key address peer;
          mismatch = (error \<noteq> None \<or> \<not> matched);
          n1 = count_mismatch key mismatch n;
          pending = (mismatch \<and> dict_get (nd_consensus_mismatch n1) key 0 < 3);
          payload = [(''type'', JStr ''consensus_status''), (''peer'', JStr address),
            (''peer_node'', case peer of Some p \<Rightarrow> jget p ''node_id'' | None \<Rightarrow> JNull), (''match'', JBool (matched \<and> error = None)),
            (''local'', JObj (picked [''hash'', ''event_count'', ''latest_event'', ''consensus_epoch'', ''membership_snapshot_hash''] own)),
            (''timestamp'', JFloat now), (''pending'', JBool pending), (''mismatch_reasons'', JList (map JStr reasons))] @
            (case peer of Some (kv # kvs) \<Rightarrow>
                [(''peer_state'', JObj (picked [''hash'', ''event_count'', ''latest_event'', ''node_id'', ''consensus_epoch'',
                   ''membership_snapshot_hash''] (kv # kvs)))] | _ \<Rightarrow> []) @
            (case error of Some e \<Rightarrow> [(''error'', JStr e)] | None \<Rightarrow> [])
      in broadcast_viz (JObj payload) n1)"

definition monitor_peer :: "pylib \<Rightarrow> (string \<Rightarrow> json option) \<Rightarrow> (string \<Rightarrow> timestamp) \<Rightarrow> (string, json) dict \<Rightarrow> peer_info \<Rightarrow> node \<Rightarrow> node" where
  "monitor_peer L replies clock own peer n =
     (let address = pi_address peer;
          (answer, n1) = fetch_peer_consensus L replies (clock address) address n
      in case answer of
           Some (kv # kvs) \<Rightarrow>
             notify_consensus_status (clock address) address (snapshots_match own (kv # kvs)) own (Some (kv # kvs)) None
               (consensus_mismatch_reasons own (kv # kvs)) n1
         | _ \<Rightarrow> notify_consensus_status (clock address) address False own None (Some ''unreachable'') [''unreachable''] n1)"

text \<open>One pass of \<open>_consensus_monitor_loop\<close>; an exception of the snapshot is caught.\<close>

definition monitor_pass :: "pylib \<Rightarrow> (string \<Rightarrow> json option) \<Rightarrow> (string \<Rightarrow> timestamp) \<Rightarrow> timestamp \<Rightarrow> node \<Rightarrow> node" where
  "monitor_pass L replies clock now n =
     (case consensus_snapshot_sync L now n of
        (Inl _, n1) \<Rightarrow> n1
      | (Inr own, n1) \<Rightarrow> fold (monitor_peer L replies clock (digest_dict own)) (node_list_peers n1) n1)"

section \<open>Demo simulation\<close>

definition DEMO_SCENARIOS :: "string list" where
  "DEMO_SCENARIOS = [''virus'', ''admin_login'', ''mac_spoof'', ''portscan'', ''heartbeat'']"

definition SCENARIOS :: "catalog \<Rightarrow> (string, catalog_entry) dict" where
  "SCENARIOS cat = filter (\<lambda>(key, entry). key \<in> set DEMO_SCENARIOS) (ct_events cat)"

text \<open>The random parts of a scenario are arguments: the time text, the identifier and the rounded confidence.\<close>

definition scenario_payload :: "catalog \<Rightarrow> string \<Rightarrow> string \<Rightarrow> string \<Rightarrow> rat \<Rightarrow> (EventClass \<times> (string, json) dict) result" where
  "scenario_payload cat key generated_at simulation_id confidence =
     (case map_of (SCENARIOS cat) key of
        None \<Rightarrow> Inl (KeyError key)
      | Some entry \<Rightarrow> Inr (ce_class entry,
          AList.update ''confidence'' (JFloat confidence) (AList.update ''simulation_id'' (JStr simulation_id)
            (AList.update ''generated_at'' (JStr generated_at) (AList.update ''scenario'' (JStr key) (ce_payload entry))))))"

text \<open>The task of the simulation: none, running, or ended with the exception that ended it.\<close>

datatype sim_task = NoTask | SimRunning | SimEnded "py_error option"

record simulation =
  si_task :: sim_task
  si_token :: "string option"
  si_stop :: bool

definition simulation_running :: "simulation \<Rightarrow> bool" where
  "simulation_running m \<longleftrightarrow> si_task m = SimRunning"

definition propagate_simulation :: "pylib \<Rightarrow> string \<Rightarrow> string \<Rightarrow> rat option \<Rightarrow> rat option \<Rightarrow> node \<Rightarrow>
    (string \<times> string \<times> (string, string) dict) list" where
  "propagate_simulation L action token interval jitter n =
     (if \<not> nd_gossip_on n then []
      else let payload = [(''action'', JStr action), (''token'', JStr token), (''propagate'', JBool False)] @
             (case interval of Some x \<Rightarrow> [(''interval'', JFloat x)] | None \<Rightarrow> []) @
             (case jitter of Some x \<Rightarrow> [(''jitter'', JFloat x)] | None \<Rightarrow> [])
           in map (\<lambda>peer. (''http://'' @ pi_address peer @ ''/viz/simulation/control'',
                signed_request_body L (JObj payload) (Some (nc_hmac_key (nd_config n))))) (node_list_peers n))"

definition start_simulation :: "simulation \<Rightarrow> string \<Rightarrow> bool \<times> simulation" where
  "start_simulation m token =
     (if simulation_running m then (False, m) else (True, m\<lparr>si_task := SimRunning, si_token := Some token, si_stop := False\<rparr>))"

text \<open>\<open>stop_simulation\<close> awaits the task, so it raises what ended it; the task is forgotten in any case.\<close>

definition stop_simulation :: "string \<Rightarrow> (simulation, bool) op" where
  "stop_simulation token m =
     (case si_task m of
        NoTask \<Rightarrow> (Inr False, m)
      | SimEnded (Some e) \<Rightarrow> (Inl e, m\<lparr>si_task := NoTask, si_token := Some token, si_stop := True\<rparr>)
      | _ \<Rightarrow> (Inr True, m\<lparr>si_task := NoTask, si_token := Some token, si_stop := True\<rparr>))"

text \<open>One burst of the loop: the chosen scenarios are emitted one after the other; an exception ends the task.\<close>

definition simulation_burst :: "pylib \<Rightarrow> emit_world \<Rightarrow> catalog \<Rightarrow> (nat \<times> string \<times> string \<times> string \<times> rat) list \<Rightarrow> (node, emission list) op" where
  "simulation_burst L W cat = op_each (\<lambda>(k, key, generated_at, simulation_id, confidence).
     op_bind (op_lift (\<lambda>_. scenario_payload cat key generated_at simulation_id confidence)) (\<lambda>(cls, payload).
     emit_event L (ew_env W k) (ew_env2 W k) cls payload))"

section \<open>Background loops and status\<close>

text \<open>The loops that \<open>start\<close> creates, with the pause between their passes.\<close>

definition background_loops :: "file_config \<Rightarrow> any_collector list \<Rightarrow> (string \<times> rat) list" where
  "background_loops c collectors =
     (let rt = cf_runtime c in
      [(''consensus_monitor'', max (3 / 2) (gc_period_sec (cf_gossip c) * (3 / 2)))] @
      (if li_enabled (cf_linux_ingest c) then [(''linux_ingest'', max (1 / 2) (li_poll_interval_sec (cf_linux_ingest c)))] else []) @
      map (\<lambda>k. (cst_name (bc_status (any_base k)), max (1 / 5) (bc_poll_interval_sec (any_base k)))) collectors @
      (if cf_ui_enabled c then [(''metrics_history'', 30)] else []) @
      (if rt_enabled (cf_retention c) then [(''retention'', max 5 (rt_poll_interval_sec (cf_retention c)))] else []) @
      (if hb_enabled (cf_heartbeat c) then [(''heartbeat'', max (1 / 20) (hb_interval_sec (cf_heartbeat c)))] else []) @
      (if 0 < rn_hourly_status_interval_sec rt then [(''hourly_status'', max 60 (rn_hourly_status_interval_sec rt))] else []) @
      (if 0 < rn_checkpoint_propose_interval_sec rt then [(''checkpoint_propose'', max 10 (rn_checkpoint_propose_interval_sec rt))] else []) @
      (if 0 < rn_frontier_sync_interval_sec rt then [(''frontier_sync'', max 5 (rn_frontier_sync_interval_sec rt))] else []) @
      (if 0 < rn_tamper_verify_interval_sec rt then [(''tamper_verify'', max 10 (rn_tamper_verify_interval_sec rt))] else []) @
      (case build_discovery (cf_discovery c) (cf_node_id c) (cf_listen c) of None \<Rightarrow> [] | Some d \<Rightarrow> [(''discovery'', di_poll_interval_sec d)]))"

fun state_name :: "NodeState \<Rightarrow> string" where
  "state_name STARTED = ''STARTED''"
| "state_name ISOLATED = ''ISOLATED''"
| "state_name MERGING = ''MERGING''"
| "state_name RUN = ''RUN''"

definition demo_controls_enabled :: "supervisor \<Rightarrow> bool" where
  "demo_controls_enabled s \<longleftrightarrow> \<not> li_enabled (cf_linux_ingest (su_config s))"

definition node_status :: "pylib \<Rightarrow> supervisor \<Rightarrow> (string, json) dict \<times> supervisor" where
  "node_status L s =
     (let (membership, n) = active_consensus_membership L (su_node s);
          profile = nc_profile (nd_config n);
          with_count = (\<lambda>P. sort (map fst (filter (\<lambda>(peer, k). P k) (nd_consensus_mismatch n))))
      in ([(''node_id'', JStr (my_id n)), (''state'', JStr (state_name (nd_state n))),
           (''peers'', JList (map (JObj \<circ> peer_to_dict) (node_list_peers n))),
           (''profile'', JObj [(''role'', JStr (current_role n)), (''memory_mb'', JInt (np_memory_mb profile)),
              (''bw_kbps'', JInt (np_bw_kbps profile)), (''threat_level'', JStr (np_threat_level profile))]),
           (''consensus_epoch'', JInt (ms_epoch membership)), (''consensus_membership_size'', JInt (int (ms_size membership))),
           (''membership_snapshot_hash'', JStr (ms_hash membership)), (''consensus_health'', JStr (consensus_health n)),
           (''consensus_mismatch_peers'', strs_json (with_count (\<lambda>k. 3 \<le> k))),
           (''consensus_pending_peers'', strs_json (with_count (\<lambda>k. 0 < k \<and> k < 3))),
           (''linux_ingest'', JObj (ingest_status_dict (su_ingest_status s))),
           (''demo_controls_enabled'', JBool (demo_controls_enabled s)), (''ui_enabled'', JBool (cf_ui_enabled (su_config s)))],
          s\<lparr>su_node := n\<rparr>))"

section \<open>Windows of the hourly status\<close>


lemma hourly_payload_ok: "wf_json (JObj (hourly_payload L round1 h now s))"
proof -
  have "wf_json (opt_json JFloat t)" for t by (cases t; simp)
  moreover have "wf_json (opt_json JStr u)" for u by (cases u; simp)
  ultimately have "wf_json (collector_report b c)" for b c by (simp add: collector_report_def Let_def)
  then show ?thesis by (simp add: hourly_payload_def split_beta list_all_iff)
qed


section \<open>What the monitor counts\<close>

definition agrees :: "pylib \<Rightarrow> (string \<Rightarrow> json option) \<Rightarrow> bool \<Rightarrow> (string, json) dict \<Rightarrow> string \<Rightarrow> bool" where
  "agrees L replies online own address \<longleftrightarrow> online \<and>
     (\<exists>kv kvs t. replies address = Some (JObj (kv # kvs)) \<and> str_or_empty L (jget (kv # kvs) ''node_id'') = Inr t \<and> snapshots_match own (kv # kvs))"

lemma fetch_frame [simp]:
  "nd_consensus_mismatch (snd (fetch_peer_consensus L replies now a n)) = nd_consensus_mismatch n"
  "nd_gossip_on (snd (fetch_peer_consensus L replies now a n)) = nd_gossip_on n"
  by (auto simp: fetch_peer_consensus_def set_db_def split: option.split json.split sum.split)

lemma notify_frame [simp]:
  "nd_consensus_mismatch (notify_consensus_status now a m own p err rs n) = nd_consensus_mismatch (count_mismatch (peer_key a p) (err \<noteq> None \<or> \<not> m) n)"
  "nd_gossip_on (notify_consensus_status now a m own p err rs n) = nd_gossip_on n"
  by (simp_all add: notify_consensus_status_def Let_def broadcast_viz_def count_mismatch_def)

lemma monitor_peer_counts:
  assumes "pi_address p \<noteq> []"
  shows "nd_consensus_mismatch (monitor_peer L replies clock own p n) = AList.update (pi_address p)
      (if agrees L replies (nd_gossip_on n) own (pi_address p) then 0 else dict_get (nd_consensus_mismatch n) (pi_address p) 0 + 1) (nd_consensus_mismatch n)"
    and "nd_gossip_on (monitor_peer L replies clock own p n) = nd_gossip_on n"
proof -
  have key: "peer_key (pi_address p) x = pi_address p" for x using assms by (simp add: peer_key_def str_or_def)
  obtain answer n1 where f: "fetch_peer_consensus L replies (clock (pi_address p)) (pi_address p) n = (answer, n1)" by fastforce
  have n1: "nd_consensus_mismatch n1 = nd_consensus_mismatch n" "nd_gossip_on n1 = nd_gossip_on n"
    using fetch_frame [of L replies "clock (pi_address p)" "pi_address p" n] f by simp_all
  have "agrees L replies (nd_gossip_on n) own (pi_address p) \<longleftrightarrow> (\<exists>kv kvs. answer = Some (kv # kvs) \<and> snapshots_match own (kv # kvs))"
    using f by (auto simp: agrees_def fetch_peer_consensus_def split: if_splits option.splits json.splits sum.splits)
  then show "nd_consensus_mismatch (monitor_peer L replies clock own p n) = AList.update (pi_address p)
      (if agrees L replies (nd_gossip_on n) own (pi_address p) then 0 else dict_get (nd_consensus_mismatch n) (pi_address p) 0 + 1) (nd_consensus_mismatch n)"
    by (auto simp: monitor_peer_def Let_def f n1 key count_mismatch_def split: option.split list.split)
  show "nd_gossip_on (monitor_peer L replies clock own p n) = nd_gossip_on n"
    by (auto simp: monitor_peer_def Let_def f n1 split: option.split list.split)
qed

lemma health_mismatch: "consensus_health n = ''mismatch'' \<longleftrightarrow> (\<exists>x \<in> set (nd_consensus_mismatch n). 3 \<le> snd x)"
  by (simp add: consensus_health_def Let_def filter_empty_conv case_prod_beta)

lemma health_ok: "consensus_health n = ''ok'' \<longleftrightarrow> (\<forall>x \<in> set (nd_consensus_mismatch n). snd x = 0)"
proof -
  have "consensus_health n = ''ok'' \<longleftrightarrow> (\<forall>x \<in> set (nd_consensus_mismatch n). \<not> 3 \<le> snd x \<and> \<not> (0 < snd x \<and> snd x < 3))"
    by (simp add: consensus_health_def Let_def filter_empty_conv case_prod_beta) blast
  moreover have "\<not> 3 \<le> k \<and> \<not> (0 < k \<and> k < 3) \<longleftrightarrow> k = 0" for k :: nat by linarith
  ultimately show ?thesis by simp
qed

definition verdict :: "pylib \<Rightarrow> (string \<Rightarrow> json option) \<Rightarrow> (string, json) dict \<Rightarrow> node \<Rightarrow> string \<Rightarrow> nat" where
  "verdict L replies own n a = (if agrees L replies (nd_gossip_on n) own a then 0 else dict_get (nd_consensus_mismatch n) a 0 + 1)"

lemma monitor_fold:
  assumes "distinct (map pi_address ps)" "[] \<notin> pi_address ` set ps"
  shows "map_of (nd_consensus_mismatch (fold (monitor_peer L replies clock own) ps n)) a =
     (if a \<in> pi_address ` set ps then Some (verdict L replies own n a) else map_of (nd_consensus_mismatch n) a)"
  using assms
proof (induction ps arbitrary: n)
  case (Cons p ps)
  let ?n1 = "monitor_peer L replies clock own p n"
  have p: "pi_address p \<noteq> []" using Cons.prems(2) by auto
  note one = monitor_peer_counts [OF p, of L replies clock own n]
  have rest: "verdict L replies own ?n1 b = verdict L replies own n b" if "b \<noteq> pi_address p" for b
    using that by (simp add: verdict_def one dict_get_def)
  have fresh: "pi_address p \<notin> pi_address ` set ps" using Cons.prems(1) by auto
  have "map_of (nd_consensus_mismatch ?n1) a = (if a = pi_address p then Some (verdict L replies own n a) else map_of (nd_consensus_mismatch n) a)"
    by (simp add: one(1) verdict_def)
  moreover have "map_of (nd_consensus_mismatch (fold (monitor_peer L replies clock own) ps ?n1)) a =
      (if a \<in> pi_address ` set ps then Some (verdict L replies own ?n1 a) else map_of (nd_consensus_mismatch ?n1) a)"
    using Cons.prems by (intro Cons.IH) auto
  ultimately show ?case using fresh rest [of a] by (cases "a = pi_address p") auto
qed simp

text \<open>
  C33: the monitor counts disagreements in a row. After a pass, the counter of every active peer is zero if the peer answered
  with the same digest, number of finalized events and membership as the node's own, and one more than before otherwise,
  whatever the other peers answered; no other counter changes. When all counters belong to active peers, the
  health is reported as fine exactly when every peer agrees, and as a mismatch exactly when some peer has now disagreed
  three times in a row.
\<close>

theorem monitor_verdict:
  assumes own: "consensus_snapshot_sync L now n = (Inr own, n1)"
    and peers: "distinct (map pi_address (node_list_peers n1))" "[] \<notin> pi_address ` set (node_list_peers n1)"
  shows "(\<forall>a. map_of (nd_consensus_mismatch (monitor_pass L replies clock now n)) a =
      (if a \<in> pi_address ` set (node_list_peers n1) then Some (verdict L replies (digest_dict own) n1 a) else map_of (nd_consensus_mismatch n1) a)) \<and>
    (dict_ok (nd_consensus_mismatch (monitor_pass L replies clock now n)) \<and> fst ` set (nd_consensus_mismatch n1) \<subseteq> pi_address ` set (node_list_peers n1) \<longrightarrow>
      (consensus_health (monitor_pass L replies clock now n) = ''ok'' \<longleftrightarrow>
         (\<forall>a \<in> pi_address ` set (node_list_peers n1). agrees L replies (nd_gossip_on n1) (digest_dict own) a)) \<and>
      (consensus_health (monitor_pass L replies clock now n) = ''mismatch'' \<longleftrightarrow>
         (\<exists>a \<in> pi_address ` set (node_list_peers n1). 3 \<le> verdict L replies (digest_dict own) n1 a)))"
proof -
  let ?n' = "monitor_pass L replies clock now n" and ?A = "pi_address ` set (node_list_peers n1)"
  let ?v = "verdict L replies (digest_dict own) n1"
  have after: "map_of (nd_consensus_mismatch ?n') a = (if a \<in> ?A then Some (?v a) else map_of (nd_consensus_mismatch n1) a)" for a
    unfolding monitor_pass_def own using monitor_fold [OF peers] by simp
  have health: "consensus_health ?n' = ''ok'' \<longleftrightarrow> (\<forall>(a, k) \<in> set (nd_consensus_mismatch ?n'). k = 0)"
    "consensus_health ?n' = ''mismatch'' \<longleftrightarrow> (\<exists>(a, k) \<in> set (nd_consensus_mismatch ?n'). 3 \<le> k)"
    by (simp_all add: health_ok health_mismatch case_prod_beta)
  have entries: "(a, k) \<in> set (nd_consensus_mismatch ?n') \<longleftrightarrow> a \<in> ?A \<and> k = ?v a"
    if ok: "dict_ok (nd_consensus_mismatch ?n')" and sub: "fst ` set (nd_consensus_mismatch n1) \<subseteq> ?A" for a k
  proof -
    have "map_of (nd_consensus_mismatch n1) a = None" if "a \<notin> ?A" using sub that by (auto simp: map_of_eq_None_iff)
    then show ?thesis using after [of a] map_of_eq_Some_iff [OF ok, of a k] by (cases "a \<in> ?A") auto
  qed
  have zero: "?v a = 0 \<longleftrightarrow> agrees L replies (nd_gossip_on n1) (digest_dict own) a" for a by (simp add: verdict_def)
  show ?thesis
  proof (intro conjI allI impI after)
    assume H: "dict_ok (nd_consensus_mismatch ?n') \<and> fst ` set (nd_consensus_mismatch n1) \<subseteq> ?A"
    have whole: "set (nd_consensus_mismatch ?n') = (\<lambda>a. (a, ?v a)) ` ?A"
      using entries [OF H [THEN conjunct1] H [THEN conjunct2]] by (auto simp: image_iff)
    show "consensus_health ?n' = ''ok'' \<longleftrightarrow> (\<forall>a \<in> ?A. agrees L replies (nd_gossip_on n1) (digest_dict own) a)"
      unfolding health(1) whole by (simp add: zero)
    show "consensus_health ?n' = ''mismatch'' \<longleftrightarrow> (\<exists>a \<in> ?A. 3 \<le> ?v a)"
      unfolding health(2) whole by simp
  qed
qed

theorem monitor_verdict_witness:
  "map_of (nd_consensus_mismatch (monitor_pass demo_lib (\<lambda>_. None) (\<lambda>_. 0) 0 quiet_node)) ''n2:8080'' = Some 1"
proof -
  obtain r n1 where run: "consensus_snapshot_sync demo_lib 0 quiet_node = (r, n1)" by fastforce
  have empty: "all_events demo_lib (nd_db quiet_node) = Inr []" by (simp add: all_events_def by_created_def quiet_node_parts)
  have n1: "n1 = snd (active_consensus_membership demo_lib quiet_node)" "\<not> isl r"
    using run by (auto simp: consensus_snapshot_sync_def empty split_beta Let_def)
  then obtain own where own: "consensus_snapshot_sync demo_lib 0 quiet_node = (Inr own, n1)" using run by (cases r) auto
  have peers: "node_list_peers n1 = node_list_peers quiet_node"
    using active_membership_le [of quiet_node demo_lib] n1(1) by (simp add: node_le_def node_list_peers_def)
  have addr: "map pi_address (node_list_peers quiet_node) = [''n2:8080'']" by code_simp
  have counts: "nd_consensus_mismatch n1 = []"
  proof -
    have "nd_consensus_mismatch quiet_node = []" by code_simp
    then show ?thesis unfolding n1(1) by (simp add: active_consensus_membership_def Let_def save_membership_def set_db_def split: option.split)
  qed
  have set_addr: "pi_address ` set (node_list_peers n1) = {''n2:8080''}" using addr peers by (metis list.set(1) list.set(2) list.set_map)
  show ?thesis
    using monitor_verdict [OF own, of "\<lambda>_. None" "\<lambda>_. 0"] set_addr addr peers by (auto simp: verdict_def agrees_def counts dict_get_def)
qed

end
