(* ===== verification/Prometheus.thy ===== *)
theory Prometheus
  imports Reporting
begin

text \<open>
  \<open>mdrj/prometheus_extras.py\<close> and the handler of \<open>/metrics/prometheus\<close> in \<open>mdrj/api.py\<close>: the metrics as text.
  The help texts are Cyrillic, so the text of a series is an argument, a function of its name. A sample's value is an
  integer or a float. The reader at the end follows the exposition format of Prometheus; it is
  the specification of the text.
\<close>

section \<open>Samples and series\<close>

record metric_sample =
  sm_labels :: "(string, string) dict"
  sm_value :: json

record metric_series =
  sr_name :: string
  sr_type :: string
  sr_help :: string
  sr_samples :: "metric_sample list"

definition newline :: char where "newline = CHR 0x0A"

text \<open>\<open>value.replace(c, s)\<close> for a single character.\<close>

definition replace_char :: "char \<Rightarrow> string \<Rightarrow> string \<Rightarrow> string" where
  "replace_char c s v = concat (map (\<lambda>x. if x = c then s else [x]) v)"

definition esc :: "string \<Rightarrow> string" where
  "esc v = replace_char newline [backslash, CHR ''n''] (replace_char quote [backslash, quote]
     (replace_char backslash [backslash, backslash] v))"

fun value_text :: "pylib \<Rightarrow> json \<Rightarrow> string" where
  "value_text L (JInt i) = int_str i"
| "value_text L (JFloat x) = repr_float (floats L) x"
| "value_text L _ = []"

definition label_text :: "string \<times> string \<Rightarrow> string" where
  "label_text = (\<lambda>(k, v). k @ [CHR ''='', quote] @ esc v @ [quote])"

definition sample_line :: "pylib \<Rightarrow> (string, string) dict \<Rightarrow> string \<Rightarrow> metric_sample \<Rightarrow> string" where
  "sample_line L common name sample =
     (let label_pairs = common @ sm_labels sample
      in if label_pairs \<noteq> []
         then name @ ''{'' @ join '','' (map label_text label_pairs) @ ''} '' @ value_text L (sm_value sample)
         else name @ '' '' @ value_text L (sm_value sample))"

definition series_lines :: "pylib \<Rightarrow> (string, string) dict \<Rightarrow> metric_series \<Rightarrow> string list" where
  "series_lines L common serie =
     [''# HELP '' @ sr_name serie @ '' '' @ sr_help serie, ''# TYPE '' @ sr_name serie @ '' '' @ sr_type serie] @
     map (sample_line L common (sr_name serie)) (sr_samples serie)"

definition text_of_lines :: "string list \<Rightarrow> string" where
  "text_of_lines lines = join [newline] lines @ (if lines \<noteq> [] then [newline] else [])"

definition render_series :: "pylib \<Rightarrow> metric_series list \<Rightarrow> (string, string) dict \<Rightarrow> string" where
  "render_series L series common = text_of_lines (concat (map (series_lines L common) series))"

section \<open>The series of a node\<close>

definition serie :: "(string \<Rightarrow> string) \<Rightarrow> string \<Rightarrow> string \<Rightarrow> metric_sample list \<Rightarrow> metric_series" where
  "serie help name type samples = \<lparr>sr_name = name, sr_type = type, sr_help = help name, sr_samples = samples\<rparr>"

abbreviation sample :: "(string, string) dict \<Rightarrow> rat \<Rightarrow> metric_sample" where
  "sample labels x \<equiv> \<lparr>sm_labels = labels, sm_value = JFloat x\<rparr>"

definition event_series :: "(string \<Rightarrow> string) \<Rightarrow> node \<Rightarrow> metric_series" where
  "event_series help n = serie help ''mdrj_events_total'' ''counter''
     (if nd_events_by_class_kind n = [] then [\<lparr>sm_labels = [(''class'', ''A''), (''kind'', ''_none'')], sm_value = JInt 0\<rparr>]
      else map (\<lambda>((cls, kind), k). \<lparr>sm_labels = [(''class'', cls), (''kind'', kind)], sm_value = JInt (int k)\<rparr>)
        (sort_key fst (nd_events_by_class_kind n)))"

definition collector_series :: "(string \<Rightarrow> string) \<Rightarrow> timestamp \<Rightarrow> any_collector list \<Rightarrow> metric_series list" where
  "collector_series help now collectors =
     (let statuses = map (bc_status \<circ> any_base) collectors;
          label = (\<lambda>st. (''collector'', cst_name st))
      in filter (\<lambda>s. sr_samples s \<noteq> [])
          [serie help ''mdrj_events_by_collector_total'' ''counter''
             (map (\<lambda>st. sample [label st] (of_nat (cst_emitted_count st))) statuses),
           serie help ''mdrj_collector_enabled'' ''gauge'' (map (\<lambda>st. sample [label st] (of_bool (cst_enabled st))) statuses),
           serie help ''mdrj_collector_last_poll_seconds_ago'' ''gauge''
             (List.map_filter (\<lambda>st. map_option (\<lambda>t. sample [label st] (max 0 (now - t))) (cst_last_poll_at st)) statuses),
           serie help ''mdrj_events_dropped_total'' ''counter''
             (map (\<lambda>st. sample [label st, (''reason'', str_or (opt_str (cst_last_drop_reason st)) ''unknown'')]
                (of_nat (cst_dropped_count st))) (filter (\<lambda>st. cst_dropped_count st \<noteq> 0) statuses))])"

definition peers_by_status :: "peer_info list \<Rightarrow> (string, nat) dict" where
  "peers_by_status peers =
     fold (\<lambda>p d. let status = str_or (pi_approval_status p) ''approved'' in AList.update status (dict_get d status 0 + 1) d) peers
       [(''approved'', 0), (''pending'', 0), (''rejected'', 0)]"

definition reachable_peers :: "timestamp \<Rightarrow> peer_info list \<Rightarrow> nat" where
  "reachable_peers now peers =
     length (filter (\<lambda>p. \<not> pi_is_self p \<and> (case pi_last_seen p of Some t \<Rightarrow> now - t \<le> 30 | None \<Rightarrow> False)) peers)"

definition peer_series :: "(string \<Rightarrow> string) \<Rightarrow> timestamp \<Rightarrow> peer_info list \<Rightarrow> metric_series list" where
  "peer_series help now peers =
     [serie help ''mdrj_peers_total'' ''gauge'' (map (\<lambda>(status, k). sample [(''status'', status)] (of_nat k)) (peers_by_status peers)),
      serie help ''mdrj_peers_reachable'' ''gauge'' [sample [] (of_nat (reachable_peers now peers))]]"

definition LIVENESS_KINDS :: "string list" where
  "LIVENESS_KINDS = [''heartbeat'', ''node_hourly_status'']"

text \<open>\<open>value in set\<close> hashes the value: a list or a dictionary raises.\<close>

fun hashable :: "json \<Rightarrow> bool" where
  "hashable (JList _) = False"
| "hashable (JObj _) = False"
| "hashable _ = True"

fun heartbeat_scan :: "pylib \<Rightarrow> event list \<Rightarrow> (string, timestamp) dict \<Rightarrow> (string, timestamp) dict result" where
  "heartbeat_scan L [] latest = Inr latest"
| "heartbeat_scan L (e # es) latest =
     (let kind = jget (ev_payload e) ''event_kind'' in
      if \<not> hashable kind then Inl TypeError
      else if kind \<notin> JStr ` set LIVENESS_KINDS then heartbeat_scan L es latest
      else res_bind (let node_id = jget (ev_payload e) ''node_id'' in if json_truthy node_id then py_str L node_id else Inr (ev_source e)) (\<lambda>id_text.
           let peer_id = py_strip id_text
           in if peer_id \<noteq> [] \<and> dict_get latest peer_id 0 < ev_ts_local e
              then heartbeat_scan L es (AList.update peer_id (ev_ts_local e) latest)
              else heartbeat_scan L es latest))"

definition collect_peer_heartbeats :: "pylib \<Rightarrow> timestamp \<Rightarrow> db \<Rightarrow> (string, rat) dict result" where
  "collect_peer_heartbeats L now d =
     (case list_recent_events L d 512 of
        Inl _ \<Rightarrow> Inr []
      | Inr events \<Rightarrow> res_bind (heartbeat_scan L events []) (\<lambda>latest. Inr (map (\<lambda>(peer_id, ts). (peer_id, max 0 (now - ts))) latest)))"

definition latest_checkpoint_metrics :: "timestamp \<Rightarrow> db \<Rightarrow> int \<times> rat" where
  "latest_checkpoint_metrics now d =
     (case latest_confirmed_checkpoint d of
        None \<Rightarrow> (0, 0)
      | Some (rnd, row) \<Rightarrow>
          let confirmed_at = (case ck_confirmed_at row of Some t \<Rightarrow> if t \<noteq> 0 then t else ck_created_at row | None \<Rightarrow> ck_created_at row)
          in (rnd, max 0 (now - confirmed_at)))"

definition NODE_COUNTERS :: "(string \<times> string) list" where
  "NODE_COUNTERS =
     [(''mdrj_service_started_total'', ''service_started_count''), (''mdrj_service_stopped_total'', ''service_stopped_count''),
      (''mdrj_service_killed_total'', ''service_killed_count''), (''mdrj_host_boot_total'', ''host_boot_count''),
      (''mdrj_host_reboot_total'', ''host_reboot_count''), (''mdrj_checkpoint_confirmed_total'', ''checkpoint_confirmed_count''),
      (''mdrj_class_a_durable_total'', ''class_a_durable_count''), (''mdrj_class_a_local_only_total'', ''class_a_local_only_count''),
      (''mdrj_frontier_sync_pulls_total'', ''frontier_sync_pulls_count''), (''mdrj_tamper_alerts_total'', ''tamper_alerts_count'')]"

definition counter_series :: "(string \<Rightarrow> string) \<Rightarrow> node \<Rightarrow> metric_series list" where
  "counter_series help n = map (\<lambda>(name, counter). serie help name ''counter'' [sample [] (of_nat (dict_get (nd_counters n) counter 0))]) NODE_COUNTERS"

text \<open>The two times are the readings in \<open>build_extras\<close> and in \<open>_collect_peer_heartbeats\<close>.\<close>

definition build_extras :: "pylib \<Rightarrow> (string \<Rightarrow> string) \<Rightarrow> timestamp \<Rightarrow> timestamp \<Rightarrow> (supervisor, metric_series list) op" where
  "build_extras L help now now2 = (\<lambda>s.
     let (membership, n) = active_consensus_membership L (su_node s);
         membership_size = length (ms_members membership);
         gauge = (\<lambda>name x. serie help name ''gauge'' [sample [] x])
     in op_bind (op_lift (\<lambda>_. collect_peer_heartbeats L now2 (nd_db n))) (\<lambda>heartbeats.
        let (last_round, last_age) = latest_checkpoint_metrics now (nd_db n)
        in op_ret ([event_series help n] @ collector_series help now (su_collectors s) @ peer_series help now (list_peers (nd_db n)) @
             [gauge ''mdrj_consensus_membership_size'' (of_nat membership_size),
              gauge ''mdrj_quorum_size'' (of_nat ((2 * membership_size + 2) div 3)),
              serie help ''mdrj_heartbeat_emitted_total'' ''counter'' [sample [] (of_nat (dict_get (nd_counters n) ''heartbeat_emitted'' 0))]] @
             (if heartbeats = [] then []
              else [serie help ''mdrj_heartbeat_last_seconds_ago'' ''gauge'' (map (\<lambda>(peer_id, age). sample [(''peer'', peer_id)] age) heartbeats)]) @
             counter_series help n @
             [gauge ''mdrj_checkpoint_last_round'' (of_int last_round), gauge ''mdrj_checkpoint_last_age_seconds'' last_age,
              gauge ''mdrj_tamper_evidence'' (of_bool (nd_tamper_evidence n))]))
        (s\<lparr>su_node := n\<rparr>))"

section \<open>The page\<close>

definition PROMETHEUS_METRIC_TYPES :: "(string, string) dict" where
  "PROMETHEUS_METRIC_TYPES =
     [(''A_est'', ''gauge''), (''T_gossip'', ''gauge''), (''K_r'', ''gauge''), (''C_mem'', ''gauge''), (''C_net'', ''gauge''),
      (''event_count'', ''gauge''), (''rss_bytes'', ''gauge''), (''cpu_percent'', ''gauge''), (''db_size_bytes'', ''gauge''),
      (''gossip_bytes_in_total'', ''counter''), (''gossip_bytes_out_total'', ''counter''), (''bytes_per_event'', ''gauge''),
      (''emit_to_consensus_latency_p50_ms'', ''gauge''), (''emit_to_consensus_latency_p95_ms'', ''gauge'')]"

definition base_lines :: "pylib \<Rightarrow> string \<Rightarrow> string \<times> json \<Rightarrow> string list" where
  "base_lines L node_id = (\<lambda>(key, v).
     let metric_name = ''mdrj_'' @ py_lower key; metric_type = dict_get PROMETHEUS_METRIC_TYPES key ''gauge''
     in case py_float (floats L) v of
          Inl _ \<Rightarrow> []
        | Inr numeric \<Rightarrow> [''# TYPE '' @ metric_name @ '' '' @ metric_type,
            metric_name @ ''{node_id='' @ [quote] @ node_id @ [quote] @ ''} '' @ repr_float (floats L) numeric])"

definition metrics_page :: "pylib \<Rightarrow> (string \<Rightarrow> string) \<Rightarrow> node_env \<Rightarrow> timestamp \<Rightarrow> timestamp \<Rightarrow> (supervisor, string) op" where
  "metrics_page L help E now now2 =
     op_bind (op_get (\<lambda>s. (node_metrics_snapshot E (su_node s), my_id (su_node s)))) (\<lambda>(snap, node_id).
     op_bind (build_extras L help now now2) (\<lambda>series.
     op_ret (text_of_lines (concat (map (base_lines L node_id) snap)) @ render_series L series [(''node_id'', node_id)])))"

section \<open>Reading the text back\<close>

text \<open>A reader of the exposition format: a label value up to its closing quote, the labels of a sample, a line, a page.\<close>

fun read_quoted :: "string \<Rightarrow> (string \<times> string) option" where
  "read_quoted [] = None"
| "read_quoted (c # cs) =
     (if c = quote then Some ([], cs)
      else if c = backslash
      then (case cs of [] \<Rightarrow> None
            | d # ds \<Rightarrow> map_option (\<lambda>(v, rest). ((if d = CHR ''n'' then newline else d) # v, rest)) (read_quoted ds))
      else map_option (\<lambda>(v, rest). (c # v, rest)) (read_quoted cs))"

lemma read_quoted_length: "read_quoted s = Some (v, rest) \<Longrightarrow> length rest < length s"
proof (induction s arbitrary: v rest rule: read_quoted.induct)
  case (2 c cs)
  then show ?case by (fastforce split: if_splits list.splits)
qed simp

lemma labels_rest:
  "dropWhile P s = eq # q # quoted \<Longrightarrow> read_quoted quoted = Some (v, c # rest) \<Longrightarrow> length rest < length s"
  using length_dropWhile_le [of P s] by (auto dest!: read_quoted_length)

function read_labels :: "string \<Rightarrow> ((string \<times> string) list \<times> string) option" where
  "read_labels s =
     (case dropWhile (\<lambda>c. c \<noteq> CHR ''='') s of
        eq # q # text \<Rightarrow>
          (if q \<noteq> quote then None
           else (case read_quoted text of
             Some (v, c # rest) \<Rightarrow>
               (let entry = (takeWhile (\<lambda>c. c \<noteq> CHR ''='') s, v) in
                if c = CHR ''}'' then Some ([entry], rest)
                else if c = CHR '','' then map_option (\<lambda>(ls, r). (entry # ls, r)) (read_labels rest)
                else None)
           | _ \<Rightarrow> None))
      | _ \<Rightarrow> None)"
  by pat_completeness auto
termination
  by (relation "measure length") (auto dest: labels_rest)

declare read_labels.simps [simp del]

definition read_sample :: "string \<Rightarrow> (string \<times> (string \<times> string) list \<times> string) option" where
  "read_sample line =
     (let name = takeWhile (\<lambda>c. c \<noteq> CHR ''{'' \<and> c \<noteq> CHR '' '') line
      in case dropWhile (\<lambda>c. c \<noteq> CHR ''{'' \<and> c \<noteq> CHR '' '') line of
           [] \<Rightarrow> None
         | c # rest \<Rightarrow>
             if c = CHR '' '' then Some (name, [], rest)
             else (case read_labels rest of
               Some (labels, d # v) \<Rightarrow> if d = CHR '' '' then Some (name, labels, v) else None
             | _ \<Rightarrow> None))"

definition read_page :: "string \<Rightarrow> (string \<times> (string \<times> string) list \<times> string) option list" where
  "read_page page = map read_sample (filter (\<lambda>line. line \<noteq> [] \<and> hd line \<noteq> CHR ''#'') (split_char newline page))"

definition name_char :: "char \<Rightarrow> bool" where
  "name_char c \<longleftrightarrow> c = CHR ''_'' \<or> (let n = of_char c :: nat in 97 \<le> n \<and> n \<le> 122)"

definition legal_name :: "string \<Rightarrow> bool" where
  "legal_name s \<longleftrightarrow> s \<noteq> [] \<and> list_all name_char s"

definition legal_series :: "metric_series \<Rightarrow> bool" where
  "legal_series sr \<longleftrightarrow> legal_name (sr_name sr) \<and> newline \<notin> set (sr_help sr) \<and> newline \<notin> set (sr_type sr) \<and>
     (\<forall>x \<in> set (sr_samples sr). \<forall>l \<in> set (sm_labels x). legal_name (fst l))"

lemma read_quoted_esc: "read_quoted (esc v @ quote # rest) = Some (v, rest)"
proof (induction v)
  case Nil
  then show ?case by (simp add: esc_def replace_char_def)
next
  case (Cons c v)
  have "esc (c # v) = (if c = backslash then [backslash, backslash] else if c = quote then [backslash, quote]
      else if c = newline then [backslash, CHR ''n''] else [c]) @ esc v"
    by (simp add: esc_def replace_char_def quote_def backslash_def newline_def)
  with Cons show ?case by (auto simp: quote_def backslash_def)
qed

lemma esc_no_newline: "newline \<notin> set (esc v)"
proof -
  have "newline \<notin> set (replace_char newline s w)" if "newline \<notin> set s" for s w
    using that by (induction w) (auto simp: replace_char_def)
  moreover have "newline \<notin> set [backslash, CHR ''n'']" by (simp add: newline_def backslash_def)
  ultimately show ?thesis unfolding esc_def by blast
qed

lemma legal_name_chars:
  assumes "legal_name s"
  shows "c \<in> set s \<Longrightarrow> c \<noteq> CHR ''='' \<and> c \<noteq> CHR ''{'' \<and> c \<noteq> CHR '' '' \<and> c \<noteq> CHR ''#'' \<and> c \<noteq> newline"
proof -
  assume "c \<in> set s"
  with assms have "name_char c" by (simp add: legal_name_def list_all_iff)
  moreover have "\<not> name_char (CHR ''='')" "\<not> name_char (CHR ''{'')" "\<not> name_char (CHR '' '')" "\<not> name_char (CHR ''#'')"
      "\<not> name_char newline"
    by (simp_all add: name_char_def newline_def)
  ultimately show ?thesis by metis
qed

lemma takeWhile_legal: "legal_name s \<Longrightarrow> \<forall>c \<in> set s. P c \<Longrightarrow> \<not> P d \<Longrightarrow> takeWhile P (s @ d # r) = s \<and> dropWhile P (s @ d # r) = d # r"
  by (simp add: takeWhile_append2 dropWhile_append2)

lemma read_labels_join:
  "pairs \<noteq> [] \<Longrightarrow> \<forall>l \<in> set pairs. legal_name (fst l) \<Longrightarrow>
   read_labels (join '','' (map label_text pairs) @ CHR ''}'' # rest) = Some (pairs, rest)"
proof (induction "'',''" "map label_text pairs" arbitrary: pairs rule: join.induct)
  case (2 x)
  then obtain k v where kv: "pairs = [(k, v)]" "legal_name k" by (auto simp: map_eq_Cons_conv)
  then show ?case
    using takeWhile_legal [of k "\<lambda>c. c \<noteq> CHR ''=''" "CHR ''=''"] legal_name_chars [of k]
    by (subst read_labels.simps) (simp add: label_text_def read_quoted_esc)
next
  case (3 x y xs)
  then obtain k v ps where kv: "pairs = (k, v) # ps" "legal_name k" "map label_text ps = y # xs" "ps \<noteq> []"
    by (auto simp: map_eq_Cons_conv)
  with 3 have "read_labels (join '','' (y # xs) @ CHR ''}'' # rest) = Some (ps, rest)"
    by (metis list.set_intros(2))
  with kv show ?case
    using takeWhile_legal [of k "\<lambda>c. c \<noteq> CHR ''=''" "CHR ''=''"] legal_name_chars [of k]
    by (subst read_labels.simps) (simp add: label_text_def read_quoted_esc)
qed simp

lemma read_sample_line:
  assumes "legal_name name" "\<forall>l \<in> set (common @ sm_labels x). legal_name (fst l)"
  shows "read_sample (sample_line L common name x) = Some (name, common @ sm_labels x, value_text L (sm_value x))"
proof -
  have *: "takeWhile (\<lambda>c. c \<noteq> CHR ''{'' \<and> c \<noteq> CHR '' '') (name @ d # r) = name \<and>
      dropWhile (\<lambda>c. c \<noteq> CHR ''{'' \<and> c \<noteq> CHR '' '') (name @ d # r) = d # r" if "d = CHR ''{'' \<or> d = CHR '' ''" for d r
    using that legal_name_chars [OF assms(1)] by (intro takeWhile_legal [OF assms(1)]) auto
  show ?thesis
  proof (cases "common @ sm_labels x = []")
    case True
    then show ?thesis using * [of "CHR '' ''"] by (simp add: sample_line_def read_sample_def)
  next
    case False
    with read_labels_join [OF False assms(2)] * [of "CHR ''{''"] show ?thesis
      by (simp add: sample_line_def read_sample_def Let_def del: append_is_Nil_conv)
  qed
qed

section \<open>The page reads back\<close>

lemma text_of_lines_eq: "text_of_lines ls = concat (map (\<lambda>l. l @ [newline]) ls)"
  by (induction "[newline]" ls rule: join.induct) (auto simp: text_of_lines_def)

lemma split_char_line: "c \<notin> set l \<Longrightarrow> split_char c (l @ c # r) = l # split_char c r"
  by (induction l) auto

lemma split_text_of_lines: "\<forall>l \<in> set ls. newline \<notin> set l \<Longrightarrow> split_char newline (text_of_lines ls) = ls @ [[]]"
  by (induction ls) (simp_all add: text_of_lines_eq split_char_line)

lemma set_join: "set (join sep xs) \<subseteq> set sep \<union> (\<Union>x \<in> set xs. set x)"
  by (induction sep xs rule: join.induct) auto

lemma nat_str_no_newline: "newline \<notin> set (nat_str n)"
  using nat_str_digits [of n] by (auto simp: is_digit_def newline_def)

lemma int_str_no_newline: "newline \<notin> set (int_str i)"
  using nat_str_no_newline by (auto simp: int_str_def newline_def)

lemma value_text_no_newline:
  assumes "\<forall>x. newline \<notin> set (repr_float (floats L) x)"
  shows "newline \<notin> set (value_text L v)"
  using assms int_str_no_newline by (cases v) auto

lemma sample_line_no_newline:
  assumes "legal_name name" "\<forall>l \<in> set (common @ sm_labels x). legal_name (fst l)" "\<forall>x. newline \<notin> set (repr_float (floats L) x)"
  shows "newline \<notin> set (sample_line L common name x)"
proof -
  have "newline \<notin> set name" using legal_name_chars [OF assms(1)] by blast
  moreover have "newline \<notin> set (label_text l)" if "l \<in> set (common @ sm_labels x)" for l
    using that assms(2) legal_name_chars [of "fst l" newline] esc_no_newline [of "snd l"]
    by (auto simp: label_text_def split_beta newline_def quote_def)
  then have "newline \<notin> set (join '','' (map label_text (common @ sm_labels x)))"
    using set_join [of "'',''" "map label_text (common @ sm_labels x)"] by (fastforce simp: newline_def)
  moreover have "newline \<notin> set ''{''" "newline \<notin> set ''} ''" "newline \<notin> set '' ''" by (simp_all add: newline_def)
  ultimately show ?thesis
    using value_text_no_newline [OF assms(3), of "sm_value x"] by (simp add: sample_line_def Let_def)
qed

lemma sample_line_head: "legal_name name \<Longrightarrow> sample_line L common name x \<noteq> [] \<and> hd (sample_line L common name x) \<noteq> CHR ''#''"
  using legal_name_chars [of name "hd name"] by (auto simp: sample_line_def Let_def legal_name_def)

lemma legal_names:
  "list_all legal_name ([''mdrj_events_total'', ''mdrj_events_by_collector_total'', ''mdrj_collector_enabled'',
     ''mdrj_collector_last_poll_seconds_ago'', ''mdrj_events_dropped_total'', ''mdrj_peers_total'', ''mdrj_peers_reachable'',
     ''mdrj_consensus_membership_size'', ''mdrj_quorum_size'', ''mdrj_heartbeat_emitted_total'', ''mdrj_heartbeat_last_seconds_ago'',
     ''mdrj_checkpoint_last_round'', ''mdrj_checkpoint_last_age_seconds'', ''mdrj_tamper_evidence'',
     ''class'', ''kind'', ''collector'', ''reason'', ''status'', ''peer'', ''node_id''] @ map fst NODE_COUNTERS)"
  by code_simp

lemmas legal = legal_names [unfolded list_all_append list.pred_inject]

definition legal_type :: "string \<Rightarrow> bool" where
  "legal_type type \<longleftrightarrow> newline \<notin> set type"

lemma legal_types: "legal_type ''counter''" "legal_type ''gauge''"
  by (simp_all add: legal_type_def newline_def)

definition labels_ok :: "metric_sample list \<Rightarrow> bool" where
  "labels_ok xs \<longleftrightarrow> (\<forall>x \<in> set xs. \<forall>l \<in> set (sm_labels x). legal_name (fst l))"

lemma legal_serie:
  "\<forall>m. newline \<notin> set (help m) \<Longrightarrow> legal_series (serie help name type xs) \<longleftrightarrow> legal_name name \<and> legal_type type \<and> labels_ok xs"
  by (auto simp: legal_series_def serie_def labels_ok_def legal_type_def)

lemma labels_ok_simps:
  "labels_ok []" "labels_ok (x # xs) \<longleftrightarrow> (\<forall>l \<in> set (sm_labels x). legal_name (fst l)) \<and> labels_ok xs"
  "labels_ok (map f ys) \<longleftrightarrow> (\<forall>y \<in> set ys. \<forall>l \<in> set (sm_labels (f y)). legal_name (fst l))"
  by (auto simp: labels_ok_def)

lemma labels_ok_map_filter:
  "(\<And>y x. f y = Some x \<Longrightarrow> \<forall>l \<in> set (sm_labels x). legal_name (fst l)) \<Longrightarrow> labels_ok (List.map_filter f ys)"
  by (fastforce simp: labels_ok_def List.map_filter_def)

lemma legal_groups:
  assumes "\<forall>m. newline \<notin> set (help m)"
  shows "legal_series (event_series help n)" "list_all legal_series (collector_series help now cs)"
    "list_all legal_series (peer_series help now ps)" "list_all legal_series (counter_series help n)"
proof -
  note rules = legal_serie [OF assms] legal legal_types labels_ok_simps
  show "legal_series (event_series help n)" by (simp add: event_series_def rules split_beta)
  have poll: "labels_ok (List.map_filter (\<lambda>st. map_option (\<lambda>t. sample [(''collector'', cst_name st)] (max 0 (now - t))) (cst_last_poll_at st)) sts)"
    for sts
    by (rule labels_ok_map_filter) (auto simp: legal)
  show "list_all legal_series (collector_series help now cs)"
    unfolding collector_series_def Let_def by (simp add: rules list_all_iff poll)
  show "list_all legal_series (peer_series help now ps)" by (simp add: peer_series_def rules split_beta)
  have "\<forall>c \<in> set NODE_COUNTERS. legal_name (fst c)" using legal_names by (simp add: list_all_iff)
  then show "list_all legal_series (counter_series help n)" by (auto simp: counter_series_def rules list_all_iff)
qed

lemma legal_series_build:
  assumes texts: "\<forall>m. newline \<notin> set (help m)" and run: "build_extras L help now now2 s = (Inr series, s')"
  shows "list_all legal_series series"
proof -
  obtain n cs ps k1 k2 k3 heartbeats k4 k5 k6 where series: "series = [event_series help n] @ collector_series help now cs @
      peer_series help now ps @ [serie help ''mdrj_consensus_membership_size'' ''gauge'' [sample [] k1],
        serie help ''mdrj_quorum_size'' ''gauge'' [sample [] k2], serie help ''mdrj_heartbeat_emitted_total'' ''counter'' [sample [] k3]] @
      (if heartbeats = [] then []
       else [serie help ''mdrj_heartbeat_last_seconds_ago'' ''gauge'' (map (\<lambda>(peer_id, age). sample [(''peer'', peer_id)] age) heartbeats)]) @
      counter_series help n @
      [serie help ''mdrj_checkpoint_last_round'' ''gauge'' [sample [] k4], serie help ''mdrj_checkpoint_last_age_seconds'' ''gauge'' [sample [] k5],
       serie help ''mdrj_tamper_evidence'' ''gauge'' [sample [] k6]]"
    using run unfolding build_extras_def Let_def split_beta op_bind_run op_run by (simp split: sum.splits) blast
  show ?thesis
    unfolding series using legal_groups [OF texts]
    by (simp add: legal_serie [OF texts] legal legal_types labels_ok_simps split_beta)
qed

lemma series_lines_read:
  assumes "legal_series sr" "\<forall>l \<in> set common. legal_name (fst l)" "\<forall>x. newline \<notin> set (repr_float (floats L) x)"
  shows "(\<forall>l \<in> set (series_lines L common sr). newline \<notin> set l) \<and>
    map read_sample (filter (\<lambda>line. line \<noteq> [] \<and> hd line \<noteq> CHR ''#'') (series_lines L common sr)) =
      map (\<lambda>x. Some (sr_name sr, common @ sm_labels x, value_text L (sm_value x))) (sr_samples sr)"
proof -
  have name: "legal_name (sr_name sr)" and labels: "\<forall>l \<in> set (common @ sm_labels x). legal_name (fst l)" if "x \<in> set (sr_samples sr)" for x
    using that assms(1,2) by (auto simp: legal_series_def)
  have "newline \<notin> set (sr_name sr)" "newline \<notin> set (sr_help sr)" "newline \<notin> set (sr_type sr)"
    using assms(1) legal_name_chars [of "sr_name sr" newline] by (auto simp: legal_series_def)
  moreover have "newline \<notin> set ''# HELP ''" "newline \<notin> set ''# TYPE ''" "newline \<notin> set '' ''" by (simp_all add: newline_def)
  ultimately show ?thesis
    using name labels assms(3) sample_line_no_newline sample_line_head
    by (auto simp: series_lines_def filter_map o_def read_sample_line filter_id_conv)
qed

text \<open>
  C35: the extra metrics read back. Whatever the labels hold (quotes, backslashes, line breaks in the name of a node, a kind of
  event or a peer), a reader of the exposition format recovers from the text every sample of every series in order: its name, its
  labels with the node's name first, and its value. The help texts and the texts of numbers have no line breaks.
\<close>

theorem metrics_text_roundtrip:
  assumes run: "build_extras L help now now2 s = (Inr series, s')"
    and texts: "\<forall>m. newline \<notin> set (help m)" and floats: "\<forall>x. newline \<notin> set (repr_float (floats L) x)"
  shows "read_page (render_series L series [(''node_id'', node_id)]) =
    concat (map (\<lambda>sr. map (\<lambda>x. Some (sr_name sr, (''node_id'', node_id) # sm_labels x, value_text L (sm_value x))) (sr_samples sr)) series)"
proof -
  let ?common = "[(''node_id'', node_id)]"
  have "legal_name ''node_id''" by (simp add: legal_name_def name_char_def)
  then have lines: "(\<forall>l \<in> set (series_lines L ?common sr). newline \<notin> set l) \<and>
      map read_sample (filter (\<lambda>line. line \<noteq> [] \<and> hd line \<noteq> CHR ''#'') (series_lines L ?common sr)) =
      map (\<lambda>x. Some (sr_name sr, ?common @ sm_labels x, value_text L (sm_value x))) (sr_samples sr)" if "sr \<in> set series" for sr
    using series_lines_read [OF _ _ floats, of sr ?common] that legal_series_build [OF texts run] by (simp add: list_all_iff)
  then have "split_char newline (render_series L series ?common) = concat (map (series_lines L ?common) series) @ [[]]"
    unfolding render_series_def by (intro split_text_of_lines) auto
  moreover have "map read_sample (filter (\<lambda>line. line \<noteq> [] \<and> hd line \<noteq> CHR ''#'') (concat (map (series_lines L ?common) ss))) =
      concat (map (\<lambda>sr. map (\<lambda>x. Some (sr_name sr, ?common @ sm_labels x, value_text L (sm_value x))) (sr_samples sr)) ss)"
    if "set ss \<subseteq> set series" for ss
    using that lines by (induction ss) auto
  ultimately show ?thesis by (simp add: read_page_def)
qed

lemma demo_floats: "\<forall>x. newline \<notin> set (repr_float (floats demo_lib) x)"
  using nat_str_no_newline int_str_no_newline by (auto simp: demo_lib_def ratio_codec_def split_beta newline_def)

theorem metrics_text_roundtrip_witness:
  "\<exists>series s'. build_extras demo_lib (\<lambda>_. []) 9 9 (demo_supervisor True) = (Inr series, s') \<and>
     hd (read_page (render_series demo_lib series [(''node_id'', [quote])])) =
       Some (''mdrj_events_total'', [(''node_id'', [quote]), (''class'', ''A''), (''kind'', ''_none'')], ''0'')"
proof -
  obtain snap n where mem: "active_consensus_membership demo_lib lonely_node = (snap, n)" by fastforce
  moreover have "nd_events_by_class_kind quiet_node = []" by code_simp
  ultimately have n: "t_events (nd_db n) = []" "nd_events_by_class_kind n = []"
    by (auto simp: active_consensus_membership_def save_membership_def save_consensus_membership_snapshot_def set_db_def lonely_parts [OF lonely_node] Let_def
      lonely_node_def quiet_node_parts split: option.splits)
  have "collect_peer_heartbeats demo_lib 9 (nd_db n) = Inr []"
    using n by (simp add: collect_peer_heartbeats_def list_recent_events_def by_created_def sql_limit_def)
  then obtain rest s' where run: "build_extras demo_lib (\<lambda>_. []) 9 9 (demo_supervisor True) = (Inr (event_series (\<lambda>_. []) n # rest), s')"
    using mem by (simp add: build_extras_def demo_supervisor_def op_simps Let_def split_beta)
  have "value_text demo_lib (JInt 0) = ''0''" by code_simp
  with metrics_text_roundtrip [OF run _ demo_floats, of "[quote]"] n run show ?thesis
    by (simp add: event_series_def serie_def)
qed

end
