(* ===== verification/Gate.thy ===== *)
theory Gate
  imports Prometheus
begin

text \<open>
  The entrance of the HTTP interface (\<open>mdrj/api.py\<close>): requests, the two middlewares that decide whether a request
  reaches its handler, and the routes. \<open>aiohttp\<close> is modelled as far as the source relies on it: a request carries
  its method, path, headers, cookies, query, the parts of the path bound by the route and the body (ASCII text, as the
  signed requests of the nodes have it); header names are compared without regard to case; \<open>web.get\<close> serves \<open>HEAD\<close> too.
  An HTTP exception is the error \<open>HTTPError\<close> with its status. The times are the readings of the clock by
  the lookups of the session.
\<close>

section \<open>Requests, responses and the application\<close>

record request =
  rq_method :: string
  rq_path :: string
  rq_headers :: "(string, string) dict"
  rq_cookies :: "(string, string) dict"
  rq_query :: "(string, string) dict"
  rq_match :: "(string, string) dict"
  rq_body :: string
  rq_session :: "session_record option"

datatype response =
    JsonResponse json
  | TextResponse string string
  | Found string
  | EventStream nat
  | SetCookie string string rat response
  | DelCookie string response

text \<open>The application: the node with its supervisor, the demo simulation, and the requests it has sent to peers.\<close>

record api =
  ap_super :: supervisor
  ap_sim :: simulation
  ap_sent :: "(string \<times> string \<times> (string, string) dict) list"

type_synonym handler = "request \<Rightarrow> (api, response) op"

abbreviation ap_node :: "api \<Rightarrow> node" where
  "ap_node a \<equiv> su_node (ap_super a)"

definition on_super :: "(supervisor, 'a) op \<Rightarrow> (api, 'a) op" where
  "on_super m a = (let (r, s) = m (ap_super a) in (r, a\<lparr>ap_super := s\<rparr>))"

definition set_sessions :: "session_store \<Rightarrow> api \<Rightarrow> api" where
  "set_sessions store a = a\<lparr>ap_super := (ap_super a)\<lparr>su_node := (ap_node a)\<lparr>nd_session_store := store\<rparr>\<rparr>\<rparr>"

definition header :: "request \<Rightarrow> string \<Rightarrow> string" where
  "header req name = (case List.find (\<lambda>(k, v). py_lower k = py_lower name) (rq_headers req) of Some (k, v) \<Rightarrow> v | None \<Rightarrow> [])"

fun has_text :: "string \<Rightarrow> string \<Rightarrow> bool" where
  "has_text [] part = (part = [])"
| "has_text (c # cs) part = (starts_with (c # cs) part \<or> has_text cs part)"

section \<open>Middlewares\<close>

definition HMAC_HEADER :: string where "HMAC_HEADER = ''X-MDRJ-Sig''"

definition HMAC_PROTECTED_METHODS :: "string list" where
  "HMAC_PROTECTED_METHODS = [''POST'', ''PUT'', ''DELETE'', ''PATCH'']"

definition AUTH_PUBLIC_PATHS :: "string list" where
  "AUTH_PUBLIC_PATHS = [''/auth/login'', ''/auth/logout'', ''/status'', ''/event/batch'', ''/gossip/frontier'', ''/checkpoint/propose'']"

definition WRITE_METHODS :: "string list" where
  "WRITE_METHODS = [''POST'', ''PUT'', ''DELETE'', ''PATCH'']"

definition VIEWER_READ_PATHS :: "string list" where
  "VIEWER_READ_PATHS =
     [''/dag'', ''/dag/frontier'', ''/metrics'', ''/metrics/prometheus'', ''/metrics/history'', ''/peers'', ''/incidents'',
      ''/viz'', ''/viz/graph'', ''/viz/stream'', ''/checkpoint/list'', ''/checkpoint/verify'', ''/auth/me'', ''/notifier/status'', ''/catalog'']"

definition SESSION_COOKIE_NAME :: string where "SESSION_COOKIE_NAME = ''mdrj_session''"

definition resolve_session :: "timestamp \<Rightarrow> request \<Rightarrow> (api, session_record option) op" where
  "resolve_session now req = (\<lambda>a.
     let token = dict_get (rq_cookies req) SESSION_COOKIE_NAME []
     in if token = [] then (Inr None, a)
        else let (found, store) = session_get token now (nd_session_store (ap_node a)) in (Inr found, set_sessions store a))"

definition hmac_auth_middleware :: "pylib \<Rightarrow> timestamp \<Rightarrow> handler \<Rightarrow> handler" where
  "hmac_auth_middleware L now h req = (\<lambda>a.
     let hmac_key = nc_hmac_key (nd_config (ap_node a)) in
     if hmac_key = [] \<or> rq_method req \<notin> set HMAC_PROTECTED_METHODS then h req a
     else if rq_path req \<in> set AUTH_PUBLIC_PATHS then h req a
     else op_bind (resolve_session now req) (\<lambda>session a.
       if session \<noteq> None then h req a
       else if users_count (nd_db (ap_node a)) = 0 then h req a
       else let provided = header req HMAC_HEADER; expected = hmac_request_signature L hmac_key (rq_body req) in
         if provided = [] then (Inl (HTTPError 401 (''missing '' @ HMAC_HEADER @ '' header'')), a)
         else if \<not> list_all (\<lambda>c. (of_char c :: nat) < 128) provided then (Inl TypeError, a)
         else if provided \<noteq> expected then (Inl (HTTPError 401 ''invalid signature''), a)
         else h req a) a)"

definition viewer_path :: "string \<Rightarrow> bool" where
  "viewer_path path \<longleftrightarrow> path \<in> set VIEWER_READ_PATHS \<or> starts_with path ''/static/'' \<or> path = ''/gossip/frontier'' \<or>
     starts_with path ''/events/''"

definition session_auth_middleware :: "timestamp \<Rightarrow> handler \<Rightarrow> handler" where
  "session_auth_middleware now h req = (\<lambda>a.
     if rq_path req \<in> set AUTH_PUBLIC_PATHS then h req a
     else if users_count (nd_db (ap_node a)) = 0 then h req a
     else op_bind (resolve_session now req) (\<lambda>session a.
       case session of
         None \<Rightarrow> if has_text (header req ''Accept'') ''text/html'' \<and> rq_method req = ''GET'' then (Inr (Found ''/auth/login''), a)
           else (Inl (HTTPError 401 ''login required''), a)
       | Some session \<Rightarrow>
           if se_role session \<noteq> ''admin'' \<and> rq_method req \<in> set WRITE_METHODS \<and> rq_path req \<noteq> ''/auth/logout''
           then (Inl (HTTPError 403 ''admin role required''), a)
           else if se_role session \<noteq> ''admin'' \<and> rq_method req = ''GET'' \<and> \<not> viewer_path (rq_path req)
           then (Inl (HTTPError 403 ''not permitted for viewer role''), a)
           else h (req\<lparr>rq_session := Some session\<rparr>) a) a)"

text \<open>The chain of \<open>build_app\<close>: the session middleware is the outer one.\<close>

definition guarded_handler :: "pylib \<Rightarrow> timestamp \<Rightarrow> timestamp \<Rightarrow> handler \<Rightarrow> handler" where
  "guarded_handler L t0 t1 h = session_auth_middleware t0 (hmac_auth_middleware L t1 h)"

section \<open>Routes\<close>

datatype endpoint =
    EventBatch | EmitLocal | Frontier | Dag | Status | Metrics | MetricsPrometheus | CheckpointPropose | CheckpointList
  | CheckpointVerify | PeerApprove | PeerReject | GossipFrontier | EventAncestry | RegisterPeer | UpdatePeer | RemovePeer
  | Peers | ReconfigureMembership | ConsensusDigest | MetricsHistory | LoginPage | Login | Logout | Me | UsersList | UsersAdd
  | UsersRemove | NotifierStatus | CatalogList | CatalogPolicy | VizPage | VizGraph | VizStream | VizSimulate
  | VizSimulationControl | VizClear | Incidents | VizHeadlessStub

type_synonym route = "string \<times> string \<times> endpoint"

definition web_get :: "string \<Rightarrow> endpoint \<Rightarrow> route list" where
  "web_get path h = [(''GET'', path, h), (''HEAD'', path, h)]"

definition web_post :: "string \<Rightarrow> endpoint \<Rightarrow> route list" where
  "web_post path h = [(''POST'', path, h)]"

definition web_put :: "string \<Rightarrow> endpoint \<Rightarrow> route list" where
  "web_put path h = [(''PUT'', path, h)]"

definition inter_node_routes :: "route list" where
  "inter_node_routes = concat
     [web_post ''/event/batch'' EventBatch, web_post ''/event/emit'' EmitLocal, web_get ''/dag/frontier'' Frontier, web_get ''/dag'' Dag,
      web_get ''/status'' Status, web_get ''/metrics'' Metrics, web_get ''/metrics/prometheus'' MetricsPrometheus,
      web_post ''/checkpoint/propose'' CheckpointPropose, web_get ''/checkpoint/list'' CheckpointList,
      web_get ''/checkpoint/verify'' CheckpointVerify, web_post ''/peers/approve'' PeerApprove, web_post ''/peers/reject'' PeerReject,
      web_get ''/gossip/frontier'' GossipFrontier, web_get ''/events/{event_id}/ancestry'' EventAncestry,
      web_post ''/peers/register'' RegisterPeer, web_post ''/peers/update'' UpdatePeer, web_post ''/peers/remove'' RemovePeer,
      web_get ''/peers'' Peers, web_post ''/consensus/reconfigure'' ReconfigureMembership, web_get ''/consensus/digest'' ConsensusDigest]"

definition ui_routes :: "route list" where
  "ui_routes = concat
     [web_get ''/metrics/history'' MetricsHistory, web_get ''/auth/login'' LoginPage, web_post ''/auth/login'' Login,
      web_post ''/auth/logout'' Logout, web_get ''/auth/me'' Me, web_get ''/users'' UsersList, web_post ''/users/add'' UsersAdd,
      web_post ''/users/remove'' UsersRemove, web_get ''/notifier/status'' NotifierStatus, web_get ''/catalog'' CatalogList,
      web_post ''/catalog/policy'' CatalogPolicy, web_get ''/viz'' VizPage, web_get ''/viz/graph'' VizGraph, web_get ''/viz/stream'' VizStream,
      web_post ''/viz/simulate'' VizSimulate, web_post ''/viz/simulation/control'' VizSimulationControl, web_post ''/viz/clear'' VizClear,
      web_get ''/incidents'' Incidents, web_put ''/incidents'' Incidents]"

definition app_routes :: "bool \<Rightarrow> route list" where
  "app_routes ui_enabled = inter_node_routes @ (if ui_enabled then ui_routes else web_get ''/viz'' VizHeadlessStub)"

fun match_segments :: "string list \<Rightarrow> string list \<Rightarrow> (string, string) dict option" where
  "match_segments [] [] = Some []"
| "match_segments (p # ps) (s # ss) =
     (if p \<noteq> [] \<and> hd p = CHR ''{''
      then if s = [] \<or> CHR ''{'' \<in> set s \<or> CHR ''}'' \<in> set s then None
           else map_option (\<lambda>m. (butlast (tl p), s) # m) (match_segments ps ss)
      else if p = s then match_segments ps ss else None)"
| "match_segments _ _ = None"

definition match_path :: "string \<Rightarrow> string \<Rightarrow> (string, string) dict option" where
  "match_path pattern path = match_segments (split_char (CHR ''/'') pattern) (split_char (CHR ''/'') path)"

definition resolve_route :: "bool \<Rightarrow> string \<Rightarrow> string \<Rightarrow> (endpoint \<times> (string, string) dict) result" where
  "resolve_route ui_enabled req_method path =
     (let matching = filter (\<lambda>(m, pattern, h). match_path pattern path \<noteq> None) (app_routes ui_enabled)
      in if matching = [] then Inl (HTTPError 404 ''Not Found'')
         else case List.find (\<lambda>(m, pattern, h). m = req_method) matching of
           None \<Rightarrow> Inl (HTTPError 405 ''Method Not Allowed'')
         | Some (m, pattern, h) \<Rightarrow> Inr (h, the (match_path pattern path)))"

section \<open>Authorisation\<close>

text \<open>The policy: the session a request presents, and what a session is allowed.\<close>

definition live_session :: "timestamp \<Rightarrow> request \<Rightarrow> api \<Rightarrow> session_record option" where
  "live_session now req a =
     (let token = dict_get (rq_cookies req) SESSION_COOKIE_NAME []
      in if token = [] then None
         else case map_of (ss_sessions (nd_session_store (ap_node a))) token of
           None \<Rightarrow> None
         | Some s \<Rightarrow> if now \<le> se_expires_at s then Some s else None)"

definition forget_expired :: "timestamp \<Rightarrow> request \<Rightarrow> api \<Rightarrow> api" where
  "forget_expired now req a =
     (let token = dict_get (rq_cookies req) SESSION_COOKIE_NAME []; store = nd_session_store (ap_node a)
      in case map_of (ss_sessions store) token of
           Some s \<Rightarrow> if token \<noteq> [] \<and> se_expires_at s < now
             then set_sessions (store\<lparr>ss_sessions := AList.delete token (ss_sessions store)\<rparr>) a else a
         | None \<Rightarrow> a)"

datatype verdict = Grant | ToLogin | Unauthorized | Forbidden string

definition access :: "session_record option \<Rightarrow> request \<Rightarrow> verdict" where
  "access session req =
     (case session of
        None \<Rightarrow> if has_text (header req ''Accept'') ''text/html'' \<and> rq_method req = ''GET'' then ToLogin else Unauthorized
      | Some s \<Rightarrow>
          if se_role s = ''admin'' then Grant
          else if rq_method req \<in> set WRITE_METHODS then Forbidden ''admin role required''
          else if rq_method req = ''GET'' \<and> \<not> viewer_path (rq_path req) then Forbidden ''not permitted for viewer role''
          else Grant)"

fun refusal :: "verdict \<Rightarrow> response result option" where
  "refusal Grant = None"
| "refusal ToLogin = Some (Inr (Found ''/auth/login''))"
| "refusal Unauthorized = Some (Inl (HTTPError 401 ''login required''))"
| "refusal (Forbidden reason) = Some (Inl (HTTPError 403 reason))"

lemma set_sessions_same [simp]: "set_sessions (nd_session_store (ap_node a)) a = a"
  by (simp add: set_sessions_def)

lemma set_sessions_frame [simp]:
  "nd_shared (ap_node (set_sessions store a)) = nd_shared (ap_node a)"
  "nd_config (ap_node (set_sessions store a)) = nd_config (ap_node a)"
  "nd_session_store (ap_node (set_sessions store a)) = store"
  by (simp_all add: set_sessions_def)

lemma resolve_session_eq: "resolve_session now req a = (Inr (live_session now req a), forget_expired now req a)"
  by (auto simp: resolve_session_def live_session_def forget_expired_def session_get_def Let_def split: option.splits)

lemma forget_frame [simp]:
  "nd_shared (ap_node (forget_expired now req a)) = nd_shared (ap_node a)"
  "nd_config (ap_node (forget_expired now req a)) = nd_config (ap_node a)"
  by (auto simp: forget_expired_def Let_def split: option.splits)

lemma forget_live [simp]: "live_session now req a = Some s \<Longrightarrow> forget_expired now req a = a"
  by (auto simp: live_session_def forget_expired_def Let_def split: option.splits if_splits)

lemma live_later:
  "live_session t0 req a = Some s \<Longrightarrow> t1 \<le> se_expires_at s \<Longrightarrow> live_session t1 (req\<lparr>rq_session := x\<rparr>) a = Some s"
  by (auto simp: live_session_def Let_def split: option.splits if_splits)

lemma hmac_with_session:
  "live_session t1 req a = Some s \<Longrightarrow> hmac_auth_middleware L t1 h req a = h req a"
  by (simp add: hmac_auth_middleware_def Let_def op_bind_def resolve_session_eq)

lemma hmac_open:
  "users_count (nd_db (ap_node a)) = 0 \<or> rq_path req \<in> set AUTH_PUBLIC_PATHS \<Longrightarrow>
   hmac_auth_middleware L t1 h req a = h req a \<or> hmac_auth_middleware L t1 h req a = h req (forget_expired t1 req a)"
  by (auto simp: hmac_auth_middleware_def Let_def op_bind_def resolve_session_eq)

lemma session_auth_closed:
  assumes "users_count (nd_db (ap_node a)) \<noteq> 0" "rq_path req \<notin> set AUTH_PUBLIC_PATHS"
  shows "session_auth_middleware t0 h req a =
    (case refusal (access (live_session t0 req a) req) of
       None \<Rightarrow> h (req\<lparr>rq_session := live_session t0 req a\<rparr>) a
     | Some r \<Rightarrow> (r, forget_expired t0 req a))"
proof (cases "live_session t0 req a")
  case None
  with assms show ?thesis
    by (simp add: session_auth_middleware_def op_bind_def resolve_session_eq access_def)
next
  case (Some s)
  have "rq_path req \<noteq> ''/auth/logout''" using assms(2) by (auto simp: AUTH_PUBLIC_PATHS_def)
  with Some assms show ?thesis
    by (simp add: session_auth_middleware_def op_bind_def resolve_session_eq access_def)
qed

lemma guarded_grant:
  assumes "users_count (nd_db (ap_node a)) \<noteq> 0" "rq_path req \<notin> set AUTH_PUBLIC_PATHS"
    and "live_session t0 req a = Some s" "access (Some s) req = Grant" "t1 \<le> se_expires_at s"
  shows "guarded_handler L t0 t1 h req a = h (req\<lparr>rq_session := Some s\<rparr>) a"
  using assms hmac_with_session [OF live_later [of t0 req a s t1 "Some s"]] by (simp add: guarded_handler_def session_auth_closed)

text \<open>
  C27: who reaches a handler. Once a user exists, a request outside the public paths is decided by its session alone: an
  administrator's session reaches every handler, another session none with a method that changes state and with \<open>GET\<close> only the
  paths open to viewers, and a request without a session is answered 401 or sent to the login page; a refused request
  changes nothing but that an expired session is forgotten. The signature of the request plays no part while the
  session lasts. On the public paths, and everywhere while no user exists, every request reaches its handler.
\<close>

theorem api_authorization:
  "(users_count (nd_db (ap_node a)) \<noteq> 0 \<and> rq_path req \<notin> set AUTH_PUBLIC_PATHS \<longrightarrow>
      (\<forall>r. refusal (access (live_session t0 req a) req) = Some r \<longrightarrow>
         guarded_handler L t0 t1 h req a = (r, forget_expired t0 req a)) \<and>
      (\<forall>s. live_session t0 req a = Some s \<and> access (Some s) req = Grant \<and> t1 \<le> se_expires_at s \<longrightarrow>
         guarded_handler L t0 t1 h req a = h (req\<lparr>rq_session := Some s\<rparr>) a)) \<and>
   (users_count (nd_db (ap_node a)) = 0 \<or> rq_path req \<in> set AUTH_PUBLIC_PATHS \<longrightarrow>
      (\<exists>a' \<in> {a, forget_expired t1 req a}. guarded_handler L t0 t1 h req a = h req a'))"
proof (intro conjI impI allI)
  fix r
  assume "users_count (nd_db (ap_node a)) \<noteq> 0 \<and> rq_path req \<notin> set AUTH_PUBLIC_PATHS"
    and "refusal (access (live_session t0 req a) req) = Some r"
  then show "guarded_handler L t0 t1 h req a = (r, forget_expired t0 req a)"
    by (simp add: guarded_handler_def session_auth_closed)
next
  fix s
  assume "users_count (nd_db (ap_node a)) \<noteq> 0 \<and> rq_path req \<notin> set AUTH_PUBLIC_PATHS"
    and live: "live_session t0 req a = Some s \<and> access (Some s) req = Grant \<and> t1 \<le> se_expires_at s"
  then show "guarded_handler L t0 t1 h req a = h (req\<lparr>rq_session := Some s\<rparr>) a"
    using guarded_grant by blast
next
  assume "users_count (nd_db (ap_node a)) = 0 \<or> rq_path req \<in> set AUTH_PUBLIC_PATHS"
  then show "\<exists>a' \<in> {a, forget_expired t1 req a}. guarded_handler L t0 t1 h req a = h req a'"
    using hmac_open [of a req L t1 h] by (auto simp: guarded_handler_def session_auth_middleware_def)
qed

text \<open>A node with the user \<open>eve\<close>, who may only look: her session opens the list of peers and not the list of users.\<close>

definition viewer_app :: api where
  "viewer_app = (let s = demo_supervisor True; n = su_node s in
     \<lparr>ap_super = s\<lparr>su_node := (set_db ((nd_db n)\<lparr>t_users := [(''eve'', \<lparr>us_password_hash = [], us_role = ''viewer'', us_created_at = 0\<rparr>)]\<rparr>) n)
        \<lparr>nd_session_store := snd (session_create ''tok'' 0 ''eve'' ''viewer'' (session_store_init SESSION_TTL_SECONDS))\<rparr>\<rparr>,
      ap_sim = \<lparr>si_task = NoTask, si_token = None, si_stop = True\<rparr>, ap_sent = []\<rparr>)"

definition viewer_request :: "string \<Rightarrow> string \<Rightarrow> string \<Rightarrow> request" where
  "viewer_request req_method path body =
     \<lparr>rq_method = req_method, rq_path = path, rq_headers = [], rq_cookies = [(SESSION_COOKIE_NAME, ''tok'')], rq_query = [],
      rq_match = [], rq_body = body, rq_session = None\<rparr>"

lemma viewer_app_session:
  "users_count (nd_db (ap_node viewer_app)) \<noteq> 0"
  "live_session 9 (viewer_request m p b) viewer_app =
     Some \<lparr>se_token = ''tok'', se_username = ''eve'', se_role = ''viewer'', se_created_at = 0, se_expires_at = 28800\<rparr>"
proof -
  have role: "normalize_role (Some ''viewer'') = ''viewer''" by code_simp
  show "users_count (nd_db (ap_node viewer_app)) \<noteq> 0" by (simp add: viewer_app_def Let_def set_db_def users_count_def)
  show "live_session 9 (viewer_request m p b) viewer_app =
     Some \<lparr>se_token = ''tok'', se_username = ''eve'', se_role = ''viewer'', se_created_at = 0, se_expires_at = 28800\<rparr>"
    by (simp add: viewer_app_def Let_def live_session_def viewer_request_def dict_get_def session_create_def session_store_init_def
      SESSION_TTL_SECONDS_def role)
qed

theorem api_authorization_witness:
  "guarded_handler demo_lib 9 9 (\<lambda>req. op_ret (JsonResponse JNull)) (viewer_request ''GET'' ''/peers'' []) viewer_app = (Inr (JsonResponse JNull), viewer_app) \<and>
   guarded_handler demo_lib 9 9 (\<lambda>req. op_ret (JsonResponse JNull)) (viewer_request ''GET'' ''/users'' []) viewer_app =
     (Inl (HTTPError 403 ''not permitted for viewer role''), viewer_app) \<and>
   guarded_handler demo_lib 9 9 (\<lambda>req. op_ret (JsonResponse JNull)) (viewer_request ''POST'' ''/status'' []) viewer_app = (Inr (JsonResponse JNull), viewer_app)"
proof -
  have paths: "''/peers'' \<notin> set AUTH_PUBLIC_PATHS" "''/users'' \<notin> set AUTH_PUBLIC_PATHS" "''/status'' \<in> set AUTH_PUBLIC_PATHS"
    "viewer_path ''/peers''" "\<not> viewer_path ''/users''" "''GET'' \<notin> set WRITE_METHODS"
    by code_simp+
  let ?h = "\<lambda>req. op_ret (JsonResponse JNull)"
  let ?req = "\<lambda>m p. viewer_request m p []"
  have sel: "rq_path (?req m p) = p" "rq_method (?req m p) = m" for m p by (simp_all add: viewer_request_def)
  show ?thesis
    using api_authorization [of viewer_app "?req ''GET'' ''/peers''" 9 demo_lib 9 ?h]
      api_authorization [of viewer_app "?req ''GET'' ''/users''" 9 demo_lib 9 ?h]
      api_authorization [of viewer_app "?req ''POST'' ''/status''" 9 demo_lib 9 ?h]
    by (simp add: viewer_app_session paths sel access_def op_run)
qed

end
