(* ===== verification/Api.thy ===== *)
theory Api
  imports Gate
begin

text \<open>
  The handlers of the HTTP interface (\<open>mdrj/api.py\<close>). A handler is an operation on the application that answers with a
  response or raises; an exception that is no HTTP exception becomes the status 500. What a handler takes
  from outside the node is in \<open>api_world\<close>: the clock, random tokens, the key derivation, the answers of peers, the texts of
  exceptions and of the HTML pages.
\<close>

section \<open>Requests to JSON\<close>

record api_world =
  aw_env :: node_env
  aw_env2 :: node_env
  aw_clock :: "nat \<Rightarrow> timestamp"
  aw_kdf :: scrypt
  aw_salt :: string
  aw_token :: string
  aw_from_iso :: "string \<Rightarrow> timestamp option"
  aw_generated_at :: string
  aw_simulation_id :: string
  aw_confidence :: rat
  aw_status :: "string \<Rightarrow> string option"
  aw_seen_at :: "string \<Rightarrow> timestamp"
  aw_queue :: nat
  aw_error_text :: "py_error \<Rightarrow> string"
  aw_metric_help :: "string \<Rightarrow> string"
  aw_page :: "endpoint \<Rightarrow> string"

definition on_app_node :: "(node, 'a) op \<Rightarrow> (api, 'a) op" where
  "on_app_node m = on_super (on_node m)"

definition node_total :: "(node \<Rightarrow> 'a \<times> node) \<Rightarrow> (api, 'a) op" where
  "node_total f = on_app_node (\<lambda>n. let (x, n') = f n in (Inr x, n'))"

definition send_out :: "(string \<times> string \<times> (string, string) dict) list \<Rightarrow> (api, unit) op" where
  "send_out requests = op_mod (\<lambda>a. a\<lparr>ap_sent := ap_sent a @ requests\<rparr>)"

definition reply :: "(string, json) dict \<Rightarrow> (api, response) op" where
  "reply d = op_ret (JsonResponse (JObj d))"

definition bad_request :: "string \<Rightarrow> (api, 'a) op" where
  "bad_request reason = op_raise (HTTPError 400 reason)"

text \<open>\<open>await request.json()\<close>, and \<open>payload.get\<close> on what it returns: another value than an object has no such method.\<close>

definition request_json :: "pylib \<Rightarrow> request \<Rightarrow> (api, json) op" where
  "request_json L req = op_lift (\<lambda>_. loads L (rq_body req))"

definition json_or :: "pylib \<Rightarrow> request \<Rightarrow> (api, json) op \<Rightarrow> (api, json) op" where
  "json_or L req alternative = op_catch (\<lambda>_. True) (request_json L req) alternative"

definition get_dict :: "json \<Rightarrow> (api, (string, json) dict) op" where
  "get_dict j = op_lift (\<lambda>_. as_obj j)"

definition query :: "request \<Rightarrow> string \<Rightarrow> string \<Rightarrow> string" where
  "query req key dflt = dict_get (rq_query req) key dflt"

definition int_query :: "request \<Rightarrow> string \<Rightarrow> int \<Rightarrow> int" where
  "int_query req key dflt = (case map_of (rq_query req) key of None \<Rightarrow> dflt
     | Some v \<Rightarrow> (case py_int_text v of Some i \<Rightarrow> i | None \<Rightarrow> dflt))"

section \<open>Events, simulation and incidents\<close>

definition handle_event_batch :: "pylib \<Rightarrow> api_world \<Rightarrow> handler" where
  "handle_event_batch L W req =
     op_bind (on_app_node (op_mod (on_metrics (record_gossip_in_bytes (int (length (rq_body req))))))) (\<lambda>_.
     op_bind (if rq_body req = [] then op_ret JNull else request_json L req) (\<lambda>payload.
       case payload of
         JList items \<Rightarrow>
           op_bind (op_lift (\<lambda>_. res_map (envelope_from_dict L) items)) (\<lambda>envelopes.
           op_bind (on_app_node (ingest_envelopes L (aw_env W) envelopes)) (\<lambda>new_ids.
           reply [(''new'', strs_json new_ids)]))
       | _ \<Rightarrow> bad_request ''payload must be list of envelopes''))"

definition known_kind :: "catalog \<Rightarrow> json \<Rightarrow> string option result" where
  "known_kind cat kind =
     (if \<not> hashable kind then Inl TypeError
      else Inr (case kind of JStr k \<Rightarrow> if is_known_event_kind cat k then Some k else None | _ \<Rightarrow> None))"

definition handle_emit_local :: "pylib \<Rightarrow> api_world \<Rightarrow> handler" where
  "handle_emit_local L W req =
     op_bind (request_json L req) (\<lambda>j. op_bind (get_dict j) (\<lambda>payload.
     op_bind (if json_truthy (jget payload ''payload'') then get_dict (jget payload ''payload'') else op_ret []) (\<lambda>body.
     let event_kind = (if json_truthy (jget payload ''event_kind'') then jget payload ''event_kind'' else jget body ''event_kind'');
         cls_raw = jget payload ''cls'' in
     op_bind (if json_truthy event_kind
              then op_bind (op_lift (\<lambda>a. known_kind (su_catalog (ap_super a)) event_kind)) (\<lambda>known.
                case known of
                  None \<Rightarrow> bad_request (''unknown event_kind: '' @ (case py_str L event_kind of Inr t \<Rightarrow> t | Inl _ \<Rightarrow> []))
                | Some k \<Rightarrow> op_bind (op_lift (\<lambda>a. event_class_for (su_catalog (ap_super a)) k)) (\<lambda>cls.
                    op_ret (cls, AList.update ''event_kind'' (JStr k) body)))
              else if json_truthy cls_raw
              then op_bind (op_lift (\<lambda>_. case cls_raw of JStr v \<Rightarrow> cls_from_str v | _ \<Rightarrow> Inl (ValueError ''unknown event class''))) (\<lambda>cls.
                op_ret (cls, body))
              else bad_request ''missing event_kind or cls'') (\<lambda>(event_cls, body').
     op_bind (on_app_node (emit_event L (aw_env W) (aw_env2 W) event_cls body')) (\<lambda>emission.
     reply [(''event'', JObj (event_to_dict (em_event emission))), (''stored'', JBool (em_stored emission))])))))"

definition demo_only :: "(api, unit) op" where
  "demo_only = (\<lambda>a. if demo_controls_enabled (ap_super a) then (Inr (), a)
     else (Inl (HTTPError 403 ''simulation disabled for linux ingest mode''), a))"

definition handle_viz_simulate :: "pylib \<Rightarrow> api_world \<Rightarrow> handler" where
  "handle_viz_simulate L W req =
     op_bind demo_only (\<lambda>_.
     op_bind (json_or L req (bad_request ''invalid json'')) (\<lambda>j. op_bind (get_dict j) (\<lambda>data.
     let scenario = jget data ''scenario'' in
     op_bind (op_lift (\<lambda>a. if \<not> hashable scenario then Inl TypeError
       else case scenario of
         JStr key \<Rightarrow> if map_of (SCENARIOS (su_catalog (ap_super a))) key = None then Inl (HTTPError 400 ''unknown scenario'')
           else scenario_payload (su_catalog (ap_super a)) key (aw_generated_at W) (aw_simulation_id W) (aw_confidence W)
       | _ \<Rightarrow> Inl (HTTPError 400 ''unknown scenario''))) (\<lambda>(cls, payload).
     op_bind (on_app_node (emit_event L (aw_env W) (aw_env2 W) cls payload)) (\<lambda>emission.
     reply [(''event'', JObj (event_to_dict (em_event emission)))])))))"

definition api_start_simulation :: "pylib \<Rightarrow> api_world \<Rightarrow> rat \<Rightarrow> rat \<Rightarrow> string option \<Rightarrow> bool \<Rightarrow> (api, bool) op" where
  "api_start_simulation L W interval jitter token propagate = (\<lambda>a.
     let tok = (case token of Some t \<Rightarrow> t | None \<Rightarrow> aw_token W);
         (started, m) = start_simulation (ap_sim a) tok;
         a1 = a\<lparr>ap_sim := m\<rparr>
     in if started \<and> propagate
        then (Inr started, snd (send_out (propagate_simulation L ''start'' tok (Some interval) (Some jitter) (ap_node a)) a1))
        else (Inr started, a1))"

definition api_stop_simulation :: "pylib \<Rightarrow> api_world \<Rightarrow> string option \<Rightarrow> bool \<Rightarrow> (api, bool) op" where
  "api_stop_simulation L W token propagate = (\<lambda>a.
     let tok = (case token of Some t \<Rightarrow> t | None \<Rightarrow> aw_token W);
         (result, m) = stop_simulation tok (ap_sim a);
         a1 = a\<lparr>ap_sim := m\<rparr>
     in if result = Inr True \<and> propagate
        then (result, snd (send_out (propagate_simulation L ''stop'' tok None None (ap_node a)) a1))
        else (result, a1))"

definition simulation_reply :: "(string, json) dict \<Rightarrow> (api, response) op" where
  "simulation_reply outcome = (\<lambda>a. reply ([(''running'', JBool (simulation_running (ap_sim a)))] @ outcome @
     [(''token'', opt_json JStr (si_token (ap_sim a)))]) a)"

definition handle_viz_simulation_control :: "pylib \<Rightarrow> api_world \<Rightarrow> handler" where
  "handle_viz_simulation_control L W req =
     op_bind demo_only (\<lambda>_.
     op_bind (json_or L req (op_ret (JObj []))) (\<lambda>j. op_bind (get_dict j) (\<lambda>data.
     let action = dict_get data ''action'' (JStr ''toggle''); propagate = json_truthy (dict_get data ''propagate'' (JBool True)) in
     op_bind (op_lift (\<lambda>_. as_opt_str (jget data ''token''))) (\<lambda>token.
     op_bind (op_lift (\<lambda>_. py_float (floats L) (dict_get data ''interval'' (JFloat (9 / 5))))) (\<lambda>interval.
     op_bind (op_lift (\<lambda>_. py_float (floats L) (dict_get data ''jitter'' (JFloat (3 / 5))))) (\<lambda>jitter.
     op_bind (op_get (\<lambda>a. simulation_running (ap_sim a))) (\<lambda>running.
       if action = JStr ''status'' then simulation_reply []
       else if action = JStr ''stop'' \<or> (action \<noteq> JStr ''start'' \<and> running)
       then op_bind (api_stop_simulation L W token propagate) (\<lambda>stopped. simulation_reply [(''stopped'', JBool stopped)])
       else op_bind (api_start_simulation L W interval jitter token propagate) (\<lambda>started.
         simulation_reply [(''started'', JBool started)]))))))))"

definition handle_viz_clear :: "pylib \<Rightarrow> api_world \<Rightarrow> handler" where
  "handle_viz_clear L W req =
     op_bind (json_or L req (op_ret (JObj []))) (\<lambda>j. op_bind (get_dict j) (\<lambda>data.
     op_bind (op_lift (\<lambda>_. as_opt_str (jget data ''token''))) (\<lambda>given.
     let token = (if opt_str given = [] then aw_token W else opt_str given);
         propagate = (opt_str given = [] \<or> json_truthy (dict_get data ''propagate'' (JBool True))) in
     op_bind (on_app_node (node_clear_events L (aw_env W) token propagate)) (\<lambda>(metrics, requests).
     op_bind (send_out requests) (\<lambda>_.
     reply [(''status'', JStr ''cleared''), (''metrics'', JObj metrics), (''token'', JStr token)])))))"

definition handle_incidents :: "pylib \<Rightarrow> api_world \<Rightarrow> handler" where
  "handle_incidents L W req =
     (if rq_method req = ''GET'' then op_bind (op_get (\<lambda>a. list_incidents (nd_db (ap_node a)))) (\<lambda>items. reply [(''items'', JList items)])
      else op_bind (json_or L req (op_ret (JObj []))) (\<lambda>j. op_bind (get_dict j) (\<lambda>payload.
        case jget payload ''items'' of
          JList items \<Rightarrow>
            op_bind (on_app_node (node_replace_incidents (aw_from_iso W) (aw_clock W 0) items)) (\<lambda>saved.
            reply [(''status'', JStr ''ok''), (''items'', JList saved)])
        | _ \<Rightarrow> bad_request ''missing items'')))"

section \<open>Status, metrics and checkpoints\<close>

definition handle_frontier :: "pylib \<Rightarrow> handler" where
  "handle_frontier L req =
     op_bind (op_lift (\<lambda>a. get_frontier L (nd_db (ap_node a)))) (\<lambda>frontier.
     reply [(''frontier'', JList (map (\<lambda>(x, vc). JList [JStr x, clock_json vc]) frontier))])"

definition handle_status :: "pylib \<Rightarrow> handler" where
  "handle_status L req = op_bind (on_super (\<lambda>s. let (d, s') = node_status L s in (Inr d, s'))) reply"

definition handle_metrics :: "api_world \<Rightarrow> handler" where
  "handle_metrics W req = op_bind (op_get (\<lambda>a. node_metrics_snapshot (aw_env W) (ap_node a))) reply"

definition handle_metrics_prometheus :: "pylib \<Rightarrow> api_world \<Rightarrow> handler" where
  "handle_metrics_prometheus L W req =
     op_bind (on_super (metrics_page L (aw_metric_help W) (aw_env W) (aw_clock W 0) (aw_clock W 1))) (\<lambda>page.
     op_ret (TextResponse page ''text/plain''))"

definition handle_metrics_history :: "pylib \<Rightarrow> handler" where
  "handle_metrics_history L req =
     (let n = int_query req ''limit'' 1000;
          since_ts = (case py_float (floats L) (JStr (query req ''since'' ''0'')) of Inr x \<Rightarrow> x | Inl _ \<Rightarrow> 0)
      in op_bind (op_lift (\<lambda>a. list_metrics_history L (nd_db (ap_node a)) n since_ts)) (\<lambda>rows.
         reply [(''items'', JList (map (\<lambda>(ts, snapshot). JObj [(''ts'', JFloat ts), (''snapshot'', snapshot)]) rows))]))"

definition checkpoint_dict :: "int \<Rightarrow> checkpoint_row \<Rightarrow> json" where
  "checkpoint_dict rnd row = JObj
     [(''round_received'', JInt rnd), (''merkle_root'', JStr (ck_merkle_root row)), (''members_snapshot_hash'', JStr (ck_members_snapshot_hash row)),
      (''signatures'', JObj (map (\<lambda>(k, v). (k, JStr v)) (ck_signatures row))), (''status'', JStr (ck_status row)),
      (''confirmed_at'', opt_json JFloat (ck_confirmed_at row)), (''created_at'', JFloat (ck_created_at row))]"

text \<open>\<open>payload and "merkle_root" in payload\<close>, for any JSON value.\<close>

fun has_merkle_root :: "json \<Rightarrow> bool result" where
  "has_merkle_root (JObj d) = Inr (map_of d ''merkle_root'' \<noteq> None)"
| "has_merkle_root (JStr s) = Inr (has_text s ''merkle_root'')"
| "has_merkle_root (JList js) = Inr (JStr ''merkle_root'' \<in> set js)"
| "has_merkle_root j = (if json_truthy j then Inl TypeError else Inr False)"

fun is_ValueError :: "py_error \<Rightarrow> bool" where
  "is_ValueError (ValueError _) = True"
| "is_ValueError _ = False"

definition value_error_400 :: "api_world \<Rightarrow> (api, 'a) op \<Rightarrow> (api, 'a) op" where
  "value_error_400 W m = (\<lambda>a. case m a of (Inl e, a') \<Rightarrow> (Inl (if is_ValueError e then HTTPError 400 (aw_error_text W e) else e), a') | r \<Rightarrow> r)"

definition next_checkpoint_round :: "pylib \<Rightarrow> (api, int) op" where
  "next_checkpoint_round L =
     op_bind (op_get (\<lambda>a. latest_confirmed_checkpoint (nd_db (ap_node a)))) (\<lambda>confirmed.
     op_bind (op_lift (\<lambda>a. all_events L (nd_db (ap_node a)))) (\<lambda>events.
       let next_round_start = (case confirmed of Some (rnd, row) \<Rightarrow> rnd + 1 | None \<Rightarrow> 0);
           rounds = List.map_filter ev_round_received events;
           max_round = (if rounds = [] then -1 else Max (set rounds))
       in if max_round < next_round_start then bad_request ''no new events with round_received available for checkpoint''
          else op_ret max_round))"

definition handle_checkpoint_propose :: "pylib \<Rightarrow> api_world \<Rightarrow> handler" where
  "handle_checkpoint_propose L W req =
     op_bind (json_or L req (op_ret (JObj []))) (\<lambda>payload.
     op_bind (op_lift (\<lambda>_. has_merkle_root payload)) (\<lambda>proposed.
       if proposed
       then op_bind (get_dict payload) (\<lambda>d.
            op_bind (value_error_400 W (on_app_node (ingest_checkpoint_proposal L (aw_clock W) d))) (\<lambda>recorded.
            op_bind (op_lift (\<lambda>_. py_int (jget d ''round_received''))) (\<lambda>rnd.
            reply [(''status'', JStr ''ok''), (''checkpoint'', opt_json (checkpoint_dict rnd) recorded)])))
       else let target = (case payload of JObj d \<Rightarrow> jget d ''round_received'' | _ \<Rightarrow> JNull) in
            op_bind (if target = JNull then op_bind (next_checkpoint_round L) (\<lambda>r. op_ret (JInt r)) else op_ret target) (\<lambda>target_round.
            op_bind (value_error_400 W (op_bind (op_lift (\<lambda>_. py_int target_round)) (\<lambda>r.
              on_app_node (propose_local_checkpoint L (aw_clock W) r)))) (\<lambda>proposal.
            reply [(''status'', JStr ''ok''), (''proposal'', JObj proposal)]))))"

definition handle_checkpoint_list :: "handler" where
  "handle_checkpoint_list req =
     op_bind (op_get (\<lambda>a. node_list_checkpoints (ap_node a) (map_of (rq_query req) ''status'') (int_query req ''limit'' 100))) (\<lambda>items.
     reply [(''items'', JList (map (\<lambda>(rnd, row). checkpoint_dict rnd row) items))])"

definition handle_checkpoint_verify :: "pylib \<Rightarrow> api_world \<Rightarrow> handler" where
  "handle_checkpoint_verify L W req =
     (case py_int_text (str_or (query req ''round_received'' []) (dict_get (rq_match req) ''round_received'' [])) of
        None \<Rightarrow> bad_request ''round_received must be integer''
      | Some rnd \<Rightarrow> (\<lambda>a. case on_app_node (verify_checkpoint L rnd) a of
            (Inl (KeyError k), a') \<Rightarrow> (Inl (HTTPError 404 (aw_error_text W (KeyError k))), a')
          | (Inl e, a') \<Rightarrow> (Inl e, a')
          | (Inr verified, a') \<Rightarrow> reply (report_to_dict verified) a'))"

definition handle_consensus_digest :: "pylib \<Rightarrow> api_world \<Rightarrow> handler" where
  "handle_consensus_digest L W req =
     op_bind (on_app_node (consensus_snapshot_sync L (aw_clock W 0))) (\<lambda>snapshot. reply (digest_dict snapshot))"

definition handle_dag :: "api_world \<Rightarrow> handler" where
  "handle_dag W req = op_bind (op_lift (\<lambda>a. db_toposort (en_plan (aw_env W)) (nd_db (ap_node a)))) (\<lambda>order. reply [(''toposort'', strs_json order)])"

definition handle_viz_graph :: "pylib \<Rightarrow> api_world \<Rightarrow> handler" where
  "handle_viz_graph L W req =
     op_bind (op_lift (\<lambda>a. all_events L (nd_db (ap_node a)))) (\<lambda>events.
     op_bind (op_get (\<lambda>a. all_edges (nd_db (ap_node a)))) (\<lambda>edges.
     op_bind (op_get (\<lambda>a. node_metrics_snapshot (aw_env W) (ap_node a))) (\<lambda>metrics.
     reply [(''nodes'', JList (map (JObj \<circ> event_to_dict) events)),
       (''edges'', JList (map (\<lambda>(source, target). JObj [(''source'', JStr source), (''target'', JStr target),
          (''key'', JStr (source @ ''->'' @ target))]) edges)),
       (''metrics'', JObj metrics)])))"

text \<open>
  The event stream: the handler subscribes a queue, writes its messages one after the other and unsubscribes it when the
  client goes away. \<open>json.dumps(payload, ensure_ascii=False)\<close> has the default separators.
\<close>

definition stream_message :: "pylib \<Rightarrow> json \<Rightarrow> string" where
  "stream_message L payload = ''data: '' @ json_dumps (floats L) False False '', '' '': '' payload @ [newline, newline]"

definition handle_viz_stream :: "api_world \<Rightarrow> handler" where
  "handle_viz_stream W req =
     op_bind (node_total (\<lambda>n. ((), subscribe_visualizer (aw_queue W) n))) (\<lambda>_. op_ret (EventStream (aw_queue W)))"

definition stream_next :: "pylib \<Rightarrow> nat \<Rightarrow> api \<Rightarrow> string option \<times> api" where
  "stream_next L k a =
     (case dict_get (nd_viz (ap_node a)) k [] of
        [] \<Rightarrow> (None, a)
      | payload # rest \<Rightarrow> (Some (stream_message L payload),
          a\<lparr>ap_super := (ap_super a)\<lparr>su_node := (ap_node a)\<lparr>nd_viz := AList.update k rest (nd_viz (ap_node a))\<rparr>\<rparr>\<rparr>))"

definition stream_close :: "nat \<Rightarrow> (api, unit) op" where
  "stream_close k = node_total (\<lambda>n. ((), unsubscribe_visualizer k n))"

section \<open>Sessions and users\<close>

definition handle_login :: "pylib \<Rightarrow> api_world \<Rightarrow> handler" where
  "handle_login L W req =
     op_bind (json_or L req (bad_request ''invalid json'')) (\<lambda>j. op_bind (get_dict j) (\<lambda>payload.
     op_bind (op_lift (\<lambda>_. str_or_empty L (jget payload ''username''))) (\<lambda>name.
     op_bind (op_lift (\<lambda>_. str_or_empty L (jget payload ''password''))) (\<lambda>password.
     let username = py_strip name in
     if username = [] \<or> password = [] then bad_request ''username and password required''
     else op_bind (op_lift (\<lambda>a. authenticate (aw_kdf W) username password (ap_node a))) (\<lambda>user.
       case user of
         None \<Rightarrow> op_raise (HTTPError 401 ''invalid credentials'')
       | Some (_, row) \<Rightarrow>
           op_bind (node_total (\<lambda>n. let (r, store) = session_create (aw_token W) (aw_clock W 0) username (us_role row) (nd_session_store n)
              in (r, n\<lparr>nd_session_store := store\<rparr>))) (\<lambda>session.
           op_ret (SetCookie SESSION_COOKIE_NAME (se_token session) SESSION_TTL_SECONDS (JsonResponse (JObj
             [(''status'', JStr ''ok''), (''username'', JStr username), (''role'', JStr (us_role row))])))))))))"

definition handle_logout :: "handler" where
  "handle_logout req =
     (let token = dict_get (rq_cookies req) SESSION_COOKIE_NAME []
      in op_bind (if token = [] then op_ret () else node_total (\<lambda>n. ((), n\<lparr>nd_session_store := session_revoke token (nd_session_store n)\<rparr>))) (\<lambda>_.
         op_ret (DelCookie SESSION_COOKIE_NAME (JsonResponse (JObj [(''status'', JStr ''ok'')])))))"

definition handle_me :: "api_world \<Rightarrow> handler" where
  "handle_me W req =
     op_bind (resolve_session (aw_clock W 0) req) (\<lambda>session.
       case session of
         None \<Rightarrow> op_raise (HTTPError 401 ''no session'')
       | Some s \<Rightarrow> reply [(''username'', JStr (se_username s)), (''role'', JStr (se_role s)), (''expires_at'', JFloat (se_expires_at s))])"

definition handle_notifier_status :: "handler" where
  "handle_notifier_status req = (\<lambda>a. (Inr (JsonResponse (notifier_status (su_notifier (ap_super a)))), a))"

definition handle_users_list :: "handler" where
  "handle_users_list req =
     op_bind (op_get (\<lambda>a. list_users (nd_db (ap_node a)))) (\<lambda>items.
     reply [(''items'', JList (map (\<lambda>(username, role, created_at).
       JObj [(''username'', JStr username), (''role'', JStr role), (''created_at'', JFloat created_at)]) items))])"

definition handle_users_add :: "pylib \<Rightarrow> api_world \<Rightarrow> handler" where
  "handle_users_add L W req =
     op_bind (request_json L req) (\<lambda>j. op_bind (get_dict j) (\<lambda>payload.
     op_bind (op_lift (\<lambda>_. str_or_empty L (jget payload ''username''))) (\<lambda>name.
     op_bind (op_lift (\<lambda>_. str_or_empty L (jget payload ''password''))) (\<lambda>password.
     op_bind (op_lift (\<lambda>_. str_or_empty L (jget payload ''role''))) (\<lambda>role.
     if py_strip name = [] \<or> password = [] then bad_request ''username and password required''
     else op_bind (on_app_node (add_user (aw_kdf W) (aw_salt W) (aw_clock W 0) (py_strip name) password (str_or role ''viewer''))) (\<lambda>(username, user_role).
       reply [(''status'', JStr ''ok''), (''user'', JObj [(''username'', JStr username), (''role'', JStr user_role)])]))))))"

definition handle_users_remove :: "pylib \<Rightarrow> handler" where
  "handle_users_remove L req =
     op_bind (request_json L req) (\<lambda>j. op_bind (get_dict j) (\<lambda>payload.
     op_bind (op_lift (\<lambda>_. str_or_empty L (jget payload ''username''))) (\<lambda>name.
     if py_strip name = [] then bad_request ''username required''
     else op_bind (node_total (remove_user (py_strip name))) (\<lambda>removed.
       reply [(''status'', JStr (if removed then ''ok'' else ''not_found''))]))))"

section \<open>Peers and membership\<close>

definition peer_decision :: "pylib \<Rightarrow> (string \<Rightarrow> node \<Rightarrow> peer_info option \<times> node) \<Rightarrow> handler" where
  "peer_decision L ruling req =
     op_bind (request_json L req) (\<lambda>j. op_bind (get_dict j) (\<lambda>payload.
     let address = jget payload ''address'' in
     if \<not> json_truthy address then bad_request ''missing address''
     else op_bind (op_lift (\<lambda>_. py_str L address)) (\<lambda>addr.
          op_bind (node_total (ruling addr)) (\<lambda>peer.
            case peer of
              None \<Rightarrow> op_raise (HTTPError 404 ''unknown peer'')
            | Some p \<Rightarrow> reply [(''status'', JStr ''ok''), (''peer'', JObj (peer_to_dict p))]))))"

definition handle_peer_approve :: "pylib \<Rightarrow> handler" where
  "handle_peer_approve L = peer_decision L approve_peer"

definition handle_peer_reject :: "pylib \<Rightarrow> handler" where
  "handle_peer_reject L = peer_decision L reject_peer"

definition registry_json :: "api \<Rightarrow> json" where
  "registry_json a = JList (map (JObj \<circ> peer_to_dict) (list_peers (nd_db (ap_node a))))"

definition handle_register_peer :: "pylib \<Rightarrow> api_world \<Rightarrow> handler" where
  "handle_register_peer L W req =
     op_bind (request_json L req) (\<lambda>j. op_bind (get_dict j) (\<lambda>payload.
     op_bind (op_lift (\<lambda>_. str_or_empty L (jget payload ''note''))) (\<lambda>note.
     op_bind (op_lift (\<lambda>_. str_or_empty L (jget payload ''node_id''))) (\<lambda>node_id.
     if \<not> json_truthy (jget payload ''address'') then bad_request ''missing address''
     else op_bind (op_lift (\<lambda>_. as_str (jget payload ''address''))) (\<lambda>address.
          op_bind (op_lift (\<lambda>_. py_str L (dict_get payload ''role'' (JStr ''node'')))) (\<lambda>role.
          op_bind (on_app_node (register_peer L (aw_clock W) address note ''ui'' role node_id None)) (\<lambda>_.
          op_bind (op_get registry_json) (\<lambda>peers. reply [(''status'', JStr ''ok''), (''peers'', peers)]))))))))"

definition opt_text :: "pylib \<Rightarrow> json \<Rightarrow> string option result" where
  "opt_text L j = (if j = JNull then Inr None else res_bind (py_str L j) (\<lambda>s. Inr (Some s)))"

definition handle_update_peer :: "pylib \<Rightarrow> api_world \<Rightarrow> handler" where
  "handle_update_peer L W req =
     op_bind (request_json L req) (\<lambda>j. op_bind (get_dict j) (\<lambda>payload.
     if \<not> json_truthy (jget payload ''address'') then bad_request ''missing address''
     else let enabled_raw = jget payload ''enabled''; enabled = (if enabled_raw = JNull then None else Some (json_truthy enabled_raw)) in
          op_bind (op_lift (\<lambda>_. opt_text L (jget payload ''note''))) (\<lambda>note.
          op_bind (op_lift (\<lambda>_. opt_text L (jget payload ''role''))) (\<lambda>role.
          op_bind (op_lift (\<lambda>_. opt_text L (jget payload ''node_id''))) (\<lambda>node_id.
          op_bind (op_lift (\<lambda>_. as_str (jget payload ''address''))) (\<lambda>address.
          op_bind (node_total (node_update_peer (aw_clock W 0) address enabled note role node_id None)) (\<lambda>peer.
            case peer of
              None \<Rightarrow> op_raise (HTTPError 404 ''unknown peer'')
            | Some p \<Rightarrow> reply [(''status'', JStr ''ok''), (''peer'', JObj (peer_to_dict p))])))))))"

definition handle_remove_peer :: "pylib \<Rightarrow> handler" where
  "handle_remove_peer L req =
     op_bind (request_json L req) (\<lambda>j. op_bind (get_dict j) (\<lambda>payload.
     let address = jget payload ''address'' in
     if \<not> json_truthy address then bad_request ''missing address''
     else op_bind (op_lift (\<lambda>_. py_str L address)) (\<lambda>text.
          if starts_with text ''self:'' then bad_request ''cannot remove self peer''
          else op_bind (op_lift (\<lambda>_. as_str address)) (\<lambda>addr.
               op_bind (node_total (\<lambda>n. ((), remove_peer addr n))) (\<lambda>_. reply [(''status'', JStr ''ok'')])))))"

definition handle_peers :: "handler" where
  "handle_peers req = op_bind (op_get registry_json) (\<lambda>peers. reply [(''peers'', peers)])"

definition snapshot_dict :: "membership_snap \<Rightarrow> json" where
  "snapshot_dict snap = JObj
     [(''epoch'', JInt (ms_epoch snap)),
      (''members'', JList (map (\<lambda>m. JObj [(''node_id'', JStr (me_node_id m)), (''address'', JStr (me_address m)), (''role'', JStr (me_role m)),
         (''is_self'', JBool (me_is_self m))]) (ms_members snap))),
      (''membership_snapshot_hash'', JStr (ms_hash snap)), (''membership_size'', JInt (int (ms_size snap)))]"

definition handle_reconfigure_consensus_membership :: "pylib \<Rightarrow> api_world \<Rightarrow> handler" where
  "handle_reconfigure_consensus_membership L W req =
     op_bind (on_app_node (reconfigure_consensus_membership L (en_rl (aw_env W)) (en_plan (aw_env W)) (aw_status W) (aw_seen_at W))) (\<lambda>snapshot.
     reply [(''status'', JStr ''ok''), (''snapshot'', snapshot_dict snapshot)])"

section \<open>The catalogue\<close>

text \<open>
  \<open>text.upper()\<close>: the letters whose capitals lie outside Latin-1 stay as they are, which no class name has.
\<close>

definition upper_char :: "char \<Rightarrow> string" where
  "upper_char c = (let n = of_char c :: nat in
     if (97 \<le> n \<and> n \<le> 122) \<or> (224 \<le> n \<and> n \<le> 254 \<and> n \<noteq> 247) then [char_of (n - 32)] else if n = 223 then ''SS'' else [c])"

definition py_upper :: "string \<Rightarrow> string" where
  "py_upper s = concat (map upper_char s)"

fun any_res :: "('a \<Rightarrow> bool result) \<Rightarrow> 'a list \<Rightarrow> bool result" where
  "any_res f [] = Inr False"
| "any_res f (x # xs) = res_bind (f x) (\<lambda>b. if b then Inr True else any_res f xs)"

definition catalog_item :: "string \<Rightarrow> catalog_entry \<Rightarrow> metadata \<Rightarrow> (string, json) dict" where
  "catalog_item kind entry m =
     [(''event_kind'', JStr kind), (''class'', JStr (cls_value (ce_class entry))), (''title'', JStr (ce_title entry)),
      (''category'', if json_truthy (jget m ''category'') then jget m ''category'' else dict_get (ce_payload entry) ''category'' (JStr ''other'')),
      (''rationale'', dict_get m ''rationale'' (JStr [])), (''linked_threats'', dict_get m ''linked_threats'' (JList [])),
      (''added_by'', dict_get m ''added_by'' (JStr [])), (''npa'', dict_get m ''npa'' (JList [])), (''source'', dict_get m ''source'' (JStr [])),
      (''registry_enabled'', dict_get m ''registry_enabled'' (JBool True)), (''protected'', JBool (kind \<in> set POLICY_PROTECTED_KINDS))]"

definition catalog_selected :: "pylib \<Rightarrow> string \<Rightarrow> string \<Rightarrow> catalog_entry \<Rightarrow> metadata \<Rightarrow> bool result" where
  "catalog_selected L cls_filter threat_filter entry m =
     (if cls_filter \<noteq> [] \<and> cls_value (ce_class entry) \<noteq> cls_filter then Inr False
      else if threat_filter = [] then Inr True
      else res_bind (json_items (jget m ''linked_threats'')) (\<lambda>linked.
        any_res (\<lambda>t. res_bind (py_str L t) (\<lambda>s. Inr (has_text s threat_filter))) linked))"

fun catalog_items :: "pylib \<Rightarrow> string \<Rightarrow> string \<Rightarrow> (string, metadata) dict \<Rightarrow> (string \<times> catalog_entry) list \<Rightarrow>
    ((string \<times> string) \<times> json) list result" where
  "catalog_items L cls_filter threat_filter meta [] = Inr []"
| "catalog_items L cls_filter threat_filter meta ((kind, entry) # rest) =
     (let m = dict_get meta kind [] in
      res_bind (catalog_selected L cls_filter threat_filter entry m) (\<lambda>chosen.
      res_bind (catalog_items L cls_filter threat_filter meta rest) (\<lambda>items.
      Inr (if chosen then ((cls_value (ce_class entry), kind), JObj (catalog_item kind entry m)) # items else items))))"

definition handle_catalog :: "pylib \<Rightarrow> handler" where
  "handle_catalog L req =
     op_bind (op_lift (\<lambda>a. let cat = su_catalog (ap_super a) in
       catalog_items L (py_strip (py_upper (query req ''class'' []))) (py_strip (query req ''threat'' [])) (ct_metadata cat) (ct_events cat))) (\<lambda>items.
     reply [(''version'', JInt 1), (''count'', JInt (int (length items))), (''events'', JList (map snd (sort_key fst items)))])"

definition handle_catalog_policy :: "pylib \<Rightarrow> api_world \<Rightarrow> handler" where
  "handle_catalog_policy L W req =
     op_bind (json_or L req (bad_request ''invalid JSON'')) (\<lambda>j. op_bind (get_dict j) (\<lambda>body.
     op_bind (op_lift (\<lambda>_. py_str L (dict_get body ''event_kind'' (JStr [])))) (\<lambda>kind_text.
     let kind = py_strip kind_text in
     if kind = [] then bad_request ''missing event_kind''
     else if map_of body ''enabled'' = None then bad_request ''missing enabled''
     else (\<lambda>a. case on_super (set_collection_policy L (aw_env W) (aw_env2 W) kind (json_truthy (jget body ''enabled''))) a of
         (Inl (KeyError k), a') \<Rightarrow> (Inl (HTTPError 404 (aw_error_text W (KeyError k))), a')
       | (Inl (ValueError m), a') \<Rightarrow> (Inl (HTTPError 403 (aw_error_text W (ValueError m))), a')
       | (Inl e, a') \<Rightarrow> (Inl e, a')
       | (Inr outcome, a') \<Rightarrow> reply ((''status'', JStr ''ok'') # outcome) a'))))"

section \<open>Ancestry of an event\<close>

lemma stored_envelope:
  assumes "get_envelope L d x = Inr (Some env)"
  shows "x \<in> r_id ` set (t_events d)"
proof -
  from assms obtain e where "opt_event L (select_row d x) = Inr (Some e)"
    by (auto simp: get_envelope_def get_event_def split: option.splits)
  then obtain r where "select_row d x = Some r" by (cases "select_row d x") auto
  then show ?thesis by (auto simp: select_row_def find_Some_iff)
qed

text \<open>The search goes through a queue, breadth first; identifiers already visited are skipped.\<close>

function ancestry_loop :: "pylib \<Rightarrow> db \<Rightarrow> nat \<Rightarrow> string list \<Rightarrow> string list \<Rightarrow> envelope list \<Rightarrow> envelope list result" where
  "ancestry_loop L d depth [] visited out = Inr out"
| "ancestry_loop L d depth (eid # queue) visited out =
     (if depth \<le> length out then Inr out
      else if eid \<in> set visited then ancestry_loop L d depth queue visited out
      else case get_envelope L d eid of
        Inl e \<Rightarrow> Inl e
      | Inr None \<Rightarrow> ancestry_loop L d depth queue (eid # visited) out
      | Inr (Some env) \<Rightarrow>
          ancestry_loop L d depth (queue @ filter (\<lambda>p. p \<noteq> [] \<and> p \<notin> set (eid # visited)) (ev_parents (env_event env)))
            (eid # visited) (out @ [env]))"
  by pat_completeness auto
termination
proof (relation "measures [\<lambda>(L, d, depth, queue, visited, out). card (r_id ` set (t_events d) - set visited),
    \<lambda>(L, d, depth, queue, visited, out). length queue]", goal_cases)
  case (3 L d depth eid queue visited out x2)
  have "card (r_id ` set (t_events d) - set (eid # visited)) \<le> card (r_id ` set (t_events d) - set visited)"
    by (rule card_mono) auto
  then show ?case by auto
next
  case (4 L d depth eid queue visited out x2 env)
  then have "eid \<in> r_id ` set (t_events d) - set visited" using stored_envelope by blast
  then have "card (r_id ` set (t_events d) - set (eid # visited)) < card (r_id ` set (t_events d) - set visited)"
    by (intro psubset_card_mono) auto
  then show ?case by simp
qed auto

definition ancestry_item :: "envelope \<Rightarrow> json" where
  "ancestry_item env = JObj
     [(''event'', JObj (AList.update ''consensus_ts'' (opt_json JFloat (ev_consensus_ts (env_event env))) (event_to_dict (env_event env)))),
      (''path_meta'', JList (map hop_json (env_path_meta env)))]"

definition ancestry_depth :: "request \<Rightarrow> nat" where
  "ancestry_depth req = nat (max 1 (min (int_query req ''depth'' 64) 1024))"

definition handle_event_ancestry :: "pylib \<Rightarrow> handler" where
  "handle_event_ancestry L req =
     op_bind (op_lift (\<lambda>a. ancestry_loop L (nd_db (ap_node a)) (ancestry_depth req) [dict_get (rq_match req) ''event_id'' []] [] [])) (\<lambda>out.
     reply [(''events'', JList (map ancestry_item out))])"

definition handle_gossip_frontier :: "pylib \<Rightarrow> handler" where
  "handle_gossip_frontier L req =
     op_bind (op_lift (\<lambda>a. local_frontier L (ap_node a))) (\<lambda>frontier.
     reply [(''frontier'', JObj (map (\<lambda>(creator, x). (creator, JStr x)) frontier))])"

section \<open>The application\<close>

definition html_page :: "api_world \<Rightarrow> endpoint \<Rightarrow> handler" where
  "html_page W page req = op_ret (TextResponse (aw_page W page) ''text/html'')"

fun handle :: "pylib \<Rightarrow> api_world \<Rightarrow> endpoint \<Rightarrow> handler" where
  "handle L W EventBatch = handle_event_batch L W"
| "handle L W EmitLocal = handle_emit_local L W"
| "handle L W Frontier = handle_frontier L"
| "handle L W Dag = handle_dag W"
| "handle L W Status = handle_status L"
| "handle L W Metrics = handle_metrics W"
| "handle L W MetricsPrometheus = handle_metrics_prometheus L W"
| "handle L W CheckpointPropose = handle_checkpoint_propose L W"
| "handle L W CheckpointList = handle_checkpoint_list"
| "handle L W CheckpointVerify = handle_checkpoint_verify L W"
| "handle L W PeerApprove = handle_peer_approve L"
| "handle L W PeerReject = handle_peer_reject L"
| "handle L W GossipFrontier = handle_gossip_frontier L"
| "handle L W EventAncestry = handle_event_ancestry L"
| "handle L W RegisterPeer = handle_register_peer L W"
| "handle L W UpdatePeer = handle_update_peer L W"
| "handle L W RemovePeer = handle_remove_peer L"
| "handle L W Peers = handle_peers"
| "handle L W ReconfigureMembership = handle_reconfigure_consensus_membership L W"
| "handle L W ConsensusDigest = handle_consensus_digest L W"
| "handle L W MetricsHistory = handle_metrics_history L"
| "handle L W LoginPage = html_page W LoginPage"
| "handle L W Login = handle_login L W"
| "handle L W Logout = handle_logout"
| "handle L W Me = handle_me W"
| "handle L W UsersList = handle_users_list"
| "handle L W UsersAdd = handle_users_add L W"
| "handle L W UsersRemove = handle_users_remove L"
| "handle L W NotifierStatus = handle_notifier_status"
| "handle L W CatalogList = handle_catalog L"
| "handle L W CatalogPolicy = handle_catalog_policy L W"
| "handle L W VizPage = html_page W VizPage"
| "handle L W VizGraph = handle_viz_graph L W"
| "handle L W VizStream = handle_viz_stream W"
| "handle L W VizSimulate = handle_viz_simulate L W"
| "handle L W VizSimulationControl = handle_viz_simulation_control L W"
| "handle L W VizClear = handle_viz_clear L W"
| "handle L W Incidents = handle_incidents L W"
| "handle L W VizHeadlessStub = html_page W VizHeadlessStub"

definition app_handler :: "pylib \<Rightarrow> api_world \<Rightarrow> handler" where
  "app_handler L W req = (\<lambda>a.
     case resolve_route (cf_ui_enabled (su_config (ap_super a))) (rq_method req) (rq_path req) of
       Inl e \<Rightarrow> (Inl e, a)
     | Inr (endpoint, m) \<Rightarrow> handle L W endpoint (req\<lparr>rq_match := m\<rparr>) a)"

definition serve :: "pylib \<Rightarrow> api_world \<Rightarrow> timestamp \<Rightarrow> timestamp \<Rightarrow> handler" where
  "serve L W t0 t1 = guarded_handler L t0 t1 (app_handler L W)"

section \<open>The search finds the ancestors\<close>

inductive ancestor :: "pylib \<Rightarrow> db \<Rightarrow> string \<Rightarrow> string \<Rightarrow> bool" for L d x where
  self: "ancestor L d x x"
| parent: "ancestor L d x y \<Longrightarrow> get_envelope L d y = Inr (Some env) \<Longrightarrow> p \<in> set (ev_parents (env_event env)) \<Longrightarrow> p \<noteq> [] \<Longrightarrow>
    ancestor L d x p"

abbreviation env_id :: "envelope \<Rightarrow> string" where
  "env_id env \<equiv> ev_id (env_event env)"

definition search_ok :: "pylib \<Rightarrow> db \<Rightarrow> string \<Rightarrow> string list \<Rightarrow> string list \<Rightarrow> envelope list \<Rightarrow> bool" where
  "search_ok L d x queue visited out \<longleftrightarrow>
     x \<in> set visited \<union> set queue \<and> (\<forall>y \<in> set visited \<union> set queue. ancestor L d x y) \<and> distinct (map env_id out) \<and>
     (\<forall>env \<in> set out. get_envelope L d (env_id env) = Inr (Some env) \<and> env_id env \<in> set visited) \<and>
     (\<forall>v \<in> set visited. \<forall>env. get_envelope L d v = Inr (Some env) \<longrightarrow>
        env \<in> set out \<and> (\<forall>p \<in> set (ev_parents (env_event env)). p \<noteq> [] \<longrightarrow> p \<in> set visited \<union> set queue))"

lemma search_skip: "search_ok L d x (eid # queue) visited out \<Longrightarrow> eid \<in> set visited \<Longrightarrow> search_ok L d x queue visited out"
  unfolding search_ok_def by (auto simp: insert_absorb)

lemma search_missing:
  "search_ok L d x (eid # queue) visited out \<Longrightarrow> get_envelope L d eid = Inr None \<Longrightarrow> search_ok L d x queue (eid # visited) out"
  unfolding search_ok_def by (simp add: ball_Un)

lemma search_found:
  assumes "search_ok L d x (eid # queue) visited out" "eid \<notin> set visited" "get_envelope L d eid = Inr (Some env)"
  shows "search_ok L d x (queue @ filter (\<lambda>p. p \<noteq> [] \<and> p \<notin> set (eid # visited)) (ev_parents (env_event env))) (eid # visited) (out @ [env])"
proof -
  note inv = assms(1) [unfolded search_ok_def]
  have id: "env_id env = eid" by (rule get_envelope_id [OF assms(3)])
  have "ancestor L d x eid" using inv by simp
  then have "ancestor L d x p" if "p \<in> set (ev_parents (env_event env))" "p \<noteq> []" for p
    using ancestor.parent assms(3) that by blast
  moreover have "distinct (map env_id (out @ [env]))" using inv assms(2) id by auto
  ultimately show ?thesis
    unfolding search_ok_def using inv assms(3) id
    by (intro conjI ballI allI impI) (auto split: if_splits, blast+)
qed

definition readable :: "pylib \<Rightarrow> db \<Rightarrow> bool" where
  "readable L d \<longleftrightarrow> (\<forall>y e. get_envelope L d y \<noteq> Inl e)"

lemma search_loop:
  "readable L d \<Longrightarrow> search_ok L d x queue visited out \<Longrightarrow> length out \<le> depth \<Longrightarrow>
    \<exists>envs more queue' visited'. ancestry_loop L d depth queue visited out = Inr envs \<and> envs = out @ more \<and> length envs \<le> depth \<and>
      search_ok L d x queue' visited' envs \<and> (length envs < depth \<longrightarrow> queue' = [])"
proof (induction L d depth queue visited out rule: ancestry_loop.induct)
  case (1 L d depth visited out)
  then show ?case by fastforce
next
  case (2 L d depth eid queue visited out)
  consider "depth \<le> length out" | "\<not> depth \<le> length out" "eid \<in> set visited"
    | "\<not> depth \<le> length out" "eid \<notin> set visited" "get_envelope L d eid = Inr None"
    | env where "\<not> depth \<le> length out" "eid \<notin> set visited" "get_envelope L d eid = Inr (Some env)"
    using 2(4) unfolding readable_def by (metis obj_sumE option.exhaust)
  then show ?case
  proof cases
    case 1
    with 2(5,6) show ?thesis by fastforce
  next
    case 2
    then show ?thesis using "2.IH"(1) [OF 2 "2.prems"(1) search_skip [OF "2.prems"(2) 2(2)] "2.prems"(3)] by simp
  next
    case 3
    then show ?thesis using "2.IH"(2) [OF 3 refl "2.prems"(1) search_missing [OF "2.prems"(2) 3(3)] "2.prems"(3)] by simp
  next
    case 4
    then show ?thesis
      using "2.IH"(3) [OF 4 refl "2.prems"(1) search_found [OF "2.prems"(2) 4(2,3)]] by fastforce
  qed
qed

lemma search_start: "search_ok L d x [x] [] []"
  by (simp add: search_ok_def ancestor.self)

lemma search_closed:
  assumes "search_ok L d x [] visited out" "ancestor L d x y"
  shows "y \<in> set visited"
  using assms(2)
proof (induction rule: ancestor.induct)
  case self
  then show ?case using assms(1) by (simp add: search_ok_def)
next
  case (parent y env p)
  then show ?case using assms(1) unfolding search_ok_def by auto
qed


lemma graph_readable: "graph_ok L d \<Longrightarrow> readable L d"
  unfolding readable_def graph_ok_def
proof (intro allI notI)
  fix y e
  assume ok: "distinct (map r_id (t_events d)) \<and> (\<forall>r \<in> set (t_events d). \<exists>e. event_from_record L r = Inr e \<and>
      (\<forall>p \<in> set (ev_parents e). (p, r_id r) \<in> set (t_edges d)))" and "get_envelope L d y = Inl e"
  then obtain r where "select_row d y = Some r" "event_from_record L r = Inl e"
    by (cases "select_row d y"; cases "event_from_record L (the (select_row d y))") (auto simp: get_envelope_def get_event_def)
  moreover have "r \<in> set (t_events d)" using calculation(1) by (auto simp: select_row_def find_Some_iff)
  ultimately show False using ok by fastforce
qed

lemma graph_envelope:
  assumes "graph_ok L d" "x \<in> r_id ` set (t_events d)"
  shows "\<exists>env. get_envelope L d x = Inr (Some env)"
proof -
  have "select_row d x \<noteq> None" using assms(2) by (auto simp: select_row_def find_None_iff)
  then obtain r where r: "select_row d x = Some r" by blast
  then have "r \<in> set (t_events d)" by (auto simp: select_row_def find_Some_iff)
  with assms(1) obtain e where "event_from_record L r = Inr e" unfolding graph_ok_def by blast
  with r show ?thesis by (simp add: get_envelope_def get_event_def)
qed

text \<open>Two stored events that name each other as parents: the search ends there, too.\<close>

definition loop_app :: api where
  "loop_app = viewer_app\<lparr>ap_super := (demo_supervisor True)\<lparr>su_node := set_db loop_db lonely_node\<rparr>\<rparr>"


section \<open>Login\<close>

lemma on_app_node_run:
  "on_app_node m a = (fst (m (ap_node a)), a\<lparr>ap_super := (ap_super a)\<lparr>su_node := snd (m (ap_node a))\<rparr>\<rparr>)"
  by (simp add: on_app_node_def on_super_def on_node_def split_beta Let_def)

lemma node_total_run:
  "node_total f a = (Inr (fst (f (ap_node a))), a\<lparr>ap_super := (ap_super a)\<lparr>su_node := snd (f (ap_node a))\<rparr>\<rparr>)"
  by (simp add: node_total_def on_app_node_run split_beta Let_def)

lemma json_or_run:
  "json_or L req alternative a = (case loads L (rq_body req) of Inl _ \<Rightarrow> alternative a | Inr j \<Rightarrow> (Inr j, a))"
  by (simp add: json_or_def op_catch_def request_json_def op_run split: sum.split)

lemmas handler_run = json_or_run get_dict_def reply_def bad_request_def op_bind_run op_run



definition demo_world :: api_world where
  "demo_world =
     \<lparr>aw_env = demo_env, aw_env2 = demo_env, aw_clock = of_nat, aw_kdf = (\<lambda>pw s n r p len. Inr (replicate len (CHR ''k''))), aw_salt = ''salt'',
      aw_token = ''tok2'', aw_from_iso = (\<lambda>_. None), aw_generated_at = [], aw_simulation_id = [], aw_confidence = 1, aw_status = (\<lambda>_. None),
      aw_seen_at = (\<lambda>_. 0), aw_queue = 0, aw_error_text = (\<lambda>_. []), aw_metric_help = (\<lambda>_. []), aw_page = (\<lambda>_. [])\<rparr>"


definition login_app :: api where
  "login_app = (let n = lonely_node in viewer_app\<lparr>ap_super := (demo_supervisor True)\<lparr>su_node := set_db ((nd_db n)\<lparr>t_users :=
     [(''alice'', \<lparr>us_password_hash = (case hash_password (aw_kdf demo_world) ''salt'' ''pw'' of Inr h \<Rightarrow> h | Inl _ \<Rightarrow> []), us_role = ''admin'',
        us_created_at = 0\<rparr>)]\<rparr>) n\<rparr>\<rparr>)"


end
