(* ===== verification/Cli.thy ===== *)
theory Cli
  imports Api
begin

text \<open>
  The command line (\<open>mdrj/cli.py\<close>): the requests its commands make, the commands that change the users in the database of a
  stopped node, and the verification of an archive file, with what retention writes there. Parsing of arguments, output
  and the exit of the process are left out, except the exit code of the two verifying commands.
\<close>

section \<open>Requests\<close>

datatype cli_call = CliGet string | CliPost string json

definition rstrip_slash :: "string \<Rightarrow> string" where
  "rstrip_slash s = rev (dropWhile (\<lambda>c. c = CHR ''/'') (rev s))"

definition base_url :: "string \<Rightarrow> string option \<Rightarrow> string" where
  "base_url listen override =
     (let target = str_or (opt_str override) listen
      in if starts_with target ''http://'' \<or> starts_with target ''https://'' then rstrip_slash target else ''http://'' @ rstrip_slash target)"

definition cli_emit :: "file_config \<Rightarrow> string option \<Rightarrow> EventClass \<Rightarrow> json \<Rightarrow> cli_call" where
  "cli_emit cfg api cls data = CliPost (base_url (cf_listen cfg) api @ ''/event/emit'') (JObj [(''cls'', JStr (cls_value cls)), (''payload'', data)])"

definition cli_add_peer :: "file_config \<Rightarrow> string option \<Rightarrow> string \<Rightarrow> cli_call" where
  "cli_add_peer cfg api addr = CliPost (base_url (cf_listen cfg) api @ ''/peers/register'') (JObj [(''address'', JStr addr)])"

definition cli_list_peers :: "file_config \<Rightarrow> string option \<Rightarrow> cli_call" where
  "cli_list_peers cfg api = CliGet (base_url (cf_listen cfg) api @ ''/peers'')"

definition cli_metrics :: "file_config \<Rightarrow> string option \<Rightarrow> cli_call" where
  "cli_metrics cfg api = CliGet (base_url (cf_listen cfg) api @ ''/metrics'')"

definition cli_status :: "file_config \<Rightarrow> string option \<Rightarrow> cli_call" where
  "cli_status cfg api = CliGet (base_url (cf_listen cfg) api @ ''/status'')"

definition cli_dag :: "file_config \<Rightarrow> string option \<Rightarrow> cli_call" where
  "cli_dag cfg api = CliGet (base_url (cf_listen cfg) api @ ''/dag'')"

definition cli_checkpoint_propose :: "file_config \<Rightarrow> string option \<Rightarrow> int option \<Rightarrow> cli_call" where
  "cli_checkpoint_propose cfg api target = CliPost (base_url (cf_listen cfg) api @ ''/checkpoint/propose'')
     (JObj (case target of None \<Rightarrow> [] | Some r \<Rightarrow> [(''round_received'', JInt r)]))"

definition cli_checkpoint_list :: "file_config \<Rightarrow> string option \<Rightarrow> string option \<Rightarrow> int \<Rightarrow> cli_call" where
  "cli_checkpoint_list cfg api status n = CliGet (base_url (cf_listen cfg) api @ ''/checkpoint/list?'' @
     join ''&'' ((if opt_str status = [] then [] else [''status='' @ opt_str status]) @ [''limit='' @ int_str n]))"

definition cli_checkpoint_verify :: "file_config \<Rightarrow> string option \<Rightarrow> int \<Rightarrow> cli_call" where
  "cli_checkpoint_verify cfg api r = CliGet (base_url (cf_listen cfg) api @ ''/checkpoint/verify?round_received='' @ int_str r)"

definition verify_exit_code :: "(string, json) dict \<Rightarrow> nat" where
  "verify_exit_code answer = (if json_truthy (jget answer ''has_tamper_evidence'') then 2 else 0)"

section \<open>Users\<close>

definition cli_users_add :: "scrypt \<Rightarrow> string \<Rightarrow> timestamp \<Rightarrow> string \<Rightarrow> string \<Rightarrow> string \<Rightarrow> (db, unit) op" where
  "cli_users_add kdf salt now username password role =
     op_bind (op_lift (\<lambda>_. hash_password kdf salt password)) (\<lambda>password_hash.
     op_mod (upsert_user now (py_lower (py_strip username)) password_hash (normalize_role (Some role))))"

definition cli_users_remove :: "string \<Rightarrow> db \<Rightarrow> bool \<times> db" where
  "cli_users_remove username d = delete_user (py_lower (py_strip username)) d"

section \<open>Archives\<close>

text \<open>\<open>key in record\<close>, for any JSON value.\<close>

fun member_of :: "string \<Rightarrow> json \<Rightarrow> bool result" where
  "member_of key (JObj d) = Inr (map_of d key \<noteq> None)"
| "member_of key (JList js) = Inr (JStr key \<in> set js)"
| "member_of key (JStr s) = Inr (has_text s key)"
| "member_of key _ = Inl TypeError"

definition archive_record_ok :: "pylib \<Rightarrow> (string, json) dict \<Rightarrow> bool result" where
  "archive_record_ok L d = res_bind (get_item d ''payload'') (\<lambda>payload. Inr (jget d ''payload_hash'' = JStr (sha256_hex L (canonical L payload))))"

text \<open>A line is skipped, or its record is good or bad.\<close>

definition archive_line_status :: "pylib \<Rightarrow> string \<Rightarrow> bool option result" where
  "archive_line_status L raw_line =
     (let line = py_strip raw_line in
      if line = [] then Inr None
      else res_bind (loads L line) (\<lambda>j.
           res_bind (member_of ''_archive_header'' j) (\<lambda>is_header.
             if is_header then Inr None
             else res_bind (as_obj j) (\<lambda>d. res_bind (archive_record_ok L d) (\<lambda>fine. Inr (Some fine))))))"

fun archive_verify :: "pylib \<Rightarrow> string list \<Rightarrow> nat \<Rightarrow> nat \<Rightarrow> (nat \<times> nat) result" where
  "archive_verify L [] ok bad = Inr (ok, bad)"
| "archive_verify L (line # rest) ok bad =
     (case archive_line_status L line of
        Inl e \<Rightarrow> Inl e
      | Inr None \<Rightarrow> archive_verify L rest ok bad
      | Inr (Some fine) \<Rightarrow> if fine then archive_verify L rest (ok + 1) bad else archive_verify L rest ok (bad + 1))"

definition archive_exit_code :: "nat \<times> nat \<Rightarrow> nat" where
  "archive_exit_code = (\<lambda>(ok, bad). if bad > 0 then 2 else 0)"

section \<open>What retention writes verifies\<close>

lemma archive_verify_offset:
  "archive_verify L xs ok bad = res_bind (archive_verify L xs 0 0) (\<lambda>(a, b). Inr (ok + a, bad + b))"
proof (induction xs arbitrary: ok bad)
  case (Cons x xs)
  then show ?case
    using Cons.IH [of ok bad] Cons.IH [of "Suc ok" bad] Cons.IH [of ok "Suc bad"] Cons.IH [of "Suc 0" 0] Cons.IH [of 0 "Suc 0"]
    by (cases "archive_verify L xs 0 0") (auto split: sum.split option.split)
qed simp

lemma archive_verify_append:
  "archive_verify L (xs @ ys) ok bad = res_bind (archive_verify L xs ok bad) (\<lambda>(ok', bad'). archive_verify L ys ok' bad')"
  by (induction xs arbitrary: ok bad) (auto split: sum.split option.split)

lemma wf_json_view: "wf_json j \<Longrightarrow> wf_json (json_view srt j)"
proof (induction j)
  case (JList js)
  then show ?case by (auto simp: list_all_iff)
next
  case (JObj kvs)
  let ?kvs = "map (\<lambda>(k, v). (k, json_view srt v)) kvs"
  have "map fst ?kvs = map fst kvs" by (simp add: case_prod_unfold comp_def)
  moreover have "mset (map fst (sort_key fst xs)) = mset (map fst xs)" for xs :: "(string \<times> json) list" by simp
  ultimately have "distinct (map fst (sort_key fst ?kvs))" "distinct (map fst ?kvs)"
    using JObj.prems by (metis wf_json.simps(2) mset_eq_imp_distinct_iff)+
  moreover have "wf_json (json_view srt v)" if "(k, v) \<in> set kvs" for k v
    using that JObj by (fastforce simp: list_all_iff)
  ultimately show ?case by (auto simp: list_all_iff)
qed simp_all

lemma strip_object: "py_strip (CHR ''{'' # s @ ''}'') = CHR ''{'' # s @ ''}''"
  by (simp add: py_strip_def is_space_def)

lemma archive_line_text: "py_strip (archive_line L (JObj d)) = archive_line L (JObj d)" "archive_line L (JObj d) \<noteq> []"
  using strip_object by (simp_all add: archive_line_def)

lemma archive_line_loads:
  "codec_ok (floats L) \<Longrightarrow> wf_json j \<Longrightarrow> loads L (archive_line L j) = Inr j"
  by (simp add: loads_def archive_line_def loads_dumps_default)

lemma verify_record_line:
  assumes "codec_ok (floats L)" "wf_json (JObj d)" "map_of d ''_archive_header'' = None" "archive_record_ok L d = Inr fine"
  shows "archive_verify L (archive_line L (JObj d) # rest) ok bad =
    archive_verify L rest (ok + of_bool fine) (bad + of_bool (\<not> fine))"
  using assms by (simp add: archive_line_status_def archive_line_text archive_line_loads)

definition canonical_row :: "pylib \<Rightarrow> stored_row \<Rightarrow> bool" where
  "canonical_row L r \<longleftrightarrow> (\<exists>vclock parents payload. r_vclock r = canonical L vclock \<and> wf_json vclock \<and> r_parents r = canonical L parents \<and>
     wf_json parents \<and> r_payload r = canonical L payload \<and> wf_json payload)"

lemma pruned_record_verifies:
  assumes "codec_ok (floats L)" "canonical_row L r" "prune_record L r = Inr p"
  shows "wf_json (JObj (pruned_dict p))" "map_of (pruned_dict p) ''_archive_header'' = None" "archive_record_ok L (pruned_dict p) = Inr True"
proof -
  obtain vclock parents payload where r: "r_vclock r = canonical L vclock" "wf_json vclock" "r_parents r = canonical L parents"
     "wf_json parents" "r_payload r = canonical L payload" "wf_json payload"
    using assms(2) unfolding canonical_row_def by blast
  have loads: "loads L (canonical L j) = Inr (json_view True j)" if "wf_json j" for j
    using loads_canonical [OF assms(1) that] by (simp add: loads_def canonical_def)
  have p: "pr_vclock p = json_view True vclock" "pr_parents p = json_view True parents" "pr_payload p = json_view True payload"
      "pr_payload_hash p = sha256_hex L (canonical L payload)"
    using assms(3) r by (auto simp: prune_record_def loads)
  have opt: "wf_json (opt_json JStr x)" "wf_json (opt_json JFloat y)" "wf_json (opt_json JInt z)" for x y z
    by (cases x; cases y; cases z; simp)+
  show "wf_json (JObj (pruned_dict p))" by (simp add: pruned_dict_def opt p wf_json_view r)
  show "map_of (pruned_dict p) ''_archive_header'' = None" by (simp add: pruned_dict_def)
  have "canonical L (json_view True payload) = canonical L payload" by (simp add: canonical_def canonical_json_def)
  then show "archive_record_ok L (pruned_dict p) = Inr True"
    by (simp add: archive_record_ok_def get_item_def jget_def dict_get_def pruned_dict_def p)
qed

lemma verify_chunk:
  assumes "codec_ok (floats L)"
    and "\<forall>p \<in> set records. wf_json (JObj (pruned_dict p)) \<and> map_of (pruned_dict p) ''_archive_header'' = None \<and>
      archive_record_ok L (pruned_dict p) = Inr True"
  shows "archive_verify L (map (\<lambda>p. archive_line L (JObj (pruned_dict p))) records) ok bad = Inr (ok + length records, bad)"
  using assms(2)
proof (induction records arbitrary: ok)
  case (Cons p records)
  then show ?case using verify_record_line [OF assms(1), of "pruned_dict p" True _ ok bad] by simp
qed simp

lemma verify_header_line:
  assumes "codec_ok (floats L)"
  shows "archive_verify L (archive_line L (archive_header rnd checkpoint now) # rest) ok bad = archive_verify L rest ok bad"
proof -
  have "wf_json (archive_header rnd checkpoint now)" by (simp add: archive_header_def)
  with archive_line_loads [OF assms] have "loads L (archive_line L (archive_header rnd checkpoint now)) = Inr (archive_header rnd checkpoint now)" by blast
  then show ?thesis by (simp add: archive_line_status_def archive_header_def archive_line_text)
qed

lemma retention_archive:
  assumes codec: "codec_ok (floats L)" and rows: "\<forall>r \<in> set (t_events (nd_db n)). canonical_row L r"
    and run: "run_retention_once L clock n = (Inr outcome, n')" and before: "archive_verify L (nd_archive n) 0 0 = Inr (k, 0)"
  shows "archive_verify L (nd_archive n') 0 0 = Inr (k + (if nc_archive_path (nd_config n) = [] then 0 else rt_pruned outcome), 0)"
proof (cases "nd_archive n' = nd_archive n \<and> (rt_pruned outcome = 0 \<or> nc_archive_path (nd_config n) = [])")
  case True
  with before show ?thesis by auto
next
  case False
  then obtain rnd checkpoint pruned d where prune: "prune_under_checkpoint L rnd (max 0 (nc_max_age_days (nd_config n) * 86400))
        (nc_keep_class_a (nd_config n)) (clock 0) (nd_db n) = Inr (pruned, d)"
    and archive: "nd_archive n' = nd_archive n @ archive_line L (archive_header rnd checkpoint (clock 1)) #
        map (\<lambda>p. archive_line L (JObj (pruned_dict p))) pruned"
    and count: "rt_pruned outcome = length pruned" "nc_archive_path (nd_config n) \<noteq> []"
    using run by (auto simp: run_retention_once_def Let_def write_archive_chunk_def set_db_def split: if_splits option.splits sum.splits)
  have pairs: "list_all2 (\<lambda>r p. prune_record L r = Inr p)
      (sort_key (\<lambda>r. the (r_round_received r)) (filter (prunable rnd (clock 0 - max 0 (nc_max_age_days (nd_config n) * 86400)) (nc_keep_class_a (nd_config n)))
        (t_events (nd_db n)))) pruned"
    using prune by (auto simp: prune_under_checkpoint_def Let_def res_map_Inr_iff)
  have "\<exists>r \<in> set rs. prune_record L r = Inr p" if "list_all2 (\<lambda>r p. prune_record L r = Inr p) rs ps" "p \<in> set ps" for rs ps p
    using that by (induction rule: list_all2_induct) auto
  from this [OF pairs] have "\<exists>r \<in> set (t_events (nd_db n)). prune_record L r = Inr p" if "p \<in> set pruned" for p
    using that by fastforce
  then have "\<forall>p \<in> set pruned. wf_json (JObj (pruned_dict p)) \<and> map_of (pruned_dict p) ''_archive_header'' = None \<and>
      archive_record_ok L (pruned_dict p) = Inr True"
    using pruned_record_verifies [OF codec] rows by blast
  from verify_chunk [OF codec this, of k 0] show ?thesis
    by (simp add: archive archive_verify_append before verify_header_line [OF codec] count del: archive_verify.simps)
qed

lemma list_all_update: "list_all (\<lambda>(k, v). P v) d \<Longrightarrow> P v \<Longrightarrow> list_all (\<lambda>(k, v). P v) (AList.update k v d)"
  by (induction d) auto

lemma changed_record_counts:
  assumes codec: "codec_ok (floats L)" and d: "wf_json (JObj d)" "map_of d ''_archive_header'' = None" "map_of d ''payload'' = Some old"
    and payload: "wf_json payload" and all: "archive_verify L (xs @ archive_line L (JObj d) # ys) 0 0 = Inr (k, 0)"
  shows "json_view True payload = json_view True old \<or> sha_collision L (canonical L payload) (canonical L old) \<or>
    (\<exists>k'. archive_verify L (xs @ archive_line L (JObj (AList.update ''payload'' payload d)) # ys) 0 0 = Inr (k', 1))"
proof -
  let ?d = "AList.update ''payload'' payload d"
  have ok: "archive_record_ok L d = Inr (jget d ''payload_hash'' = JStr (sha256_hex L (canonical L old)))"
    using d(3) by (simp add: archive_record_ok_def get_item_def)
  obtain a b where xs: "archive_verify L xs 0 0 = Inr (a, b)"
    using all by (cases "archive_verify L xs 0 0") (auto simp: archive_verify_append)
  have rest: "archive_verify L (xs @ archive_line L (JObj d') # ys) 0 0 =
      res_bind (archive_verify L ys 0 0) (\<lambda>(u, v). Inr (a + of_bool fine + u, b + of_bool (\<not> fine) + v))"
    if "wf_json (JObj d')" "map_of d' ''_archive_header'' = None" "archive_record_ok L d' = Inr fine" for d' fine
    unfolding archive_verify_append xs res_bind.simps case_prod_conv verify_record_line [OF codec that] by (rule archive_verify_offset)
  obtain u v where ys: "archive_verify L ys 0 0 = Inr (u, v)"
    using all rest [OF d(1,2) ok] by (cases "archive_verify L ys 0 0") auto
  have sound: "b = 0" "v = 0" "jget d ''payload_hash'' = JStr (sha256_hex L (canonical L old))"
    using all rest [OF d(1,2) ok] by (auto simp: ys)
  have wf: "wf_json (JObj ?d)" "map_of ?d ''_archive_header'' = None" "map_of ?d ''payload'' = Some payload"
      "jget ?d ''payload_hash'' = jget d ''payload_hash''"
    using d payload by (simp_all add: distinct_update list_all_update update_conv' jget_def dict_get_def)
  then have ok': "archive_record_ok L ?d = Inr (sha256_hex L (canonical L old) = sha256_hex L (canonical L payload))"
    using sound(3) by (simp add: archive_record_ok_def get_item_def)
  have "wf_json old" using d(1,3) by (auto simp: list_all_iff dest: map_of_SomeD)
  then have same: "json_view True payload = json_view True old" if "canonical L payload = canonical L old"
    using canonical_json_eq_iff [OF codec payload] that by (simp add: canonical_def)
  show ?thesis
  proof (cases "sha256_hex L (canonical L old) = sha256_hex L (canonical L payload)")
    case True
    with same sha256_hex_eqD [OF True [symmetric]] show ?thesis by blast
  next
    case False
    then show ?thesis using rest [OF wf(1,2) ok'] sound(1,2) by (simp add: ys)
  qed
qed


lemma canonical_new_row: "wf_json (JObj (ev_payload e)) \<Longrightarrow> dict_ok (ev_vclock e) \<Longrightarrow> canonical_row L (new_row L e ts now)"
  unfolding canonical_row_def
  by (intro exI [of _ "clock_json (ev_vclock e)"] exI [of _ "strs_json (ev_parents e)"] exI [of _ "JObj (ev_payload e)"])
    (auto simp: new_row_def event_to_record_def Let_def clock_json_def strs_json_def list_all_iff case_prod_unfold comp_def)


end
