(* ===== verification/Spec2Isabelle.thy ===== *)
theory Spec2Isabelle
  imports Agreement StorageProps Cli
begin

text \<open>
  Verification of MDRJ-DAG (\<open>src/mdrj\<close>), a distributed registry of security events: nodes exchange
  signed events over HTTP gossip, keep them as a directed acyclic graph in SQLite, order them with a
  hashgraph-style consensus, and protect the history with checkpoints signed by a quorum.

  \<^bold>\<open>The parts and how they interact.\<close> A node (\<open>node.py\<close>) emits an event with up to two parents and a vector
  clock, stores it (\<open>storage.py\<close>), recomputes the consensus columns (\<open>consensus.py\<close>) and hands the
  identifier to the gossip engine (\<open>gossip.py\<close>), which plans batches (\<open>prioritization.py\<close>) and sends them to
  approved peers; class A events are sent at once and acknowledged by a fraction of the peers.
  A receiving node ingests the envelopes, which carry the hops they took; the hops are the observations
  from which consensus timestamps are computed. Frontier synchronisation repairs gaps. Checkpoints
  (\<open>checkpoint.py\<close>) fix a digest of everything up to a round; confirmed ones allow pruning and are
  verified periodically. Collectors (\<open>collectors/\<close>, \<open>linux_ingest.py\<close>) watch the host and report events of the kinds in the
  catalogue (\<open>event_catalog.py\<close>), as far as the collection policy lets them; some are passed to notification channels
  (\<open>notifier.py\<close>) or, on an agent, to a central node (\<open>agent_relay.py\<close>). Peers come from the configuration (\<open>config.py\<close>) or
  from discovery (\<open>discovery.py\<close>). The HTTP interface (\<open>api.py\<close>) serves peers and users, who log in
  (\<open>auth.py\<close>); \<open>metrics.py\<close> and \<open>prometheus_extras.py\<close> observe.

  \<^bold>\<open>Theories and the code they model.\<close>
  \<^item> \<open>Prelude\<close>: Python's dictionaries (insertion-ordered association lists, locale \<open>dictionary\<close>), text
    helpers, errors as \<open>py_error + 'a\<close>, counting lemmas for quorums (locales \<open>quorum_counting\<close>,
    \<open>supermajority_counting\<close>), reachability and the locale \<open>invariant_system\<close>.
  \<^item> \<open>Json\<close>: \<open>json.dumps\<close> and \<open>json.loads\<close> as printer and parser, with the round trip. \<open>Conversions\<close>,
    \<open>Base64\<close>: \<open>int\<close>, \<open>str\<close> and base64.
  \<^item> \<open>Utils\<close> (\<open>utils.py\<close>), \<open>VectorClock\<close> (\<open>vectorclock.py\<close>), \<open>Models\<close> (\<open>models.py\<close>): identifiers and
    signatures, clocks as the join-semilattice of counters, events and envelopes with their dictionary,
    wire and row forms.
  \<^item> \<open>Toposort\<close>, \<open>Storage\<close>, \<open>StorageProps\<close> (\<open>storage.py\<close>): the tables as the record \<open>db\<close> and each
    statement as a function on it.
  \<^item> \<open>Consensus\<close> (\<open>consensus.py\<close>) with \<open>Visibility\<close> (ancestor search, caches, recursion limit; locale
    \<open>visibility_oracle\<close>), \<open>Rounds\<close>, \<open>Fame\<close>, \<open>Ordering\<close> and \<open>Agreement\<close>: the code's memoised computation
    refines a cache-free specification, and what that specification guarantees.
  \<^item> \<open>Prioritization\<close>, \<open>Gossip\<close>, \<open>Metrics\<close>, \<open>Checkpoint\<close>, \<open>Auth\<close>: the modules of these names.
  \<^item> \<open>Node\<close>, \<open>NodePeers\<close>, \<open>NodeConsensus\<close>, \<open>NodeEvents\<close>, \<open>NodeCheckpoints\<close>, \<open>NodeLifecycle\<close>
    (\<open>node.py\<close>): construction, registry and users; the admission gate; recomputation and the digest;
    emission, ingestion and replication; checkpoints, verification and retention; genesis, start and stop,
    clearing, frontier synchronisation.
  \<^item> \<open>Catalog\<close> (\<open>event_catalog.py\<close>), \<open>Config\<close> (\<open>config.py\<close>), \<open>Discovery\<close> (\<open>discovery.py\<close>), \<open>Notifier\<close> (\<open>notifier.py\<close>,
    \<open>agent_relay.py\<close>): kinds of events and the collection policy, the configuration document, how peers are found,
    the channels.
  \<^item> \<open>Collectors\<close>, \<open>Journald\<close> (\<open>collectors/\<close>), \<open>LoginBursts\<close>, \<open>LinuxIngest\<close> (\<open>linux_ingest.py\<close>, \<open>collectors/linux_auth.py\<close>): what
    each collector reports at a poll; the log reader and its matchers.
  \<^item> \<open>Supervision\<close>, \<open>Reporting\<close> (\<open>node.py\<close>, \<open>simulation.py\<close>): the node together with its collectors, catalogue, relay
    and notifier (the record \<open>supervisor\<close>); locale \<open>collector\<close> for what a pass needs of a collector; policy changes, hourly
    reports, the consensus monitor, simulation and status.
  \<^item> \<open>Prometheus\<close> (\<open>prometheus_extras.py\<close>), \<open>Gate\<close>, \<open>Api\<close> (\<open>api.py\<close>): metrics as text; middlewares and routes; the handlers.
    \<open>Cli\<close> (\<open>cli.py\<close>): the requests of the commands, users in the database of a stopped node, verification of archives. This theory composes them: a policy change from the request to the event in the graph.

  \<^bold>\<open>Conventions.\<close> Strings are lists of characters with code points up to 255; floats are rational
  numbers, so rounding is not modelled; integers are unbounded as in Python. A dictionary whose order can be
  observed is an association list. A stateful operation is \<open>('s, 'a) op\<close>, a function from a state to a
  result and a state: an exception is \<open>Inl\<close> and keeps the changes made before it, as in Python. What a
  program reads from outside is an argument: clocks, random choices, replies of peers, the order an SQL
  query leaves open, what the operating system reports (\<open>gossip_world\<close>, \<open>node_env\<close>, \<open>sync_world\<close>).
  SHA-256, HMAC, scrypt and the text of floats are fields or arguments (\<open>pylib\<close>, \<open>scrypt\<close>); no injectivity
  of hashes is assumed, conclusions name the texts that would have to collide. Awaiting coroutines are
  run in the order of the code; background tasks it creates are recorded in the state.

  \<^bold>\<open>What is shown.\<close> For consensus: the computation is total on topologically ordered events (recursion depth
  3 suffices, stated with the limit as an argument), equals the specification, gives equal results on nodes
  with equal events, never reverses a fame decision, and orders events totally. For storage: round trips,
  invariants of every reachable database, exact contracts of pruning and collection, termination and
  correctness of the topological sort. For gossip, replication and synchronisation: nothing queued is lost,
  what durable means, what a synchronisation achieves. For nodes: the admission gate, the content of
  emitted events, complete and idempotent ingestion, the outcome of recomputation on every database,
  the safety of the checkpoint ledger. For collection: which changes, log lines and bursts are reported, that every
  collected event is recorded or accounted for, that a policy change leaves evidence, that hourly reports cover
  consecutive windows. For the interface: who reaches a handler, what a login grants, that a
  peer's search for ancestors ends and is complete, that the text of the metrics can be read back, that the command line accepts what retention archives and notices changes. Some
  theorems show that the code does not do what it is meant to do: retention makes verification report tampering, a
  bad date stops ingestion, a \<open>HEAD\<close> request writes.

  \<^bold>\<open>Fuel and bounds.\<close> The ancestor search carries the interpreter's recursion limit and returns
  \<open>RecursionError\<close> when it is exceeded; parsing of JSON uses the length of the text as fuel, which the
  round-trip theorem shows to be enough. Other loops are structural or have a termination proof.

  \<^bold>\<open>Not modelled.\<close> Parsing of arguments and output of the command line, process start and signals; the HTML pages in \<open>api.py\<close>, 7,000 lines of string literals, which are arguments; the third-party
  packages for HTTP, YAML, mDNS and mail, whose answers are arguments; locks, threads and the waiting of the endless loops, of
  which a pass is modelled. Operations do not interleave inside a step. Russian titles and messages are outside the character range
  and are arguments or left out. \<open>TypeError\<close> also stands for \<open>AttributeError\<close> and for values of other types than annotated.
\<close>

section \<open>A policy change from the request to the graph\<close>

lemma forget_catalog [simp]: "su_catalog (ap_super (forget_expired t req a)) = su_catalog (ap_super a)"
  "su_config (ap_super (forget_expired t req a)) = su_config (ap_super a)"
  by (auto simp: forget_expired_def set_sessions_def Let_def split: option.splits)

lemma guarded_write:
  assumes "users_count (nd_db (ap_node a)) \<noteq> 0" "rq_path req \<notin> set AUTH_PUBLIC_PATHS" "rq_method req \<in> set WRITE_METHODS"
    and run: "guarded_handler L t0 t1 h req a = (Inr resp, a')"
  shows "\<exists>s. live_session t0 req a = Some s \<and> se_role s = ''admin'' \<and>
    (\<exists>a'' \<in> {a, forget_expired t1 req a}. h (req\<lparr>rq_session := Some s\<rparr>) a'' = (Inr resp, a'))"
proof -
  have get: "rq_method req \<noteq> ''GET''" using assms(3) by (auto simp: WRITE_METHODS_def)
  note closed = session_auth_closed [OF assms(1,2), of t0 "hmac_auth_middleware L t1 h"]
  obtain s where s: "live_session t0 req a = Some s"
    using run closed get by (cases "live_session t0 req a") (auto simp: guarded_handler_def access_def)
  have admin: "se_role s = ''admin''"
    using run closed s assms(3) by (auto simp: guarded_handler_def access_def split: if_splits)
  have "hmac_auth_middleware L t1 h (req\<lparr>rq_session := Some s\<rparr>) a = (Inr resp, a')"
    using run closed s admin by (simp add: guarded_handler_def access_def)
  then have "\<exists>a'' \<in> {a, forget_expired t1 (req\<lparr>rq_session := Some s\<rparr>) a}. h (req\<lparr>rq_session := Some s\<rparr>) a'' = (Inr resp, a')"
    by (auto simp: hmac_auth_middleware_def Let_def op_bind_def resolve_session_eq split: if_splits)
  moreover have "forget_expired t1 (req\<lparr>rq_session := Some s\<rparr>) a = forget_expired t1 req a" by (simp add: forget_expired_def)
  ultimately show ?thesis using s admin by auto
qed

lemma catalog_policy_run:
  assumes "handle_catalog_policy L W req a = (Inr resp, a')"
  shows "\<exists>body kind_text outcome. loads L (rq_body req) = Inr (JObj body) \<and> py_str L (dict_get body ''event_kind'' (JStr [])) = Inr kind_text \<and>
    set_collection_policy L (aw_env W) (aw_env2 W) (py_strip kind_text) (json_truthy (jget body ''enabled'')) (ap_super a) = (Inr outcome, ap_super a')"
proof -
  obtain j where j: "loads L (rq_body req) = Inr j"
    using assms by (auto simp: handle_catalog_policy_def handler_run split: sum.splits)
  obtain body where body: "j = JObj body"
    using assms j by (cases j) (auto simp: handle_catalog_policy_def handler_run)
  obtain kt where kt: "py_str L (dict_get body ''event_kind'' (JStr [])) = Inr kt"
    using assms j body by (auto simp: handle_catalog_policy_def handler_run split: sum.splits)
  obtain r s where set: "set_collection_policy L (aw_env W) (aw_env2 W) (py_strip kt) (json_truthy (jget body ''enabled'')) (ap_super a) = (r, s)"
    by fastforce
  show ?thesis
    using assms j body kt set
    by (auto simp: handle_catalog_policy_def handler_run Let_def on_super_def split: if_splits sum.splits py_error.splits)
qed

text \<open>
  C30: a policy change cannot be made silently through the interface. Once a user exists, a \<open>POST\<close> to \<open>/catalog/policy\<close> that is
  answered with success was made with an administrator's session, named a kind that is not protected, put the requested setting
  of that kind in force, and left in the graph an event of class A, identified by the hash of its content, that names the kind
  with its old and its new setting.
\<close>

theorem policy_request_evidenced:
  assumes "users_count (nd_db (ap_node a)) \<noteq> 0" "rq_method req = ''POST''" "rq_path req = ''/catalog/policy''"
    and run: "serve L W t0 t1 req a = (Inr resp, a')"
  shows "\<exists>s body kind_text kind enabled. live_session t0 req a = Some s \<and> se_role s = ''admin'' \<and>
    loads L (rq_body req) = Inr (JObj body) \<and> py_str L (dict_get body ''event_kind'' (JStr [])) = Inr kind_text \<and>
    kind = py_strip kind_text \<and> enabled = json_truthy (jget body ''enabled'') \<and> kind \<notin> set POLICY_PROTECTED_KINDS \<and>
    registry_enabled_for (su_catalog (ap_super a')) kind = enabled \<and>
    (\<exists>e :: event. ev_cls e = ClassA \<and> has_event (nd_db (ap_node a')) (ev_id e) \<and>
      ev_id e = compute_event_id L (event_header ClassA (ev_source e) (ev_ts_local e) (ev_vclock e) (ev_parents e)) (JObj (ev_payload e)) \<and>
      jget (ev_payload e) ''event_kind'' = JStr ''mdrj_collection_policy_changed'' \<and> jget (ev_payload e) ''changed_kind'' = JStr kind \<and>
      jget (ev_payload e) ''previous_enabled'' = JBool (registry_enabled_for (su_catalog (ap_super a)) kind) \<and>
      jget (ev_payload e) ''new_enabled'' = JBool enabled)"
proof -
  have facts: "''/catalog/policy'' \<notin> set AUTH_PUBLIC_PATHS" "''POST'' \<in> set WRITE_METHODS"
      "resolve_route True ''POST'' ''/catalog/policy'' = Inr (CatalogPolicy, [])" "isl (resolve_route False ''POST'' ''/catalog/policy'')"
    by code_simp+
  obtain s a'' where s: "live_session t0 req a = Some s" "se_role s = ''admin''" and a'': "a'' \<in> {a, forget_expired t1 req a}"
    and h: "app_handler L W (req\<lparr>rq_session := Some s\<rparr>) a'' = (Inr resp, a')"
    using guarded_write [of a req L t0 t1 "app_handler L W"] assms facts(1,2) unfolding serve_def by auto
  let ?req = "req\<lparr>rq_session := Some s, rq_match := []\<rparr>"
  have "cf_ui_enabled (su_config (ap_super a''))"
    using h facts(4) assms(2,3) by (cases "cf_ui_enabled (su_config (ap_super a''))") (auto simp: app_handler_def split: sum.splits)
  then have "handle_catalog_policy L W ?req a'' = (Inr resp, a')" using h facts(3) assms(2,3) by (simp add: app_handler_def)
  from catalog_policy_run [OF this] obtain body kind_text outcome where body: "loads L (rq_body req) = Inr (JObj body)"
    and kt: "py_str L (dict_get body ''event_kind'' (JStr [])) = Inr kind_text"
    and set: "set_collection_policy L (aw_env W) (aw_env2 W) (py_strip kind_text) (json_truthy (jget body ''enabled'')) (ap_super a'') = (Inr outcome, ap_super a')"
    by auto
  note ev = policy_change_evidenced [OF set]
  have same: "su_catalog (ap_super a'') = su_catalog (ap_super a)" using a'' by auto
  obtain e :: event where e: "ev_cls e = ClassA" "has_event (nd_db (ap_node a')) (ev_id e)"
      "ev_payload e = policy_payload L (ap_node a'') (su_catalog (ap_super a')) (py_strip kind_text)
         (registry_enabled_for (su_catalog (ap_super a)) (py_strip kind_text)) (json_truthy (jget body ''enabled'')) (en_clock (aw_env W) 9)"
      "ev_id e = compute_event_id L (event_header ClassA (ev_source e) (ev_ts_local e) (ev_vclock e) (ev_parents e)) (JObj (ev_payload e))"
    using ev same by auto
  have "py_strip kind_text \<notin> set POLICY_PROTECTED_KINDS" using ev by auto
  moreover have "registry_enabled_for (su_catalog (ap_super a')) (py_strip kind_text) = json_truthy (jget body ''enabled'')" using ev by auto
  moreover have "jget (ev_payload e) ''event_kind'' = JStr ''mdrj_collection_policy_changed''"
      "jget (ev_payload e) ''changed_kind'' = JStr (py_strip kind_text)"
      "jget (ev_payload e) ''previous_enabled'' = JBool (registry_enabled_for (su_catalog (ap_super a)) (py_strip kind_text))"
      "jget (ev_payload e) ''new_enabled'' = JBool (json_truthy (jget body ''enabled''))"
    unfolding e(3) policy_payload_def by (simp_all add: jget_def dict_get_def)
  ultimately show ?thesis using s body kt e(1,2,4) by blast
qed

definition admin_app :: api where
  "admin_app = (let s = demo_supervisor True; n = su_node s in
     viewer_app\<lparr>ap_super := s\<lparr>su_node := (set_db ((nd_db n)\<lparr>t_users := [(''root'', \<lparr>us_password_hash = [], us_role = ''admin'', us_created_at = 0\<rparr>)]\<rparr>) n)
        \<lparr>nd_session_store := snd (session_create ''tok'' 0 ''root'' ''admin'' (session_store_init SESSION_TTL_SECONDS))\<rparr>\<rparr>\<rparr>)"

lemma admin_app_parts:
  "users_count (nd_db (ap_node admin_app)) \<noteq> 0" "lonely (ap_node admin_app)" "su_catalog (ap_super admin_app) = demo_catalog True"
  "cf_ui_enabled (su_config (ap_super admin_app))"
  "live_session 9 (viewer_request m p b) admin_app =
     Some \<lparr>se_token = ''tok'', se_username = ''root'', se_role = ''admin'', se_created_at = 0, se_expires_at = 28800\<rparr>"
proof -
  have role: "normalize_role (Some ''admin'') = ''admin''" by code_simp
  have ui: "cf_ui_enabled demo_file" by code_simp
  have node: "su_node (demo_supervisor True) = lonely_node" "su_config (demo_supervisor True) = demo_file"
      "su_catalog (demo_supervisor True) = demo_catalog True"
    by (simp_all add: demo_supervisor_def)
  show "users_count (nd_db (ap_node admin_app)) \<noteq> 0" by (simp add: admin_app_def Let_def set_db_def users_count_def)
  show "lonely (ap_node admin_app)"
    using lonely_parts [OF lonely_node] by (simp add: admin_app_def Let_def set_db_def node lonely_def)
  show "su_catalog (ap_super admin_app) = demo_catalog True" "cf_ui_enabled (su_config (ap_super admin_app))"
    using ui by (simp_all add: admin_app_def Let_def node)
  show "live_session 9 (viewer_request m p b) admin_app =
     Some \<lparr>se_token = ''tok'', se_username = ''root'', se_role = ''admin'', se_created_at = 0, se_expires_at = 28800\<rparr>"
    by (simp add: admin_app_def Let_def live_session_def viewer_request_def dict_get_def session_create_def session_store_init_def
      SESSION_TTL_SECONDS_def role)
qed

theorem policy_request_evidenced_witness:
  "\<exists>resp a'. serve demo_lib demo_world 9 9 (viewer_request ''POST'' ''/catalog/policy'' (dumps_default demo_lib
       (JObj [(''event_kind'', JStr ''iptables_rule_changed''), (''enabled'', JBool False)]))) admin_app = (Inr resp, a') \<and>
     \<not> registry_enabled_for (su_catalog (ap_super a')) ''iptables_rule_changed''"
proof -
  let ?k = "''iptables_rule_changed''"
  let ?body = "[(''event_kind'', JStr ?k), (''enabled'', JBool False)]"
  let ?req = "viewer_request ''POST'' ''/catalog/policy'' (dumps_default demo_lib (JObj ?body))"
  let ?s = "ap_super admin_app"
  let ?p = "policy_payload demo_lib (su_node ?s) (demo_catalog False) ?k True False (en_clock demo_env 9)"
  have eval: "loads demo_lib (dumps_default demo_lib (JObj ?body)) = Inr (JObj ?body)" "py_strip ?k = ?k"
      "''/catalog/policy'' \<notin> set AUTH_PUBLIC_PATHS" "resolve_route True ''POST'' ''/catalog/policy'' = Inr (CatalogPolicy, [])"
    by code_simp+
  have req: "rq_method ?req = ''POST''" "rq_path ?req = ''/catalog/policy''" "rq_body ?req = dumps_default demo_lib (JObj ?body)"
    by (simp_all add: viewer_request_def)
  have "wf_json (JObj ?p)" "dict_get ?p ''event_kind'' (JStr []) = JStr ''mdrj_collection_policy_changed''"
    by (simp_all add: policy_payload_def dict_get_def)
  then obtain em n' where emitted: "emit_event demo_lib demo_env demo_env ClassA ?p (su_node ?s) = (Inr em, n')"
    using lonely_emission [OF admin_app_parts(2)] by blast
  have cat: "is_known_event_kind (demo_catalog True) ?k" "registry_enabled_for (demo_catalog True) ?k" "?k \<notin> set POLICY_PROTECTED_KINDS"
    "set_registry_enabled ?k False (demo_catalog True) = (True, demo_catalog False)"
    by (simp_all add: demo_catalog_def is_known_event_kind_def registry_enabled_for_def metadata_enabled_def dict_get_def
      set_registry_enabled_def POLICY_PROTECTED_KINDS_def)
  have world: "aw_env demo_world = demo_env" "aw_env2 demo_world = demo_env" by (simp_all add: demo_world_def)
  obtain outcome s' where set: "set_collection_policy demo_lib demo_env demo_env ?k False ?s = (Inr outcome, s')"
    using emitted by (simp add: set_collection_policy_def cat admin_app_parts(3) op_simps on_node_def)
  have "serve demo_lib demo_world 9 9 ?req admin_app = app_handler demo_lib demo_world (?req\<lparr>rq_session := live_session 9 ?req admin_app\<rparr>) admin_app"
    using admin_app_parts(1) eval(3) by (simp add: serve_def guarded_grant admin_app_parts(5) req access_def)
  also have "\<dots> = (Inr (JsonResponse (JObj ((''status'', JStr ''ok'') # outcome))), admin_app\<lparr>ap_super := s'\<rparr>)"
    using set by (simp add: app_handler_def admin_app_parts(4) req eval(4) handle_catalog_policy_def handler_run eval(1,2) dict_get_def jget_def
      on_super_def world)
  finally have run: "serve demo_lib demo_world 9 9 ?req admin_app = (Inr (JsonResponse (JObj ((''status'', JStr ''ok'') # outcome))), admin_app\<lparr>ap_super := s'\<rparr>)" .
  from policy_request_evidenced [OF admin_app_parts(1) req(1,2) run] eval(1,2) run show ?thesis
    unfolding req by (auto simp: dict_get_def jget_def)
qed

end
